(* ===== verification/Gs_Prelude.thy ===== *)
theory Gs_Prelude
  imports Main "HOL-Library.Word" "HOL-Library.Sublist"
begin

text \<open>
  What every component of the emulator shares: the machine types of the source
  (\<open>std::uint8_t\<close>, \<open>std::uint16_t\<close>, \<open>std::uint32_t\<close>), bytes against characters
  (\<open>reinterpret_cast<const char*>\<close>), the \<open>std::expected\<close> chain \<open>and_then\<close>, the
  big-endian readers and writers, the reading of NUL-terminated strings, substring
  search, and generic lemmas on lists, words and permutations.  Binary protocols are lists
  of \<open>u8\<close>, text protocols are HOL strings.
\<close>

unbundle bit_operations_syntax

section \<open>Types and lemma collections\<close>

type_synonym u8 = "8 word"
type_synonym u16 = "16 word"
type_synonym u32 = "32 word"
type_synonym u64 = "64 word"
type_synonym bytes = "u8 list"

text \<open>
  \<open>byte_simps\<close>: conversions between characters, bytes and wider words;
  \<open>expected_simps\<close>: the \<open>and_then\<close> chain of a parser;
  \<open>scan_simps\<close>: reading delimited strings.
\<close>

named_theorems byte_simps
named_theorems expected_simps
named_theorems scan_simps

section \<open>Characters and bytes\<close>

definition byte_of :: "char \<Rightarrow> u8" where
  "byte_of c = of_char c"

definition char_of_byte :: "u8 \<Rightarrow> char" where
  "char_of_byte b = char_of (unat b)"

abbreviation bytes_of :: "string \<Rightarrow> bytes" where
  "bytes_of s \<equiv> map byte_of s"

abbreviation string_of :: "bytes \<Rightarrow> string" where
  "string_of bs \<equiv> map char_of_byte bs"

text \<open>The value of a \<open>char\<close> in an arithmetic expression: \<open>char\<close> is signed.\<close>

definition schar :: "char \<Rightarrow> int" where
  "schar c = sint (byte_of c)"

abbreviation NUL :: char where
  "NUL \<equiv> CHR 0x00"

lemma byte_of_eq: "byte_of c = word_of_nat (of_char c)"
  by (simp add: byte_of_def of_char_def)

lemma char_of_byte_of [simp]: "char_of_byte (byte_of c) = c"
proof -
  have "unat (word_of_nat (of_char c) :: u8) = of_char c"
    using of_char_mod_256 [of c, where 'a = nat] by (simp add: unat_of_nat)
  then show ?thesis by (simp add: char_of_byte_def byte_of_eq)
qed

lemma byte_of_char_of_byte [simp]: "byte_of (char_of_byte b) = b"
proof -
  have "unat b < 2 ^ LENGTH(8)" by (rule unsigned_less)
  then have "unat b mod 256 = unat b" by simp
  then have "(of_char (char_of (unat b)) :: nat) = unat b"
    by (simp only: of_char_of)
  then show ?thesis by (simp add: byte_of_eq char_of_byte_def)
qed

lemma byte_of_inject [simp]: "byte_of c = byte_of d \<longleftrightarrow> c = d"
  by (metis char_of_byte_of)

lemma char_of_byte_inject [simp]: "char_of_byte a = char_of_byte b \<longleftrightarrow> a = b"
  by (metis byte_of_char_of_byte)

lemma string_of_bytes_of [simp]: "string_of (bytes_of s) = s"
  by (induction s) simp_all

lemma bytes_of_string_of [simp]: "bytes_of (string_of bs) = bs"
  by (induction bs) simp_all

lemma char_of_byte_comp [simp]: "char_of_byte \<circ> byte_of = id"
  by (simp add: fun_eq_iff)

lemma byte_of_comp [simp]: "byte_of \<circ> char_of_byte = id"
  by (simp add: fun_eq_iff)

lemma byte_of_NUL [simp, byte_simps]: "byte_of NUL = 0"
  by (simp add: byte_of_def)

lemma char_of_byte_zero [simp, byte_simps]: "char_of_byte 0 = NUL"
  using char_of_byte_of [of NUL] by simp

lemma byte_of_eq_zero [simp]: "byte_of c = 0 \<longleftrightarrow> c = NUL"
  using byte_of_inject [of c NUL] by simp

lemma char_of_byte_eq_NUL [simp]: "char_of_byte b = NUL \<longleftrightarrow> b = 0"
  using char_of_byte_inject [of b 0] by simp

text \<open>Exclusive or on characters, as \<open>c ^= d\<close> on two \<open>char\<close>s does it.\<close>

definition xor_char :: "char \<Rightarrow> char \<Rightarrow> char" where
  "xor_char c d = char_of_byte (byte_of c XOR byte_of d)"

lemma xor_char_involution [simp]: "xor_char (xor_char c d) d = c"
  by (simp add: xor_char_def xor.assoc)

section \<open>The \<open>std::expected\<close> chain\<close>

definition and_then :: "'e + 'a \<Rightarrow> ('a \<Rightarrow> 'e + 'b) \<Rightarrow> 'e + 'b" where
  "and_then r f = (case r of Inl e \<Rightarrow> Inl e | Inr x \<Rightarrow> f x)"

lemma and_then_simps [simp, expected_simps]:
  "and_then (Inl e) f = Inl e"
  "and_then (Inr x) f = f x"
  by (simp_all add: and_then_def)

lemma and_then_eq_Inr: "and_then r f = Inr y \<longleftrightarrow> (\<exists>x. r = Inr x \<and> f x = Inr y)"
  by (cases r) simp_all

lemma and_then_cong [fundef_cong]:
  "r = r' \<Longrightarrow> (\<And>x. r' = Inr x \<Longrightarrow> f x = g x) \<Longrightarrow> and_then r f = and_then r' g"
  by (cases r') simp_all

section \<open>Big-endian integers\<close>

definition be16 :: "u16 \<Rightarrow> bytes" where
  "be16 w = [ucast (drop_bit 8 w), ucast w]"

definition be32 :: "u32 \<Rightarrow> bytes" where
  "be32 w = [ucast (drop_bit 24 w), ucast (drop_bit 16 w), ucast (drop_bit 8 w), ucast w]"

definition un_be16 :: "u8 \<Rightarrow> u8 \<Rightarrow> u16" where
  "un_be16 a b = push_bit 8 (ucast a) OR ucast b"

definition un_be32 :: "u8 \<Rightarrow> u8 \<Rightarrow> u8 \<Rightarrow> u8 \<Rightarrow> u32" where
  "un_be32 a b c d =
     push_bit 24 (ucast a) OR push_bit 16 (ucast b) OR push_bit 8 (ucast c) OR ucast d"

lemma length_be16 [simp]: "length (be16 w) = 2"
  by (simp add: be16_def)

lemma length_be32 [simp]: "length (be32 w) = 4"
  by (simp add: be32_def)

lemma un_be16_be16 [byte_simps]: "un_be16 (ucast (drop_bit 8 w)) (ucast w) = w"
  by (rule bit_word_eqI) (auto simp: un_be16_def bit_simps)

lemma un_be32_be32 [byte_simps]:
  "un_be32 (ucast (drop_bit 24 w)) (ucast (drop_bit 16 w)) (ucast (drop_bit 8 w)) (ucast w) = w"
proof (rule bit_word_eqI)
  fix n assume "n < LENGTH(32)"
  then consider "n < 8" | "8 \<le> n \<and> n < 16" | "16 \<le> n \<and> n < 24" | "24 \<le> n \<and> n < 32"
    by fastforce
  then show "bit (un_be32 (ucast (drop_bit 24 w)) (ucast (drop_bit 16 w))
      (ucast (drop_bit 8 w)) (ucast w)) n \<longleftrightarrow> bit w n"
    by cases (auto simp: un_be32_def bit_simps)
qed

lemma be16_un_be16 [byte_simps]: "be16 (un_be16 a b) = [a, b]"
  unfolding be16_def un_be16_def
  by (auto intro!: bit_word_eqI simp: bit_simps) (use bit_imp_le_length in fastforce)

section \<open>NUL-terminated strings in a byte buffer\<close>

text \<open>
  \<open>std::find(pos, end, '\0')\<close> followed by \<open>pos = strEnd + 1\<close>: the bytes before the first
  NUL and the bytes after it; \<open>None\<close> when the search reaches \<open>end\<close>.
\<close>

fun split_nul :: "bytes \<Rightarrow> (bytes \<times> bytes) option" where
  "split_nul [] = None"
| "split_nul (b # bs) =
     (if b = 0 then Some ([], bs)
      else map_option (\<lambda>(s, r). (b # s, r)) (split_nul bs))"

lemma split_nul_append [scan_simps]:
  "0 \<notin> set s \<Longrightarrow> split_nul (s @ 0 # r) = Some (s, r)"
  by (induction s) auto

lemma split_nul_Some: "split_nul bs = Some (s, r) \<longleftrightarrow> bs = s @ 0 # r \<and> 0 \<notin> set s"
proof
  show "split_nul bs = Some (s, r) \<Longrightarrow> bs = s @ 0 # r \<and> 0 \<notin> set s"
    by (induction bs arbitrary: s) (auto split: if_splits)
qed (auto simp: scan_simps)

lemma split_nul_None: "split_nul bs = None \<longleftrightarrow> 0 \<notin> set bs"
  by (induction bs) auto

lemma split_nul_length: "split_nul bs = Some (s, r) \<Longrightarrow> length r < length bs"
  by (auto simp: split_nul_Some)

lemma zero_in_byte_image [simp]: "0 \<in> byte_of ` S \<longleftrightarrow> NUL \<in> S"
  by (metis byte_of_NUL byte_of_eq_zero image_iff)

section \<open>Substring search\<close>

text \<open>\<open>std::string_view::find\<close>: the position of the first occurrence.\<close>

fun sv_find :: "'a list \<Rightarrow> 'a list \<Rightarrow> nat option" where
  "sv_find pat [] = (if pat = [] then Some 0 else None)"
| "sv_find pat (x # xs) =
     (if prefix pat (x # xs) then Some 0 else map_option Suc (sv_find pat xs))"

lemma sv_find_Some:
  "sv_find pat s = Some i \<Longrightarrow> i + length pat \<le> length s \<and> prefix pat (drop i s)"
proof (induction s arbitrary: i)
  case (Cons x xs)
  show ?case
  proof (cases "prefix pat (x # xs)")
    case True
    with Cons.prems have "i = 0" by simp
    with True show ?thesis using prefix_length_le [OF True] by simp
  next
    case False
    with Cons.prems obtain j where "sv_find pat xs = Some j" "i = Suc j" by auto
    with Cons.IH [of j] show ?thesis by simp
  qed
qed (auto split: if_splits)

lemma sv_find_first:
  "sv_find pat s = Some i \<Longrightarrow> j < i \<Longrightarrow> \<not> prefix pat (drop j s)"
proof (induction s arbitrary: i j)
  case (Cons x xs)
  then obtain k where k: "\<not> prefix pat (x # xs)" "sv_find pat xs = Some k" "i = Suc k"
    by (auto split: if_splits)
  with Cons show ?case by (cases j) auto
qed (auto split: if_splits)

lemma sv_find_None: "sv_find pat s = None \<longleftrightarrow> (\<forall>j \<le> length s. \<not> prefix pat (drop j s))"
proof (induction s)
  case (Cons x xs)
  have "(\<forall>j \<le> length (x # xs). \<not> prefix pat (drop j (x # xs))) \<longleftrightarrow>
    \<not> prefix pat (x # xs) \<and> (\<forall>j \<le> length xs. \<not> prefix pat (drop j xs))"
    by (auto simp: less_Suc_eq_le) (metis Suc_le_mono diff_is_0_eq drop_Cons' not0_implies_Suc
        drop0 drop_Suc_Cons)
  with Cons show ?case by auto
qed auto

lemma sv_find_eq:
  assumes "i \<le> length s" and "prefix pat (drop i s)" and "\<And>j. j < i \<Longrightarrow> \<not> prefix pat (drop j s)"
  shows "sv_find pat s = Some i"
proof (cases "sv_find pat s")
  case None
  with assms(1,2) show ?thesis by (simp add: sv_find_None)
next
  case (Some k)
  then have "\<not> k < i" using sv_find_Some assms(3) by blast
  moreover have "\<not> i < k" using sv_find_first [OF Some] assms(2) by blast
  ultimately show ?thesis using Some by simp
qed

lemma sv_find_prefix [scan_simps]: "prefix pat s \<Longrightarrow> sv_find pat s = Some 0"
  by (cases s) auto

section \<open>Exchanging two entries of an array\<close>

text \<open>\<open>std::swap(a[i], a[j])\<close> on an array indexed by an 8-bit value.\<close>

definition swap_at :: "('i \<Rightarrow> 'a) \<Rightarrow> 'i \<Rightarrow> 'i \<Rightarrow> 'i \<Rightarrow> 'a" where
  "swap_at f i j = f(i := f j, j := f i)"

lemma bij_swap_at: "bij f \<Longrightarrow> bij (swap_at f i j)"
proof -
  assume f: "bij f"
  have "swap_at f i j = f \<circ> (\<lambda>k. if k = i then j else if k = j then i else k)"
    by (auto simp: swap_at_def fun_eq_iff)
  moreover have "bij (\<lambda>k. if k = i then j else if k = j then i else k)"
    by (rule o_bij [of "\<lambda>k. if k = i then j else if k = j then i else k"])
      (auto simp: fun_eq_iff)
  ultimately show ?thesis using f by (simp add: bij_comp)
qed

end
