(* ===== verification/Exn_State.thy ===== *)
theory Exn_State
  imports Gs_Prelude
begin

text \<open>
  Stateful code that may throw: an operation takes the state and returns either the exception or
  its value, together with the state reached, which an exception does not roll back.  A coroutine
  is the sequence of its operations between two suspension points of interest.  \<open>preserves\<close>
  says that an operation keeps an invariant whether it returns or throws; its rules follow the
  structure of the code.
\<close>

section \<open>Exceptions\<close>

datatype exn =
    Runtime_error string
  | Overflow_error string
  | Length_error string
  | Out_of_range
  | Invalid_argument
  | Result_out_of_range
  | Bad_variant_access
  | Sqlite_error string
  | Undefined_behaviour
  | Terminate
  | No_return

type_synonym ('s, 'a) io = "'s \<Rightarrow> (exn + 'a) \<times> 's"

section \<open>Combinators\<close>

definition ret :: "'a \<Rightarrow> ('s, 'a) io" where
  "ret x = (\<lambda>s. (Inr x, s))"

definition throw :: "exn \<Rightarrow> ('s, 'a) io" where
  "throw e = (\<lambda>s. (Inl e, s))"

definition bind_io :: "('s, 'a) io \<Rightarrow> ('a \<Rightarrow> ('s, 'b) io) \<Rightarrow> ('s, 'b) io" where
  "bind_io m f = (\<lambda>s. case m s of (Inl e, s') \<Rightarrow> (Inl e, s') | (Inr x, s') \<Rightarrow> f x s')"

definition then_io :: "('s, 'a) io \<Rightarrow> ('s, 'b) io \<Rightarrow> ('s, 'b) io" where
  "then_io m n = bind_io m (\<lambda>_. n)"

definition gets :: "('s \<Rightarrow> 'a) \<Rightarrow> ('s, 'a) io" where
  "gets f = (\<lambda>s. (Inr (f s), s))"

definition modify :: "('s \<Rightarrow> 's) \<Rightarrow> ('s, unit) io" where
  "modify f = (\<lambda>s. (Inr (), f s))"

definition lift_exn :: "exn + 'a \<Rightarrow> ('s, 'a) io" where
  "lift_exn r = (\<lambda>s. (r, s))"

text \<open>
  \<open>try { m } catch (std::exception&) { }\<close>: the handlers of the source only log.  What is not a
  \<open>std::exception\<close>, undefined behaviour, \<open>std::terminate\<close> and a loop that never ends (\<open>No_return\<close>), is
  not caught.
\<close>

definition uncatchable :: "exn \<Rightarrow> bool" where
  "uncatchable e \<longleftrightarrow> e = Undefined_behaviour \<or> e = Terminate \<or> e = No_return"

definition try_log :: "('s, unit) io \<Rightarrow> ('s, unit) io" where
  "try_log m = (\<lambda>s. case m s of
     (Inl e, s') \<Rightarrow> (if uncatchable e then Inl e else Inr (), s')
   | (Inr x, s') \<Rightarrow> (Inr x, s'))"

text \<open>A range-based \<open>for\<close> over \<open>xs\<close> whose body may throw.\<close>

fun for_each :: "'a list \<Rightarrow> ('a \<Rightarrow> ('s, unit) io) \<Rightarrow> ('s, unit) io" where
  "for_each [] f = ret ()"
| "for_each (x # xs) f = then_io (f x) (for_each xs f)"

text \<open>An operation on a part of the state.\<close>

definition zoom :: "('s \<Rightarrow> 't) \<Rightarrow> ('t \<Rightarrow> 's \<Rightarrow> 's) \<Rightarrow> ('t, 'a) io \<Rightarrow> ('s, 'a) io" where
  "zoom get put m = (\<lambda>s. case m (get s) of (r, t) \<Rightarrow> (r, put t s))"

definition exec_io :: "('s, 'a) io \<Rightarrow> 's \<Rightarrow> 's" where
  "exec_io m s = snd (m s)"

named_theorems io_simps

lemma ret_simps [io_simps]: "ret x s = (Inr x, s)"
  by (simp add: ret_def)

lemma throw_simps [io_simps]: "throw e s = (Inl e, s)"
  by (simp add: throw_def)

lemma bind_io_simps [io_simps]:
  "m s = (Inr x, s') \<Longrightarrow> bind_io m f s = f x s'"
  "m s = (Inl e, s') \<Longrightarrow> bind_io m f s = (Inl e, s')"
  by (simp_all add: bind_io_def)

lemma then_io_simps [io_simps]:
  "m s = (Inr x, s') \<Longrightarrow> then_io m n s = n s'"
  "m s = (Inl e, s') \<Longrightarrow> then_io m n s = (Inl e, s')"
  by (simp_all add: then_io_def bind_io_def)

lemma gets_simps [io_simps]: "gets f s = (Inr (f s), s)"
  by (simp add: gets_def)

lemma modify_simps [io_simps]: "modify f s = (Inr (), f s)"
  by (simp add: modify_def)

lemma lift_exn_simps [io_simps]: "lift_exn r s = (r, s)"
  by (simp add: lift_exn_def)

lemma bind_io_cong [fundef_cong]:
  "m s = m' s \<Longrightarrow> (\<And>x s'. m' s = (Inr x, s') \<Longrightarrow> f x s' = f' x s') \<Longrightarrow> bind_io m f s = bind_io m' f' s"
  by (auto simp: bind_io_def split: prod.splits sum.splits)

lemma bind_io_Inr:
  "bind_io m f s = (Inr y, s'') \<longleftrightarrow> (\<exists>x s'. m s = (Inr x, s') \<and> f x s' = (Inr y, s''))"
  by (auto simp: bind_io_def split: prod.splits sum.splits)

lemma bind_io_assoc: "bind_io (bind_io m f) g = bind_io m (\<lambda>x. bind_io (f x) g)"
  by (rule ext) (auto simp: bind_io_def split: prod.splits sum.splits)

section \<open>Invariants\<close>

definition preserves :: "('s \<Rightarrow> bool) \<Rightarrow> ('s, 'a) io \<Rightarrow> bool" where
  "preserves I m \<longleftrightarrow> (\<forall>s. I s \<longrightarrow> I (snd (m s)))"

named_theorems preserves_intros

lemma preservesD: "preserves I m \<Longrightarrow> I s \<Longrightarrow> I (snd (m s))"
  by (simp add: preserves_def)

lemma preserves_ret [preserves_intros]: "preserves I (ret x)"
  by (simp add: preserves_def ret_def)

lemma preserves_throw [preserves_intros]: "preserves I (throw e)"
  by (simp add: preserves_def throw_def)

lemma preserves_gets [preserves_intros]: "preserves I (gets f)"
  by (simp add: preserves_def gets_def)

lemma preserves_lift_exn [preserves_intros]: "preserves I (lift_exn r)"
  by (simp add: preserves_def lift_exn_def)

lemma preserves_modify: "(\<And>s. I s \<Longrightarrow> I (f s)) \<Longrightarrow> preserves I (modify f)"
  by (simp add: preserves_def modify_def)

lemma preserves_bind [preserves_intros]:
  "preserves I m \<Longrightarrow> (\<And>x. preserves I (f x)) \<Longrightarrow> preserves I (bind_io m f)"
  unfolding preserves_def bind_io_def
  by (auto split: prod.splits sum.splits)

lemma preserves_then [preserves_intros]:
  "preserves I m \<Longrightarrow> preserves I n \<Longrightarrow> preserves I (then_io m n)"
  unfolding then_io_def by (rule preserves_bind)

lemma preserves_try [preserves_intros]: "preserves I m \<Longrightarrow> preserves I (try_log m)"
  unfolding preserves_def try_log_def by (auto split: prod.splits sum.splits)

lemma preserves_for_each [preserves_intros]:
  "(\<And>x. preserves I (f x)) \<Longrightarrow> preserves I (for_each xs f)"
  by (induction xs) (auto intro: preserves_intros)

lemma preserves_if [preserves_intros]:
  "(b \<Longrightarrow> preserves I m) \<Longrightarrow> (\<not> b \<Longrightarrow> preserves I n) \<Longrightarrow> preserves I (if b then m else n)"
  by simp

lemma preserves_case_option [preserves_intros]:
  "(x = None \<Longrightarrow> preserves I m) \<Longrightarrow> (\<And>y. x = Some y \<Longrightarrow> preserves I (f y)) \<Longrightarrow>
   preserves I (case x of None \<Rightarrow> m | Some y \<Rightarrow> f y)"
  by (cases x) simp_all

lemma preserves_zoom:
  "(\<And>s t. I s \<Longrightarrow> I (put t s)) \<Longrightarrow> preserves I (zoom get put m)"
  by (auto simp: preserves_def zoom_def split: prod.splits)


section \<open>Defined behaviour\<close>

text \<open>\<open>no_ub m s\<close>: run in \<open>s\<close>, the operation does not reach undefined behaviour.\<close>

definition no_ub :: "('s, 'a) io \<Rightarrow> 's \<Rightarrow> bool" where
  "no_ub m s \<longleftrightarrow> fst (m s) \<noteq> Inl Undefined_behaviour"

named_theorems no_ub_intros

lemma no_ub_simps [no_ub_intros]:
  "no_ub (ret x) s" "no_ub (gets f) t" "no_ub (modify g) u"
  by (simp_all add: no_ub_def ret_def gets_def modify_def)

lemma no_ub_throw [no_ub_intros]: "e \<noteq> Undefined_behaviour \<Longrightarrow> no_ub (throw e) s"
  by (simp add: no_ub_def throw_def)

lemma no_ub_lift_exn [no_ub_intros]: "r \<noteq> Inl Undefined_behaviour \<Longrightarrow> no_ub (lift_exn r) s"
  by (simp add: no_ub_def lift_exn_def)

lemma no_ub_bind [no_ub_intros]:
  "no_ub m s \<Longrightarrow> (\<And>x s'. m s = (Inr x, s') \<Longrightarrow> no_ub (f x) s') \<Longrightarrow> no_ub (bind_io m f) s"
  by (auto simp: no_ub_def bind_io_def split: prod.splits sum.splits)

lemma no_ub_then [no_ub_intros]:
  "no_ub m s \<Longrightarrow> (\<And>x s'. m s = (Inr x, s') \<Longrightarrow> no_ub n s') \<Longrightarrow> no_ub (then_io m n) s"
  unfolding then_io_def by (rule no_ub_bind)

lemma no_ub_if [no_ub_intros]:
  "(b \<Longrightarrow> no_ub m s) \<Longrightarrow> (\<not> b \<Longrightarrow> no_ub n s) \<Longrightarrow> no_ub (if b then m else n) s"
  by simp

lemma no_ub_case_option [no_ub_intros]:
  "(x = None \<Longrightarrow> no_ub m s) \<Longrightarrow> (\<And>y. x = Some y \<Longrightarrow> no_ub (f y) s) \<Longrightarrow>
   no_ub (case x of None \<Rightarrow> m | Some y \<Rightarrow> f y) s"
  by (cases x) simp_all


section \<open>Results\<close>

text \<open>\<open>yields P m\<close>: whenever the operation returns, its value satisfies \<open>P\<close>.\<close>

definition yields :: "('a \<Rightarrow> bool) \<Rightarrow> ('s, 'a) io \<Rightarrow> bool" where
  "yields P m \<longleftrightarrow> (\<forall>s x s'. m s = (Inr x, s') \<longrightarrow> P x)"

named_theorems yields_intros

lemma yieldsD: "yields P m \<Longrightarrow> m s = (Inr x, s') \<Longrightarrow> P x"
  by (auto simp: yields_def)

lemma yields_ret [yields_intros]: "P x \<Longrightarrow> yields P (ret x)"
  by (simp add: yields_def ret_def)

lemma yields_throw [yields_intros]: "yields P (throw e)"
  by (simp add: yields_def throw_def)

lemma yields_bind [yields_intros]: "(\<And>x. yields P (f x)) \<Longrightarrow> yields P (bind_io m f)"
  by (auto simp: yields_def bind_io_Inr)

lemma yields_if [yields_intros]:
  "(b \<Longrightarrow> yields P m) \<Longrightarrow> (\<not> b \<Longrightarrow> yields P n) \<Longrightarrow> yields P (if b then m else n)"
  by simp

lemma yields_case_option [yields_intros]:
  "(x = None \<Longrightarrow> yields P m) \<Longrightarrow> (\<And>y. x = Some y \<Longrightarrow> yields P (f y)) \<Longrightarrow>
   yields P (case x of None \<Rightarrow> m | Some y \<Rightarrow> f y)"
  by (cases x) simp_all


section \<open>Pre- and postconditions\<close>

text \<open>
  \<open>hoare P m Q E\<close>: run in a state with \<open>P\<close>, the operation ends with \<open>Q\<close> when it returns and with \<open>E\<close> when it throws.
\<close>

definition hoare :: "('s \<Rightarrow> bool) \<Rightarrow> ('s, 'a) io \<Rightarrow> ('a \<Rightarrow> 's \<Rightarrow> bool) \<Rightarrow> ('s \<Rightarrow> bool) \<Rightarrow> bool" where
  "hoare P m Q E \<longleftrightarrow> (\<forall>s. P s \<longrightarrow> (case m s of (Inr x, s') \<Rightarrow> Q x s' | (Inl e, s') \<Rightarrow> E s'))"

lemma hoareI: "(\<And>s x s'. P s \<Longrightarrow> m s = (Inr x, s') \<Longrightarrow> Q x s') \<Longrightarrow> (\<And>s e s'. P s \<Longrightarrow> m s = (Inl e, s') \<Longrightarrow> E s') \<Longrightarrow> hoare P m Q E"
  by (auto simp: hoare_def split: prod.splits sum.splits)

lemma hoareD: "hoare P m Q E \<Longrightarrow> P s \<Longrightarrow> case m s of (Inr x, s') \<Rightarrow> Q x s' | (Inl e, s') \<Rightarrow> E s'"
  by (simp add: hoare_def)

lemma hoare_bind: "hoare P m R E \<Longrightarrow> (\<And>x. hoare (R x) (f x) Q E) \<Longrightarrow> hoare P (bind_io m f) Q E"
  unfolding hoare_def bind_io_def by (fastforce split: prod.splits sum.splits)

lemma hoare_then: "hoare P m (\<lambda>_. R) E \<Longrightarrow> hoare R n Q E \<Longrightarrow> hoare P (then_io m n) Q E"
  unfolding then_io_def by (rule hoare_bind)

lemma hoare_ret: "(\<And>s. P s \<Longrightarrow> Q x s) \<Longrightarrow> hoare P (ret x) Q E"
  by (simp add: hoare_def ret_def)

lemma hoare_throw: "(\<And>s. P s \<Longrightarrow> E s) \<Longrightarrow> hoare P (throw e) Q E"
  by (simp add: hoare_def throw_def)

lemma hoare_gets: "(\<And>s. P s \<Longrightarrow> Q (f s) s) \<Longrightarrow> hoare P (gets f) Q E"
  by (simp add: hoare_def gets_def)

lemma hoare_modify: "(\<And>s. P s \<Longrightarrow> Q () (f s)) \<Longrightarrow> hoare P (modify f) Q E"
  by (simp add: hoare_def modify_def)

lemma hoare_if: "(b \<Longrightarrow> hoare P m Q E) \<Longrightarrow> (\<not> b \<Longrightarrow> hoare P n Q E) \<Longrightarrow> hoare P (if b then m else n) Q E"
  by simp

lemma hoare_option:
  "(x = None \<Longrightarrow> hoare P m Q E) \<Longrightarrow> (\<And>y. x = Some y \<Longrightarrow> hoare P (f y) Q E) \<Longrightarrow>
   hoare P (case x of None \<Rightarrow> m | Some y \<Rightarrow> f y) Q E"
  by (cases x) simp_all

lemma hoare_pre: "hoare P' m Q E \<Longrightarrow> (\<And>s. P s \<Longrightarrow> P' s) \<Longrightarrow> hoare P m Q E"
  by (simp add: hoare_def)

lemma hoare_post: "hoare P m Q' E \<Longrightarrow> (\<And>x s. Q' x s \<Longrightarrow> Q x s) \<Longrightarrow> hoare P m Q E"
  unfolding hoare_def by (fastforce split: prod.splits sum.splits)

lemma hoare_keep: "preserves P m \<Longrightarrow> (\<And>s. P s \<Longrightarrow> E s) \<Longrightarrow> hoare P m (\<lambda>_. P) E"
  unfolding hoare_def preserves_def by (auto split: prod.splits sum.splits)

end
