(* ===== verification/Sqlite_Wrapper.thy ===== *)
theory Sqlite_Wrapper
  imports Exn_State
begin

text \<open>
  The wrapper around the SQLite library (\<open>emulator/sqlite.h\<close>, \<open>emulator/sqlite.cpp\<close>).  The C
  functions it calls are the record \<open>sqlite3\<close> of functions on a database handle \<open>'d\<close> and a
  statement handle \<open>'s\<close>, a parameter of everything that reaches the database; the wrapper turns
  their status codes into exceptions.  \<open>sqlite::stmt\<close> never initialises its member \<open>m_DB\<close>, which
  its three stepping functions hand to \<open>sqlite3_errmsg\<close> when the library reports an error:
  that branch is \<open>Undefined_behaviour\<close>.
\<close>

section \<open>The C library\<close>

text \<open>\<open>enum auth_action\<close> with its codes; the library hands the number to the authorizers, which compare it with some of them.\<close>

datatype auth_action = Auth_create_index | Auth_create_table | Auth_create_temp_index | Auth_create_temp_table
  | Auth_create_temp_trigger | Auth_create_temp_view | Auth_create_trigger | Auth_create_view | Auth_delete
  | Auth_drop_index | Auth_drop_table | Auth_drop_temp_index | Auth_drop_temp_table | Auth_drop_temp_trigger
  | Auth_drop_temp_view | Auth_drop_trigger | Auth_drop_view | Auth_insert | Auth_pragma | Auth_read | Auth_select
  | Auth_transaction | Auth_update | Auth_attach | Auth_detach | Auth_alter_table | Auth_reindex | Auth_analyze
  | Auth_create_vtable | Auth_drop_vtable | Auth_function | Auth_savepoint | Auth_copy | Auth_recursive

primrec auth_code :: "auth_action \<Rightarrow> nat" where
  "auth_code Auth_create_index = 1"
| "auth_code Auth_create_table = 2"
| "auth_code Auth_create_temp_index = 3"
| "auth_code Auth_create_temp_table = 4"
| "auth_code Auth_create_temp_trigger = 5"
| "auth_code Auth_create_temp_view = 6"
| "auth_code Auth_create_trigger = 7"
| "auth_code Auth_create_view = 8"
| "auth_code Auth_delete = 9"
| "auth_code Auth_drop_index = 10"
| "auth_code Auth_drop_table = 11"
| "auth_code Auth_drop_temp_index = 12"
| "auth_code Auth_drop_temp_table = 13"
| "auth_code Auth_drop_temp_trigger = 14"
| "auth_code Auth_drop_temp_view = 15"
| "auth_code Auth_drop_trigger = 16"
| "auth_code Auth_drop_view = 17"
| "auth_code Auth_insert = 18"
| "auth_code Auth_pragma = 19"
| "auth_code Auth_read = 20"
| "auth_code Auth_select = 21"
| "auth_code Auth_transaction = 22"
| "auth_code Auth_update = 23"
| "auth_code Auth_attach = 24"
| "auth_code Auth_detach = 25"
| "auth_code Auth_alter_table = 26"
| "auth_code Auth_reindex = 27"
| "auth_code Auth_analyze = 28"
| "auth_code Auth_create_vtable = 29"
| "auth_code Auth_drop_vtable = 30"
| "auth_code Auth_function = 31"
| "auth_code Auth_savepoint = 32"
| "auth_code Auth_copy = 0"
| "auth_code Auth_recursive = 33"

abbreviation (input) "SQLITE_READ \<equiv> auth_code Auth_read"
abbreviation (input) "SQLITE_SELECT \<equiv> auth_code Auth_select"
abbreviation (input) "SQLITE_UPDATE \<equiv> auth_code Auth_update"
abbreviation (input) "SQLITE_ALTER_TABLE \<equiv> auth_code Auth_alter_table"
abbreviation (input) "SQLITE_FUNCTION \<equiv> auth_code Auth_function"

datatype auth_res = Auth_ok | Auth_deny | Auth_ignore

text \<open>\<open>m_Authorizer\<close>: action, two details, database name, trigger.\<close>

type_synonym authorizer = "nat \<Rightarrow> string \<Rightarrow> string \<Rightarrow> string \<Rightarrow> string \<Rightarrow> auth_res"

type_synonym c_authorizer =
  "nat \<Rightarrow> string option \<Rightarrow> string option \<Rightarrow> string option \<Rightarrow> string option \<Rightarrow> auth_res"

text \<open>Result codes: \<open>SQLITE_OK\<close> 0, \<open>SQLITE_ROW\<close> 100, \<open>SQLITE_DONE\<close> 101.\<close>

abbreviation (input) "SQLITE_OK \<equiv> (0 :: nat)"
abbreviation (input) "SQLITE_ROW \<equiv> (100 :: nat)"
abbreviation (input) "SQLITE_DONE \<equiv> (101 :: nat)"

record ('d, 's) sqlite3 =
  c_exec :: "string \<Rightarrow> 'd \<Rightarrow> nat \<times> 'd"
  c_set_authorizer :: "c_authorizer option \<Rightarrow> 'd \<Rightarrow> nat \<times> 'd"
  c_errmsg :: "'d \<Rightarrow> string"
  c_last_insert_rowid :: "'d \<Rightarrow> int"
  c_prepare :: "string \<Rightarrow> 'd \<Rightarrow> nat \<times> 's"
  c_bind_text :: "nat \<Rightarrow> string \<Rightarrow> 's \<Rightarrow> nat \<times> 's"
  c_bind_int :: "nat \<Rightarrow> int \<Rightarrow> 's \<Rightarrow> nat \<times> 's"
  c_step :: "'s \<Rightarrow> 'd \<Rightarrow> nat \<times> 's \<times> 'd"
  c_reset :: "'s \<Rightarrow> nat \<times> 's"
  c_column_text :: "nat \<Rightarrow> 's \<Rightarrow> string option"
  c_column_int64 :: "nat \<Rightarrow> 's \<Rightarrow> int"

section \<open>\<open>sqlite::db\<close>\<close>

definition db_exec :: "('d, 's) sqlite3 \<Rightarrow> string \<Rightarrow> ('d, unit) io" where
  "db_exec api sql = (\<lambda>d. case c_exec api sql d of
     (ec, d) \<Rightarrow> if ec \<noteq> SQLITE_OK then (Inl (Sqlite_error (c_errmsg api d)), d) else (Inr (), d))"

text \<open>A null detail reaches the authorizer as the empty string.\<close>

definition c_callback :: "authorizer \<Rightarrow> c_authorizer" where
  "c_callback auth = (\<lambda>action d1 d2 d3 d4.
     auth action (case_option '''' id d1) (case_option '''' id d2)
       (case_option '''' id d3) (case_option '''' id d4))"

definition set_authorizer :: "('d, 's) sqlite3 \<Rightarrow> authorizer option \<Rightarrow> ('d, unit) io" where
  "set_authorizer api auth = (\<lambda>d. case c_set_authorizer api (map_option c_callback auth) d of
     (ec, d) \<Rightarrow> if ec \<noteq> SQLITE_OK then (Inl (Sqlite_error (c_errmsg api d)), d) else (Inr (), d))"

text \<open>
  The scope of \<open>set_scoped_authorizer\<close>: the guard removes the authorizer however the scope is
  left; an exception out of its destructor terminates the program.
\<close>

definition scoped_authorizer ::
  "('d, 's) sqlite3 \<Rightarrow> authorizer \<Rightarrow> ('d, 'a) io \<Rightarrow> ('d, 'a) io"
where
  "scoped_authorizer api auth body =
     then_io (set_authorizer api (Some auth))
       (\<lambda>d. case body d of (r, d) \<Rightarrow>
          (case set_authorizer api None d of
             (Inl _, d) \<Rightarrow> (Inl Terminate, d)
           | (Inr _, d) \<Rightarrow> (r, d)))"

definition last_insert_rowid :: "('d, 's) sqlite3 \<Rightarrow> ('d, int) io" where
  "last_insert_rowid api = gets (c_last_insert_rowid api)"

section \<open>\<open>sqlite::stmt\<close>\<close>

definition int_max :: nat where
  "int_max = 2147483647"

definition stmt_prepare :: "('d, 's) sqlite3 \<Rightarrow> string \<Rightarrow> ('d, 's) io" where
  "stmt_prepare api sql = (\<lambda>d.
     if length sql > int_max then (Inl (Length_error ''sql query too large''), d)
     else case c_prepare api sql d of
       (rc, st) \<Rightarrow> if rc \<noteq> SQLITE_OK then (Inl (Sqlite_error (c_errmsg api d)), d) else (Inr st, d))"

text \<open>The values the code binds: text and 32- or 64-bit integers.\<close>

datatype sql_arg = Bind_text string | Bind_int int

definition bind_at :: "('d, 's) sqlite3 \<Rightarrow> nat \<Rightarrow> sql_arg \<Rightarrow> 's \<Rightarrow> exn + 's" where
  "bind_at api pos arg st =
     (if pos > int_max then Inl (Overflow_error ''column_at pos out of range'')
      else case arg of
        Bind_text str \<Rightarrow>
          if length str > int_max then Inl (Length_error ''string too large to bind'')
          else (case c_bind_text api pos str st of
            (ec, st) \<Rightarrow> if ec \<noteq> SQLITE_OK then Inl (Runtime_error ''Failed to bind text'') else Inr st)
      | Bind_int val \<Rightarrow>
          (case c_bind_int api pos val st of
            (ec, st) \<Rightarrow> if ec \<noteq> SQLITE_OK then Inl (Runtime_error ''Failed to bind int'') else Inr st))"

text \<open>\<open>bind<I>(t, r...)\<close>: the arguments in order, the first at position \<open>I + 1\<close>.\<close>

fun bind_all :: "('d, 's) sqlite3 \<Rightarrow> nat \<Rightarrow> sql_arg list \<Rightarrow> 's \<Rightarrow> exn + 's" where
  "bind_all api i [] st = Inr st"
| "bind_all api i (t # r) st = and_then (bind_at api (i + 1) t st) (bind_all api (i + 1) r)"

text \<open>The constructor \<open>stmt(db, sql, t...)\<close>.\<close>

definition stmt_make :: "('d, 's) sqlite3 \<Rightarrow> string \<Rightarrow> sql_arg list \<Rightarrow> ('d, 's) io" where
  "stmt_make api sql args =
     bind_io (stmt_prepare api sql) (\<lambda>st. lift_exn (bind_all api 0 args st))"

definition stmt_insert :: "('d, 's) sqlite3 \<Rightarrow> 's \<Rightarrow> ('d, 's) io" where
  "stmt_insert api st = (\<lambda>d. case c_step api st d of
     (ec, st, d) \<Rightarrow> if ec \<noteq> SQLITE_DONE then (Inl Undefined_behaviour, d) else (Inr st, d))"

definition stmt_update :: "('d, 's) sqlite3 \<Rightarrow> 's \<Rightarrow> ('d, 's) io" where
  "stmt_update api st = stmt_insert api st"

definition stmt_query :: "('d, 's) sqlite3 \<Rightarrow> 's \<Rightarrow> ('d, bool \<times> 's) io" where
  "stmt_query api st = (\<lambda>d. case c_step api st d of
     (ec, st, d) \<Rightarrow>
       if ec = SQLITE_ROW then (Inr (True, st), d)
       else if ec = SQLITE_DONE then (Inr (False, st), d)
       else (Inl Undefined_behaviour, d))"

definition stmt_reset :: "('d, 's) sqlite3 \<Rightarrow> 's \<Rightarrow> ('d, 's) io" where
  "stmt_reset api st = (\<lambda>d. case c_reset api st of
     (ec, st) \<Rightarrow> if ec \<noteq> SQLITE_OK then (Inl Undefined_behaviour, d) else (Inr st, d))"

text \<open>
  \<open>column_at<std::string>\<close> reads a null as the empty string; \<open>column_at<std::uint16_t>\<close> keeps the
  low 16 bits of the 32-bit column; \<open>column_at<std::time_t>\<close> reads the 64-bit column.  Positions are
  below the number of columns, so the range check never fires.
\<close>

definition column_text :: "('d, 's) sqlite3 \<Rightarrow> 's \<Rightarrow> nat \<Rightarrow> string" where
  "column_text api st pos = (case c_column_text api pos st of None \<Rightarrow> '''' | Some str \<Rightarrow> str)"

definition column_u16 :: "('d, 's) sqlite3 \<Rightarrow> 's \<Rightarrow> nat \<Rightarrow> u16" where
  "column_u16 api st pos = of_int (c_column_int64 api pos st)"

text \<open>\<open>column_at<std::uint64_t>\<close> and \<open>column_at<std::uint32_t>\<close> convert to the unsigned type.\<close>

definition column_u64 :: "('d, 's) sqlite3 \<Rightarrow> 's \<Rightarrow> nat \<Rightarrow> u64" where
  "column_u64 api st pos = of_int (c_column_int64 api pos st)"

definition column_u32 :: "('d, 's) sqlite3 \<Rightarrow> 's \<Rightarrow> nat \<Rightarrow> u32" where
  "column_u32 api st pos = of_int (c_column_int64 api pos st)"

definition column_time :: "('d, 's) sqlite3 \<Rightarrow> 's \<Rightarrow> nat \<Rightarrow> int" where
  "column_time api st pos = c_column_int64 api pos st"

section \<open>SQL texts\<close>

definition NL :: string where
  "NL = [CHR 0x0A]"

definition TAB :: "nat \<Rightarrow> string" where
  "TAB n = replicate n (CHR 0x09)"

section \<open>Placeholders\<close>

text \<open>
  \<open>stmt_format\<close> compares the number of question marks of a constant statement with the number of
  values bound to it when the program is compiled; a statement built at run time is not checked.
\<close>

definition placeholders :: "string \<Rightarrow> nat" where
  "placeholders sql = length (filter (\<lambda>c. c = CHR ''?'') sql)"

lemma placeholders_append [simp]: "placeholders (a @ b) = placeholders a + placeholders b"
  by (simp add: placeholders_def)

lemma placeholders_Nil [simp]: "placeholders [] = 0"
  by (simp add: placeholders_def)

lemma placeholders_Cons [simp]:
  "placeholders (c # s) = (if c = CHR ''?'' then 1 else 0) + placeholders s"
  by (simp add: placeholders_def)

lemma placeholders_concat: "placeholders (concat ss) = sum_list (map placeholders ss)"
  by (induction ss) simp_all

lemma placeholders_notin: "CHR ''?'' \<notin> set s \<Longrightarrow> placeholders s = 0"
  by (auto simp: placeholders_def filter_empty_conv)

end
