(* ===== verification/Std_Map.thy ===== *)
theory Std_Map
  imports Gs_Prelude "HOL-Library.List_Lexorder" "HOL-Library.Char_ord" "HOL-Library.Product_Lexorder"
begin

text \<open>
  \<open>std::map\<close>, the ordered dictionary of the source: the bindings in ascending key order,
  as its iteration visits them, with the operations the source calls (\<open>emplace\<close>,
  \<open>operator[]\<close>, \<open>erase\<close>, \<open>contains\<close>, \<open>find\<close>, \<open>at\<close>).  Strings are ordered as
  \<open>std::string_view\<close> orders them (by unsigned bytes), end points as pairs of address and port.
  The locale \<open>dictionary\<close> states what its clients rely on, and the model's operations
  interpret it.
\<close>

type_synonym ('k, 'v) std_map = "('k \<times> 'v) list"

section \<open>Operations\<close>

definition smap_find :: "('k, 'v) std_map \<Rightarrow> 'k \<Rightarrow> 'v option" where
  "smap_find m k = map_of m k"

definition smap_contains :: "('k, 'v) std_map \<Rightarrow> 'k \<Rightarrow> bool" where
  "smap_contains m k \<longleftrightarrow> smap_find m k \<noteq> None"

fun smap_insert :: "'k::linorder \<Rightarrow> 'v \<Rightarrow> ('k, 'v) std_map \<Rightarrow> ('k, 'v) std_map" where
  "smap_insert k v [] = [(k, v)]"
| "smap_insert k v ((k', v') # m) =
     (if k < k' then (k, v) # (k', v') # m
      else if k = k' then (k, v) # m
      else (k', v') # smap_insert k v m)"

text \<open>\<open>emplace\<close> leaves an existing binding alone; \<open>operator[]\<close> assigns over it.\<close>

definition smap_emplace :: "'k::linorder \<Rightarrow> 'v \<Rightarrow> ('k, 'v) std_map \<Rightarrow> ('k, 'v) std_map" where
  "smap_emplace k v m = (if smap_contains m k then m else smap_insert k v m)"

definition smap_assign :: "'k::linorder \<Rightarrow> 'v \<Rightarrow> ('k, 'v) std_map \<Rightarrow> ('k, 'v) std_map" where
  "smap_assign k v m = smap_insert k v m"

definition smap_erase :: "'k \<Rightarrow> ('k, 'v) std_map \<Rightarrow> ('k, 'v) std_map" where
  "smap_erase k m = filter (\<lambda>(k', _). k' \<noteq> k) m"

definition smap_ok :: "('k::linorder, 'v) std_map \<Rightarrow> bool" where
  "smap_ok m \<longleftrightarrow> sorted_wrt (<) (map fst m)"

section \<open>What a client of a dictionary relies on\<close>

locale dictionary =
  fixes empty :: "'m"
    and lookup :: "'m \<Rightarrow> 'k \<Rightarrow> 'v option"
    and emplace :: "'k \<Rightarrow> 'v \<Rightarrow> 'm \<Rightarrow> 'm"
    and assign :: "'k \<Rightarrow> 'v \<Rightarrow> 'm \<Rightarrow> 'm"
    and erase :: "'k \<Rightarrow> 'm \<Rightarrow> 'm"
    and invar :: "'m \<Rightarrow> bool"
  assumes lookup_empty: "lookup empty k = None"
    and lookup_emplace: "invar m \<Longrightarrow>
      lookup (emplace k v m) k' =
        (if k' = k then (case lookup m k of None \<Rightarrow> Some v | Some w \<Rightarrow> Some w) else lookup m k')"
    and lookup_assign: "invar m \<Longrightarrow>
      lookup (assign k v m) k' = (if k' = k then Some v else lookup m k')"
    and lookup_erase: "invar m \<Longrightarrow>
      lookup (erase k m) k' = (if k' = k then None else lookup m k')"
    and invar_empty: "invar empty"
    and invar_emplace: "invar m \<Longrightarrow> invar (emplace k v m)"
    and invar_assign: "invar m \<Longrightarrow> invar (assign k v m)"
    and invar_erase: "invar m \<Longrightarrow> invar (erase k m)"
begin

lemma dom_emplace: "invar m \<Longrightarrow> dom (lookup (emplace k v m)) = insert k (dom (lookup m))"
  by (auto simp: lookup_emplace split: if_splits option.splits)

lemma dom_assign: "invar m \<Longrightarrow> dom (lookup (assign k v m)) = insert k (dom (lookup m))"
  by (auto simp: lookup_assign split: if_splits)

lemma dom_erase: "invar m \<Longrightarrow> dom (lookup (erase k m)) = dom (lookup m) - {k}"
  by (auto simp: lookup_erase split: if_splits)

lemma emplace_present:
  "invar m \<Longrightarrow> lookup m k = Some w \<Longrightarrow> lookup (emplace k v m) = lookup m"
  by (rule ext) (simp add: lookup_emplace)

lemma emplace_absent:
  "invar m \<Longrightarrow> lookup m k = None \<Longrightarrow> lookup (emplace k v m) = (lookup m)(k \<mapsto> v)"
  by (rule ext) (simp add: lookup_emplace)

text \<open>A value of a dictionary after an operation was one before, or is the new one.\<close>

lemma lookup_emplace_cases:
  "invar m \<Longrightarrow> lookup (emplace k v m) k' = Some w \<Longrightarrow> lookup m k' = Some w \<or> k' = k \<and> w = v"
  by (auto simp: lookup_emplace split: if_splits option.splits)

lemma lookup_erase_Some:
  "invar m \<Longrightarrow> lookup (erase k m) k' = Some w \<Longrightarrow> lookup m k' = Some w \<and> k' \<noteq> k"
  by (simp add: lookup_erase split: if_splits)

end

section \<open>The ordered map implements it\<close>

lemma smap_find_Nil [simp]: "smap_find [] k = None"
  by (simp add: smap_find_def)

lemma smap_find_Cons [simp]:
  "smap_find ((k', v) # m) k = (if k = k' then Some v else smap_find m k)"
  by (simp add: smap_find_def)

lemma smap_ok_Nil [simp]: "smap_ok []"
  by (simp add: smap_ok_def)

lemma smap_ok_Cons [simp]:
  "smap_ok ((k, v) # m) \<longleftrightarrow> (\<forall>k' \<in> fst ` set m. k < k') \<and> smap_ok m"
  by (simp add: smap_ok_def)

lemma keys_smap_insert: "fst ` set (smap_insert k v m) = insert k (fst ` set m)"
  by (induction k v m rule: smap_insert.induct) auto

lemma smap_ok_insert: "smap_ok m \<Longrightarrow> smap_ok (smap_insert k v m)"
  by (induction k v m rule: smap_insert.induct) (auto simp: keys_smap_insert)

lemma smap_find_notin: "k \<notin> fst ` set m \<Longrightarrow> smap_find m k = None"
  by (simp add: smap_find_def map_of_eq_None_iff)

lemma smap_find_insert:
  "smap_ok m \<Longrightarrow> smap_find (smap_insert k v m) k' = (if k' = k then Some v else smap_find m k')"
  by (induction k v m rule: smap_insert.induct) auto

lemma smap_find_erase: "smap_find (smap_erase k m) k' = (if k' = k then None else smap_find m k')"
  by (induction m) (auto simp: smap_erase_def)

lemma smap_ok_erase: "smap_ok m \<Longrightarrow> smap_ok (smap_erase k m)"
  by (induction m) (auto simp: smap_erase_def)

interpretation smap: dictionary "[] :: ('k::linorder, 'v) std_map"
  smap_find smap_emplace smap_assign smap_erase smap_ok
proof unfold_locales
  fix m :: "('k, 'v) std_map" and k k' v
  assume ok: "smap_ok m"
  show "smap_find (smap_emplace k v m) k' =
      (if k' = k then case smap_find m k of None \<Rightarrow> Some v | Some w \<Rightarrow> Some w
       else smap_find m k')"
    using ok by (auto simp: smap_emplace_def smap_contains_def smap_find_insert)
  show "smap_ok (smap_emplace k v m)"
    using ok by (simp add: smap_emplace_def smap_ok_insert)
qed (simp_all add: smap_assign_def smap_find_insert smap_find_erase smap_ok_insert smap_ok_erase)

lemma smap_contains_iff: "smap_contains m k \<longleftrightarrow> (\<exists>v. smap_find m k = Some v)"
  by (auto simp: smap_contains_def)

text \<open>With ascending keys a binding is in the list exactly when it is looked up.\<close>

lemma smap_find_in_set: "smap_ok m \<Longrightarrow> smap_find m k = Some v \<longleftrightarrow> (k, v) \<in> set m"
proof (induction m)
  case (Cons b m)
  obtain k' v' where [simp]: "b = (k', v')" by (cases b)
  from Cons.prems have lt: "\<And>w. (k', w) \<notin> set m" by force
  with Cons show ?case by auto
qed simp

text \<open>A map built from pairs by \<open>emplace\<close> in order, as a \<open>std::from_range\<close> constructor does.\<close>

definition smap_of_list :: "('k::linorder \<times> 'v) list \<Rightarrow> ('k, 'v) std_map" where
  "smap_of_list kvs = foldl (\<lambda>m (k, v). smap_emplace k v m) [] kvs"

lemma smap_ok_foldl_emplace:
  "smap_ok m \<Longrightarrow> smap_ok (foldl (\<lambda>m (k, v). smap_emplace k v m) m kvs)"
  by (induction kvs arbitrary: m) (auto simp: smap.invar_emplace)

lemma smap_ok_of_list [simp]: "smap_ok (smap_of_list kvs)"
  by (simp add: smap_of_list_def smap_ok_foldl_emplace)

lemma smap_find_foldl_emplace:
  "smap_ok m \<Longrightarrow> smap_find (foldl (\<lambda>m (k, v). smap_emplace k v m) m kvs) k =
     (case smap_find m k of Some v \<Rightarrow> Some v | None \<Rightarrow> map_of kvs k)"
proof (induction kvs arbitrary: m)
  case (Cons b kvs)
  obtain k' v' where [simp]: "b = (k', v')" by (cases b)
  have "smap_ok (smap_emplace k' v' m)" using Cons.prems by (rule smap.invar_emplace)
  from Cons.IH [OF this] show ?case
    using Cons.prems by (auto simp: smap.lookup_emplace split: option.splits)
qed (simp split: option.splits)

lemma smap_find_of_list [simp]: "smap_find (smap_of_list kvs) k = map_of kvs k"
  by (simp add: smap_of_list_def smap_find_foldl_emplace)

end
