(* ===== verification/Text_Format.thy ===== *)
theory Text_Format
  imports Gs_Prelude
begin

text \<open>
  The text side of \<open>emulator/utils.cpp\<close>: \<open>value_for_key\<close> on the backslash-delimited packets of
  the GameSpy text protocols, \<open>parse_uint32\<close>, the packed dates, and what the source uses of the
  standard library for numbers in text (\<open>std::format\<close>, \<open>std::to_string\<close>, \<open>std::from_chars\<close>).
  Shown: reading a key agrees with a tokenised packet; printing and parsing numbers and dates
  are inverse.
\<close>

section \<open>Numbers as text\<close>

text \<open>\<open>std::format\<close> with \<open>{}\<close>, \<open>{:X}\<close>, \<open>{:x}\<close>: the digits of a number over an alphabet.\<close>

fun radix :: "string \<Rightarrow> nat \<Rightarrow> string" where
  "radix ds n =
     (if n < length ds \<or> length ds < 2 then [ds ! n]
      else radix ds (n div length ds) @ [ds ! (n mod length ds)])"

declare radix.simps [simp del]

definition dec :: "nat \<Rightarrow> string" where
  "dec n = radix ''0123456789'' n"

definition hex_upper :: "nat \<Rightarrow> string" where
  "hex_upper n = radix ''0123456789ABCDEF'' n"

definition hex_lower :: "nat \<Rightarrow> string" where
  "hex_lower n = radix ''0123456789abcdef'' n"

definition dec_int :: "int \<Rightarrow> string" where
  "dec_int i = (if i < 0 then CHR ''-'' # dec (nat (- i)) else dec (nat i))"

text \<open>A minimal width, filled on the left (with blanks, or zeros for \<open>{:08x}\<close>).\<close>

definition pad_left :: "nat \<Rightarrow> char \<Rightarrow> string \<Rightarrow> string" where
  "pad_left w c s = replicate (w - length s) c @ s"

section \<open>\<open>std::from_chars\<close>\<close>

datatype errc = Errc_Ok | Invalid_Argument | Result_Out_Of_Range

definition is_digit :: "char \<Rightarrow> bool" where
  "is_digit c \<longleftrightarrow> c \<in> set ''0123456789''"

definition digit_val :: "char \<Rightarrow> nat" where
  "digit_val c = of_char c - 48"

definition digits_val :: "string \<Rightarrow> nat" where
  "digits_val s = foldl (\<lambda>a c. 10 * a + digit_val c) 0 s"

text \<open>
  An unsigned number of \<open>bits\<close> bits in base 10: the text from the returned pointer on, the error
  code, and the content of the result variable, which keeps its old value unless the code is ok.
\<close>

definition from_chars :: "nat \<Rightarrow> string \<Rightarrow> nat \<Rightarrow> string \<times> errc \<times> nat" where
  "from_chars bits s old =
     (let ds = takeWhile is_digit s; ptr = dropWhile is_digit s
      in if ds = [] then (s, Invalid_Argument, old)
         else if digits_val ds < 2 ^ bits then (ptr, Errc_Ok, digits_val ds)
         else (ptr, Result_Out_Of_Range, old))"

text \<open>\<open>utils::parse_uint32\<close>: the whole text must be the number.\<close>

definition parse_uint32 :: "string \<Rightarrow> u32 option" where
  "parse_uint32 str =
     (let (ptr, ec, result) = from_chars 32 str 0
      in if ec \<noteq> Errc_Ok \<or> ptr \<noteq> [] then None else Some (of_nat result))"

section \<open>Keys and values\<close>

abbreviation BS :: char where
  "BS \<equiv> CHR 0x5C"

text \<open>The text \<open>\k\\<close> that introduces the value of key \<open>k\<close>.\<close>

definition key :: "string \<Rightarrow> string" where
  "key k = BS # k @ [BS]"

definition value_for_key :: "string \<Rightarrow> string \<Rightarrow> string option" where
  "value_for_key packet k =
     (case sv_find k packet of
        None \<Rightarrow> None
      | Some start \<Rightarrow>
          let start = start + length k;
              delim = k ! 0;
              val = takeWhile (\<lambda>c. c \<noteq> delim \<and> c \<noteq> NUL) (drop start packet);
              end_pos = start + length val
          in if end_pos = length packet then None else Some val)"

definition value_for_key_u32 :: "string \<Rightarrow> string \<Rightarrow> u32 option" where
  "value_for_key_u32 packet k =
     (case value_for_key packet k of
        None \<Rightarrow> None
      | Some v \<Rightarrow>
          let (ptr, ec, result) = from_chars 32 v 0
          in if ec \<noteq> Errc_Ok \<or> ptr \<noteq> [] then None else Some (of_nat result))"

section \<open>Letters\<close>

text \<open>\<open>::toupper\<close> in the C locale\<close>

definition toupper :: "char \<Rightarrow> char" where
  "toupper c = (if (97 :: nat) \<le> of_char c \<and> of_char c \<le> (122 :: nat) then char_of (of_char c - 32 :: nat) else c)"

text \<open>\<open>std::tolower\<close> in the C locale\<close>

definition tolower_char :: "char \<Rightarrow> char" where
  "tolower_char c = (if (65 :: nat) \<le> of_char c \<and> of_char c \<le> (90 :: nat) then char_of (of_char c + 32 :: nat) else c)"

lemma tolower_char_idem [simp]: "tolower_char (tolower_char c) = tolower_char c"
  by (cases c) (simp add: tolower_char_def)

section \<open>Packed dates\<close>

text \<open>
  A time point by its calendar date (\<open>std::chrono::year_month_day\<close>); \<open>sys_days\<close> and
  \<open>floor<days>\<close> convert between the two without loss on dates.
\<close>

record calendar_date =
  cd_year :: int
  cd_month :: nat
  cd_day :: nat

definition to_date :: "calendar_date \<Rightarrow> u32" where
  "to_date ymd =
     (let year = (if cd_year ymd < 0 then 2014 else cd_year ymd)
      in push_bit 24 (of_nat (cd_day ymd)) OR push_bit 16 (of_nat (cd_month ymd)) OR
         ucast (of_int year :: u16))"

definition from_date :: "u32 \<Rightarrow> calendar_date" where
  "from_date gs_date =
     \<lparr>cd_year = uint (gs_date AND 0xFFFF),
      cd_month = unat (drop_bit 16 (gs_date AND 0xFF0000)),
      cd_day = unat (drop_bit 24 (gs_date AND 0xFF000000))\<rparr>"

section \<open>Printing and parsing numbers\<close>

lemma radix_nonempty [simp]: "radix ds n \<noteq> []"
  by (subst radix.simps) simp

lemma set_radix: "2 \<le> length ds \<Longrightarrow> set (radix ds n) \<subseteq> set ds"
proof (induction ds n rule: radix.induct)
  case (1 ds n)
  have "ds ! (n mod length ds) \<in> set ds" using "1.prems" by (intro nth_mem mod_less_divisor) linarith
  with 1 show ?case by (subst radix.simps) (auto simp: nth_mem)
qed

lemma length_radix_le:
  "2 \<le> length ds \<Longrightarrow> n < length ds ^ k \<Longrightarrow> 0 < k \<Longrightarrow> length (radix ds n) \<le> k"
proof (induction ds n arbitrary: k rule: radix.induct)
  case (1 ds n)
  show ?case
  proof (cases "n < length ds")
    case True
    with "1.prems" show ?thesis by (subst radix.simps) simp
  next
    case False
    with "1.prems" have "1 < k"
      by (metis One_nat_def nat_less_le not_less_eq power_one_right less_one linorder_neqE_nat)
    then obtain j where k: "k = Suc j" "0 < j" by (cases k) auto
    have "n div length ds < length ds ^ j"
      using "1.prems" by (simp add: k less_mult_imp_div_less mult.commute)
    then have "length (radix ds (n div length ds)) \<le> j"
      using 1 False k by simp
    then show ?thesis using False k "1.prems" by (subst radix.simps) simp
  qed
qed

lemma length_pad_left: "length s \<le> w \<Longrightarrow> length (pad_left w c s) = w"
  by (simp add: pad_left_def)

lemma length_dec: "n < 10 ^ w \<Longrightarrow> 0 < w \<Longrightarrow> length (dec n) \<le> w"
proof -
  have "length ''0123456789'' = 10" by simp
  then show "n < 10 ^ w \<Longrightarrow> 0 < w \<Longrightarrow> length (dec n) \<le> w"
    using length_radix_le [of "''0123456789''" n w] unfolding dec_def by presburger
qed

lemma digit_val_nth: "k < 10 \<Longrightarrow> digit_val (''0123456789'' ! k) = k"
proof -
  assume "k < 10"
  then have "k = 0 \<or> k = 1 \<or> k = 2 \<or> k = 3 \<or> k = 4 \<or> k = 5 \<or> k = 6 \<or> k = 7 \<or> k = 8 \<or> k = 9"
    by presburger
  then show ?thesis by (elim disjE) (simp_all add: digit_val_def)
qed

lemma dec_nonempty [simp]: "dec n \<noteq> []"
  by (simp add: dec_def)

lemma digits_val_snoc [simp]: "digits_val (ds @ [c]) = 10 * digits_val ds + digit_val c"
  by (simp add: digits_val_def)

lemma dec_rec: "dec n = (if n < 10 then [''0123456789'' ! n] else dec (n div 10) @ [''0123456789'' ! (n mod 10)])"
  unfolding dec_def by (subst radix.simps) simp

lemma set_dec: "set (dec n) \<subseteq> set ''0123456789''"
  unfolding dec_def by (rule set_radix) simp

lemma list_all_digit_dec: "list_all is_digit (dec n)"
  unfolding list_all_iff is_digit_def using set_dec by blast

lemma digits_val_dec: "digits_val (dec n) = n"
proof (induction n rule: less_induct)
  case (less n)
  show ?case
  proof (cases "n < 10")
    case True
    then show ?thesis by (subst dec_rec) (simp add: digits_val_def digit_val_nth)
  next
    case False
    then have "digits_val (dec (n div 10)) = n div 10" by (intro less.IH) simp
    then show ?thesis using False by (subst dec_rec) (simp add: digit_val_nth)
  qed
qed

lemma from_chars_digits:
  assumes "list_all is_digit ds" and "ds \<noteq> []"
  shows "from_chars bits ds old =
    (if digits_val ds < 2 ^ bits then ([], Errc_Ok, digits_val ds)
     else ([], Result_Out_Of_Range, old))"
proof -
  have w: "takeWhile is_digit ds = ds" "dropWhile is_digit ds = []"
    using assms(1) by (simp_all add: list_all_iff takeWhile_eq_all_conv)
  show ?thesis using assms(2) by (simp add: from_chars_def w)
qed

lemma from_chars_dec:
  "n < 2 ^ bits \<Longrightarrow> from_chars bits (dec n) old = ([], Errc_Ok, n)"
  by (subst from_chars_digits) (simp_all add: list_all_digit_dec digits_val_dec)

lemma from_chars_complete:
  "from_chars bits s old = ([], Errc_Ok, v) \<longleftrightarrow>
     s \<noteq> [] \<and> list_all is_digit s \<and> digits_val s < 2 ^ bits \<and> v = digits_val s"
proof
  assume r: "from_chars bits s old = ([], Errc_Ok, v)"
  then have "dropWhile is_digit s = []"
    by (auto simp: from_chars_def Let_def split: if_splits)
  then have "list_all is_digit s" by (simp add: list_all_iff)
  moreover from r have "s \<noteq> []" by (auto simp: from_chars_def)
  ultimately show "s \<noteq> [] \<and> list_all is_digit s \<and> digits_val s < 2 ^ bits \<and> v = digits_val s"
    using r from_chars_digits [of s bits old] by (auto split: if_splits)
qed (auto simp: from_chars_digits)

lemma parse_uint32_Some:
  "parse_uint32 s = Some w \<longleftrightarrow>
     s \<noteq> [] \<and> list_all is_digit s \<and> digits_val s < 2 ^ 32 \<and> w = of_nat (digits_val s)"
proof -
  obtain ptr ec result where r: "from_chars 32 s 0 = (ptr, ec, result)"
    by (cases "from_chars 32 s 0")
  show ?thesis
  proof (cases "ec = Errc_Ok \<and> ptr = []")
    case True
    then show ?thesis
      using from_chars_complete [of 32 s 0 result] r by (auto simp: parse_uint32_def)
  next
    case False
    then have "\<not> (s \<noteq> [] \<and> list_all is_digit s \<and> digits_val s < 2 ^ 32)"
      using from_chars_digits [of s 32 0] r by auto
    with False r show ?thesis by (auto simp: parse_uint32_def)
  qed
qed

lemma parse_uint32_dec: "n < 2 ^ 32 \<Longrightarrow> parse_uint32 (dec n) = Some (of_nat n)"
  using list_all_digit_dec [of n] by (simp add: parse_uint32_Some digits_val_dec)

section \<open>Reading keys from a tokenised packet\<close>

text \<open>
  A packet as the protocol writes it: backslash-separated segments, closed by a backslash, and
  the value a key has in the segment list.
\<close>

fun packet_of :: "string list \<Rightarrow> string" where
  "packet_of [] = [BS]"
| "packet_of (s # ss) = BS # s @ packet_of ss"

fun segment_after :: "string \<Rightarrow> string list \<Rightarrow> string option" where
  "segment_after k (a # b # ss) = (if a = k then Some b else segment_after k (b # ss))"
| "segment_after k _ = None"

definition plain :: "string \<Rightarrow> bool" where
  "plain s \<longleftrightarrow> BS \<notin> set s \<and> NUL \<notin> set s"

lemma packet_of_BS: "\<exists>r. packet_of ss = BS # r"
  by (cases ss) auto

lemma prefix_delimited:
  "BS \<notin> set k \<Longrightarrow> BS \<notin> set a \<Longrightarrow> prefix (k @ [BS]) (a @ BS # r) \<longleftrightarrow> k = a"
proof (induction k arbitrary: a)
  case Nil
  then show ?case by (cases a) auto
next
  case (Cons c k)
  then show ?case by (cases a) auto
qed

lemma sv_find_skip:
  "BS \<notin> set a \<Longrightarrow> sv_find (BS # k) (a @ r) = map_option ((+) (length a)) (sv_find (BS # k) r)"
  by (induction a; cases "sv_find (BS # k) r") auto

lemma sv_find_packet:
  assumes "plain k" and "plain a"
  shows "sv_find (key k) (packet_of (a # ss)) =
     (if k = a then Some 0
      else map_option ((+) (Suc (length a))) (sv_find (key k) (packet_of ss)))"
proof -
  obtain r where r: "packet_of ss = BS # r" using packet_of_BS by blast
  have "prefix (key k) (packet_of (a # ss)) \<longleftrightarrow> k = a"
    using assms prefix_delimited [of k a r] by (simp add: key_def r plain_def)
  then show ?thesis
    using assms sv_find_skip [of a "k @ [BS]" "packet_of ss"]
    by (cases "sv_find (key k) (packet_of ss)") (auto simp: key_def plain_def)
qed

lemma length_packet_of_Cons: "length (packet_of (a # ss)) = Suc (length a + length (packet_of ss))"
  by simp

lemma drop_packet_of_Cons: "drop (Suc (length a + i)) (packet_of (a # ss)) = drop i (packet_of ss)"
  by simp

lemma key_nth_0 [simp]: "key k ! 0 = BS"
  by (simp add: key_def)

declare packet_of.simps(2) [simp del]

lemma value_for_key_packet_Cons:
  assumes "plain k" and "plain a" and "k \<noteq> a"
  shows "value_for_key (packet_of (a # ss)) (key k) = value_for_key (packet_of ss) (key k)"
proof (cases "sv_find (key k) (packet_of ss)")
  case (Some i)
  have "drop (Suc (length a + i) + length (key k)) (packet_of (a # ss)) =
      drop (i + length (key k)) (packet_of ss)"
    using drop_packet_of_Cons [of a "i + length (key k)" ss] by (simp add: add.assoc)
  with Some show ?thesis
    using assms by (simp add: value_for_key_def sv_find_packet Let_def length_packet_of_Cons)
qed (use assms in \<open>simp add: value_for_key_def sv_find_packet\<close>)

lemma value_for_key_packet_hit:
  assumes "plain k" and "\<forall>b \<in> set ss. plain b"
  shows "value_for_key (packet_of (k # ss)) (key k) = (case ss of [] \<Rightarrow> None | b # _ \<Rightarrow> Some b)"
proof (cases ss)
  case Nil
  then show ?thesis
    using assms by (simp add: value_for_key_def sv_find_packet) (simp add: key_def packet_of.simps)
next
  case (Cons b r)
  obtain x where x: "packet_of r = BS # x" using packet_of_BS by blast
  have d: "drop (length (key k)) (packet_of (k # ss)) = b @ BS # x"
    by (simp add: Cons key_def packet_of.simps x)
  have t: "takeWhile (\<lambda>c. c \<noteq> BS \<and> c \<noteq> NUL) (b @ BS # x) = b"
    using assms(2) by (subst takeWhile_append2) (auto simp: Cons plain_def)
  have "length (key k) + length b < length (packet_of (k # ss))"
    by (simp add: Cons key_def packet_of.simps x)
  then show ?thesis
    using assms sv_find_packet [OF assms(1,1), of ss] d t
    by (simp add: value_for_key_def Let_def Cons)
qed

lemma value_for_key_packet_Nil: "value_for_key (packet_of []) (key k) = None" "value_for_key [] (key k) = None"
  by (simp_all add: value_for_key_def key_def)

lemma value_for_key_packet_one:
  "plain k \<Longrightarrow> plain a \<Longrightarrow> value_for_key (packet_of [a]) (key k) = None"
  by (cases "a = k")
    (auto simp: value_for_key_packet_hit value_for_key_packet_Cons value_for_key_packet_Nil
      simp del: packet_of.simps)

lemma value_for_key_segments:
  "plain k \<Longrightarrow> \<forall>a \<in> set ss. plain a \<Longrightarrow> value_for_key (packet_of ss) (key k) = segment_after k ss"
proof (induction k ss rule: segment_after.induct)
  case (1 k a b ss)
  then show ?case
    by (cases "a = k") (auto simp: value_for_key_packet_hit value_for_key_packet_Cons)
qed (simp_all add: value_for_key_packet_one value_for_key_packet_Nil del: packet_of.simps)

section \<open>The value of a key, in general\<close>

lemma takeWhile_split:
  "takeWhile P xs = v \<and> v \<noteq> xs \<longleftrightarrow> (\<exists>d r. xs = v @ d # r \<and> \<not> P d \<and> (\<forall>c \<in> set v. P c))"
proof
  assume l: "takeWhile P xs = v \<and> v \<noteq> xs"
  then have "dropWhile P xs \<noteq> []" by (metis append_Nil2 takeWhile_dropWhile_id)
  then obtain d r where "dropWhile P xs = d # r" by (cases "dropWhile P xs") auto
  with l show "\<exists>d r. xs = v @ d # r \<and> \<not> P d \<and> (\<forall>c \<in> set v. P c)"
    by (metis dropWhile_eq_Cons_conv set_takeWhileD takeWhile_dropWhile_id)
next
  assume "\<exists>d r. xs = v @ d # r \<and> \<not> P d \<and> (\<forall>c \<in> set v. P c)"
  then show "takeWhile P xs = v \<and> v \<noteq> xs" by (auto simp: takeWhile_append)
qed

lemma value_for_key_at:
  assumes "sv_find k p = Some i"
  shows "value_for_key p k = Some v \<longleftrightarrow>
    (\<exists>d r. drop (i + length k) p = v @ d # r \<and> (d = k ! 0 \<or> d = NUL) \<and>
       (\<forall>c \<in> set v. c \<noteq> k ! 0 \<and> c \<noteq> NUL))"
proof -
  define xs where "xs = drop (i + length k) p"
  define P where "P = (\<lambda>c. c \<noteq> k ! 0 \<and> c \<noteq> NUL)"
  have lp: "length p = i + length k + length xs"
    using sv_find_Some [OF assms] by (simp add: xs_def)
  have "value_for_key p k = Some v \<longleftrightarrow> takeWhile P xs = v \<and> length v \<noteq> length xs"
    using assms lp by (auto simp: value_for_key_def Let_def xs_def [symmetric] P_def)
  also have "\<dots> \<longleftrightarrow> takeWhile P xs = v \<and> v \<noteq> xs"
    by (metis append_Nil2 append_eq_append_conv takeWhile_dropWhile_id)
  also have "\<dots> \<longleftrightarrow> (\<exists>d r. xs = v @ d # r \<and> \<not> P d \<and> (\<forall>c \<in> set v. P c))"
    by (rule takeWhile_split)
  finally show ?thesis by (auto simp: xs_def P_def)
qed

section \<open>Dates\<close>

lemma masks_u32:
  "(0xFFFF :: u32) = mask 16" "(0xFF0000 :: u32) = push_bit 16 (mask 8)"
  "(0xFF000000 :: u32) = push_bit 24 (mask 8)"
  by (simp_all add: mask_eq_exp_minus_1 push_bit_eq_mult)

lemma from_date_fields:
  "from_date w = \<lparr>cd_year = uint (ucast w :: u16), cd_month = unat (ucast (drop_bit 16 w) :: u8),
     cd_day = unat (ucast (drop_bit 24 w) :: u8)\<rparr>"
proof -
  have "w AND 0xFFFF = ucast (ucast w :: u16)"
    unfolding masks_u32 by (rule bit_word_eqI) (auto simp: bit_simps)
  moreover have "drop_bit 16 (w AND 0xFF0000) = ucast (ucast (drop_bit 16 w) :: u8)"
    unfolding masks_u32 by (rule bit_word_eqI) (auto simp: bit_simps)
  moreover have "drop_bit 24 (w AND 0xFF000000) = ucast (ucast (drop_bit 24 w) :: u8)"
    unfolding masks_u32 by (rule bit_word_eqI) (auto simp: bit_simps)
  ultimately show ?thesis
    by (simp add: from_date_def unsigned_ucast_eq unsigned_take_bit_eq)
qed

lemma pack_fields:
  fixes d m :: u8 and y :: u16
  defines "w \<equiv> push_bit 24 (ucast d) OR push_bit 16 (ucast m) OR ucast y :: u32"
  shows "(ucast w :: u16) = y" "(ucast (drop_bit 16 w) :: u8) = m" "(ucast (drop_bit 24 w) :: u8) = d"
proof -
  show "(ucast w :: u16) = y"
    unfolding w_def by (rule bit_word_eqI) (auto simp: bit_simps)
  have y: "\<not> bit y (16 + n)" for n using bit_imp_le_length [of y "16 + n"] by auto
  have y': "\<not> bit y (24 + n)" for n using bit_imp_le_length [of y "24 + n"] by auto
  have m: "\<not> bit m (8 + n)" for n using bit_imp_le_length [of m "8 + n"] by auto
  show "(ucast (drop_bit 16 w) :: u8) = m"
    unfolding w_def by (rule bit_word_eqI) (auto simp: bit_simps y)
  show "(ucast (drop_bit 24 w) :: u8) = d"
    unfolding w_def by (rule bit_word_eqI) (auto simp: bit_simps y' m)
qed

lemma unpack_fields:
  fixes w :: u32
  shows "push_bit 24 (ucast (ucast (drop_bit 24 w) :: u8)) OR
    push_bit 16 (ucast (ucast (drop_bit 16 w) :: u8)) OR ucast (ucast w :: u16) = w" (is "?l = w")
proof (rule bit_word_eqI)
  fix n assume "n < LENGTH(32)"
  then consider "n < 16" | "16 \<le> n \<and> n < 24" | "24 \<le> n \<and> n < 32"
    by fastforce
  then show "bit ?l n \<longleftrightarrow> bit w n" by cases (auto simp: bit_simps)
qed

lemma to_date_from_date: "to_date (from_date w) = w"
proof -
  have "of_nat (unat (x :: u8)) = (ucast x :: u32)" for x by (simp add: unsigned_word_eqI)
  moreover have "word_of_int (uint (y :: u16)) = y" for y by simp
  ultimately show ?thesis
    using unpack_fields [of w] by (simp add: to_date_def from_date_fields Let_def not_less)
qed

lemma from_date_to_date:
  assumes "0 \<le> cd_year ymd" "cd_year ymd < 2 ^ 16" "cd_month ymd < 256" "cd_day ymd < 256"
  shows "from_date (to_date ymd) = ymd"
proof -
  have small: "unat (of_nat k :: u8) = k" if "k < 256" for k
    using that by (simp add: unat_of_nat)
  have wide: "of_nat (unat (x :: u8)) = (ucast x :: u32)" for x
    by (simp add: unsigned_word_eqI)
  have nat8: "(of_nat k :: u32) = ucast (of_nat k :: u8)" if "k < 256" for k
    using wide [of "of_nat k"] small [OF that] by simp
  have year: "uint (word_of_int (cd_year ymd) :: u16) = cd_year ymd"
    using assms by (simp add: uint_word_of_int)
  show ?thesis
    using assms pack_fields nat8 [OF assms(3)] nat8 [OF assms(4)] small [OF assms(3)]
      small [OF assms(4)] year
    by (cases ymd) (simp add: to_date_def from_date_fields not_less)
qed

section \<open>Properties\<close>

text \<open>
  \<open>value_for_key\<close> returns \<open>v\<close> exactly when the packet has a first occurrence of the (non-empty)
  key directly followed by \<open>v\<close> and a terminator, which is the key's first character or NUL and
  which \<open>v\<close> does not contain; a value that runs to the end of the packet is not returned.
\<close>

theorem value_for_key_exact:
  assumes "k \<noteq> []"
  shows "value_for_key p k = Some v \<longleftrightarrow>
    (\<exists>pre d post. p = pre @ k @ v @ d # post \<and> (d = k ! 0 \<or> d = NUL) \<and>
       k ! 0 \<notin> set v \<and> NUL \<notin> set v \<and> sv_find k p = Some (length pre))"
proof
  assume v: "value_for_key p k = Some v"
  then obtain i where i: "sv_find k p = Some i"
    by (auto simp: value_for_key_def split: option.splits)
  then obtain r where r: "drop i p = k @ r" "i \<le> length p"
    using sv_find_Some [OF i] by (auto simp: prefix_def)
  have "drop (i + length k) p = r" using r by (metis add.commute append_eq_conv_conj drop_drop)
  moreover have "p = take i p @ k @ r" "length (take i p) = i"
    using r by (metis append_take_drop_id) (use r in simp)
  ultimately show "\<exists>pre d post. p = pre @ k @ v @ d # post \<and> (d = k ! 0 \<or> d = NUL) \<and>
       k ! 0 \<notin> set v \<and> NUL \<notin> set v \<and> sv_find k p = Some (length pre)"
    using v i unfolding value_for_key_at [OF i] by metis
next
  assume "\<exists>pre d post. p = pre @ k @ v @ d # post \<and> (d = k ! 0 \<or> d = NUL) \<and>
       k ! 0 \<notin> set v \<and> NUL \<notin> set v \<and> sv_find k p = Some (length pre)"
  then show "value_for_key p k = Some v" by (auto simp: value_for_key_at)
qed

theorem value_for_key_exact_witness:
  "\<exists>pre d post. key ''id'' @ ''7'' @ key ''final'' = pre @ key ''id'' @ ''7'' @ d # post \<and>
     sv_find (key ''id'') (key ''id'' @ ''7'' @ key ''final'') = Some (length pre)"
proof -
  have "value_for_key (key ''id'' @ ''7'' @ key ''final'') (key ''id'') = Some ''7''"
    by (simp add: value_for_key_def key_def)
  then show ?thesis
    using value_for_key_exact [of "key ''id''" "key ''id'' @ ''7'' @ key ''final''" "''7''"]
    by (auto simp: key_def)
qed

text \<open>
  On a packet written as backslash-separated segments without backslashes or NULs, looking
  up a key yields the segment after the first segment equal to it, and nothing if there is none
  or no segment follows: substring search and tokenised reading agree.
\<close>

theorem value_for_key_tokenised:
  assumes "plain k" and "\<forall>a \<in> set ss. plain a"
  shows "value_for_key (packet_of ss) (key k) = segment_after k ss"
  using assms by (rule value_for_key_segments)

theorem value_for_key_tokenised_witness:
  "value_for_key (packet_of [''login'', '''', ''user'', ''bob'', ''final'']) (key ''user'') = Some ''bob''"
  by (subst value_for_key_tokenised) (simp_all add: plain_def)

text \<open>
  \<open>parse_uint32\<close> accepts exactly the non-empty strings of decimal digits whose value fits in
  32 bits and returns that value; what the server prints for a 32-bit number parses back to it.
\<close>

theorem parse_uint32_exact:
  "(parse_uint32 s = Some w \<longleftrightarrow>
      s \<noteq> [] \<and> list_all is_digit s \<and> digits_val s < 2 ^ 32 \<and> w = of_nat (digits_val s)) \<and>
   parse_uint32 (dec (unat x)) = Some x"
proof
  have "unat x < 2 ^ 32" using unsigned_less [of x] by simp
  then show "parse_uint32 (dec (unat x)) = Some x" by (simp add: parse_uint32_dec)
qed (rule parse_uint32_Some)

text \<open>
  Packing and unpacking dates: every 32-bit GameSpy date survives unpacking and packing,
  and every calendar date whose year fits in 16 bits survives packing and unpacking.
\<close>

theorem date_roundtrip:
  assumes "0 \<le> cd_year ymd" and "cd_year ymd < 2 ^ 16" and "cd_month ymd < 256" and "cd_day ymd < 256"
  shows "from_date (to_date ymd) = ymd \<and> to_date (from_date w) = w"
  using assms by (simp add: from_date_to_date to_date_from_date)

theorem date_roundtrip_witness:
  "from_date (to_date \<lparr>cd_year = 2014, cd_month = 5, cd_day = 31\<rparr>) =
     \<lparr>cd_year = 2014, cd_month = 5, cd_day = 31\<rparr>"
  using date_roundtrip [of "\<lparr>cd_year = 2014, cd_month = 5, cd_day = 31\<rparr>"] by simp

end
