(* ===== verification/Game_Model.thy ===== *)
theory Game_Model
  imports Sqlite_Wrapper Std_Map Text_Format
begin

text \<open>
  A game and its server table (\<open>emulator/game.h\<close>, \<open>emulator/game.cpp\<close>, class \<open>Game\<close>): the
  registered keys, the statements it sends to its in-memory SQLite database, the authorizers that
  guard them, the master-server hash and the popular values.  The database is the handle \<open>'d\<close> of
  the C library \<open>sqlite3\<close>; the signals a game fires are recorded in \<open>fired\<close>.  Shown: the invariant
  of the key table, that no text of a server reaches the SQL of an insertion other than
  registered or valid column names, that the placeholders of the insertion and the bound values
  agree, and what happens to keys that are added on the fly.
\<close>

section \<open>Data\<close>

datatype send_type = as_string | as_byte | as_short

datatype store_type = as_integer | as_real | as_text

record game_key =
  key_name :: string
  key_send :: send_type
  key_store :: store_type
  key_type :: string
  key_label :: string
  key_description :: string

datatype availability = available | disabled_temporary | disabled_permanently

datatype missing_key_policy = ignore_missing | add_as_string

record game_data =
  gd_name :: string
  gd_secretKey :: string
  gd_queryPort :: u16
  gd_availability :: availability
  gd_backend :: u16
  gd_keys :: "game_key list"
  gd_missingKeyPolicy :: missing_key_policy

text \<open>
  \<open>ServerData<StringType>\<close>.  A \<open>Clock::time_point\<close> is its count of nanoseconds since the epoch.
\<close>

record server_data =
  last_update :: int
  public_ip :: string
  public_port :: u16
  private_ip :: string
  private_port :: u16
  icmp_ip :: string
  sv_data :: "(string, string) std_map"
  rules :: string

datatype game_signal = Server_added server_data | Server_removed string u16

text \<open>
  \<open>m_Params\<close> refers to the entries of \<open>m_Data.keys\<close>: a pointer is the index of its entry.
\<close>

record 'd game =
  m_DB :: 'd
  m_Data :: game_data
  m_Params :: "(string, nat) std_map"
  m_PopularValues :: "string list"
  fired :: "game_signal list"

definition gamespy_num_master_servers :: nat where
  "gamespy_num_master_servers = 20"

definition gamespy_max_registered_keys :: nat where
  "gamespy_max_registered_keys = 254"

definition gamespy_max_popular_values :: nat where
  "gamespy_max_popular_values = 255"

text \<open>The defaults of \<open>GameKey\<close>.\<close>

definition default_key :: "string \<Rightarrow> game_key" where
  "default_key name = \<lparr>key_name = name, key_send = as_string, key_store = as_text, key_type = '''',
     key_label = '''', key_description = ''''\<rparr>"

definition common_keys :: "game_key list" where
  "common_keys =
     map default_key [''country'', ''gamemode'', ''gametype'', ''gamever'', ''hostname'', ''mapname''] @
     [(default_key ''maxplayers'')\<lparr>key_send := as_byte, key_store := as_integer, key_type := ''integer''\<rparr>,
      (default_key ''numplayers'')\<lparr>key_send := as_byte, key_store := as_integer, key_type := ''integer''\<rparr>,
      (default_key ''password'')\<lparr>key_send := as_byte, key_store := as_integer, key_type := ''boolean''\<rparr>]"

section \<open>Construction, names and types of keys\<close>

definition game_ctor :: "'d \<Rightarrow> game_data \<Rightarrow> exn + 'd game" where
  "game_ctor db data =
     (if length (gd_keys data) > gamespy_max_registered_keys then Inl (Overflow_error ''too many keys'')
      else if gd_secretKey data = [] then Inl (Runtime_error ''secret key is empty'')
      else Inr \<lparr>m_DB = db, m_Data = data, m_Params = [], m_PopularValues = [], fired = []\<rparr>)"

text \<open>\<open>std::isalpha\<close>, \<open>std::isalnum\<close> and \<open>std::tolower\<close> in the C locale.\<close>

definition is_alpha :: "char \<Rightarrow> bool" where
  "is_alpha c \<longleftrightarrow> (CHR ''a'' \<le> c \<and> c \<le> CHR ''z'') \<or> (CHR ''A'' \<le> c \<and> c \<le> CHR ''Z'')"

definition is_alnum :: "char \<Rightarrow> bool" where
  "is_alnum c \<longleftrightarrow> is_alpha c \<or> is_digit c"

definition tolower :: "char \<Rightarrow> int" where
  "tolower c = (if CHR ''A'' \<le> c \<and> c \<le> CHR ''Z'' then schar c + 32 else schar c)"

definition IsValidParamName :: "string \<Rightarrow> bool" where
  "IsValidParamName paramName =
     (if paramName = [] then False
      else if prefix ''__'' paramName then False
      else if \<not> is_alpha (paramName ! 0) \<and> paramName ! 0 \<noteq> CHR ''_'' then False
      else list_all (\<lambda>c. is_alnum c \<or> c = CHR ''_'') paramName)"

definition master_server_hash :: "string \<Rightarrow> u32" where
  "master_server_hash name = foldl (\<lambda>hashcode c. hashcode * 0x9CCF9319 + of_int (tolower c)) 0 name"

definition GetMasterServer :: "'d game \<Rightarrow> string" where
  "GetMasterServer g =
     gd_name (m_Data g) @ ''.ms'' @
     dec (unat (master_server_hash (gd_name (m_Data g)) mod of_nat gamespy_num_master_servers)) @
     ''.gamespy.com''"

text \<open>Following the pointer a parameter maps to.\<close>

definition param_key :: "'d game \<Rightarrow> string \<Rightarrow> game_key option" where
  "param_key g keyName = map_option ((!) (gd_keys (m_Data g))) (smap_find (m_Params g) keyName)"

definition GetParamSendType :: "'d game \<Rightarrow> string \<Rightarrow> send_type" where
  "GetParamSendType g keyName =
     (case param_key g keyName of None \<Rightarrow> as_string | Some k \<Rightarrow> key_send k)"

definition GetParamStoreType :: "'d game \<Rightarrow> string \<Rightarrow> store_type" where
  "GetParamStoreType g keyName =
     (case param_key g keyName of None \<Rightarrow> as_text | Some k \<Rightarrow> key_store k)"

definition CheckPopularValueSize :: "nat \<Rightarrow> ('d game, unit) io" where
  "CheckPopularValueSize newSize =
     (if newSize > gamespy_max_popular_values then throw (Overflow_error ''too many popular values'')
      else ret ())"

definition SetPopularValues :: "string list \<Rightarrow> ('d game, unit) io" where
  "SetPopularValues vs =
     then_io (CheckPopularValueSize (length vs)) (modify (\<lambda>g. g\<lparr>m_PopularValues := vs\<rparr>))"

section \<open>The database of a game\<close>

definition on_db :: "('d, 'a) io \<Rightarrow> ('d game, 'a) io" where
  "on_db = zoom m_DB (\<lambda>d g. g\<lparr>m_DB := d\<rparr>)"

definition create_table_sql :: string where
  "create_table_sql =
     NL @ TAB 2 @ ''CREATE TABLE server('' @
     NL @ TAB 3 @ ''__last_update DATETIME DEFAULT (unixepoch()),'' @
     NL @ TAB 3 @ ''__public_ip TEXT NOT NULL,'' @
     NL @ TAB 3 @ ''__public_port INTEGER NOT NULL'' @ NL @ TAB 1"

definition create_end_sql :: string where
  "create_end_sql =
     NL @ TAB 3 @ '',PRIMARY KEY(__public_ip, __public_port)'' @
     NL @ TAB 2 @ '');'' @
     NL @ TAB 2 @ ''CREATE TRIGGER server_last_updated AFTER UPDATE ON server FOR EACH ROW'' @
     NL @ TAB 2 @ ''BEGIN'' @
     NL @ TAB 3 @ ''UPDATE server SET __last_update=(unixepoch()) WHERE rowid=NEW.rowid;'' @
     NL @ TAB 2 @ ''END;'' @ NL @ TAB 1"

definition column_sql :: "game_key \<Rightarrow> string" where
  "column_sql k = '','' @ key_name k @
     (case key_store k of
        as_text \<Rightarrow> '' TEXT''
      | as_real \<Rightarrow> '' REAL DEFAULT 0.00''
      | as_integer \<Rightarrow> '' INTEGER DEFAULT 0'')"

text \<open>The loop of \<open>Connect\<close> over the keys from index \<open>i\<close> on; it returns the columns.\<close>

fun register_keys :: "nat \<Rightarrow> game_key list \<Rightarrow> ('d game, string) io" where
  "register_keys i [] = ret ''''"
| "register_keys i (k # ks) =
     (if \<not> IsValidParamName (key_name k) then
        throw (Runtime_error (''parameter name '' @ key_name k @ '' is not allowed''))
      else
        then_io (modify (\<lambda>g. g\<lparr>m_Params := smap_emplace (key_name k) i (m_Params g)\<rparr>))
          (bind_io (register_keys (i + 1) ks) (\<lambda>sql. ret (column_sql k @ sql))))"

definition Connect :: "('d, 's) sqlite3 \<Rightarrow> ('d game, unit) io" where
  "Connect api =
     bind_io (gets (gd_keys \<circ> m_Data)) (\<lambda>keys.
     bind_io (register_keys 0 keys) (\<lambda>columns.
     on_db (db_exec api (create_table_sql @ columns @ create_end_sql))))"

section \<open>Adding and updating a server\<close>

text \<open>
  The loop over \<open>server.data\<close>: it gives the columns of the insertion, the columns to add and the
  values to insert, in the order of the map.
\<close>

fun collect_columns :: "'d game \<Rightarrow> (string \<times> string) list \<Rightarrow>
    exn + string list \<times> string list \<times> string list" where
  "collect_columns g [] = Inr ([], [], [])"
| "collect_columns g ((k, v) # data) =
     (if smap_contains (m_Params g) k then
        and_then (collect_columns g data)
          (\<lambda>(columns, toAdd, vals). Inr (k # columns, toAdd, v # vals))
      else if gd_missingKeyPolicy (m_Data g) = add_as_string then
        (if \<not> IsValidParamName k then Inl (Runtime_error (''illegal column name: '' @ k))
         else and_then (collect_columns g data)
           (\<lambda>(columns, toAdd, vals). Inr (columns, k # toAdd, vals)))
      else collect_columns g data)"

definition insert_sql :: "string list \<Rightarrow> nat \<Rightarrow> string" where
  "insert_sql columns vals =
     ''INSERT OR REPLACE INTO server (__public_ip, __public_port'' @
     concat (map (\<lambda>k. '','' @ k) columns) @
     '') VALUES(?,?'' @ concat (replicate vals '',?'') @ '')''"

definition add_columns_sql :: "string list \<Rightarrow> string" where
  "add_columns_sql toAdd =
     concat (map (\<lambda>c. ''ALTER TABLE server ADD COLUMN '' @ c @ '' TEXT DEFAULT '' @ [CHR 39, CHR 39] @ '';'') toAdd)"

definition columns_authorizer :: authorizer where
  "columns_authorizer action detail1 detail2 dbName trigger =
     (if action = SQLITE_ALTER_TABLE \<and> (detail1 = ''temp'' \<or> detail1 = ''main'') \<and> detail2 = ''server''
      then Auth_ok
      else if action = SQLITE_FUNCTION \<and>
        (detail2 = ''printf'' \<or> detail2 = ''substr'' \<or> detail2 = ''length'')
      then Auth_ok
      else if action = SQLITE_READ \<and>
        (detail1 = ''sqlite_temp_master'' \<or> detail1 = ''sqlite_master'') \<and>
        (detail2 = ''sql'' \<or> detail2 = ''temp'' \<or> detail2 = ''name'' \<or> detail2 = ''type'') \<and>
        (dbName = ''temp'' \<or> dbName = ''main'')
      then Auth_ok
      else if action = SQLITE_UPDATE \<and>
        (detail1 = ''sqlite_temp_master'' \<or> detail1 = ''sqlite_master'') \<and>
        detail2 = ''sql'' \<and> (dbName = ''temp'' \<or> dbName = ''main'')
      then Auth_ok
      else Auth_deny)"

text \<open>\<open>m_Data.keys.emplace_back(column)\<close> and the parameter that points to it.\<close>

definition register_column :: "string \<Rightarrow> 'd game \<Rightarrow> 'd game" where
  "register_column column g =
     g\<lparr>m_Data := (m_Data g)\<lparr>gd_keys := gd_keys (m_Data g) @ [default_key column]\<rparr>,
       m_Params := smap_emplace column (length (gd_keys (m_Data g))) (m_Params g)\<rparr>"

text \<open>The authorizer is in force until the end of the block that adds the columns.\<close>

definition add_missing_columns :: "('d, 's) sqlite3 \<Rightarrow> string list \<Rightarrow> ('d game, unit) io" where
  "add_missing_columns api toAdd =
     (if toAdd = [] then ret ()
      else then_io (on_db (scoped_authorizer api columns_authorizer (db_exec api (add_columns_sql toAdd))))
        (modify (fold register_column toAdd)))"

definition insert_args :: "server_data \<Rightarrow> string list \<Rightarrow> sql_arg list" where
  "insert_args server vals =
     Bind_text (public_ip server) # Bind_int (uint (public_port server)) # map Bind_text vals"

definition AddOrUpdateServer :: "('d, 's) sqlite3 \<Rightarrow> server_data \<Rightarrow> ('d game, unit) io" where
  "AddOrUpdateServer api server =
     (if public_ip server = [] \<or> public_port server = 0 then
        throw (Runtime_error ''server missing public_ip and/or public_port'')
      else
        bind_io (\<lambda>g. (collect_columns g (sv_data server), g)) (\<lambda>(columns, toAdd, vals).
        then_io (add_missing_columns api toAdd)
       (then_io (on_db
          (bind_io (stmt_prepare api (insert_sql columns (length vals))) (\<lambda>st.
           bind_io (lift_exn (bind_all api 0 (insert_args server vals) st)) (\<lambda>st.
           stmt_insert api st))))
          (modify (\<lambda>g. g\<lparr>fired := fired g @ [Server_added server]\<rparr>)))))"

section \<open>Querying and removing servers\<close>

definition retrieve_authorizer :: authorizer where
  "retrieve_authorizer action detail1 detail2 dbName trigger =
     (if action = SQLITE_READ \<and> detail1 = ''server'' \<and> (dbName = ''temp'' \<or> dbName = ''main'') then Auth_ok
      else if action = SQLITE_SELECT then Auth_ok
      else if action = SQLITE_FUNCTION \<and> detail2 = ''like'' then Auth_ok
      else Auth_deny)"

definition select_sql :: "string \<Rightarrow> string list \<Rightarrow> nat \<Rightarrow> nat \<Rightarrow> string" where
  "select_sql query fieldList limit skip =
     ''SELECT __last_update,__public_ip,__public_port'' @
     concat (map (\<lambda>f. '','' @ f) fieldList) @ '' FROM server'' @
     (if query \<noteq> [] then '' WHERE '' @ query else []) @
     '' LIMIT '' @ dec limit @
     (if skip \<noteq> 0 then '' OFFSET '' @ dec skip else [])"

definition from_time_t :: "int \<Rightarrow> int" where
  "from_time_t t = t * 1000000000"

text \<open>One row: the three leading columns and a value for every field, the first of repeated ones.\<close>

definition saved_server :: "('d, 's) sqlite3 \<Rightarrow> string list \<Rightarrow> 's \<Rightarrow> server_data" where
  "saved_server api fieldList st =
     \<lparr>last_update = from_time_t (column_time api st 0), public_ip = column_text api st 1,
      public_port = column_u16 api st 2, private_ip = '''', private_port = 0, icmp_ip = '''',
      sv_data = smap_of_list (map (\<lambda>(i, f). (f, column_text api st (i + 3))) (enumerate 0 fieldList)),
      rules = ''''\<rparr>"

text \<open>
  \<open>while (stmt.query())\<close> over at most \<open>n\<close> rows: the rows are collected until the statement is
  done; the statement has a \<open>LIMIT\<close>, which bounds the fuel.
\<close>

fun fetch_rows :: "('d, 's) sqlite3 \<Rightarrow> string list \<Rightarrow> nat \<Rightarrow> 's \<Rightarrow> ('d, server_data list option) io" where
  "fetch_rows api fieldList 0 st = ret None"
| "fetch_rows api fieldList (Suc n) st =
     bind_io (stmt_query api st) (\<lambda>(more, st).
       if \<not> more then ret (Some [])
       else bind_io (fetch_rows api fieldList n st) (\<lambda>servers.
         ret (map_option (\<lambda>servers. saved_server api fieldList st # servers) servers)))"

text \<open>
  A failing preparation is caught and logged, with no rows.  A failing step does not reach the
  handler (\<open>stmt_query\<close>).
\<close>

definition GetServers ::
  "('d, 's) sqlite3 \<Rightarrow> string \<Rightarrow> string list \<Rightarrow> nat \<Rightarrow> nat \<Rightarrow> ('d game, server_data list option) io"
where
  "GetServers api query fieldList limit skip =
     on_db (scoped_authorizer api retrieve_authorizer (\<lambda>d.
       case stmt_prepare api (select_sql query fieldList limit skip) d of
         (Inl e, d) \<Rightarrow> if uncatchable e then (Inl e, d) else (Inr (Some []), d)
       | (Inr st, d) \<Rightarrow> fetch_rows api fieldList (limit + 1) st d))"

definition delete_sql :: string where
  "delete_sql = ''DELETE FROM server WHERE __public_ip=? and __public_port=?''"

fun remove_loop :: "('d, 's) sqlite3 \<Rightarrow> (string \<times> u16) list \<Rightarrow> 's \<Rightarrow> ('d game, unit) io" where
  "remove_loop api [] st = ret ()"
| "remove_loop api ((ip, port) # servers) st =
     bind_io (on_db
       (bind_io (lift_exn (bind_all api 0 [Bind_text ip, Bind_int (uint port)] st)) (\<lambda>st.
        bind_io (stmt_update api st) (stmt_reset api)))) (\<lambda>st.
     then_io (modify (\<lambda>g. g\<lparr>fired := fired g @ [Server_removed ip port]\<rparr>))
       (remove_loop api servers st))"

definition RemoveServers :: "('d, 's) sqlite3 \<Rightarrow> (string \<times> u16) list \<Rightarrow> ('d game, unit) io" where
  "RemoveServers api servers =
     bind_io (on_db (stmt_prepare api delete_sql)) (remove_loop api servers)"

section \<open>The invariant of the key table\<close>

text \<open>
  The name of a game is fixed and its secret key is not empty; every parameter has a name that may stand in SQL and points to the key of that name; the
  popular values can be numbered by a byte.
\<close>

definition game_ok :: "string \<Rightarrow> 'd game \<Rightarrow> bool" where
  "game_ok n g \<longleftrightarrow> gd_name (m_Data g) = n \<and> gd_secretKey (m_Data g) \<noteq> [] \<and> smap_ok (m_Params g) \<and>
     (\<forall>k i. smap_find (m_Params g) k = Some i \<longrightarrow>
       i < length (gd_keys (m_Data g)) \<and> key_name (gd_keys (m_Data g) ! i) = k \<and> IsValidParamName k) \<and>
     length (m_PopularValues g) \<le> gamespy_max_popular_values"

lemma game_ok_on_db [preserves_intros]: "preserves (game_ok n) (on_db m)"
  unfolding on_db_def by (rule preserves_zoom) (simp add: game_ok_def)

lemma game_ok_fired [simp]: "game_ok n (g\<lparr>fired := f\<rparr>) = game_ok n g"
  by (simp add: game_ok_def)

lemma game_ok_emplace:
  assumes "game_ok n g" and "i < length (gd_keys (m_Data g))"
    and "key_name (gd_keys (m_Data g) ! i) = k" and "IsValidParamName k"
  shows "game_ok n (g\<lparr>m_Params := smap_emplace k i (m_Params g)\<rparr>)"
  using assms by (auto simp: game_ok_def smap.invar_emplace dest: smap.lookup_emplace_cases)

lemma game_ok_register_column:
  assumes "game_ok n g" and "IsValidParamName c"
  shows "game_ok n (register_column c g)"
proof -
  let ?g = "g\<lparr>m_Data := (m_Data g)\<lparr>gd_keys := gd_keys (m_Data g) @ [default_key c]\<rparr>\<rparr>"
  have "game_ok n ?g"
    using assms(1) by (auto simp: game_ok_def nth_append less_Suc_eq)
  then have "game_ok n (?g\<lparr>m_Params := smap_emplace c (length (gd_keys (m_Data g))) (m_Params ?g)\<rparr>)"
    by (rule game_ok_emplace) (use assms(2) in \<open>auto simp: default_key_def\<close>)
  then show ?thesis by (simp add: register_column_def)
qed

lemma game_ok_register_columns:
  "game_ok n g \<Longrightarrow> list_all IsValidParamName cs \<Longrightarrow> game_ok n (fold register_column cs g)"
  by (induction cs arbitrary: g) (simp_all add: game_ok_register_column)

section \<open>Connecting\<close>

lemma register_keys_ok:
  "game_ok n g \<Longrightarrow> drop i (gd_keys (m_Data g)) = ks \<Longrightarrow> game_ok n (snd (register_keys i ks g))"
proof (induction ks arbitrary: i g)
  case (Cons k ks)
  let ?g = "g\<lparr>m_Params := smap_emplace (key_name k) i (m_Params g)\<rparr>"
  from Cons.prems(2) have i: "i < length (gd_keys (m_Data g))" "gd_keys (m_Data g) ! i = k"
    "drop (Suc i) (gd_keys (m_Data g)) = ks"
    by (metis drop_eq_Nil list.distinct(1) not_le, metis list.sel(1) nth_via_drop,
        metis drop_Suc list.sel(3) tl_drop)
  show ?case
  proof (cases "IsValidParamName (key_name k)")
    case True
    then have "game_ok n ?g" using Cons.prems(1) i by (intro game_ok_emplace) auto
    then have "game_ok n (snd (register_keys (Suc i) ks ?g))" using Cons.IH i(3) by simp
    then show ?thesis
      using True by (auto simp: then_io_def bind_io_def modify_def ret_def split: prod.splits sum.splits)
  qed (simp add: Cons.prems throw_def)
qed (simp add: ret_def)

lemma Connect_ok: "preserves (game_ok n) (Connect api)"
proof (unfold preserves_def, intro allI impI)
  fix g :: "'a game"
  assume ok: "game_ok n g"
  let ?r = "register_keys 0 (gd_keys (m_Data g)) g"
  have r: "game_ok n (snd ?r)" using ok by (rule register_keys_ok) simp
  show "game_ok n (snd (Connect api g))"
  proof (cases "fst ?r")
    case (Inl e)
    then show ?thesis using r by (auto simp: Connect_def bind_io_def gets_def split: prod.splits)
  next
    case (Inr c)
    have "Connect api g = on_db (db_exec api (create_table_sql @ c @ create_end_sql)) (snd ?r)"
      using Inr by (auto simp: Connect_def bind_io_def gets_def split: prod.splits)
    then show ?thesis using preservesD [OF game_ok_on_db r] by metis
  qed
qed

lemma upt_step: "[i..<i + Suc n] = i # [Suc i..<Suc i + n]"
  by (simp add: upt_conv_Cons del: upt_Suc)

lemma register_keys_find:
  "smap_ok (m_Params g) \<Longrightarrow> register_keys i ks g = (Inr c, g') \<Longrightarrow>
   list_all (IsValidParamName \<circ> key_name) ks \<and> m_Data g' = m_Data g \<and>
   smap_find (m_Params g') k = (case smap_find (m_Params g) k of Some j \<Rightarrow> Some j
     | None \<Rightarrow> map_of (zip (map key_name ks) [i..<i + length ks]) k)"
proof (induction ks arbitrary: i g c)
  case (Cons x ks)
  let ?g = "g\<lparr>m_Params := smap_emplace (key_name x) i (m_Params g)\<rparr>"
  have valid: "IsValidParamName (key_name x)"
    using Cons.prems(2) by (auto simp: throw_def split: if_splits)
  then obtain c' where rest: "register_keys (Suc i) ks ?g = (Inr c', g')"
    using Cons.prems(2)
    by (auto simp: then_io_def bind_io_def modify_def ret_def split: prod.splits sum.splits)
  have "smap_ok (m_Params ?g)" using Cons.prems(1) by (simp add: smap.invar_emplace)
  from Cons.IH [OF this rest] valid show ?case
    using Cons.prems(1) upt_step [of i "length ks"]
    by (auto simp: smap.lookup_emplace simp del: upt_Suc split: option.splits)
qed (auto simp: ret_def split: option.splits)

lemma map_of_zip_find:
  "map_option ((!) (pre @ ks)) (map_of (zip (map key_name ks) [length pre..<length pre + length ks]) k) =
    List.find (\<lambda>x. key_name x = k) ks"
proof (induction ks arbitrary: pre)
  case (Cons x ks)
  from Cons [of "pre @ [x]"] show ?case
    using upt_step [of "length pre" "length ks"] by (simp del: upt_Suc)
qed simp

lemma Connect_params:
  assumes "Connect api g = (Inr (), g')" and "m_Params g = []"
  shows "list_all (IsValidParamName \<circ> key_name) (gd_keys (m_Data g)) \<and> m_Data g' = m_Data g \<and>
    param_key g' k = List.find (\<lambda>x. key_name x = k) (gd_keys (m_Data g))"
proof -
  obtain c g1 where g1: "register_keys 0 (gd_keys (m_Data g)) g = (Inr c, g1)"
    and g': "m_Params g' = m_Params g1" "m_Data g' = m_Data g1"
    using assms(1)
    by (auto simp: Connect_def bind_io_def gets_def on_db_def zoom_def split: prod.splits sum.splits)
  have "smap_ok (m_Params g)" using assms(2) by simp
  from register_keys_find [OF this g1, of k] show ?thesis
    using assms(2) g' map_of_zip_find [of "[]" "gd_keys (m_Data g)" k] by (simp add: param_key_def)
qed

section \<open>The insertion\<close>

lemma collect_columns_spec:
  assumes "collect_columns g data = Inr (columns, toAdd, vals)"
  shows "zip columns vals = filter (\<lambda>(k, v). smap_contains (m_Params g) k) data \<and>
    length columns = length vals \<and>
    list_all (smap_contains (m_Params g)) columns \<and>
    toAdd = (if gd_missingKeyPolicy (m_Data g) = add_as_string
             then map fst (filter (\<lambda>(k, v). \<not> smap_contains (m_Params g) k) data) else []) \<and>
    list_all IsValidParamName toAdd"
  using assms
proof (induction g data arbitrary: columns toAdd vals rule: collect_columns.induct)
  case (2 g k v data)
  then show ?case by (auto simp: and_then_eq_Inr split: if_splits)
qed simp

lemma valid_name_chars: "IsValidParamName k \<Longrightarrow> c \<in> set k \<Longrightarrow> is_alnum c \<or> c = CHR ''_''"
  by (auto simp: IsValidParamName_def list_all_iff split: if_splits)

lemma valid_name_placeholders: "IsValidParamName k \<Longrightarrow> placeholders k = 0"
proof -
  assume k: "IsValidParamName k"
  have "\<not> is_alnum (CHR ''?'')"
    by (simp add: is_alnum_def is_alpha_def is_digit_def less_eq_char_def)
  then have "CHR ''?'' \<notin> set k" using valid_name_chars [OF k] by auto
  then show ?thesis by (rule placeholders_notin)
qed

lemma placeholders_insert_sql:
  assumes "list_all IsValidParamName columns"
  shows "placeholders (insert_sql columns n) = 2 + n"
proof -
  have "placeholders (concat (map (\<lambda>k. '','' @ k) columns)) = 0"
    using assms by (induction columns) (simp_all add: valid_name_placeholders)
  moreover have "placeholders (concat (replicate n '',?'')) = n" by (induction n) simp_all
  ultimately show ?thesis by (simp add: insert_sql_def)
qed

lemma game_ok_contains: "game_ok n g \<Longrightarrow> smap_contains (m_Params g) k \<Longrightarrow> IsValidParamName k"
  by (auto simp: game_ok_def smap_contains_iff)

lemma add_missing_columns_ok:
  "list_all IsValidParamName toAdd \<Longrightarrow> preserves (game_ok n) (add_missing_columns api toAdd)"
  unfolding add_missing_columns_def
  by (intro preserves_intros preserves_modify game_ok_register_columns)

lemma AddOrUpdateServer_ok: "preserves (game_ok n) (AddOrUpdateServer api server)"
proof (unfold preserves_def, intro allI impI)
  fix g :: "'a game"
  assume ok: "game_ok n g"
  show "game_ok n (snd (AddOrUpdateServer api server g))"
  proof (cases "public_ip server = [] \<or> public_port server = 0")
    case False
    show ?thesis
    proof (cases "collect_columns g (sv_data server)")
      case (Inl e)
      then show ?thesis using False ok by (auto simp: AddOrUpdateServer_def bind_io_def)
    next
      case (Inr r)
      obtain columns toAdd vals where r [simp]: "r = (columns, toAdd, vals)" by (cases r)
      let ?rest = "then_io (add_missing_columns api toAdd)
       (then_io (on_db
          (bind_io (stmt_prepare api (insert_sql columns (length vals))) (\<lambda>st.
           bind_io (lift_exn (bind_all api 0 (insert_args server vals) st)) (\<lambda>st.
           stmt_insert api st))))
          (modify (\<lambda>g. g\<lparr>fired := fired g @ [Server_added server]\<rparr>)))"
      have "list_all IsValidParamName toAdd" using collect_columns_spec Inr r by blast
      then have "preserves (game_ok n) ?rest"
        by (intro preserves_intros add_missing_columns_ok preserves_modify) simp_all
      then have "game_ok n (snd (?rest g))" using ok by (rule preservesD)
      then show ?thesis using False Inr by (auto simp: AddOrUpdateServer_def bind_io_def)
    qed
  qed (simp add: AddOrUpdateServer_def throw_def ok)
qed

text \<open>A server that was stored has been announced.\<close>

lemma AddOrUpdateServer_fires:
  fixes g :: "'d game"
  assumes "AddOrUpdateServer api server g = (Inr u, g')"
  shows "fired g' = fired g @ [Server_added server]"
proof -
  have db: "preserves (\<lambda>g :: 'd game. fired g = f) (on_db op)" for f and op :: "('d, 'b) io"
    unfolding on_db_def by (rule preserves_zoom) simp
  have reg: "fired (fold register_column cs g) = fired g" for cs and g :: "'d game"
    by (induction cs arbitrary: g) (simp_all add: register_column_def)
  have missing: "preserves (\<lambda>g :: 'd game. fired g = f) (add_missing_columns api cs)" for f cs
    unfolding add_missing_columns_def by (intro preserves_intros db preserves_modify) (simp add: reg)
  from assms obtain columns toAdd vals g1 x g2 where
    run: "add_missing_columns api toAdd g = (Inr (), g1)"
      "on_db (bind_io (stmt_prepare api (insert_sql columns (length vals))) (\<lambda>st.
           bind_io (lift_exn (bind_all api 0 (insert_args server vals) st)) (\<lambda>st. stmt_insert api st))) g1 = (Inr x, g2)"
      "g' = g2\<lparr>fired := fired g2 @ [Server_added server]\<rparr>"
    by (auto simp: AddOrUpdateServer_def throw_def then_io_def bind_io_Inr [where f = "\<lambda>_. _"]
        bind_io_Inr [where m = "\<lambda>g. (collect_columns g (sv_data server), g)"] modify_def split: if_splits prod.splits)
  from preservesD [OF missing refl, of toAdd g] run(1) have "fired g1 = fired g" by simp
  moreover from preservesD [OF db refl] run(2) have "fired g2 = fired g1" by (metis snd_conv)
  ultimately show ?thesis using run(3) by simp
qed

text \<open>An update that registers no new key changes the database and the signals only.\<close>

lemma update_keeps_keys:
  assumes "AddOrUpdateServer api server g = (r, g')" and "gd_missingKeyPolicy (m_Data g) = ignore_missing"
  shows "m_Data g' = m_Data g \<and> m_Params g' = m_Params g \<and> m_PopularValues g' = m_PopularValues g"
proof (cases "collect_columns g (sv_data server)")
  case (Inl e)
  with assms(1) show ?thesis by (auto simp: AddOrUpdateServer_def throw_def bind_io_def split: if_splits)
next
  case (Inr x)
  obtain cs toAdd vs where x: "x = (cs, toAdd, vs)" by (metis surj_pair)
  with Inr assms(2) have "toAdd = []" using collect_columns_spec [of g] by fastforce
  with Inr x assms(1) show ?thesis
    by (auto simp: AddOrUpdateServer_def throw_def then_io_def bind_io_def add_missing_columns_def ret_def on_db_def zoom_def
        modify_def split: if_splits prod.splits sum.splits)
qed

lemma remove_loop_ok: "preserves (game_ok n) (remove_loop api servers st)"
proof (induction servers arbitrary: st)
  case (Cons s servers)
  obtain ip port where [simp]: "s = (ip, port)" by (cases s)
  show ?case by (simp del: bind_all.simps) (intro preserves_intros preserves_modify Cons.IH, simp)
qed (simp add: preserves_ret)

lemma RemoveServers_ok: "preserves (game_ok n) (RemoveServers api servers)"
  unfolding RemoveServers_def by (intro preserves_intros remove_loop_ok)

lemma GetServers_ok: "preserves (game_ok n) (GetServers api query fieldList limit skip)"
  unfolding GetServers_def by (rule game_ok_on_db)

lemma SetPopularValues_ok: "preserves (game_ok n) (SetPopularValues vs)"
  by (auto simp: preserves_def SetPopularValues_def CheckPopularValueSize_def then_io_def bind_io_def
      throw_def ret_def modify_def game_ok_def)

section \<open>Reading the rows of a query\<close>

text \<open>What a statement that yields the rows \<open>rs\<close> and is then done looks like to its reader.\<close>

fun delivers :: "('d, 's) sqlite3 \<Rightarrow> 's list \<Rightarrow> 's \<Rightarrow> 'd \<Rightarrow> 'd \<Rightarrow> bool" where
  "delivers api [] st d d' = (\<exists>st'. c_step api st d = (SQLITE_DONE, st', d'))"
| "delivers api (r # rs) st d d' =
     (\<exists>d1. c_step api st d = (SQLITE_ROW, r, d1) \<and> delivers api rs r d1 d')"

lemma fetch_rows_delivers:
  "delivers api rs st d d' \<Longrightarrow> length rs < n \<Longrightarrow>
   fetch_rows api fieldList n st d = (Inr (Some (map (saved_server api fieldList) rs)), d')"
proof (induction rs arbitrary: st d n)
  case Nil
  then obtain m where "n = Suc m" by (cases n) auto
  with Nil show ?case by (auto simp: stmt_query_def bind_io_def ret_def)
next
  case (Cons r rs)
  from Cons.prems obtain m where n: "n = Suc m" "length rs < m" by (cases n) auto
  from Cons.prems obtain d1 where d1: "c_step api st d = (SQLITE_ROW, r, d1)" "delivers api rs r d1 d'"
    by auto
  from Cons.IH [OF d1(2) n(2)] d1(1) show ?case
    by (simp add: n stmt_query_def bind_io_def ret_def)
qed

section \<open>Properties\<close>


text \<open>A library whose calls all succeed and whose statements yield no row, for the witnesses.\<close>

definition quiet_sqlite :: "(string, unit) sqlite3" where
  "quiet_sqlite = \<lparr>c_exec = (\<lambda>sql d. (0, d @ sql)), c_set_authorizer = (\<lambda>_ d. (0, d)),
     c_errmsg = (\<lambda>_. ''''), c_last_insert_rowid = (\<lambda>_. 0), c_prepare = (\<lambda>_ d. (0, ())),
     c_bind_text = (\<lambda>_ _ s. (0, s)), c_bind_int = (\<lambda>_ _ s. (0, s)), c_step = (\<lambda>s d. (101, s, d)),
     c_reset = (\<lambda>s. (0, s)), c_column_text = (\<lambda>_ _. None), c_column_int64 = (\<lambda>_ _. 0)\<rparr>"

definition gmtest_data :: game_data where
  "gmtest_data = \<lparr>gd_name = ''gmtest'', gd_secretKey = ''HA6zkS'', gd_queryPort = 6500,
     gd_availability = available, gd_backend = 128, gd_keys = common_keys,
     gd_missingKeyPolicy = ignore_missing\<rparr>"


text \<open>
  A game that connects has only names that may stand in SQL, and reads the send type of a
  field from the first registered key of that name, a field that is not registered as a string.
\<close>

theorem connect_registers_keys:
  assumes "Connect api g = (Inr (), g')" and "m_Params g = []"
  shows "list_all (IsValidParamName \<circ> key_name) (gd_keys (m_Data g)) \<and>
    GetParamSendType g' field =
      (case List.find (\<lambda>k. key_name k = field) (gd_keys (m_Data g)) of
         None \<Rightarrow> as_string | Some k \<Rightarrow> key_send k)"
  using Connect_params [OF assms, of field] by (simp add: GetParamSendType_def)

definition gmtest_game :: "string game" where
  "gmtest_game = \<lparr>m_DB = '''', m_Data = gmtest_data, m_Params = [], m_PopularValues = [], fired = []\<rparr>"

lemma common_keys_valid: "list_all (IsValidParamName \<circ> key_name) common_keys"
  by code_simp

lemma register_keys_total:
  "list_all (IsValidParamName \<circ> key_name) ks \<Longrightarrow> \<exists>c. fst (register_keys i ks g) = Inr c"
proof (induction ks arbitrary: i g)
  case (Cons k ks)
  have "\<exists>c. fst (register_keys (Suc i) ks (g\<lparr>m_Params := smap_emplace (key_name k) i (m_Params g)\<rparr>)) = Inr c"
    by (rule Cons.IH) (use Cons.prems in simp)
  then show ?case
    using Cons.prems by (auto simp: then_io_def bind_io_def modify_def ret_def split: prod.splits sum.splits)
qed (simp add: ret_def)

lemma gmtest_connects: "\<exists>g. Connect quiet_sqlite gmtest_game = (Inr (), g)"
proof -
  have keys: "gd_keys (m_Data gmtest_game) = common_keys" by (simp add: gmtest_game_def gmtest_data_def)
  obtain c where "fst (register_keys 0 common_keys gmtest_game) = Inr c"
    using register_keys_total [OF common_keys_valid] by blast
  then show ?thesis
    by (cases "register_keys 0 common_keys gmtest_game")
      (simp add: Connect_def bind_io_def gets_def keys on_db_def zoom_def db_exec_def quiet_sqlite_def)
qed

theorem connect_registers_keys_witness:
  "\<exists>g. Connect quiet_sqlite gmtest_game = (Inr (), g) \<and>
     GetParamSendType g ''numplayers'' = as_byte \<and> GetParamSendType g ''rank'' = as_string"
proof -
  obtain g where g: "Connect quiet_sqlite gmtest_game = (Inr (), g)" using gmtest_connects by blast
  have none: "m_Params gmtest_game = []" by (simp add: gmtest_game_def)
  have keys: "gd_keys (m_Data gmtest_game) = common_keys" by (simp add: gmtest_game_def gmtest_data_def)
  show ?thesis
    using g connect_registers_keys [OF g none, of "''numplayers''"]
      connect_registers_keys [OF g none, of "''rank''"]
    by (simp add: keys common_keys_def default_key_def)
qed

text \<open>
  The statement that stores a server: its columns are the registered keys of the server in
  the order of the map, each with its own value; every column is a name that may stand in SQL,
  so no text of the server reaches the statement otherwise; it has as many placeholders as values
  are bound, which the run-time statement constructor does not check; and keys that are not registered
  are added only under \<open>add_as_string\<close> and only with valid names.
\<close>

theorem insertion_well_formed:
  assumes "game_ok n g" and "collect_columns g (sv_data server) = Inr (columns, toAdd, vals)"
  shows "zip columns vals = filter (\<lambda>(k, v). smap_contains (m_Params g) k) (sv_data server) \<and>
    length columns = length vals \<and>
    list_all IsValidParamName columns \<and>
    placeholders (insert_sql columns (length vals)) = length (insert_args server vals) \<and>
    list_all IsValidParamName toAdd \<and>
    (gd_missingKeyPolicy (m_Data g) = ignore_missing \<longrightarrow> toAdd = [])"
proof -
  have spec: "zip columns vals = filter (\<lambda>(k, v). smap_contains (m_Params g) k) (sv_data server)"
    "length columns = length vals" "list_all (smap_contains (m_Params g)) columns"
    "toAdd = (if gd_missingKeyPolicy (m_Data g) = add_as_string
       then map fst (filter (\<lambda>(k, v). \<not> smap_contains (m_Params g) k) (sv_data server)) else [])"
    "list_all IsValidParamName toAdd"
    using collect_columns_spec [OF assms(2)] by blast+
  have valid: "list_all IsValidParamName columns"
    using spec(3) game_ok_contains [OF assms(1)] by (auto simp: list_all_iff)
  show ?thesis
    using spec valid placeholders_insert_sql [OF valid] by (auto simp: insert_args_def)
qed

definition sample_server :: server_data where
  "sample_server = \<lparr>last_update = 0, public_ip = ''10.0.0.1'', public_port = 6500, private_ip = '''',
     private_port = 0, icmp_ip = '''', sv_data = [(''hostname'', ''x''), (''rank'', ''9'')], rules = ''''\<rparr>"

definition sample_game :: "string game" where
  "sample_game = \<lparr>m_DB = '''', m_Data = gmtest_data\<lparr>gd_keys := [default_key ''hostname''],
     gd_missingKeyPolicy := add_as_string\<rparr>, m_Params = [(''hostname'', 0)], m_PopularValues = [], fired = []\<rparr>"

lemma sample_game_ok: "game_ok ''gmtest'' sample_game"
proof -
  have "IsValidParamName ''hostname''" by code_simp
  then show ?thesis by (auto simp: game_ok_def sample_game_def default_key_def gmtest_data_def split: if_splits)
qed

lemma sample_collect:
  "collect_columns sample_game (sv_data sample_server) = Inr ([''hostname''], [''rank''], [''x''])"
proof -
  have "IsValidParamName ''rank''" by code_simp
  then show ?thesis
    by (simp add: sample_game_def sample_server_def smap_contains_def gmtest_data_def)
qed

theorem insertion_well_formed_witness:
  "placeholders (insert_sql [''hostname''] 1) = length (insert_args sample_server [''x''])"
  using insertion_well_formed [OF sample_game_ok sample_collect] by simp

text \<open>
  A key that is registered on the fly loses its first value: under \<open>add_as_string\<close> the
  column of a key that is not yet known is created and registered by the update that brings it,
  but the statement of that update stores no value for it.
\<close>

theorem new_key_value_not_stored:
  assumes "collect_columns g (sv_data server) = Inr (columns, toAdd, vals)"
    and "gd_missingKeyPolicy (m_Data g) = add_as_string"
    and "(k, v) \<in> set (sv_data server)" and "\<not> smap_contains (m_Params g) k"
    and "smap_ok (m_Params g)"
  shows "k \<in> set toAdd \<and> k \<notin> set columns \<and>
    smap_contains (m_Params (fold register_column toAdd g)) k"
proof -
  have spec: "list_all (smap_contains (m_Params g)) columns"
    "toAdd = map fst (filter (\<lambda>(k, v). \<not> smap_contains (m_Params g) k) (sv_data server))"
    using collect_columns_spec [OF assms(1)] assms(2) by auto
  have k: "k \<in> set toAdd" using assms(3,4) spec(2) by force
  have "smap_ok (m_Params g) \<Longrightarrow> k \<in> set cs \<or> smap_contains (m_Params g) k \<Longrightarrow>
      smap_contains (m_Params (fold register_column cs g)) k" for cs
  proof (induction cs arbitrary: g)
    case (Cons c cs)
    have "smap_ok (m_Params (register_column c g))"
      using Cons.prems(1) by (simp add: register_column_def smap.invar_emplace)
    moreover have "k \<in> set cs \<or> smap_contains (m_Params (register_column c g)) k"
      using Cons.prems
      by (auto simp: register_column_def smap_contains_iff smap.lookup_emplace split: option.splits)
    ultimately show ?case using Cons.IH by simp
  qed simp
  with k spec(1) assms(4,5) show ?thesis by (auto simp: list_all_iff)
qed

theorem new_key_value_not_stored_witness:
  "''rank'' \<in> set [''rank''] \<and> ''rank'' \<notin> set [''hostname''] \<and>
   smap_contains (m_Params (fold register_column [''rank''] sample_game)) ''rank''"
  by (rule new_key_value_not_stored [OF sample_collect, of "''rank''" "''9''"])
    (simp_all add: sample_game_def sample_server_def smap_contains_def)

text \<open>
  A query that the library answers with some rows, no more than the limit, returns exactly
  one server for each of them, in order, and leaves the game as it was but for the database.
\<close>

theorem GetServers_returns_rows:
  assumes "c_set_authorizer api (Some (c_callback retrieve_authorizer)) (m_DB g) = (SQLITE_OK, d1)"
    and "length (select_sql query fieldList limit skip) \<le> int_max"
    and "c_prepare api (select_sql query fieldList limit skip) d1 = (SQLITE_OK, st)"
    and "delivers api rs st d1 d2" and "length rs \<le> limit"
    and "c_set_authorizer api None d2 = (SQLITE_OK, d3)"
  shows "GetServers api query fieldList limit skip g =
    (Inr (Some (map (saved_server api fieldList) rs)), g\<lparr>m_DB := d3\<rparr>)"
proof -
  have "fetch_rows api fieldList (Suc limit) st d1 =
      (Inr (Some (map (saved_server api fieldList) rs)), d2)"
    using assms(4,5) by (intro fetch_rows_delivers) auto
  then show ?thesis
    using assms
    by (simp add: GetServers_def on_db_def zoom_def scoped_authorizer_def then_io_def bind_io_def
        set_authorizer_def stmt_prepare_def del: fetch_rows.simps)
qed

theorem GetServers_returns_rows_witness:
  "fst (GetServers quiet_sqlite '''' [''hostname''] 2 0 gmtest_game) = Inr (Some [])"
proof -
  have "dec 2 = ''2''" by code_simp
  then have len: "length (select_sql '''' [''hostname''] 2 0) \<le> int_max"
    by (simp add: select_sql_def int_max_def)
  show ?thesis
    by (subst GetServers_returns_rows [of quiet_sqlite gmtest_game "''''" "''''" "[''hostname'']" 2 0 "()" "[]" "''''" "''''"])
      (simp_all add: len, simp_all add: quiet_sqlite_def gmtest_game_def)
qed

end
