(* ===== verification/Bf2_Game.thy ===== *)
theory Bf2_Game
  imports Game_Model
begin

text \<open>
  Battlefield 2 (\<open>emulator/bf2.h\<close>, \<open>emulator/bf2.cpp\<close>, class \<open>BF2\<close>): its registered keys, the
  repair of the queries its client sends, and the ranked and plasma flags that are laid over the
  servers of a query.  The MySQL connection is Boost's: its rows are a parameter.  \<open>any_game\<close> is
  an object of the class \<open>Game\<close> or of a class derived from it, and the \<open>game_\<close> functions below it
  are the calls of virtual functions.
\<close>

section \<open>The keys\<close>

definition key_text :: "string \<Rightarrow> game_key" where
  "key_text n = (default_key n)\<lparr>key_send := as_string, key_store := as_text, key_type := ''string''\<rparr>"

definition key_real :: "string \<Rightarrow> game_key" where
  "key_real n = (default_key n)\<lparr>key_send := as_string, key_store := as_real, key_type := ''float''\<rparr>"

definition key_shrt :: "string \<Rightarrow> game_key" where
  "key_shrt n = (default_key n)\<lparr>key_send := as_short, key_store := as_integer, key_type := ''integer''\<rparr>"

definition key_boolean :: "string \<Rightarrow> game_key" where
  "key_boolean n = (default_key n)\<lparr>key_send := as_byte, key_store := as_integer, key_type := ''boolean''\<rparr>"

definition key_ipaddr :: "string \<Rightarrow> game_key" where
  "key_ipaddr n = (default_key n)\<lparr>key_send := as_string, key_store := as_text, key_type := ''ip''\<rparr>"

definition bf2Data :: game_data where
  "bf2Data = \<lparr>gd_name = ''battlefield2'', gd_secretKey = ''hW6m9a'', gd_queryPort = 6500,
     gd_availability = available, gd_backend = 128, gd_keys =
      [key_text ''hostname'', key_text ''country'', key_text ''gamename'', key_text ''gamever'',
       key_text ''mapname'', key_text ''gametype'', key_text ''gamevariant'',
       key_shrt ''numplayers'', key_shrt ''maxplayers'', key_text ''gamemode'',
       key_boolean ''password'', key_shrt ''timelimit'', key_shrt ''roundtime'',
       key_shrt ''hostport'', key_ipaddr ''localip0'', key_ipaddr ''localip1'',
       key_ipaddr ''localip2'', key_ipaddr ''localip3'', key_ipaddr ''localip4'',
       key_shrt ''localport'', key_boolean ''natneg'', key_boolean ''statechanged'',
       key_boolean ''bf2_dedicated'', key_boolean ''bf2_ranked'', key_boolean ''bf2_anticheat'',
       key_text ''bf2_os'', key_boolean ''bf2_autorec'', key_text ''bf2_d_idx'',
       key_text ''bf2_d_dl'', key_boolean ''bf2_voip'', key_boolean ''bf2_autobalanced'',
       key_boolean ''bf2_friendlyfire'', key_text ''bf2_tkmode'', key_real ''bf2_startdelay'',
       key_real ''bf2_spawntime'', key_text ''bf2_sponsortext'', key_text ''bf2_sponsorlogo_url'',
       key_text ''bf2_communitylogo_url'', key_shrt ''bf2_scorelimit'', key_real ''bf2_ticketratio'',
       key_real ''bf2_teamratio'', key_text ''bf2_team1'', key_text ''bf2_team2'',
       key_boolean ''bf2_bots'', key_boolean ''bf2_pure'', key_shrt ''bf2_mapsize'',
       key_boolean ''bf2_globalunlocks'', key_real ''bf2_fps'', key_boolean ''bf2_plasma'',
       key_shrt ''bf2_reservedslots'', key_real ''bf2_coopbotratio'', key_shrt ''bf2_coopbotcount'',
       key_real ''bf2_coopbotdiff'', key_boolean ''bf2_novehicles''],
     gd_missingKeyPolicy = ignore_missing\<rparr>"

section \<open>Repairing a query\<close>

definition insert_at :: "nat \<Rightarrow> string \<Rightarrow> string \<Rightarrow> string" where
  "insert_at pos what s = take pos s @ what @ drop pos s"

definition insert_missing_and :: "string \<Rightarrow> string" where
  "insert_missing_and query =
     (case sv_find ''gametype'' query of
        Some pos \<Rightarrow> if pos > 0 \<and> query ! (pos - 1) \<noteq> CHR '' '' then insert_at pos '' and '' query else query
      | None \<Rightarrow> query)"

abbreviation QUOTE :: char where
  "QUOTE \<equiv> CHR 0x27"

text \<open>The loop \<open>for (; pos < end; pos++)\<close>; the inserted quote is skipped and moves the end.\<close>

function quote_loop :: "string \<Rightarrow> nat \<Rightarrow> nat \<Rightarrow> string" where
  "quote_loop copy pos endpos =
     (if pos < endpos then
        (if copy ! pos = QUOTE then quote_loop (insert_at pos [QUOTE] copy) (pos + 2) (endpos + 1)
         else quote_loop copy (pos + 1) endpos)
      else copy)"
  by pat_completeness auto
termination by (relation "measure (\<lambda>(_, pos, endpos). endpos - pos)") auto

declare quote_loop.simps [simp del]

definition hostnameQuery :: string where
  "hostnameQuery = ''hostname like '' @ [QUOTE] @ ''%''"

text \<open>\<open>query.find("%'", pos)\<close>: the position in the whole query.\<close>

definition find_from :: "string \<Rightarrow> string \<Rightarrow> nat \<Rightarrow> nat option" where
  "find_from pat s pos = map_option ((+) pos) (sv_find pat (drop pos s))"

definition escape_hostname :: "string \<Rightarrow> string" where
  "escape_hostname query =
     (case sv_find hostnameQuery query of
        None \<Rightarrow> query
      | Some pos \<Rightarrow>
          let pos = pos + length hostnameQuery in
          (case find_from [CHR ''%'', QUOTE] query pos of
             None \<Rightarrow> query
           | Some endpos \<Rightarrow> quote_loop query pos endpos))"

definition repair_query :: "string \<Rightarrow> string" where
  "repair_query query = escape_hostname (insert_missing_and query)"

section \<open>Ranked servers\<close>

text \<open>
  A row of the MySQL result: ip, port (\<open>static_cast<std::uint16_t>\<close> of the unsigned column) and
  plasma.  The first row of an end point decides.
\<close>

definition rankedServers :: "(string \<times> nat \<times> int) list \<Rightarrow> (string \<times> u16, bool) std_map" where
  "rankedServers rs = smap_of_list (map (\<lambda>(ip, port, plasma). ((ip, of_nat port), plasma \<noteq> 0)) rs)"

definition overlay_ranked :: "(string \<times> u16, bool) std_map \<Rightarrow> server_data \<Rightarrow> server_data" where
  "overlay_ranked ranked server =
     (let (r, p) = (case smap_find ranked (public_ip server, public_port server) of
                      Some plasma \<Rightarrow> (''1'', if plasma then ''1'' else ''0'')
                    | None \<Rightarrow> (''0'', ''0''))
      in server\<lparr>sv_data := smap_assign ''bf2_plasma'' p (smap_assign ''bf2_ranked'' r (sv_data server))\<rparr>)"

text \<open>
  \<open>mysql\<close> is \<open>m_Params\<close> with the outcome of preparing and executing the statement when it is set.
\<close>

definition bf2_GetServers :: "('d, 's) sqlite3 \<Rightarrow> (exn + (string \<times> nat \<times> int) list) option \<Rightarrow>
    string \<Rightarrow> string list \<Rightarrow> nat \<Rightarrow> nat \<Rightarrow> ('d game, server_data list option) io"
where
  "bf2_GetServers api mysql query fieldList limit skip =
     bind_io (GetServers api (repair_query query) fieldList limit skip) (\<lambda>servers.
       case (mysql, servers) of
         (Some result, Some servers) \<Rightarrow>
           if servers = [] then ret (Some servers)
           else bind_io (lift_exn result) (\<lambda>rs.
             ret (Some (map (overlay_ranked (rankedServers rs)) servers)))
       | _ \<Rightarrow> ret servers)"

definition bf2_Connect :: "('d, 's) sqlite3 \<Rightarrow> (exn + unit) option \<Rightarrow> ('d game, unit) io" where
  "bf2_Connect api mysql_connect =
     then_io (Connect api)
       (case mysql_connect of None \<Rightarrow> ret () | Some outcome \<Rightarrow> lift_exn outcome)"

definition bf2_AddOrUpdateServer :: "('d, 's) sqlite3 \<Rightarrow> server_data \<Rightarrow> ('d game, unit) io" where
  "bf2_AddOrUpdateServer api server = AddOrUpdateServer api server"

section \<open>Virtual calls\<close>

text \<open>
  What the outside world gives a BF2 object: whether MySQL is configured, and the outcomes of
  connecting to it, of querying it and of closing the connection.
\<close>

record mysql_env =
  mysql_configured :: bool
  mysql_connect :: "exn + unit"
  mysql_rows :: "exn + (string \<times> nat \<times> int) list"
  mysql_close :: "exn + unit"

datatype 'd any_game = Base_game (as_game: "'d game") | Bf2_game (as_game: "'d game") (mysql_of: mysql_env)

definition on_game :: "('d game, 'a) io \<Rightarrow> ('d any_game, 'a) io" where
  "on_game = zoom as_game (\<lambda>g o'. case o' of Base_game _ \<Rightarrow> Base_game g | Bf2_game _ m \<Rightarrow> Bf2_game g m)"

definition when_configured :: "mysql_env \<Rightarrow> (mysql_env \<Rightarrow> 'a) \<Rightarrow> 'a option" where
  "when_configured m f = (if mysql_configured m then Some (f m) else None)"

definition game_Connect :: "('d, 's) sqlite3 \<Rightarrow> ('d any_game, unit) io" where
  "game_Connect api = (\<lambda>o'. case o' of
     Base_game _ \<Rightarrow> on_game (Connect api) o'
   | Bf2_game _ m \<Rightarrow> on_game (bf2_Connect api (when_configured m mysql_connect)) o')"

definition game_Disconnect :: "('d any_game, unit) io" where
  "game_Disconnect = (\<lambda>o'. case o' of
     Base_game _ \<Rightarrow> ret () o'
   | Bf2_game _ m \<Rightarrow> lift_exn (mysql_close m) o')"

definition game_AddOrUpdateServer :: "('d, 's) sqlite3 \<Rightarrow> server_data \<Rightarrow> ('d any_game, unit) io" where
  "game_AddOrUpdateServer api server = (\<lambda>o'. case o' of
     Base_game _ \<Rightarrow> on_game (AddOrUpdateServer api server) o'
   | Bf2_game _ _ \<Rightarrow> on_game (bf2_AddOrUpdateServer api server) o')"

definition game_GetServers :: "('d, 's) sqlite3 \<Rightarrow> string \<Rightarrow> string list \<Rightarrow> nat \<Rightarrow> nat \<Rightarrow>
    ('d any_game, server_data list option) io" where
  "game_GetServers api query fieldList limit skip = (\<lambda>o'. case o' of
     Base_game _ \<Rightarrow> on_game (GetServers api query fieldList limit skip) o'
   | Bf2_game _ m \<Rightarrow>
       on_game (bf2_GetServers api (when_configured m mysql_rows) query fieldList limit skip) o')"

definition game_RemoveServers :: "('d, 's) sqlite3 \<Rightarrow> (string \<times> u16) list \<Rightarrow> ('d any_game, unit) io" where
  "game_RemoveServers api servers = on_game (RemoveServers api servers)"

section \<open>Virtual calls keep the invariant of the game\<close>

definition any_game_ok :: "string \<Rightarrow> 'd any_game \<Rightarrow> bool" where
  "any_game_ok n o' \<longleftrightarrow> game_ok n (as_game o')"

lemma on_game_ok: "preserves (game_ok n) m \<Longrightarrow> any_game_ok n o' \<Longrightarrow> any_game_ok n (snd (on_game m o'))"
  unfolding on_game_def zoom_def any_game_ok_def preserves_def
  by (auto split: any_game.splits prod.splits)

lemma bf2_Connect_ok: "preserves (game_ok n) (bf2_Connect api outcome)"
  unfolding bf2_Connect_def
  by (intro preserves_intros Connect_ok)

lemma bf2_GetServers_ok: "preserves (game_ok n) (bf2_GetServers api mysql query fieldList limit skip)"
  unfolding bf2_GetServers_def
  by (intro preserves_intros GetServers_ok) (auto intro!: preserves_intros split: option.splits prod.splits)

lemma game_Connect_ok: "preserves (any_game_ok n) (game_Connect api)"
  unfolding preserves_def game_Connect_def
  by (auto intro!: on_game_ok Connect_ok bf2_Connect_ok split: any_game.splits)

lemma game_AddOrUpdateServer_ok: "preserves (any_game_ok n) (game_AddOrUpdateServer api server)"
  unfolding preserves_def game_AddOrUpdateServer_def bf2_AddOrUpdateServer_def
  by (auto intro!: on_game_ok AddOrUpdateServer_ok split: any_game.splits)

lemma game_AddOrUpdateServer_fires:
  "game_AddOrUpdateServer api server o' = (Inr u, o'') \<Longrightarrow>
   fired (as_game o'') = fired (as_game o') @ [Server_added server]"
  by (cases o') (auto simp: game_AddOrUpdateServer_def on_game_def zoom_def bf2_AddOrUpdateServer_def
      split: prod.splits dest!: AddOrUpdateServer_fires)

lemma game_GetServers_ok: "preserves (any_game_ok n) (game_GetServers api query fieldList limit skip)"
  unfolding preserves_def game_GetServers_def
  by (auto intro!: on_game_ok GetServers_ok bf2_GetServers_ok split: any_game.splits)

lemma game_RemoveServers_ok: "preserves (any_game_ok n) (game_RemoveServers api servers)"
  unfolding preserves_def game_RemoveServers_def by (auto intro: on_game_ok RemoveServers_ok)

section \<open>The effect of the repair\<close>

fun double_quotes :: "string \<Rightarrow> string" where
  "double_quotes [] = []"
| "double_quotes (c # s) = (if c = QUOTE then [QUOTE, QUOTE] else [c]) @ double_quotes s"

text \<open>What SQL reads between the quotes of a literal.\<close>

fun undouble_quotes :: "string \<Rightarrow> string" where
  "undouble_quotes (c # d # s) =
     (if c = QUOTE \<and> d = QUOTE then QUOTE # undouble_quotes s else c # undouble_quotes (d # s))"
| "undouble_quotes s = s"

lemma undouble_double [simp]: "undouble_quotes (double_quotes s) = s"
proof (induction s rule: double_quotes.induct)
  case (2 c s)
  then show ?case by (cases "double_quotes s") auto
qed simp

lemma insert_at_append: "insert_at (length a) w (a @ b) = a @ w @ b"
  by (simp add: insert_at_def)

lemma quote_loop_segment:
  "quote_loop (a @ s @ b) (length a) (length a + length s) = a @ double_quotes s @ b"
proof (induction s arbitrary: a)
  case Nil
  then show ?case by (simp add: quote_loop.simps)
next
  case (Cons c s)
  show ?case
  proof (cases "c = QUOTE")
    case True
    have "quote_loop (a @ (c # s) @ b) (length a) (length a + length (c # s)) =
        quote_loop (insert_at (length a) [QUOTE] (a @ c # s @ b)) (length a + 2) (length a + length (c # s) + 1)"
      using True by (subst quote_loop.simps) simp
    also have "\<dots> = quote_loop ((a @ [QUOTE, QUOTE]) @ s @ b) (length (a @ [QUOTE, QUOTE]))
        (length (a @ [QUOTE, QUOTE]) + length s)"
      using True by (simp add: insert_at_append)
    finally show ?thesis using Cons [of "a @ [QUOTE, QUOTE]"] True by simp
  next
    case False
    have "quote_loop (a @ (c # s) @ b) (length a) (length a + length (c # s)) =
        quote_loop ((a @ [c]) @ s @ b) (length (a @ [c])) (length (a @ [c]) + length s)"
      using False by (subst quote_loop.simps) simp
    then show ?thesis using Cons [of "a @ [c]"] False by simp
  qed
qed

text \<open>A search pattern \<open>h\<close> without a percent sign, inside a query.\<close>

lemma find_end:
  "CHR ''%'' \<notin> set h \<Longrightarrow> sv_find [CHR ''%'', QUOTE] (h @ [CHR ''%'', QUOTE] @ r) = Some (length h)"
  by (induction h) (auto simp: prefix_def)

lemma escape_hostname_eq:
  assumes "sv_find hostnameQuery (a @ hostnameQuery @ h @ [CHR ''%'', QUOTE] @ r) = Some (length a)"
    and "CHR ''%'' \<notin> set h"
  shows "escape_hostname (a @ hostnameQuery @ h @ [CHR ''%'', QUOTE] @ r) =
    a @ hostnameQuery @ double_quotes h @ [CHR ''%'', QUOTE] @ r"
proof -
  let ?b = "a @ hostnameQuery"
  have "find_from [CHR ''%'', QUOTE] (?b @ h @ [CHR ''%'', QUOTE] @ r) (length ?b) = Some (length ?b + length h)"
    using find_end [OF assms(2), of r] by (simp add: find_from_def)
  then show ?thesis
    using assms(1) quote_loop_segment [of ?b h "[CHR ''%'', QUOTE] @ r"]
    by (simp add: escape_hostname_def Let_def)
qed

section \<open>Properties\<close>

text \<open>
  The host name a player searches for reaches SQL as one literal: every quote in it is
  doubled, so that reading the literal gives back exactly the name, and nothing else of the query
  changes, when the query does not filter by game type.
\<close>

theorem repair_query_escapes_hostname:
  assumes "sv_find ''gametype'' (a @ hostnameQuery @ h @ [CHR ''%'', QUOTE] @ r) = None"
    and "sv_find hostnameQuery (a @ hostnameQuery @ h @ [CHR ''%'', QUOTE] @ r) = Some (length a)"
    and "CHR ''%'' \<notin> set h"
  shows "repair_query (a @ hostnameQuery @ h @ [CHR ''%'', QUOTE] @ r) =
      a @ hostnameQuery @ double_quotes h @ [CHR ''%'', QUOTE] @ r \<and>
    undouble_quotes (double_quotes h) = h"
  using escape_hostname_eq [OF assms(2,3)] assms(1)
  by (simp add: repair_query_def insert_missing_and_def)

theorem repair_query_escapes_hostname_witness:
  "repair_query (''hostname like '' @ [QUOTE] @ ''%Bob'' @ [QUOTE] @ ''s%'' @ [QUOTE]) =
     ''hostname like '' @ [QUOTE] @ ''%Bob'' @ [QUOTE, QUOTE] @ ''s%'' @ [QUOTE]"
proof -
  let ?q = "[] @ hostnameQuery @ (''Bob'' @ [QUOTE] @ ''s'') @ [CHR ''%'', QUOTE] @ []"
  have "sv_find ''gametype'' ?q = None" "sv_find hostnameQuery ?q = Some (length ([] :: string))"
    "CHR ''%'' \<notin> set (''Bob'' @ [QUOTE] @ ''s'')"
    by (simp_all add: hostnameQuery_def)
  from repair_query_escapes_hostname [OF this] show ?thesis by (simp add: hostnameQuery_def)
qed

text \<open>
  The missing \<open>and\<close>: a game-type filter that directly follows other text is set apart from it
  by \<open> and \<close>, and every other query is left as it is but for its host name; the text \<open>gametype\<close> in
  the host name that a player searches for is taken for such a filter, so a search for it becomes
  a search for \<open> and gametype\<close>.
\<close>

theorem repair_query_gametype:
  assumes "sv_find ''gametype'' (a @ ''gametype'' @ r) = Some (length a)"
  shows "insert_missing_and (a @ ''gametype'' @ r) =
      (if a \<noteq> [] \<and> last a \<noteq> CHR '' '' then a @ '' and '' @ ''gametype'' @ r else a @ ''gametype'' @ r) \<and>
    repair_query (hostnameQuery @ ''gametype'' @ [CHR ''%'', QUOTE]) =
      hostnameQuery @ '' and gametype'' @ [CHR ''%'', QUOTE]"
proof
  have "insert_missing_and (a @ g @ r) =
      (if a \<noteq> [] \<and> last a \<noteq> CHR '' '' then a @ '' and '' @ g @ r else a @ g @ r)"
    if "sv_find ''gametype'' (a @ g @ r) = Some (length a)" for g
    using that by (cases a rule: rev_cases) (simp_all add: insert_missing_and_def insert_at_def nth_append)
  from this [OF assms] show "insert_missing_and (a @ ''gametype'' @ r) =
      (if a \<noteq> [] \<and> last a \<noteq> CHR '' '' then a @ '' and '' @ ''gametype'' @ r else a @ ''gametype'' @ r)" .
next
  show "repair_query (hostnameQuery @ ''gametype'' @ [CHR ''%'', QUOTE]) =
      hostnameQuery @ '' and gametype'' @ [CHR ''%'', QUOTE]"
    by code_simp
qed

theorem repair_query_gametype_witness:
  "insert_missing_and (''bf2_ranked = 1'' @ ''gametype'' @ '' like x'') =
     ''bf2_ranked = 1'' @ '' and '' @ ''gametype'' @ '' like x''"
proof -
  have "sv_find ''gametype'' (''bf2_ranked = 1'' @ ''gametype'' @ '' like x'') = Some (length ''bf2_ranked = 1'')"
    by simp
  from repair_query_gametype [OF this] show ?thesis by simp
qed

text \<open>
  The overlay of the ranked flags: after it a server is ranked exactly when its address and
  port, as 16 bits, are a row of the authorised servers, and plasma as the first such row says; all its
  other values, its address and its port are those of the query.
\<close>

theorem overlay_ranked_exact:
  assumes "smap_ok (sv_data server)"
  shows "let rows16 = map (\<lambda>(ip, port, plasma). ((ip, of_nat port), plasma \<noteq> (0 :: int))) rs;
             row = map_of rows16 (public_ip server, public_port server);
             s = overlay_ranked (rankedServers rs) server
         in smap_find (sv_data s) ''bf2_ranked'' = Some (if row = None then ''0'' else ''1'') \<and>
            smap_find (sv_data s) ''bf2_plasma'' = Some (if row = Some True then ''1'' else ''0'') \<and>
            (\<forall>k. k \<noteq> ''bf2_ranked'' \<longrightarrow> k \<noteq> ''bf2_plasma'' \<longrightarrow>
               smap_find (sv_data s) k = smap_find (sv_data server) k) \<and>
            public_ip s = public_ip server \<and> public_port s = public_port server"
  using assms
  by (auto simp: overlay_ranked_def rankedServers_def Let_def smap.lookup_assign smap.invar_assign
      split: option.splits)

theorem overlay_ranked_exact_witness:
  "smap_find (sv_data (overlay_ranked (rankedServers [(''10.0.0.1'', 6500, 0)]) sample_server)) ''bf2_ranked'' = Some ''1''"
proof -
  have "smap_ok (sv_data sample_server)" by code_simp
  from overlay_ranked_exact [OF this, of "[(''10.0.0.1'', 6500, 0)]"]
  show ?thesis by (simp add: sample_server_def Let_def)
qed

end
