(* ===== verification/Game_Db.thy ===== *)
theory Game_Db
  imports Bf2_Game
begin

text \<open>
  The games the emulator serves (\<open>emulator/gamedb.h\<close>, \<open>emulator/gamedb.cpp\<close>): the interface
  \<open>GameDB\<close> as the locale \<open>game_directory\<close>, and \<open>GameDBInMemory\<close>, which builds the games from the
  configuration.  The JSON library is third-party: an entry of the configuration is what
  \<open>entry.at(...).get<...>()\<close> returns or throws for each member the code asks for.  Opening the
  database of a game and the MySQL connection of Battlefield 2 are parameters of \<open>Connect\<close>.
\<close>

section \<open>The interface\<close>

text \<open>
  What the servers rely on: a game that \<open>HasGame\<close> reports is returned by \<open>GetGame\<close>, another name
  throws \<open>std::out_of_range\<close>, and the game returned is sound and has the name asked for.
\<close>

locale game_directory =
  fixes has_game :: "'db \<Rightarrow> string \<Rightarrow> bool"
    and get_game :: "'db \<Rightarrow> string \<Rightarrow> exn + 'g"
    and put_game :: "string \<Rightarrow> 'g \<Rightarrow> 'db \<Rightarrow> 'db"
    and invar :: "'db \<Rightarrow> bool"
    and sound :: "string \<Rightarrow> 'g \<Rightarrow> bool"
  assumes get_has: "has_game db n \<Longrightarrow> \<exists>g. get_game db n = Inr g"
    and get_missing: "\<not> has_game db n \<Longrightarrow> get_game db n = Inl Out_of_range"
    and get_sound: "invar db \<Longrightarrow> get_game db n = Inr g \<Longrightarrow> sound n g"
    and put_invar: "invar db \<Longrightarrow> has_game db n \<Longrightarrow> sound n g \<Longrightarrow> invar (put_game n g db)"
    and put_has: "invar db \<Longrightarrow> has_game db n \<Longrightarrow> has_game (put_game n g db) m = has_game db m"
    and put_get: "invar db \<Longrightarrow> has_game db n \<Longrightarrow>
      get_game (put_game n g db) m = (if m = n then Inr g else get_game db m)"
begin

text \<open>\<open>GetGame(name)->op()\<close>: the object is shared, so the operation changes the directory's game.\<close>

definition call :: "string \<Rightarrow> ('g, 'a) io \<Rightarrow> ('db, 'a) io" where
  "call n op = (\<lambda>db. case get_game db n of
     Inl e \<Rightarrow> (Inl e, db)
   | Inr g \<Rightarrow> (case op g of (r, g) \<Rightarrow> (r, put_game n g db)))"

lemma call_preserves: "preserves (sound n) op \<Longrightarrow> preserves invar (call n op)"
  unfolding preserves_def call_def
  by (auto split: sum.splits prod.splits)
    (metis get_missing get_sound put_invar snd_conv sum.distinct(1))

lemma call_has: "invar db \<Longrightarrow> has_game (snd (call n op db)) m = has_game db m"
  unfolding call_def
  by (auto split: sum.splits prod.splits) (metis get_missing put_has sum.distinct(1))+

lemma call_other: "invar db \<Longrightarrow> m \<noteq> n \<Longrightarrow> get_game (snd (call n op db)) m = get_game db m"
  unfolding call_def
  by (auto split: sum.splits prod.splits) (metis get_missing put_get sum.distinct(1))+

lemma call_present: "has_game db n \<Longrightarrow> \<exists>g. get_game db n = Inr g \<and> fst (call n op db) = fst (op g)"
  using get_has by (fastforce simp: call_def split: prod.splits)

end

section \<open>The in-memory database\<close>

record config_entry =
  ce_name :: "exn + string"
  ce_mysql :: "exn + mysql_env"
  ce_secretKey :: "exn + string"
  ce_keys :: "exn + string list"
  ce_sendAsShort :: "exn + string list"
  ce_sendAsByte :: "exn + string list"
  ce_saveAsReal :: "exn + string list"
  ce_ignoredKeys :: "exn + string list"
  ce_autoKeys :: "exn + bool"

record 'd game_db =
  m_Config :: "config_entry list"
  m_Games :: "(string, 'd any_game) std_map"

definition ValidateConfig :: "config_entry list \<Rightarrow> bool" where
  "ValidateConfig config = True"

definition GameDBInMemory :: "config_entry list \<Rightarrow> exn + 'd game_db" where
  "GameDBInMemory config =
     (if \<not> ValidateConfig config then Inl (Runtime_error ''invalid config'')
      else Inr \<lparr>m_Config = config, m_Games = []\<rparr>)"

text \<open>The lambda \<open>parse_keys\<close>.\<close>

definition parse_key ::
  "string list \<Rightarrow> string list \<Rightarrow> string list \<Rightarrow> string list \<Rightarrow> string \<Rightarrow> game_key"
where
  "parse_key sendAsShort sendAsByte saveAsReal ignoredKeys k =
     (let gk = default_key k in
      if k \<in> set ignoredKeys then gk\<lparr>key_send := as_string, key_store := as_text\<rparr>
      else
        let gk = (if k \<in> set sendAsShort then gk\<lparr>key_send := as_short\<rparr>
                  else if k \<in> set sendAsByte then gk\<lparr>key_send := as_byte\<rparr> else gk)
        in if k \<in> set saveAsReal then gk\<lparr>key_store := as_real\<rparr>
           else if key_send gk = as_short \<or> key_send gk = as_byte then gk\<lparr>key_store := as_integer\<rparr>
           else gk)"

definition parse_keys ::
  "string list \<Rightarrow> string list \<Rightarrow> string list \<Rightarrow> string list \<Rightarrow> string list \<Rightarrow> game_key list"
where
  "parse_keys keys sendAsShort sendAsByte saveAsReal ignoredKeys =
     map (parse_key sendAsShort sendAsByte saveAsReal ignoredKeys) keys"

text \<open>The values \<open>GameData\<close> initialises its members with when a designated initialiser leaves them out.\<close>

definition default_data :: "string \<Rightarrow> string \<Rightarrow> game_key list \<Rightarrow> game_data" where
  "default_data name secretKey keys = \<lparr>gd_name = name, gd_secretKey = secretKey, gd_queryPort = 6500,
     gd_availability = available, gd_backend = 128, gd_keys = keys, gd_missingKeyPolicy = ignore_missing\<rparr>"

definition configured_data :: "string \<Rightarrow> config_entry \<Rightarrow> exn + game_data" where
  "configured_data name entry =
     and_then (ce_secretKey entry) (\<lambda>secretKey.
     and_then (ce_keys entry) (\<lambda>keys.
     and_then (ce_sendAsShort entry) (\<lambda>sendAsShort.
     and_then (ce_sendAsByte entry) (\<lambda>sendAsByte.
     and_then (ce_saveAsReal entry) (\<lambda>saveAsReal.
     and_then (ce_ignoredKeys entry) (\<lambda>ignoredKeys.
     and_then (ce_autoKeys entry) (\<lambda>autoKeys.
       Inr ((default_data name secretKey
              (parse_keys keys sendAsShort sendAsByte saveAsReal ignoredKeys))
            \<lparr>gd_missingKeyPolicy := if autoKeys then add_as_string else ignore_missing\<rparr>))))))))"

text \<open>\<open>open_db\<close> is the constructor of the game's database, which comes before the checks of \<open>Game\<close>.\<close>

definition make_game :: "(string \<Rightarrow> exn + 'd) \<Rightarrow> game_data \<Rightarrow> exn + 'd game" where
  "make_game open_db data = and_then (open_db (gd_name data)) (\<lambda>db. game_ctor db data)"

definition configured_game :: "(string \<Rightarrow> exn + 'd) \<Rightarrow> config_entry \<Rightarrow> exn + 'd any_game" where
  "configured_game open_db entry =
     and_then (ce_name entry) (\<lambda>name.
       if name = ''battlefield2'' then
         and_then (ce_mysql entry) (\<lambda>mysql.
           and_then (make_game open_db bf2Data) (\<lambda>g. Inr (Bf2_game g mysql)))
       else
         and_then (configured_data name entry) (\<lambda>data.
           and_then (make_game open_db data) (\<lambda>g. Inr (Base_game g))))"

text \<open>A local game object is connected before it is stored; a throw leaves the map as it is.\<close>

definition connect_game :: "('d, 's) sqlite3 \<Rightarrow> exn + 'd any_game \<Rightarrow> exn + 'd any_game" where
  "connect_game api made =
     and_then made (\<lambda>g. case game_Connect api g of (Inl e, _) \<Rightarrow> Inl e | (Inr _, g) \<Rightarrow> Inr g)"

definition store_game :: "string \<Rightarrow> 'd any_game \<Rightarrow> ('d game_db, unit) io" where
  "store_game n g = modify (\<lambda>db. db\<lparr>m_Games := smap_emplace n g (m_Games db)\<rparr>)"

definition any_name :: "'d any_game \<Rightarrow> string" where
  "any_name g = gd_name (m_Data (as_game g))"

definition passive_mysql :: mysql_env where
  "passive_mysql = \<lparr>mysql_configured = False, mysql_connect = Inr (), mysql_rows = Inr [], mysql_close = Inr ()\<rparr>"

definition db_Connect :: "('d, 's) sqlite3 \<Rightarrow> (string \<Rightarrow> exn + 'd) \<Rightarrow> ('d game_db, unit) io" where
  "db_Connect api open_db =
     bind_io (gets m_Config) (\<lambda>config.
     then_io
       (if config = [] then
          bind_io (lift_exn (connect_game api
              (and_then (make_game open_db bf2Data) (\<lambda>g. Inr (Bf2_game g passive_mysql)))))
            (store_game ''battlefield2'')
        else
          for_each config (\<lambda>entry.
            bind_io (lift_exn (connect_game api (configured_game open_db entry)))
              (\<lambda>g. store_game (any_name g) g)))
       (bind_io (gets m_Games) (\<lambda>games.
          if \<not> smap_contains games ''gmtest'' then
            bind_io (lift_exn (connect_game api
                (and_then (make_game open_db (default_data ''gmtest'' ''HA6zkS'' common_keys)) (\<lambda>g. Inr (Base_game g)))))
              (store_game ''gmtest'')
          else ret ())))"

definition HasGame :: "'d game_db \<Rightarrow> string \<Rightarrow> bool" where
  "HasGame db n = smap_contains (m_Games db) n"

text \<open>\<open>m_Games.at(name)\<close>\<close>

definition GetGame :: "'d game_db \<Rightarrow> string \<Rightarrow> exn + 'd any_game" where
  "GetGame db n = (case smap_find (m_Games db) n of None \<Rightarrow> Inl Out_of_range | Some g \<Rightarrow> Inr g)"

definition GetGames :: "'d game_db \<Rightarrow> 'd any_game list" where
  "GetGames db = map snd (m_Games db)"

definition db_Disconnect :: "('d game_db, unit) io" where
  "db_Disconnect =
     bind_io (gets m_Games) (\<lambda>games.
     then_io (for_each games (\<lambda>(n, g). lift_exn (fst (game_Disconnect g))))
       (modify (\<lambda>db. db\<lparr>m_Games := []\<rparr>)))"

text \<open>A changed game object is seen through the map.\<close>

definition put_game :: "string \<Rightarrow> 'd any_game \<Rightarrow> 'd game_db \<Rightarrow> 'd game_db" where
  "put_game n g db = db\<lparr>m_Games := smap_assign n g (m_Games db)\<rparr>"

section \<open>It implements the interface\<close>

definition games_ok :: "'d game_db \<Rightarrow> bool" where
  "games_ok db \<longleftrightarrow> smap_ok (m_Games db) \<and>
     (\<forall>n g. smap_find (m_Games db) n = Some g \<longrightarrow> any_game_ok n g)"

interpretation gdb: game_directory HasGame GetGame put_game games_ok any_game_ok
proof unfold_locales
  fix db :: "'d game_db" and n m g
  show "HasGame db n \<Longrightarrow> \<exists>g. GetGame db n = Inr g"
    by (auto simp: HasGame_def GetGame_def smap_contains_iff)
  show "\<not> HasGame db n \<Longrightarrow> GetGame db n = Inl Out_of_range"
    by (auto simp: HasGame_def GetGame_def smap_contains_def)
  show "games_ok db \<Longrightarrow> GetGame db n = Inr g \<Longrightarrow> any_game_ok n g"
    by (auto simp: games_ok_def GetGame_def split: option.splits)
  assume ok: "games_ok db"
  then have sm: "smap_ok (m_Games db)" by (simp add: games_ok_def)
  show "any_game_ok n g \<Longrightarrow> games_ok (put_game n g db)"
    using ok sm by (auto simp: games_ok_def put_game_def smap.invar_assign smap.lookup_assign split: if_splits)
  show "HasGame db n \<Longrightarrow> HasGame (put_game n g db) m = HasGame db m"
    using sm by (auto simp: HasGame_def put_game_def smap_contains_def smap.lookup_assign)
  show "GetGame (put_game n g db) m = (if m = n then Inr g else GetGame db m)"
    using sm by (auto simp: GetGame_def put_game_def smap.lookup_assign)
qed

section \<open>Connecting builds sound games\<close>

lemma connect_game_ok:
  assumes "connect_game api made = Inr g" and "\<And>g. made = Inr g \<Longrightarrow> any_game_ok n g"
  shows "any_game_ok n g"
proof -
  obtain g0 where m: "made = Inr g0"
    and c: "(case game_Connect api g0 of (Inl e, _) \<Rightarrow> Inl e | (Inr _, g) \<Rightarrow> Inr g) = Inr g"
    using assms(1) by (auto simp: connect_game_def and_then_eq_Inr)
  obtain r g1 where "game_Connect api g0 = (r, g1)" by (cases "game_Connect api g0")
  with m c have g0: "made = Inr g0" "game_Connect api g0 = (Inr (), g)" by (cases r; simp)+
  show ?thesis
    using preservesD [OF game_Connect_ok assms(2) [OF g0(1)], of api] g0(2) by simp
qed

lemma make_game_ok: "make_game open_db data = Inr g \<Longrightarrow> game_ok (gd_name data) g"
  by (auto simp: make_game_def and_then_eq_Inr game_ctor_def game_ok_def split: if_splits)

lemma store_game_ok: "any_game_ok n g \<Longrightarrow> preserves games_ok (store_game n g)"
  unfolding store_game_def
  by (rule preserves_modify)
    (auto simp: games_ok_def smap.invar_emplace dest: smap.lookup_emplace_cases)

lemma any_game_ok_name: "any_game_ok n g \<Longrightarrow> any_name g = n"
  by (simp add: any_game_ok_def game_ok_def any_name_def)

lemma bind_lift_preserves:
  "(\<And>x. r = Inr x \<Longrightarrow> preserves I (f x)) \<Longrightarrow> preserves I (bind_io (lift_exn r) f)"
  by (cases r) (auto simp: preserves_def bind_io_def lift_exn_def)

lemma configured_game_ok: "configured_game open_db entry = Inr g \<Longrightarrow> \<exists>n. any_game_ok n g"
  by (auto simp: configured_game_def and_then_eq_Inr any_game_ok_def split: if_splits dest!: make_game_ok)

lemma bf2_name: "gd_name bf2Data = ''battlefield2''"
  by (simp add: bf2Data_def)

lemma default_data_name: "gd_name (default_data n s ks) = n"
  by (simp add: default_data_def)

lemma connect_store_ok:
  assumes "\<And>g. made = Inr g \<Longrightarrow> any_game_ok n g"
  shows "preserves games_ok (bind_io (lift_exn (connect_game api made)) (store_game n))"
proof (rule bind_lift_preserves)
  fix g assume "connect_game api made = Inr g"
  then have "any_game_ok n g" using assms by (rule connect_game_ok)
  then show "preserves games_ok (store_game n g)" by (rule store_game_ok)
qed

lemma connect_entry_ok:
  "preserves games_ok (bind_io (lift_exn (connect_game api (configured_game open_db entry)))
     (\<lambda>g. store_game (any_name g) g))"
proof (rule bind_lift_preserves)
  fix g assume g: "connect_game api (configured_game open_db entry) = Inr g"
  then obtain g0 where g0: "configured_game open_db entry = Inr g0"
    by (auto simp: connect_game_def and_then_eq_Inr)
  then obtain n where "any_game_ok n g0" using configured_game_ok by blast
  then have "any_game_ok n g" using g g0 by (intro connect_game_ok [OF g]) auto
  then show "preserves games_ok (store_game (any_name g) g)"
    using any_game_ok_name store_game_ok by metis
qed

lemma connect_bf2_ok:
  "preserves games_ok (bind_io (lift_exn (connect_game api
     (and_then (make_game open_db bf2Data) (\<lambda>g. Inr (Bf2_game g passive_mysql)))))
     (store_game ''battlefield2''))"
proof (rule connect_store_ok)
  fix g assume "and_then (make_game open_db bf2Data) (\<lambda>g. Inr (Bf2_game g passive_mysql)) = Inr g"
  then obtain g0 where "make_game open_db bf2Data = Inr g0" "g = Bf2_game g0 passive_mysql"
    by (auto simp: and_then_eq_Inr)
  then show "any_game_ok ''battlefield2'' g"
    using make_game_ok [of open_db bf2Data g0] bf2_name by (simp add: any_game_ok_def)
qed

lemma connect_gmtest_ok:
  "preserves games_ok (bind_io (lift_exn (connect_game api
     (and_then (make_game open_db (default_data ''gmtest'' s ks)) (\<lambda>g. Inr (Base_game g)))))
     (store_game ''gmtest''))"
proof (rule connect_store_ok)
  fix g assume "and_then (make_game open_db (default_data ''gmtest'' s ks)) (\<lambda>g. Inr (Base_game g)) = Inr g"
  then obtain g0 where "make_game open_db (default_data ''gmtest'' s ks) = Inr g0" "g = Base_game g0"
    by (auto simp: and_then_eq_Inr)
  then show "any_game_ok ''gmtest'' g"
    using make_game_ok [of open_db "default_data ''gmtest'' s ks" g0] default_data_name
    by (simp add: any_game_ok_def)
qed

lemma db_Connect_ok: "preserves games_ok (db_Connect api open_db)"
  unfolding db_Connect_def
  by (rule preserves_bind [OF preserves_gets])
    (rule preserves_then,
     rule preserves_if, rule connect_bf2_ok, rule preserves_for_each, rule connect_entry_ok,
     rule preserves_bind [OF preserves_gets], rule preserves_if, rule connect_gmtest_ok, rule preserves_ret)

lemma db_Disconnect_ok: "preserves games_ok db_Disconnect"
  unfolding db_Disconnect_def
  by (intro preserves_intros preserves_modify) (auto simp: games_ok_def intro: preserves_intros split: prod.splits)

section \<open>Properties\<close>

lemma store_game_contains:
  "games_ok db \<Longrightarrow> HasGame (snd (store_game n g db)) n"
  by (auto simp: store_game_def modify_def HasGame_def smap_contains_def games_ok_def
      smap.lookup_emplace split: option.splits)

lemma db_Connect_gmtest:
  assumes "db_Connect api open_db db = (Inr (), db')" and "games_ok db"
  shows "HasGame db' ''gmtest''"
proof -
  let ?first = "if m_Config db = [] then
      bind_io (lift_exn (connect_game api
          (and_then (make_game open_db bf2Data) (\<lambda>g. Inr (Bf2_game g passive_mysql)))))
        (store_game ''battlefield2'')
    else
      for_each (m_Config db) (\<lambda>entry.
        bind_io (lift_exn (connect_game api (configured_game open_db entry)))
          (\<lambda>g. store_game (any_name g) g))"
  have pre: "preserves games_ok ?first"
    by (rule preserves_if, rule connect_bf2_ok, rule preserves_for_each, rule connect_entry_ok)
  obtain db1 where f: "?first db = (Inr (), db1)"
    and r: "bind_io (gets m_Games) (\<lambda>games.
          if \<not> smap_contains games ''gmtest'' then
            bind_io (lift_exn (connect_game api
                (and_then (make_game open_db (default_data ''gmtest'' ''HA6zkS'' common_keys)) (\<lambda>g. Inr (Base_game g)))))
              (store_game ''gmtest'')
          else ret ()) db1 = (Inr (), db')"
    using assms(1) unfolding db_Connect_def then_io_def bind_io_Inr
    by (auto simp: gets_def simp del: for_each.simps)
  have ok: "games_ok db1" using preservesD [OF pre assms(2)] f by simp
  show ?thesis
  proof (cases "smap_contains (m_Games db1) ''gmtest''")
    case True
    then show ?thesis using r by (auto simp: bind_io_def gets_def ret_def HasGame_def)
  next
    case False
    then obtain g where "store_game ''gmtest'' g db1 = (Inr (), db')"
      using r by (auto simp: bind_io_def gets_def lift_exn_def split: sum.splits)
    then show ?thesis using store_game_contains [OF ok, of "''gmtest''" g] by simp
  qed
qed

text \<open>
  C13. The directory of games: whatever the configuration, a directory that is constructed and
  connected files every game under its own name, with a non-empty secret key and a sound key
  table, also when connecting stops with an exception; when connecting returns, the test game
  \<open>gmtest\<close> is there; and a name is reported by \<open>HasGame\<close> exactly when \<open>GetGame\<close> returns a game,
  which then is the sound game of that name, and throws \<open>std::out_of_range\<close> otherwise.
\<close>

theorem game_directory_sound:
  fixes api :: "('d, 's) sqlite3" and db :: "'d game_db"
  assumes "GameDBInMemory config = Inr db" and "db_Connect api open_db db = (r, db')"
  shows "games_ok db' \<and>
    (r = Inr () \<longrightarrow> HasGame db' ''gmtest'') \<and>
    (\<forall>n. if HasGame db' n
         then \<exists>g. GetGame db' n = Inr g \<and> any_name g = n \<and> gd_secretKey (m_Data (as_game g)) \<noteq> []
         else GetGame db' n = Inl Out_of_range)"
proof -
  have init: "games_ok db"
    using assms(1) by (auto simp: GameDBInMemory_def games_ok_def split: if_splits)
  have ok: "games_ok db'" using preservesD [OF db_Connect_ok init, of api open_db] assms(2) by simp
  have sound: "any_name g = n \<and> gd_secretKey (m_Data (as_game g)) \<noteq> []" if "GetGame db' n = Inr g" for n g
    using gdb.get_sound [OF ok that] by (simp add: any_game_ok_def game_ok_def any_name_def)
  show ?thesis
  proof (intro conjI allI)
    show "games_ok db'" by (rule ok)
    show "r = Inr () \<longrightarrow> HasGame db' ''gmtest''"
      using db_Connect_gmtest init assms(2) by blast
    show "if HasGame db' n
         then \<exists>g. GetGame db' n = Inr g \<and> any_name g = n \<and> gd_secretKey (m_Data (as_game g)) \<noteq> []
         else GetGame db' n = Inl Out_of_range" for n
      using gdb.get_has [of db' n] gdb.get_missing [of db' n] sound by auto
  qed
qed

lemma fst_connect_game_Inr:
  "fst (game_Connect api g) = Inr () \<Longrightarrow> connect_game api (Inr g) = Inr (snd (game_Connect api g))"
  by (cases "game_Connect api g") (simp add: connect_game_def)

theorem game_directory_sound_witness:
  "\<exists>db db'. GameDBInMemory [] = Inr db \<and> db_Connect quiet_sqlite (\<lambda>_. Inr ('''' :: string)) db = (Inr (), db') \<and>
     HasGame db' ''gmtest''"
proof -
  let ?open = "\<lambda>_ :: string. Inr ('''' :: string) :: exn + string"
  let ?db = "\<lparr>m_Config = [], m_Games = []\<rparr> :: string game_db"
  have db: "GameDBInMemory [] = Inr ?db" by (simp add: GameDBInMemory_def ValidateConfig_def)
  have conn: "fst (Connect quiet_sqlite g) = Inr ()"
    if "list_all (IsValidParamName \<circ> key_name) (gd_keys (m_Data g))" for g
    using register_keys_total [OF that, of 0 g]
    by (cases "register_keys 0 (gd_keys (m_Data g)) g")
      (auto simp: Connect_def bind_io_def gets_def on_db_def zoom_def db_exec_def quiet_sqlite_def)
  have bf2: "list_all (IsValidParamName \<circ> key_name) (gd_keys bf2Data)" by code_simp
  let ?g = "\<lambda>data. \<lparr>m_DB = '''', m_Data = data, m_Params = [], m_PopularValues = [], fired = []\<rparr> :: string game"
  have mk: "make_game ?open bf2Data = Inr (?g bf2Data)"
    "make_game ?open (default_data ''gmtest'' ''HA6zkS'' common_keys) =
       Inr (?g (default_data ''gmtest'' ''HA6zkS'' common_keys))"
    by (simp_all add: make_game_def game_ctor_def gamespy_max_registered_keys_def bf2Data_def
        default_data_def common_keys_def)
  have c1: "fst (game_Connect quiet_sqlite (Bf2_game (?g bf2Data) passive_mysql)) = Inr ()"
    using conn [of "?g bf2Data"] bf2
    by (cases "Connect quiet_sqlite (?g bf2Data)")
      (simp add: game_Connect_def on_game_def zoom_def bf2_Connect_def when_configured_def
        passive_mysql_def then_io_def bind_io_def ret_def)
  have c2: "fst (game_Connect quiet_sqlite (Base_game (?g (default_data ''gmtest'' ''HA6zkS'' common_keys)))) = Inr ()"
    using conn [of "?g (default_data ''gmtest'' ''HA6zkS'' common_keys)"] common_keys_valid
    by (cases "Connect quiet_sqlite (?g (default_data ''gmtest'' ''HA6zkS'' common_keys))")
      (simp add: game_Connect_def on_game_def zoom_def default_data_def)
  have "\<exists>db'. db_Connect quiet_sqlite ?open ?db = (Inr (), db')"
    using fst_connect_game_Inr [OF c1] fst_connect_game_Inr [OF c2]
    by (simp add: db_Connect_def bind_io_def then_io_def gets_def lift_exn_def store_game_def modify_def
        ret_def mk)
  then obtain db' where db': "db_Connect quiet_sqlite ?open ?db = (Inr (), db')" by blast
  show ?thesis using db db' game_directory_sound [OF db db'] by blast
qed

end
