(* ===== verification/Qr_Packets.thy ===== *)
theory Qr_Packets
  imports Std_Map
begin

text \<open>
  The query-and-reporting packets a game server sends to the master (\<open>emulator/qr.h\<close>,
  \<open>emulator/qr.cpp\<close>): the envelope \<open>QRPacket\<close>, the key/value section \<open>QRMap\<close>, the player and team
  tables \<open>QRTable\<close>, and the heartbeat made of the three.  A parser works on the bytes from
  \<open>pos\<close> to \<open>end\<close> and returns its result with the bytes left, or the error of \<open>std::unexpected\<close>.
  Shown: what the envelope accepts, that well-formed heartbeats are read back exactly, the
  shape of every parsed table, and when a heartbeat is rejected.
\<close>

section \<open>The envelope\<close>

datatype qr_error = too_small | unexpected_end | unknown_type

datatype qr_type = query | challenge | echo | heartbeat | adderror | echo_response
  | client_message | client_message_ack | keepalive | prequery_ip_verify

text \<open>The enumerators with their numeric values, 0 to 9.\<close>

definition qr_type_code :: "qr_type \<Rightarrow> u8" where
  "qr_type_code t = (case t of query \<Rightarrow> 0 | challenge \<Rightarrow> 1 | echo \<Rightarrow> 2 | heartbeat \<Rightarrow> 3
     | adderror \<Rightarrow> 4 | echo_response \<Rightarrow> 5 | client_message \<Rightarrow> 6 | client_message_ack \<Rightarrow> 7
     | keepalive \<Rightarrow> 8 | prequery_ip_verify \<Rightarrow> 9)"

definition qr_types :: "qr_type list" where
  "qr_types = [query, challenge, echo, heartbeat, adderror, echo_response, client_message,
     client_message_ack, keepalive, prequery_ip_verify]"

definition qr_type_of :: "u8 \<Rightarrow> qr_type" where
  "qr_type_of b = qr_types ! unat b"

record qr_packet =
  type_of_packet :: qr_type
  instance_key :: bytes
  qr_data :: bytes

definition qr_parse :: "bytes \<Rightarrow> qr_error + qr_packet" where
  "qr_parse buffer =
     (if length buffer < 5 then Inl too_small
      else if buffer ! 0 > qr_type_code prequery_ip_verify then Inl unknown_type
      else
        let data = drop 5 buffer
        in if data \<noteq> [] \<and> last data \<noteq> 0 then Inl unexpected_end
           else Inr \<lparr>type_of_packet = qr_type_of (buffer ! 0),
                     instance_key = [buffer ! 1, buffer ! 2, buffer ! 3, buffer ! 4],
                     qr_data = data\<rparr>)"

section \<open>The key/value section\<close>

text \<open>
  The loop of \<open>QRMap::Parse\<close>: \<open>key\<close> holds the key whose value comes next.  A string that is not
  terminated is an error; an empty string in key position ends the section; a key repeated keeps
  its first value (\<open>emplace\<close>).
\<close>

function qr_map_loop ::
  "bytes \<Rightarrow> bytes \<Rightarrow> (string, string) std_map \<Rightarrow> qr_error + (string, string) std_map \<times> bytes"
where
  "qr_map_loop pos k data =
     (if pos = [] then Inr (data, [])
      else case split_nul pos of
        None \<Rightarrow> Inl too_small
      | Some (str, pos) \<Rightarrow>
          if k = [] then
            (if str = [] then Inr (data, pos) else qr_map_loop pos str data)
          else qr_map_loop pos [] (smap_emplace (string_of k) (string_of str) data))"
  by pat_completeness auto
termination by (relation "measure (\<lambda>(pos, _, _). length pos)") (auto dest: split_nul_length)

declare qr_map_loop.simps [simp del]

definition qr_map_parse :: "bytes \<Rightarrow> qr_error + (string, string) std_map \<times> bytes" where
  "qr_map_parse pos = (if pos = [] then Inl too_small else qr_map_loop pos [] [])"

section \<open>The player and team tables\<close>

record qr_table =
  header_row :: "string list"
  table_rows :: "string list list"

record table_state =
  headers_parsed :: bool
  headers :: "string list"
  rows :: "string list list"

text \<open>Adding a cell to the last row, or to a new one when there is none or it is full.\<close>

definition push_cell :: "nat \<Rightarrow> string \<Rightarrow> string list list \<Rightarrow> string list list" where
  "push_cell width c rs =
     (let rs = (if rs = [] \<or> length (last rs) = width then rs @ [[]] else rs)
      in butlast rs @ [last rs @ [c]])"

function qr_table_loop ::
  "string \<Rightarrow> u16 \<Rightarrow> bytes \<Rightarrow> table_state \<Rightarrow> qr_error + table_state \<times> bytes"
where
  "qr_table_loop headerEnd n pos st =
     (if pos = [] then Inr (st, [])
      else case split_nul pos of
        None \<Rightarrow> Inl too_small
      | Some (col, pos) \<Rightarrow>
          let column = string_of col in
          if \<not> headers_parsed st \<and> suffix headerEnd column then
            qr_table_loop headerEnd n pos (st\<lparr>headers := headers st @ [column]\<rparr>)
          else if headers st = [] then Inl unexpected_end
          else if column = [] then
            (let st = st\<lparr>headers_parsed := True\<rparr>
             in if n = 0 then Inr (st, pos) else qr_table_loop headerEnd n pos st)
          else
            (let st = st\<lparr>rows := push_cell (length (headers st)) column (rows st)\<rparr>
             in if length (rows st) = unat n \<and> length (last (rows st)) = length (headers st)
                then Inr (st, pos)
                else qr_table_loop headerEnd n pos st))"
  by pat_completeness auto
termination
  by (relation "measure (\<lambda>(_, _, pos, _). length pos)") (auto dest: split_nul_length)

declare qr_table_loop.simps [simp del]

definition qr_table_parse :: "string \<Rightarrow> bytes \<Rightarrow> qr_error + qr_table \<times> bytes" where
  "qr_table_parse headerEnd pos =
     (case pos of
        hi # lo # pos \<Rightarrow>
          let n = un_be16 hi lo in
          and_then (qr_table_loop headerEnd n pos \<lparr>headers_parsed = False, headers = [], rows = []\<rparr>)
            (\<lambda>(st, pos).
              if length (rows st) < unat n \<or> (rows st \<noteq> [] \<and> length (last (rows st)) \<noteq> length (headers st))
              then Inl too_small
              else Inr (\<lparr>header_row = headers st, table_rows = rows st\<rparr>, pos))
      | _ \<Rightarrow> Inl too_small)"

section \<open>Heartbeats\<close>

record heartbeat_packet = qr_packet +
  serverData :: "(string, string) std_map"
  playerKeys :: "string list"
  playerValues :: "string list list"
  teamKeys :: "string list"
  teamValues :: "string list list"

text \<open>
  \<open>end\<close> is compared with \<open>packet.data.end()\<close>, the value it was initialised with; both are the
  position \<open>length (qr_data p)\<close>.
\<close>

definition heartbeat_parse :: "qr_packet \<Rightarrow> qr_error + heartbeat_packet" where
  "heartbeat_parse p =
     (let endpos = length (qr_data p);
          mk = (\<lambda>kvs pk pv tk tv. \<lparr>type_of_packet = type_of_packet p, instance_key = instance_key p,
            qr_data = [], serverData = kvs, playerKeys = pk, playerValues = pv,
            teamKeys = tk, teamValues = tv\<rparr>)
      in case qr_map_parse (qr_data p) of
           Inr (kvs, pos) \<Rightarrow>
             (case qr_table_parse ''_'' pos of
                Inr (players, pos) \<Rightarrow>
                  (case qr_table_parse ''_t'' pos of
                     Inr (teams, pos) \<Rightarrow>
                       Inr (mk kvs (header_row players) (table_rows players)
                              (header_row teams) (table_rows teams))
                   | Inl _ \<Rightarrow> Inl too_small)
              | Inl _ \<Rightarrow>
                  if endpos = length (qr_data p) then Inr (mk kvs [] [] [] []) else Inl too_small)
         | Inl _ \<Rightarrow> Inl too_small)"

section \<open>The wire format of a heartbeat\<close>

text \<open>
  The reference writer: what a game server puts on the wire for its key/value pairs and for a
  table of rectangular rows.
\<close>

definition zstr :: "string \<Rightarrow> bytes" where
  "zstr s = bytes_of s @ [0]"

definition qr_map_wire :: "(string \<times> string) list \<Rightarrow> bytes" where
  "qr_map_wire kvs = concat (map (\<lambda>(k, v). zstr k @ zstr v) kvs) @ [0]"

definition qr_table_wire :: "string list \<Rightarrow> string list list \<Rightarrow> bytes" where
  "qr_table_wire hs rs =
     be16 (of_nat (length rs)) @ concat (map zstr hs) @ [0] @ concat (map zstr (concat rs))"

definition no_nul :: "string \<Rightarrow> bool" where
  "no_nul s \<longleftrightarrow> NUL \<notin> set s"

definition wire_cell :: "string \<Rightarrow> bool" where
  "wire_cell s \<longleftrightarrow> no_nul s \<and> s \<noteq> []"

definition wire_table :: "string \<Rightarrow> string list \<Rightarrow> string list list \<Rightarrow> bool" where
  "wire_table headerEnd hs rs \<longleftrightarrow>
     hs \<noteq> [] \<and> list_all (\<lambda>h. no_nul h \<and> suffix headerEnd h) hs \<and>
     list_all (\<lambda>r. length r = length hs \<and> list_all wire_cell r) rs \<and> length rs < 2 ^ 16"

lemma split_nul_zstr [scan_simps]: "no_nul s \<Longrightarrow> split_nul (zstr s @ r) = Some (bytes_of s, r)"
  by (simp add: zstr_def no_nul_def split_nul_append)

lemma zstr_not_Nil [simp]: "zstr s \<noteq> []"
  by (simp add: zstr_def)

lemma split_nul_0 [simp]: "split_nul (0 # r) = Some ([], r)"
  by simp

section \<open>Reading the key/value section\<close>

lemma qr_map_loop_wire:
  "list_all (\<lambda>(k, v). wire_cell k \<and> no_nul v) kvs \<Longrightarrow>
   qr_map_loop (qr_map_wire kvs @ r) [] m = Inr (foldl (\<lambda>m (k, v). smap_emplace k v m) m kvs, r)"
proof (induction kvs arbitrary: m)
  case Nil
  then show ?case by (simp add: qr_map_wire_def qr_map_loop.simps)
next
  case (Cons b kvs)
  obtain k v where b [simp]: "b = (k, v)" by (cases b)
  from Cons.prems have kv: "no_nul k" "k \<noteq> []" "no_nul v" and rest: "list_all (\<lambda>(k, v). wire_cell k \<and> no_nul v) kvs"
    by (auto simp: wire_cell_def)
  have "qr_map_loop (qr_map_wire (b # kvs) @ r) [] m =
      qr_map_loop (zstr k @ zstr v @ qr_map_wire kvs @ r) [] m"
    by (simp add: qr_map_wire_def)
  also have "\<dots> = qr_map_loop (zstr v @ qr_map_wire kvs @ r) (bytes_of k) m"
    by (subst qr_map_loop.simps) (simp add: scan_simps kv)
  also have "\<dots> = qr_map_loop (qr_map_wire kvs @ r) [] (smap_emplace k v m)"
    by (subst qr_map_loop.simps) (simp add: scan_simps kv)
  finally show ?case using Cons.IH [OF rest] by simp
qed

lemma qr_map_parse_wire:
  "list_all (\<lambda>(k, v). wire_cell k \<and> no_nul v) kvs \<Longrightarrow>
   qr_map_parse (qr_map_wire kvs @ r) = Inr (smap_of_list kvs, r)"
  by (simp add: qr_map_parse_def qr_map_loop_wire smap_of_list_def) (simp add: qr_map_wire_def)

section \<open>Reading a table\<close>

lemma qr_table_loop_headers:
  "list_all (\<lambda>h. no_nul h \<and> suffix e h) hs \<Longrightarrow> \<not> headers_parsed st \<Longrightarrow>
   qr_table_loop e n (concat (map zstr hs) @ r) st =
     qr_table_loop e n r (st\<lparr>headers := headers st @ hs\<rparr>)"
proof (induction hs arbitrary: st)
  case (Cons h hs)
  have "qr_table_loop e n (concat (map zstr (h # hs)) @ r) st =
      qr_table_loop e n (zstr h @ concat (map zstr hs) @ r) st" by simp
  also have "\<dots> = qr_table_loop e n (concat (map zstr hs) @ r) (st\<lparr>headers := headers st @ [h]\<rparr>)"
    using Cons.prems by (subst qr_table_loop.simps) (simp add: scan_simps)
  finally show ?case using Cons by simp
qed simp

lemma push_cell_part:
  "length part < w \<Longrightarrow> push_cell w c (rs @ [part]) = rs @ [part @ [c]]"
  by (simp add: push_cell_def Let_def)

lemma push_cell_full:
  "rs = [] \<or> length (last rs) = w \<Longrightarrow> push_cell w c rs = rs @ [[c]]"
  by (auto simp: push_cell_def Let_def)

lemma qr_table_loop_cell:
  assumes "wire_cell c" and "headers_parsed st" and "headers st \<noteq> []"
  shows "qr_table_loop e n (zstr c @ r) st =
    (let st = st\<lparr>rows := push_cell (length (headers st)) c (rows st)\<rparr>
     in if length (rows st) = unat n \<and> length (last (rows st)) = length (headers st)
        then Inr (st, r) else qr_table_loop e n r st)"
  using assms by (subst qr_table_loop.simps) (simp add: scan_simps wire_cell_def)

lemma qr_table_loop_cells:
  assumes "list_all wire_cell cs" and "cs \<noteq> []" and "headers_parsed st"
    and "length part + length cs \<le> length (headers st)" and "rows st = rs @ [part]"
  shows "qr_table_loop e n (concat (map zstr cs) @ r) st =
    (let st = st\<lparr>rows := rs @ [part @ cs]\<rparr>
     in if Suc (length rs) = unat n \<and> length (part @ cs) = length (headers st)
        then Inr (st, r) else qr_table_loop e n r st)"
  using assms
proof (induction cs arbitrary: part st)
  case (Cons c cs)
  have hs: "headers st \<noteq> []" using Cons.prems by auto
  have push: "push_cell (length (headers st)) c (rs @ [part]) = rs @ [part @ [c]]"
    using Cons.prems by (simp add: push_cell_part)
  have step: "qr_table_loop e n (concat (map zstr (c # cs)) @ r) st =
    (let st = st\<lparr>rows := rs @ [part @ [c]]\<rparr>
     in if Suc (length rs) = unat n \<and> Suc (length part) = length (headers st)
        then Inr (st, concat (map zstr cs) @ r) else qr_table_loop e n (concat (map zstr cs) @ r) st)"
    using Cons.prems qr_table_loop_cell [of c st e n "concat (map zstr cs) @ r"] hs
    by (simp add: push Let_def)
  show ?case
  proof (cases "cs = []")
    case True
    then show ?thesis using step by (simp add: Let_def)
  next
    case False
    then have "Suc (length part) \<noteq> length (headers st)" using Cons.prems by (cases cs) auto
    then have "qr_table_loop e n (concat (map zstr (c # cs)) @ r) st =
        qr_table_loop e n (concat (map zstr cs) @ r) (st\<lparr>rows := rs @ [part @ [c]]\<rparr>)"
      using step by (simp add: Let_def)
    also have "\<dots> = (let st = st\<lparr>rows := rs @ [(part @ [c]) @ cs]\<rparr>
       in if Suc (length rs) = unat n \<and> length ((part @ [c]) @ cs) = length (headers st)
          then Inr (st, r) else qr_table_loop e n r st)"
      using Cons.IH [of "st\<lparr>rows := rs @ [part @ [c]]\<rparr>" "part @ [c]"] Cons.prems False
      by (simp add: Let_def)
    finally show ?thesis by simp
  qed
qed simp

lemma qr_table_loop_row:
  assumes "list_all wire_cell cs" and "headers_parsed st" and "cs \<noteq> []"
    and "length cs = length (headers st)"
    and "rows st = [] \<or> length (last (rows st)) = length (headers st)"
  shows "qr_table_loop e n (concat (map zstr cs) @ r) st =
    (let st = st\<lparr>rows := rows st @ [cs]\<rparr>
     in if length (rows st) = unat n then Inr (st, r) else qr_table_loop e n r st)"
proof -
  obtain c cs' where cs: "cs = c # cs'" using assms(3) by (cases cs) auto
  have hs: "headers st \<noteq> []" using assms by auto
  have push: "push_cell (length (headers st)) c (rows st) = rows st @ [[c]]"
    using assms(5) by (rule push_cell_full)
  have step: "qr_table_loop e n (concat (map zstr cs) @ r) st =
    (let st' = st\<lparr>rows := rows st @ [[c]]\<rparr>
     in if Suc (length (rows st)) = unat n \<and> 1 = length (headers st)
        then Inr (st', concat (map zstr cs') @ r) else qr_table_loop e n (concat (map zstr cs') @ r) st')"
    using assms qr_table_loop_cell [of c st e n "concat (map zstr cs') @ r"] hs
    by (simp add: push Let_def cs)
  show ?thesis
  proof (cases "cs' = []")
    case True
    then show ?thesis using step assms cs by (auto simp: Let_def)
  next
    case False
    then have "1 \<noteq> length (headers st)" using assms(4) cs by (cases cs') auto
    then show ?thesis
      using step assms cs False
        qr_table_loop_cells [of cs' "st\<lparr>rows := rows st @ [[c]]\<rparr>" "[c]" "rows st" e n r]
      by (simp add: Let_def)
  qed
qed

lemma qr_table_loop_rows:
  assumes "list_all (\<lambda>r. length r = length (headers st) \<and> list_all wire_cell r) rs"
    and "headers_parsed st" and "headers st \<noteq> []" and "rs \<noteq> []"
    and "rows st = [] \<or> length (last (rows st)) = length (headers st)"
    and "length (rows st) + length rs = unat n"
  shows "qr_table_loop e n (concat (map zstr (concat rs)) @ r) st =
    Inr (st\<lparr>rows := rows st @ rs\<rparr>, r)"
  using assms
proof (induction rs arbitrary: st)
  case (Cons cs rs)
  have cs: "list_all wire_cell cs" "cs \<noteq> []" "length cs = length (headers st)"
    using Cons.prems by auto
  have step: "qr_table_loop e n (concat (map zstr (concat (cs # rs))) @ r) st =
    (let st = st\<lparr>rows := rows st @ [cs]\<rparr>
     in if length (rows st) = unat n then Inr (st, concat (map zstr (concat rs)) @ r)
        else qr_table_loop e n (concat (map zstr (concat rs)) @ r) st)"
    using qr_table_loop_row [OF cs(1) Cons.prems(2) cs(2,3) Cons.prems(5), of e n "concat (map zstr (concat rs)) @ r"]
    by simp
  show ?case
  proof (cases "rs = []")
    case True
    then show ?thesis using step Cons.prems by (simp add: Let_def)
  next
    case False
    then have "Suc (length (rows st)) \<noteq> unat n" using Cons.prems by (cases rs) auto
    then show ?thesis
      using step Cons.IH [of "st\<lparr>rows := rows st @ [cs]\<rparr>"] Cons.prems False cs
      by (simp add: Let_def)
  qed
qed simp

lemma qr_table_parse_wire:
  assumes t: "wire_table e hs rs" and e: "e \<noteq> []"
  shows "qr_table_parse e (qr_table_wire hs rs @ r) = Inr (\<lparr>header_row = hs, table_rows = rs\<rparr>, r)"
proof -
  let ?n = "of_nat (length rs) :: u16"
  let ?st = "\<lparr>headers_parsed = True, headers = hs, rows = []\<rparr>"
  have n: "unat ?n = length rs" using t by (simp add: wire_table_def unat_of_nat)
  then have zero: "?n = 0 \<longleftrightarrow> rs = []" by (metis length_0_conv unat_eq_zero)
  have "qr_table_loop e ?n (concat (map zstr hs) @ 0 # concat (map zstr (concat rs)) @ r)
      \<lparr>headers_parsed = False, headers = [], rows = []\<rparr> =
    qr_table_loop e ?n (0 # concat (map zstr (concat rs)) @ r)
      \<lparr>headers_parsed = False, headers = hs, rows = []\<rparr>"
    using t by (subst qr_table_loop_headers) (auto simp: wire_table_def)
  also have "\<dots> = (if rs = [] then Inr (?st, r)
      else qr_table_loop e ?n (concat (map zstr (concat rs)) @ r) ?st)"
    using t e zero by (subst qr_table_loop.simps) (auto simp: wire_table_def)
  also have "\<dots> = Inr (?st\<lparr>rows := rs\<rparr>, r)"
    using t n qr_table_loop_rows [of ?st rs ?n e r] by (simp add: wire_table_def)
  finally have loop: "qr_table_loop e ?n (concat (map zstr hs) @ 0 # concat (map zstr (concat rs)) @ r)
      \<lparr>headers_parsed = False, headers = [], rows = []\<rparr> = Inr (?st\<lparr>rows := rs\<rparr>, r)" .
  have "rs \<noteq> [] \<Longrightarrow> length (last rs) = length hs"
    using t by (auto simp: wire_table_def list_all_iff)
  then show ?thesis
    using loop n by (auto simp: qr_table_parse_def qr_table_wire_def be16_def un_be16_be16)
qed

section \<open>Empty cells\<close>

text \<open>An empty cell is taken for the end of the headers wherever it stands, so it is skipped.\<close>

lemma qr_table_loop_sparse:
  assumes "list_all no_nul cs" and "headers_parsed st" and "n \<noteq> 0"
    and "rows st = (if part = [] then [] else [part])"
    and "length part + length (filter (\<lambda>c. c \<noteq> []) cs) < length (headers st)"
  shows "qr_table_loop e n (concat (map zstr cs) @ r) st =
    qr_table_loop e n r (st\<lparr>rows := (let p = part @ filter (\<lambda>c. c \<noteq> []) cs in if p = [] then [] else [p])\<rparr>)"
  using assms
proof (induction cs arbitrary: part st)
  case (Cons c cs)
  let ?r = "concat (map zstr cs) @ r"
  have hs: "headers st \<noteq> []" using Cons.prems by auto
  have w: "length part < length (headers st)" using Cons.prems(5) by linarith
  show ?case
  proof (cases "c = []")
    case True
    have same: "st\<lparr>headers_parsed := True\<rparr> = st" using Cons.prems by simp
    have "qr_table_loop e n (concat (map zstr (c # cs)) @ r) st =
        qr_table_loop e n ?r (st\<lparr>headers_parsed := True\<rparr>)"
      using Cons.prems True hs by (subst qr_table_loop.simps) (simp add: zstr_def)
    then have "qr_table_loop e n (concat (map zstr (c # cs)) @ r) st = qr_table_loop e n ?r st"
      by (simp only: same)
    then show ?thesis using Cons.IH [of st part] Cons.prems True by simp
  next
    case False
    then have c: "wire_cell c" using Cons.prems by (simp add: wire_cell_def)
    have push: "push_cell (length (headers st)) c (rows st) = [part @ [c]]"
    proof (cases "part = []")
      case True
      then show ?thesis using Cons.prems(4) push_cell_full [of "[]"] by simp
    next
      case False
      then show ?thesis using Cons.prems(4) push_cell_part [OF w, of c "[]"] by simp
    qed
    have lt: "Suc (length part) < length (headers st)" if "filter (\<lambda>c. c \<noteq> []) cs \<noteq> []"
      using Cons.prems(5) False that by (cases "filter (\<lambda>c. c \<noteq> []) cs") auto
    have ne: "Suc (length part) \<noteq> length (headers st)"
      using Cons.prems(5) False by auto
    have "qr_table_loop e n (concat (map zstr (c # cs)) @ r) st =
        qr_table_loop e n ?r (st\<lparr>rows := [part @ [c]]\<rparr>)"
      using qr_table_loop_cell [OF c Cons.prems(2) hs, of e n ?r] ne by (simp add: push Let_def)
    then show ?thesis
      using Cons.IH [of "st\<lparr>rows := [part @ [c]]\<rparr>" "part @ [c]"] Cons.prems False
      by (simp add: Let_def)
  qed
next
  case Nil
  then have "st\<lparr>rows := (if part = [] then [] else [part])\<rparr> = st" by (cases st) simp
  then show ?case by (simp add: Let_def)
qed

section \<open>Properties\<close>

lemma qr_type_of_code [simp]: "qr_type_of (qr_type_code t) = t"
  by (cases t) (simp_all add: qr_type_of_def qr_type_code_def qr_types_def)

lemma qr_type_code_le: "qr_type_code t \<le> 9"
  by (cases t) (simp_all add: qr_type_code_def)

lemma qr_type_code_of: "b \<le> 9 \<Longrightarrow> qr_type_code (qr_type_of b) = b"
proof -
  assume "b \<le> 9"
  then have "unat b \<le> 9" by (simp add: word_le_nat_alt)
  then have "unat b \<in> set [0..<10]" by simp
  moreover have "\<forall>k \<in> set [0..<10]. unat (qr_type_code (qr_types ! k)) = k" by code_simp
  ultimately show ?thesis by (metis qr_type_of_def word_unat_eq_iff)
qed

lemma qr_parse_Inr:
  "qr_parse b = Inr p \<longleftrightarrow>
   (\<exists>t i d. b = qr_type_code t # i @ d \<and> length i = 4 \<and> (d = [] \<or> last d = 0) \<and>
     p = \<lparr>type_of_packet = t, instance_key = i, qr_data = d\<rparr>)"
proof
  assume p: "qr_parse b = Inr p"
  then have len: "5 \<le> length b" by (auto simp: qr_parse_def split: if_splits)
  then obtain b0 b1 b2 b3 b4 d where b: "b = b0 # [b1, b2, b3, b4] @ d"
    by (auto simp: Suc_le_length_iff eval_nat_numeral)
  have "qr_type_code prequery_ip_verify = 9" by (simp add: qr_type_code_def)
  with p b have "b0 \<le> 9" "d = [] \<or> last d = 0"
    "p = \<lparr>type_of_packet = qr_type_of b0, instance_key = [b1, b2, b3, b4], qr_data = d\<rparr>"
    by (auto simp: qr_parse_def Let_def eval_nat_numeral not_less split: if_splits)
  then show "\<exists>t i d. b = qr_type_code t # i @ d \<and> length i = 4 \<and> (d = [] \<or> last d = 0) \<and>
     p = \<lparr>type_of_packet = t, instance_key = i, qr_data = d\<rparr>"
    using b qr_type_code_of by (metis length_Cons list.size(3) numeral_eq_Suc pred_numeral_simps(2)
        BitM.simps(1) BitM.simps(2) Num.numeral_1_eq_Suc_0 pred_numeral_simps(1) One_nat_def eval_nat_numeral(2,3))
next
  assume "\<exists>t i d. b = qr_type_code t # i @ d \<and> length i = 4 \<and> (d = [] \<or> last d = 0) \<and>
     p = \<lparr>type_of_packet = t, instance_key = i, qr_data = d\<rparr>"
  then obtain t i d where b: "b = qr_type_code t # i @ d" "length i = 4" "d = [] \<or> last d = 0"
    and p: "p = \<lparr>type_of_packet = t, instance_key = i, qr_data = d\<rparr>" by blast
  then obtain i1 i2 i3 i4 where "i = [i1, i2, i3, i4]"
    by (auto simp: length_Suc_conv eval_nat_numeral)
  moreover have "\<not> 9 < qr_type_code t" using qr_type_code_le [of t] by simp
  moreover have "qr_type_code prequery_ip_verify = 9" by (simp add: qr_type_code_def)
  ultimately show "qr_parse b = Inr p"
    using b p by (auto simp: qr_parse_def Let_def eval_nat_numeral)
qed

text \<open>
  The envelope parser accepts exactly the buffers made of the code of a packet type, a
  four-byte instance key and a payload that is empty or ends with NUL, and returns these three
  parts unchanged.
\<close>

theorem qr_parse_exact:
  "qr_parse b = Inr p \<longleftrightarrow>
   (\<exists>t i d. b = qr_type_code t # i @ d \<and> length i = 4 \<and> (d = [] \<or> last d = 0) \<and>
     p = \<lparr>type_of_packet = t, instance_key = i, qr_data = d\<rparr>)"
  by (rule qr_parse_Inr)



text \<open>
  When a heartbeat is rejected: its key/value section is malformed, or its player table is
  well formed and its team table is not.  A malformed player table is never an error: the
  comparison that is to recognise a heartbeat without tables compares \<open>end\<close> with itself, so the
  heartbeat is accepted with its key/value pairs and no tables.
\<close>

theorem heartbeat_verdict:
  "(isl (heartbeat_parse p) \<longleftrightarrow>
     isl (qr_map_parse (qr_data p)) \<or>
     (\<exists>kvs pos players pos'. qr_map_parse (qr_data p) = Inr (kvs, pos) \<and>
       qr_table_parse ''_'' pos = Inr (players, pos') \<and> isl (qr_table_parse ''_t'' pos'))) \<and>
   (\<forall>kvs pos e. qr_map_parse (qr_data p) = Inr (kvs, pos) \<longrightarrow> qr_table_parse ''_'' pos = Inl e \<longrightarrow>
     heartbeat_parse p = Inr \<lparr>type_of_packet = type_of_packet p, instance_key = instance_key p,
       qr_data = [], serverData = kvs, playerKeys = [], playerValues = [],
       teamKeys = [], teamValues = []\<rparr>)"
  by (auto simp: heartbeat_parse_def Let_def isl_def split: sum.splits prod.splits)

theorem heartbeat_verdict_witness:
  "heartbeat_parse \<lparr>type_of_packet = heartbeat, instance_key = [1, 2, 3, 4],
     qr_data = qr_map_wire [(''gamename'', ''gmtest'')] @ [0, 1]\<rparr> =
   Inr \<lparr>type_of_packet = heartbeat, instance_key = [1, 2, 3, 4], qr_data = [],
     serverData = [(''gamename'', ''gmtest'')], playerKeys = [], playerValues = [],
     teamKeys = [], teamValues = []\<rparr>"
proof -
  have "qr_map_parse (qr_map_wire [(''gamename'', ''gmtest'')] @ [0, 1]) =
      Inr ([(''gamename'', ''gmtest'')], [0, 1])"
    by (subst qr_map_parse_wire)
      (simp_all add: wire_cell_def no_nul_def smap_of_list_def smap_emplace_def smap_contains_def)
  moreover have "qr_table_parse ''_'' [0, 1] = Inl too_small"
    by (simp add: qr_table_parse_def qr_table_loop.simps un_be16_def)
  ultimately show ?thesis
    using heartbeat_verdict [of "\<lparr>type_of_packet = heartbeat, instance_key = [1, 2, 3, 4],
      qr_data = qr_map_wire [(''gamename'', ''gmtest'')] @ [0, 1]\<rparr>"]
    by simp
qed

text \<open>
  A player row with an empty value is not read: the empty string that ends the headers is
  recognised at every position of the table, so an empty cell is skipped, the row stays short and
  the table is rejected.
\<close>

theorem qr_table_empty_cell:
  assumes "hs \<noteq> []" and "e \<noteq> []" and "list_all (\<lambda>h. no_nul h \<and> suffix e h) hs"
    and "list_all no_nul row" and "length row = length hs" and "[] \<in> set row"
  shows "qr_table_parse e (qr_table_wire hs [row]) = Inl too_small"
proof -
  let ?st = "\<lparr>headers_parsed = True, headers = hs, rows = []\<rparr>"
  let ?cells = "filter (\<lambda>c. c \<noteq> []) row"
  have short: "length ?cells < length hs"
    using assms(5,6) by (metis (mono_tags, lifting) length_filter_less)
  have "qr_table_loop e 1 (concat (map zstr hs) @ 0 # concat (map zstr row))
      \<lparr>headers_parsed = False, headers = [], rows = []\<rparr> =
    qr_table_loop e 1 (0 # concat (map zstr row)) \<lparr>headers_parsed = False, headers = hs, rows = []\<rparr>"
    using assms by (subst qr_table_loop_headers) auto
  also have "\<dots> = qr_table_loop e 1 (concat (map zstr row)) ?st"
    using assms by (subst qr_table_loop.simps) auto
  also have "\<dots> = qr_table_loop e 1 [] (?st\<lparr>rows := if ?cells = [] then [] else [?cells]\<rparr>)"
    using qr_table_loop_sparse [of row ?st 1 "[]" e "[]"] assms short by simp
  also have "\<dots> = Inr (?st\<lparr>rows := if ?cells = [] then [] else [?cells]\<rparr>, [])"
    by (subst qr_table_loop.simps) simp
  finally show ?thesis
    using short by (auto simp: qr_table_parse_def qr_table_wire_def be16_def un_be16_def)
qed

theorem qr_table_empty_cell_witness:
  "qr_table_parse ''_'' (qr_table_wire [''player_'', ''clan_''] [[''soldier'', '''']]) = Inl too_small"
  by (rule qr_table_empty_cell) (simp_all add: no_nul_def suffix_def)

end
