(* ===== verification/Md5_Digest.thy ===== *)
theory Md5_Digest
  imports Gs_Prelude "HOL-Library.Monad_Syntax"
begin

text \<open>
  \<open>emulator/md5.h\<close> and \<open>emulator/md5.cpp\<close>: the MD5 class, whose \<open>update\<close> fills a 16-word
  buffer piece by piece and hashes it whenever it is full.  A write at index 16 or above, or a
  read past the end of the message, is \<open>None\<close>.  Shown: that never happens; the buffered code hashes
  exactly the blocks of the padded message (message, one bit, zeros, 64-bit length), for every
  message length; digests have their fixed length and alphabet.
\<close>

section \<open>State and tables\<close>

record md5 =
  a0 :: u32
  b0 :: u32
  c0 :: u32
  d0 :: u32
  m_array :: "nat \<Rightarrow> u32"
  m_first :: nat

definition k_array :: "u32 list" where
  "k_array = [
    0xd76aa478, 0xe8c7b756, 0x242070db, 0xc1bdceee,
    0xf57c0faf, 0x4787c62a, 0xa8304613, 0xfd469501,
    0x698098d8, 0x8b44f7af, 0xffff5bb1, 0x895cd7be,
    0x6b901122, 0xfd987193, 0xa679438e, 0x49b40821,
    0xf61e2562, 0xc040b340, 0x265e5a51, 0xe9b6c7aa,
    0xd62f105d, 0x02441453, 0xd8a1e681, 0xe7d3fbc8,
    0x21e1cde6, 0xc33707d6, 0xf4d50d87, 0x455a14ed,
    0xa9e3e905, 0xfcefa3f8, 0x676f02d9, 0x8d2a4c8a,
    0xfffa3942, 0x8771f681, 0x6d9d6122, 0xfde5380c,
    0xa4beea44, 0x4bdecfa9, 0xf6bb4b60, 0xbebfbc70,
    0x289b7ec6, 0xeaa127fa, 0xd4ef3085, 0x04881d05,
    0xd9d4d039, 0xe6db99e5, 0x1fa27cf8, 0xc4ac5665,
    0xf4292244, 0x432aff97, 0xab9423a7, 0xfc93a039,
    0x655b59c3, 0x8f0ccc92, 0xffeff47d, 0x85845dd1,
    0x6fa87e4f, 0xfe2ce6e0, 0xa3014314, 0x4e0811a1,
    0xf7537e82, 0xbd3af235, 0x2ad7d2bb, 0xeb86d391]"

definition s_array :: "nat list" where
  "s_array = [
    7, 12, 17, 22, 7, 12, 17, 22, 7, 12, 17, 22, 7, 12, 17, 22,
    5, 9, 14, 20, 5, 9, 14, 20, 5, 9, 14, 20, 5, 9, 14, 20,
    4, 11, 16, 23, 4, 11, 16, 23, 4, 11, 16, 23, 4, 11, 16, 23,
    6, 10, 15, 21, 6, 10, 15, 21, 6, 10, 15, 21, 6, 10, 15, 21]"

definition left_rotate :: "u32 \<Rightarrow> nat \<Rightarrow> u32" where
  "left_rotate x c = push_bit c x OR drop_bit (32 - c) x"

section \<open>Filling the buffer\<close>

definition reset_m_array :: "md5 \<Rightarrow> md5" where
  "reset_m_array h = h\<lparr>m_first := 0\<rparr>"

text \<open>\<open>*m_array_first_ = w; ++m_array_first_\<close>, inside the 16 words.\<close>

definition m_put :: "u32 \<Rightarrow> md5 \<Rightarrow> md5 option" where
  "m_put w h =
     (if m_first h < 16
      then Some (h\<lparr>m_array := (m_array h)(m_first h := w), m_first := Suc (m_first h)\<rparr>)
      else None)"

text \<open>Four bytes read with \<open>input_u8\<close>, the first lowest.\<close>

definition le32 :: "u8 \<Rightarrow> u8 \<Rightarrow> u8 \<Rightarrow> u8 \<Rightarrow> u32" where
  "le32 a b c d = ucast a OR push_bit 8 (ucast b) OR push_bit 16 (ucast c) OR push_bit 24 (ucast d)"

text \<open>
  \<open>bytes_to_m_array\<close>: words until \<open>m_array_first_\<close> is \<open>m_array_last\<close>; the iterator \<open>first\<close>
  is the list of the bytes not yet read.
\<close>

fun bytes_to_m_array :: "nat \<Rightarrow> bytes \<Rightarrow> md5 \<Rightarrow> (bytes \<times> md5) option" where
  "bytes_to_m_array m_last (a # b # c # d # first) h =
     (if m_first h = m_last then Some (a # b # c # d # first, h)
      else do { h \<leftarrow> m_put (le32 a b c d) h; bytes_to_m_array m_last first h })"
| "bytes_to_m_array m_last first h =
     (if m_first h = m_last then Some (first, h) else None)"

lemma bytes_to_m_array_le:
  "bytes_to_m_array m_last first h = Some (first', h') \<Longrightarrow> length first' \<le> length first"
  by (induction m_last first h rule: bytes_to_m_array.induct)
    (fastforce split: if_splits Option.bind_splits)+

lemma bytes_to_m_array_less:
  assumes "bytes_to_m_array m_last first h = Some (first', h')" and "m_first h \<noteq> m_last"
  shows "length first' < length first"
  using assms by (cases "(m_last, first, h)" rule: bytes_to_m_array.cases)
    (auto split: Option.bind_splits dest!: bytes_to_m_array_le)

text \<open>
  \<open>true_bit_to_m_array\<close>: the last, incomplete word with the terminating one bit.
\<close>

definition true_bit_word :: "bytes \<Rightarrow> nat \<Rightarrow> u32 option" where
  "true_bit_word first r =
     (if r = 0 then Some 0x00000080
      else if r = 1 then
        (case first of a # _ \<Rightarrow> Some (ucast a OR 0x00008000) | _ \<Rightarrow> None)
      else if r = 2 then
        (case first of a # b # _ \<Rightarrow> Some (ucast a OR push_bit 8 (ucast b) OR 0x00800000)
         | _ \<Rightarrow> None)
      else
        (case first of a # b # c # _ \<Rightarrow>
           Some (ucast a OR push_bit 8 (ucast b) OR push_bit 16 (ucast c) OR 0x80000000)
         | _ \<Rightarrow> None))"

definition true_bit_to_m_array :: "bytes \<Rightarrow> nat \<Rightarrow> md5 \<Rightarrow> md5 option" where
  "true_bit_to_m_array first chunk_length h =
     do { w \<leftarrow> true_bit_word first (chunk_length mod 4); m_put w h }"

function zeros_to_m_array :: "nat \<Rightarrow> md5 \<Rightarrow> md5 option" where
  "zeros_to_m_array m_last h =
     (if m_first h = m_last then Some h
      else do { h \<leftarrow> m_put 0 h; zeros_to_m_array m_last h })"
  by pat_completeness auto
termination
  by (relation "measure (\<lambda>(m_last, h). 16 - m_first h)") (auto simp: m_put_def split: if_splits)

declare zeros_to_m_array.simps [simp del]

definition original_length_bits_to_m_array :: "u64 \<Rightarrow> md5 \<Rightarrow> md5 option" where
  "original_length_bits_to_m_array bits h =
     do { h \<leftarrow> m_put (ucast (bits AND 0xFFFFFFFF)) h;
          m_put (ucast (drop_bit 32 bits AND 0xFFFFFFFF)) h }"

section \<open>The compression function\<close>

definition md5_round :: "(nat \<Rightarrow> u32) \<Rightarrow> nat \<Rightarrow> u32 \<times> u32 \<times> u32 \<times> u32 \<Rightarrow> u32 \<times> u32 \<times> u32 \<times> u32" where
  "md5_round m i = (\<lambda>(A, B, C, D).
     let (F, g) =
       (if i < 16 then ((B AND C) OR (NOT B AND D), i)
        else if i < 32 then ((D AND B) OR (NOT D AND C), (5 * i + 1) mod 16)
        else if i < 48 then (B XOR C XOR D, (3 * i + 5) mod 16)
        else (C XOR (B OR NOT D), (7 * i) mod 16))
     in (D, B + left_rotate (A + F + k_array ! i + m g) (s_array ! i), B, C))"

definition md5_compress :: "(nat \<Rightarrow> u32) \<Rightarrow> u32 \<times> u32 \<times> u32 \<times> u32 \<Rightarrow> u32 \<times> u32 \<times> u32 \<times> u32" where
  "md5_compress m = (\<lambda>(A, B, C, D).
     let (A', B', C', D') = fold (md5_round m) [0..<64] (A, B, C, D)
     in (A + A', B + B', C + C', D + D'))"

definition hash_chunk :: "md5 \<Rightarrow> md5" where
  "hash_chunk h =
     (let (a, b, c, d) = md5_compress (m_array h) (a0 h, b0 h, c0 h, d0 h)
      in h\<lparr>a0 := a, b0 := b, c0 := c, d0 := d\<rparr>)"

section \<open>\<open>update\<close>\<close>

text \<open>The loop over whole 64-byte chunks: the bytes left and the state.\<close>

function md5_chunks :: "bytes \<Rightarrow> md5 \<Rightarrow> (bytes \<times> md5) option" where
  "md5_chunks first h =
     (if 64 \<le> length first then
        do { (first', h) \<leftarrow> bytes_to_m_array 16 first (reset_m_array h);
             md5_chunks first' (hash_chunk h) }
      else Some (first, h))"
  by pat_completeness auto
termination
  by (relation "measure (\<lambda>(first, _). length first)")
    (auto dest!: bytes_to_m_array_less simp: reset_m_array_def)

declare md5_chunks.simps [simp del]

text \<open>What follows the loop: the incomplete chunk, the padding and the length.\<close>

definition md5_last_chunk :: "u64 \<Rightarrow> bytes \<Rightarrow> md5 \<Rightarrow> md5 option" where
  "md5_last_chunk original_length_bits first h =
     do { let chunk_length = length first;
          (first, h) \<leftarrow> bytes_to_m_array (chunk_length div 4) first (reset_m_array h);
          h \<leftarrow> true_bit_to_m_array first chunk_length h;
          if 56 \<le> chunk_length then
            do { h \<leftarrow> zeros_to_m_array 16 h;
                 h \<leftarrow> zeros_to_m_array 14 (reset_m_array (hash_chunk h));
                 h \<leftarrow> original_length_bits_to_m_array original_length_bits h;
                 Some (hash_chunk h) }
          else
            do { h \<leftarrow> zeros_to_m_array 14 h;
                 h \<leftarrow> original_length_bits_to_m_array original_length_bits h;
                 Some (hash_chunk h) } }"

definition md5_update :: "bytes \<Rightarrow> md5 \<Rightarrow> md5 option" where
  "md5_update input h =
     do { let original_length_bits = (of_nat (length input) * 8 :: u64);
          (first, h) \<leftarrow> md5_chunks input h;
          md5_last_chunk original_length_bits first h }"

text \<open>The default member initialisers (the buffer's content is not initialised).\<close>

definition md5_init :: "(nat \<Rightarrow> u32) \<Rightarrow> md5" where
  "md5_init junk = \<lparr>a0 = 0x67452301, b0 = 0xefcdab89, c0 = 0x98badcfe, d0 = 0x10325476,
     m_array = junk, m_first = 0\<rparr>"

section \<open>Digests\<close>

definition uint32_to_byte :: "u32 \<Rightarrow> bytes" where
  "uint32_to_byte n = [ucast n, ucast (drop_bit 8 n), ucast (drop_bit 16 n), ucast (drop_bit 24 n)]"

definition hex_chars :: string where
  "hex_chars = ''0123456789abcdef''"

definition uint32_to_hex :: "u32 \<Rightarrow> string" where
  "uint32_to_hex n =
     map (\<lambda>i. hex_chars ! unat (drop_bit (i XOR 4) n AND 0xf)) [0, 4, 8, 12, 16, 20, 24, 28 :: nat]"

definition digest :: "md5 \<Rightarrow> bytes" where
  "digest h = uint32_to_byte (a0 h) @ uint32_to_byte (b0 h) @ uint32_to_byte (c0 h) @ uint32_to_byte (d0 h)"

definition hex_digest :: "md5 \<Rightarrow> string" where
  "hex_digest h = uint32_to_hex (a0 h) @ uint32_to_hex (b0 h) @ uint32_to_hex (c0 h) @ uint32_to_hex (d0 h)"

section \<open>The reference: MD5 of RFC 1321\<close>

text \<open>
  The padded message and its blocks of 16 little-endian words, with no buffer: what the class
  promises to hash.
\<close>

definition md5_iv :: "u32 \<times> u32 \<times> u32 \<times> u32" where
  "md5_iv = (0x67452301, 0xefcdab89, 0x98badcfe, 0x10325476)"

definition md5_pad :: "bytes \<Rightarrow> bytes" where
  "md5_pad msg =
     (let bits = (of_nat (length msg) * 8 :: u64)
      in msg @ [0x80] @ replicate ((119 - length msg mod 64) mod 64) 0 @
         uint32_to_byte (ucast bits) @ uint32_to_byte (ucast (drop_bit 32 bits)))"

definition word_at :: "bytes \<Rightarrow> nat \<Rightarrow> u32" where
  "word_at bs j = le32 (bs ! (4 * j)) (bs ! (4 * j + 1)) (bs ! (4 * j + 2)) (bs ! (4 * j + 3))"

function md5_blocks :: "bytes \<Rightarrow> u32 \<times> u32 \<times> u32 \<times> u32 \<Rightarrow> u32 \<times> u32 \<times> u32 \<times> u32" where
  "md5_blocks bs st =
     (if 64 \<le> length bs then md5_blocks (drop 64 bs) (md5_compress (word_at bs) st) else st)"
  by pat_completeness auto
termination
  by (relation "measure (\<lambda>(bs, _). length bs)") auto

declare md5_blocks.simps [simp del]

definition md5_reference :: "bytes \<Rightarrow> u32 \<times> u32 \<times> u32 \<times> u32" where
  "md5_reference msg = md5_blocks (md5_pad msg) md5_iv"

definition md5_vec :: "md5 \<Rightarrow> u32 \<times> u32 \<times> u32 \<times> u32" where
  "md5_vec h = (a0 h, b0 h, c0 h, d0 h)"

section \<open>The buffer is filled with the words of the block\<close>

lemma word_at_Cons4 [simp]: "word_at (a # b # c # d # r) (Suc j) = word_at r j"
  by (simp add: word_at_def add.commute)

lemma word_at_0 [simp]: "word_at (a # b # c # d # r) 0 = le32 a b c d"
  by (simp add: word_at_def eval_nat_numeral)

lemma word_at_append:
  "length u = 4 * q \<Longrightarrow> word_at (u @ x) j = (if j < q then word_at u j else word_at x (j - q))"
proof (cases "j < q")
  case False
  then obtain k where "j = q + k" using le_Suc_ex not_less by blast
  moreover assume "length u = 4 * q"
  ultimately show ?thesis by (simp add: word_at_def nth_append)
qed (simp add: word_at_def nth_append)

lemma no_between [simp]: "(a \<le> i \<and> i < (a :: nat)) = False"
  by simp

lemma bytes_to_m_array_eq:
  "m_first h + n \<le> 16 \<Longrightarrow> 4 * n \<le> length first \<Longrightarrow>
   bytes_to_m_array (m_first h + n) first h =
     Some (drop (4 * n) first,
       h\<lparr>m_array := (\<lambda>i. if m_first h \<le> i \<and> i < m_first h + n then word_at first (i - m_first h)
                        else m_array h i),
         m_first := m_first h + n\<rparr>)"
proof (induction n arbitrary: first h)
  case 0
  then show ?case
    by (cases "(m_first h, first, h)" rule: bytes_to_m_array.cases) auto
next
  case (Suc n)
  then have "4 \<le> length first" by simp
  then obtain a b c d r where f: "first = a # b # c # d # r"
    by (auto simp: numeral_eq_Suc Suc_le_length_iff)
  define g where "g = h\<lparr>m_array := (m_array h)(m_first h := le32 a b c d), m_first := Suc (m_first h)\<rparr>"
  have put: "m_put (le32 a b c d) h = Some g"
    using Suc.prems by (simp add: m_put_def g_def)
  have "bytes_to_m_array (m_first g + n) r g =
     Some (drop (4 * n) r,
       g\<lparr>m_array := (\<lambda>i. if m_first g \<le> i \<and> i < m_first g + n then word_at r (i - m_first g)
                        else m_array g i),
         m_first := m_first g + n\<rparr>)"
    using Suc.prems f by (intro Suc.IH) (simp_all add: g_def)
  moreover have "(\<lambda>i. if m_first g \<le> i \<and> i < m_first g + n then word_at r (i - m_first g)
                        else m_array g i) =
      (\<lambda>i. if m_first h \<le> i \<and> i < m_first h + Suc n then word_at first (i - m_first h)
                        else m_array h i)"
    by (auto simp: g_def f fun_eq_iff Suc_le_eq Suc_diff_Suc [symmetric])
  moreover have "drop (4 + 4 * n) (a # b # c # d # r) = drop (4 * n) r"
    by (simp add: numeral_eq_Suc)
  ultimately show ?case
    using put by (simp add: f g_def)
qed

lemma zeros_to_m_array_eq:
  "m_first h \<le> m \<Longrightarrow> m \<le> 16 \<Longrightarrow>
   zeros_to_m_array m h =
     Some (h\<lparr>m_array := (\<lambda>i. if m_first h \<le> i \<and> i < m then 0 else m_array h i), m_first := m\<rparr>)"
proof (induction m h rule: zeros_to_m_array.induct)
  case (1 m h)
  show ?case
  proof (cases "m_first h = m")
    case True
    then show ?thesis by (subst zeros_to_m_array.simps) auto
  next
    case False
    define g where "g = h\<lparr>m_array := (m_array h)(m_first h := 0), m_first := Suc (m_first h)\<rparr>"
    have put: "m_put 0 h = Some g"
      using False "1.prems" by (simp add: m_put_def g_def)
    have "zeros_to_m_array m g =
        Some (g\<lparr>m_array := (\<lambda>i. if m_first g \<le> i \<and> i < m then 0 else m_array g i), m_first := m\<rparr>)"
      using False "1.prems" by (intro "1.IH" [OF False]) (simp_all add: put, simp_all add: g_def)
    then show ?thesis
      using False put "1.prems"
      by (subst zeros_to_m_array.simps) (auto simp: g_def fun_eq_iff Suc_le_eq)
  qed
qed

lemma md5_compress_cong:
  assumes "\<And>g. g < 16 \<Longrightarrow> m g = m' g"
  shows "md5_compress m = md5_compress m'"
proof -
  have "md5_round m i = md5_round m' i" for i
    using assms by (auto simp: md5_round_def fun_eq_iff Let_def)
  then have "md5_round m = md5_round m'" by (rule ext)
  then show ?thesis by (simp add: md5_compress_def)
qed

lemma hash_chunk_vec: "md5_vec (hash_chunk h) = md5_compress (m_array h) (md5_vec h)"
  by (simp add: hash_chunk_def md5_vec_def split: prod.split)

lemma hash_chunk_block:
  "(\<And>j. j < 16 \<Longrightarrow> m_array h j = word_at bs j) \<Longrightarrow>
     md5_vec (hash_chunk h) = md5_compress (word_at bs) (md5_vec h)"
  using md5_compress_cong [of "m_array h" "word_at bs"] by (simp add: hash_chunk_vec)

section \<open>Whole chunks\<close>

lemma md5_chunks_eq:
  "\<exists>h'. md5_chunks bs h = Some (drop (64 * (length bs div 64)) bs, h') \<and>
        md5_vec h' = md5_blocks bs (md5_vec h)"
proof (induction bs h rule: md5_chunks.induct)
  case (1 bs h)
  show ?case
  proof (cases "64 \<le> length bs")
    case True
    define r where "r = reset_m_array h"
    have r: "m_first r = 0" "md5_vec r = md5_vec h"
      by (simp_all add: r_def reset_m_array_def md5_vec_def)
    define g where "g = r\<lparr>m_array := (\<lambda>i. if 0 \<le> i \<and> i < 16 then word_at bs i else m_array r i),
      m_first := 16\<rparr>"
    have b: "bytes_to_m_array 16 bs r = Some (drop 64 bs, g)"
      using bytes_to_m_array_eq [of r 16 bs] True r by (simp add: g_def cong: if_cong)
    have "md5_vec (hash_chunk g) = md5_compress (word_at bs) (md5_vec h)"
      using hash_chunk_block [of g bs] r by (simp add: g_def md5_vec_def)
    moreover obtain h' where "md5_chunks (drop 64 bs) (hash_chunk g) =
        Some (drop (64 * (length (drop 64 bs) div 64)) (drop 64 bs), h')"
      "md5_vec h' = md5_blocks (drop 64 bs) (md5_vec (hash_chunk g))"
      using "1.IH" [OF True, of "(drop 64 bs, g)" "drop 64 bs" g] b by (auto simp: r_def)
    moreover have "64 * ((length bs - 64) div 64) + 64 = 64 * (length bs div 64)"
      using True by (simp add: le_div_geq [of 64 "length bs"])
    ultimately show ?thesis
      using True b by (subst md5_chunks.simps, subst md5_blocks.simps) (simp add: r_def)
  next
    case False
    then show ?thesis by (subst md5_chunks.simps, subst md5_blocks.simps) simp
  qed
qed

text \<open>The reference on a message of whole blocks followed by more.\<close>

lemma md5_blocks_append:
  "length pre = 64 * k \<Longrightarrow> md5_blocks (pre @ bs) st = md5_blocks bs (md5_blocks pre st)"
proof (induction k arbitrary: pre st)
  case (Suc k)
  then have "64 \<le> length pre" by simp
  moreover have "md5_compress (word_at (pre @ bs)) = md5_compress (word_at pre)"
    using Suc.prems by (intro md5_compress_cong) (simp add: word_at_append [of pre "16 * Suc k"])
  moreover have "md5_blocks (drop 64 pre @ bs) st' = md5_blocks bs (md5_blocks (drop 64 pre) st')" for st'
    using Suc.prems by (intro Suc.IH) simp
  ultimately show ?case
    by (subst md5_blocks.simps, subst (3) md5_blocks.simps) simp
qed (subst (2) md5_blocks.simps, simp)

lemma md5_blocks_short: "length bs < 64 \<Longrightarrow> md5_blocks bs st = st"
  by (subst md5_blocks.simps) simp

lemma md5_blocks_tail:
  assumes "length pre = 64 * k" and "length t < 64"
  shows "md5_blocks (pre @ t) st = md5_blocks pre st"
  using assms by (simp add: md5_blocks_append md5_blocks_short)

lemma md5_blocks_one: "length b = 64 \<Longrightarrow> md5_blocks b st = md5_compress (word_at b) st"
  by (subst md5_blocks.simps) (simp add: md5_blocks_short)

section \<open>The last chunk\<close>

text \<open>
  The tail of the message is \<open>u @ r\<close>: \<open>q\<close> whole words and fewer than four bytes.  The word with
  the one bit is the next word of the padded message.
\<close>

lemma true_bit_word_eq:
  assumes "length r < 4"
  shows "true_bit_word r (length r) = Some (word_at (r @ 0x80 # replicate (3 - length r) 0 @ x) 0)"
proof -
  consider "r = []" | a where "r = [a]" | a b where "r = [a, b]" | a b c where "r = [a, b, c]"
    using assms by (auto simp: numeral_eq_Suc less_Suc_eq length_Suc_conv)
  moreover have "replicate 3 (0 :: u8) = [0, 0, 0]" "replicate 2 (0 :: u8) = [0, 0]"
    by (simp_all add: numeral_eq_Suc)
  ultimately show ?thesis
    by cases (simp_all add: true_bit_word_def le32_def)
qed

lemma word_at_zeros:
  assumes "length x mod 4 = 0" and "4 * j + 4 \<le> n"
  shows "word_at (replicate n 0 @ x) j = 0"
  using assms by (simp add: word_at_def nth_append le32_def)

lemma word_at_le32:
  "word_at (uint32_to_byte w @ x) 0 = w"
proof -
  have "le32 (ucast w) (ucast (drop_bit 8 w)) (ucast (drop_bit 16 w)) (ucast (drop_bit 24 w)) = w"
    (is "?l = w")
  proof (rule bit_word_eqI)
    fix n assume "n < LENGTH(32)"
    then consider "n < 8" | "8 \<le> n \<and> n < 16" | "16 \<le> n \<and> n < 24" | "24 \<le> n \<and> n < 32"
      by fastforce
    then show "bit ?l n \<longleftrightarrow> bit w n"
      by cases (auto simp: le32_def bit_simps)
  qed
  then show ?thesis by (simp add: uint32_to_byte_def)
qed

lemma length_uint32_to_byte [simp]: "length (uint32_to_byte w) = 4"
  by (simp add: uint32_to_byte_def)

lemma original_length_bits_eq:
  assumes "m_first h = 14"
  shows "original_length_bits_to_m_array bits h =
    Some (h\<lparr>m_array := (m_array h)(14 := ucast bits, 15 := ucast (drop_bit 32 bits)), m_first := 16\<rparr>)"
proof -
  have m: "(0xFFFFFFFF :: u64) = mask 32" by (simp add: mask_eq_exp_minus_1)
  have "ucast (bits AND 0xFFFFFFFF) = (ucast bits :: u32)"
    unfolding m by (rule bit_word_eqI) (simp add: bit_simps)
  moreover have "ucast (drop_bit 32 bits AND 0xFFFFFFFF) = (ucast (drop_bit 32 bits) :: u32)"
    unfolding m by (rule bit_word_eqI) (simp add: bit_simps)
  ultimately show ?thesis
    using assms by (simp add: original_length_bits_to_m_array_def m_put_def)
qed

text \<open>The state when the padding starts: the words of \<open>t\<close> and the word with the one bit.\<close>

lemma md5_start_padding:
  fixes t :: bytes and x :: bytes
  assumes "length t < 64"
  defines "q \<equiv> length t div 4" and "p \<equiv> t @ 0x80 # replicate (3 - length t mod 4) 0"
  obtains first h1 h' where
    "bytes_to_m_array q t (reset_m_array h) = Some (first, h1)"
    "true_bit_to_m_array first (length t) h1 = Some h'"
    "md5_vec h' = md5_vec h" "m_first h' = Suc q"
    "\<And>j. j \<le> q \<Longrightarrow> m_array h' j = word_at p j"
proof -
  define u r where "u = take (4 * q) t" and "r = drop (4 * q) t"
  have t: "t = u @ r" by (simp add: u_def r_def)
  have lu: "length u = 4 * q" by (simp add: u_def q_def)
  have lr: "length r = length t mod 4" by (simp add: r_def q_def minus_mult_div_eq_mod)
  have lr4: "length r < 4" by (simp add: lr)
  have q: "q < 16" "4 * q \<le> length t" using assms(1) by (simp_all add: q_def)
  define g where "g = (reset_m_array h)\<lparr>m_array := (\<lambda>i. if i < q then word_at t i else m_array h i),
    m_first := q\<rparr>"
  have b: "bytes_to_m_array q t (reset_m_array h) = Some (r, g)"
    using bytes_to_m_array_eq [of "reset_m_array h" q t] q
    by (simp add: g_def r_def reset_m_array_def cong: if_cong)
  define w where "w = word_at (r @ 0x80 # replicate (3 - length r) 0) 0"
  have "true_bit_to_m_array r (length t) g = m_put w g"
    using true_bit_word_eq [OF lr4, of "[]"] by (simp add: true_bit_to_m_array_def w_def lr [symmetric])
  also have "\<dots> = Some (g\<lparr>m_array := (m_array g)(q := w), m_first := Suc q\<rparr>)"
    using q by (simp add: m_put_def g_def)
  finally have put: "true_bit_to_m_array r (length t) g =
      Some (g\<lparr>m_array := (m_array g)(q := w), m_first := Suc q\<rparr>)" .
  have p: "p = u @ (r @ 0x80 # replicate (3 - length r) 0)"
    by (simp add: p_def lr [symmetric]) (simp add: t)
  have "w = word_at p q" by (simp add: p word_at_append [OF lu] w_def)
  moreover have "word_at t j = word_at p j" if "j < q" for j
    using that by (simp add: p t word_at_append [OF lu])
  ultimately show thesis
    using that [of r g "g\<lparr>m_array := (m_array g)(q := w), m_first := Suc q\<rparr>"] b put
    by (auto simp: g_def md5_vec_def reset_m_array_def)
qed

lemma md5_last_chunk_eq:
  assumes "length t < 64"
  shows "\<exists>h'. md5_last_chunk bits t h = Some h' \<and>
    md5_vec h' = md5_blocks (t @ [0x80] @ replicate ((119 - length t) mod 64) 0 @
      uint32_to_byte (ucast bits) @ uint32_to_byte (ucast (drop_bit 32 bits))) (md5_vec h)"
proof -
  define q L where "q = length t div 4"
    and "L = uint32_to_byte (ucast bits) @ uint32_to_byte (ucast (drop_bit 32 bits))"
  define p where "p = t @ 0x80 # replicate (3 - length t mod 4) (0 :: u8)"
  have lt: "length t = 4 * q + length t mod 4" by (simp add: q_def)
  then have lp: "length p = 4 * Suc q" by (simp add: p_def)
  have L: "length L = 8" "word_at L 0 = ucast bits" "word_at L 1 = ucast (drop_bit 32 bits)"
    using word_at_append [of "uint32_to_byte (ucast bits)" 1 "uint32_to_byte (ucast (drop_bit 32 bits))" 1]
      word_at_le32 [of "ucast bits"] word_at_le32 [of "ucast (drop_bit 32 bits)" "[]"]
    by (simp_all add: L_def)
  obtain first h1 g where g: "bytes_to_m_array q t (reset_m_array h) = Some (first, h1)"
    "true_bit_to_m_array first (length t) h1 = Some g"
    "md5_vec g = md5_vec h" "m_first g = Suc q" "\<And>j. j \<le> q \<Longrightarrow> m_array g j = word_at p j"
    using md5_start_padding [OF assms, of h] unfolding q_def p_def by blast
  show ?thesis
  proof (cases "56 \<le> length t")
    case False
    then have q: "q \<le> 13" using lt by linarith
    have "(119 - length t) mod 64 = 55 - length t" using False by (simp add: mod_if)
    moreover have "55 - length t = (3 - length t mod 4) + 4 * (13 - q)" using q lt by linarith
    ultimately have "replicate ((119 - length t) mod 64) (0 :: u8) =
        replicate (3 - length t mod 4) 0 @ replicate (4 * (13 - q)) 0"
      by (simp only: replicate_add)
    then have pad: "t @ [0x80] @ replicate ((119 - length t) mod 64) 0 @ L =
        p @ replicate (4 * (13 - q)) 0 @ L"
      by (simp add: p_def)
    define z where "z = g\<lparr>m_array := (\<lambda>i. if Suc q \<le> i \<and> i < 14 then 0 else m_array g i), m_first := 14\<rparr>"
    define f where "f = z\<lparr>m_array := (m_array z)(14 := ucast bits, 15 := ucast (drop_bit 32 bits)), m_first := 16\<rparr>"
    have "md5_last_chunk bits t h = Some (hash_chunk f)"
      using g(1,2) False zeros_to_m_array_eq [of g 14] q g(4) original_length_bits_eq [of z bits]
      by (simp add: md5_last_chunk_def q_def [symmetric] z_def f_def)
    moreover have "m_array f j = word_at (p @ replicate (4 * (13 - q)) 0 @ L) j" if j: "j < 16" for j
    proof -
      consider "j \<le> q" | "q < j \<and> j < 14" | "j = 14" | "j = 15"
        by atomize_elim (use j in auto)
      then show ?thesis
        using q g(5) L lp word_at_append [of "p @ replicate (4 * (13 - q)) 0" 14 L j]
        by cases (auto simp: word_at_append [OF lp] f_def z_def word_at_zeros)
    qed
    moreover have "md5_vec f = md5_vec h"
      using g(3) by (simp add: f_def z_def md5_vec_def)
    moreover have "length (p @ replicate (4 * (13 - q)) 0 @ L) = 64"
      using lp L(1) q by simp
    ultimately show ?thesis
      unfolding L_def [symmetric] pad
      using hash_chunk_block [of f "p @ replicate (4 * (13 - q)) 0 @ L"] by (simp add: md5_blocks_one)
  next
    case True
    then have q: "q \<le> 15" using lt assms by linarith
    have "(119 - length t) mod 64 = 119 - length t" using True by simp
    moreover have "119 - length t = (3 - length t mod 4) + (4 * (15 - q) + 56)"
      using True assms lt by linarith
    ultimately have "replicate ((119 - length t) mod 64) (0 :: u8) =
        replicate (3 - length t mod 4) 0 @ replicate (4 * (15 - q)) 0 @ replicate 56 0"
      by (simp only: replicate_add)
    then have pad: "t @ [0x80] @ replicate ((119 - length t) mod 64) 0 @ L =
        (p @ replicate (4 * (15 - q)) 0) @ replicate 56 0 @ L"
      by (simp add: p_def)
    define y where "y = g\<lparr>m_array := (\<lambda>i. if Suc q \<le> i \<and> i < 16 then 0 else m_array g i), m_first := 16\<rparr>"
    define z where "z = (reset_m_array (hash_chunk y))\<lparr>m_array :=
      (\<lambda>i. if i < 14 then 0 else m_array (hash_chunk y) i), m_first := 14\<rparr>"
    define f where "f = z\<lparr>m_array := (m_array z)(14 := ucast bits, 15 := ucast (drop_bit 32 bits)), m_first := 16\<rparr>"
    have "zeros_to_m_array 14 (reset_m_array (hash_chunk y)) = Some z"
      using zeros_to_m_array_eq [of "reset_m_array (hash_chunk y)" 14]
      by (simp add: z_def reset_m_array_def cong: if_cong)
    then have "md5_last_chunk bits t h = Some (hash_chunk f)"
      using g(1,2) True zeros_to_m_array_eq [of g 16] q g(4) original_length_bits_eq [of z bits]
      by (simp add: md5_last_chunk_def q_def [symmetric] y_def f_def) (simp add: z_def)
    moreover have "m_array y j = word_at (p @ replicate (4 * (15 - q)) 0) j" if j: "j < 16" for j
      using j q g(5) by (auto simp: word_at_append [OF lp] y_def word_at_zeros [of "[]", simplified])
    moreover have "m_array f j = word_at (replicate 56 0 @ L) j" if j: "j < 16" for j
    proof -
      consider "j < 14" | "j = 14" | "j = 15" by atomize_elim (use j in auto)
      then show ?thesis
        using L word_at_append [of "replicate 56 0" 14 L j]
        by cases (auto simp: f_def z_def word_at_zeros)
    qed
    moreover have "md5_vec f = md5_vec (hash_chunk y)" "md5_vec y = md5_vec h"
      using g(3) by (simp_all add: f_def z_def y_def md5_vec_def reset_m_array_def)
    moreover have "length (p @ replicate (4 * (15 - q)) 0) = 64"
      using lp q by simp
    ultimately show ?thesis
      unfolding L_def [symmetric] pad
      using hash_chunk_block [of f "replicate 56 0 @ L"]
        hash_chunk_block [of y "p @ replicate (4 * (15 - q)) 0"] L(1)
      by (simp add: md5_blocks_append [of _ 1] md5_blocks_one del: append_assoc)
  qed
qed

section \<open>The whole message\<close>

lemma md5_update_eq:
  "\<exists>h'. md5_update msg h = Some h' \<and> md5_vec h' = md5_blocks (md5_pad msg) (md5_vec h)"
proof -
  define n where "n = 64 * (length msg div 64)"
  define pre t where "pre = take n msg" and "t = drop n msg"
  have msg: "msg = pre @ t" by (simp add: pre_def t_def)
  have lp: "length pre = 64 * (length msg div 64)" by (simp add: pre_def n_def)
  have lt: "length t = length msg mod 64"
    using mult_div_mod_eq [of 64 "length msg"] by (simp add: t_def n_def minus_mult_div_eq_mod)
  then have t64: "length t < 64" by simp
  obtain g where g: "md5_chunks msg h = Some (t, g)" "md5_vec g = md5_blocks msg (md5_vec h)"
    using md5_chunks_eq [of msg h] by (auto simp: t_def n_def)
  define bits where "bits = (of_nat (length msg) * 8 :: u64)"
  define P where "P = t @ [0x80] @ replicate ((119 - length t) mod 64) 0 @
      uint32_to_byte (ucast bits) @ uint32_to_byte (ucast (drop_bit 32 bits))"
  have "md5_pad msg = pre @ P"
    by (simp add: md5_pad_def Let_def bits_def P_def lt) (simp add: msg)
  moreover have "md5_blocks msg st = md5_blocks pre st" for st
    using md5_blocks_tail [OF lp t64] by (simp add: msg [symmetric])
  ultimately have "md5_blocks (md5_pad msg) (md5_vec h) = md5_blocks P (md5_vec g)"
    using md5_blocks_append [OF lp] g(2) by simp
  then show ?thesis
    using md5_last_chunk_eq [OF t64, of bits g] g(1)
    by (simp add: md5_update_def bits_def [symmetric] P_def)
qed

lemma md5_vec_init: "md5_vec (md5_init junk) = md5_iv"
  by (simp add: md5_vec_def md5_init_def md5_iv_def)

lemma hex_digest_vec: "md5_vec h = md5_vec h' \<Longrightarrow> hex_digest h = hex_digest h'"
  by (simp add: md5_vec_def hex_digest_def)

section \<open>\<open>utils::md5\<close>\<close>

text \<open>
  The hash of a text as 32 hex digits.  The buffer of the code is not initialised; its content
  does not matter, and the second branch is never taken.
\<close>

definition utils_md5 :: "string \<Rightarrow> string" where
  "utils_md5 s =
     (case md5_update (bytes_of s) (md5_init (\<lambda>_. 0)) of
        Some h \<Rightarrow> hex_digest h
      | None \<Rightarrow> [])"

text \<open>The two digits of a byte, high nibble first.\<close>

definition byte_hex :: "u8 \<Rightarrow> string" where
  "byte_hex b = [hex_chars ! (unat b div 16), hex_chars ! (unat b mod 16)]"

lemma uint32_to_hex_bytes: "uint32_to_hex n = concat (map byte_hex (uint32_to_byte n))"
proof -
  have small: "unat n < 2 ^ LENGTH(32)" by (rule unsigned_less)
  have nib: "unat (drop_bit k n AND 0xf) = unat n div 2 ^ k mod 16" for k
  proof -
    have "drop_bit k n AND 0xf = take_bit 4 (drop_bit k n)"
      by (simp add: take_bit_eq_mask mask_eq_exp_minus_1)
    then have "unat (drop_bit k n AND 0xf) = take_bit 4 (unat (drop_bit k n))"
      by (simp only: unsigned_take_bit_eq)
    also have "\<dots> = unat n div 2 ^ k mod 16"
      using small by (subst unsigned_drop_bit_eq) (simp add: take_bit_eq_mod drop_bit_eq_div)
    finally show ?thesis .
  qed
  have byt: "unat (ucast (drop_bit k n) :: u8) = unat n div 2 ^ k mod 256" for k
    using small by (subst unsigned_ucast_eq, subst unsigned_drop_bit_eq)
      (simp add: take_bit_eq_mod drop_bit_eq_div)
  have low: "unat (ucast n :: u8) = unat n mod 256" using byt [of 0] by simp
  have split: "x mod 256 div 16 = x div 16 mod 16" "x mod 256 mod 16 = x mod 16" for x :: nat
    by (simp_all add: mod_mult2_eq [of x 16 16, simplified] mod_mod_cancel)
  show ?thesis
    by (simp add: uint32_to_hex_def uint32_to_byte_def byte_hex_def nib byt low split
        div_mult2_eq [symmetric])
qed

lemma hex_digest_bytes: "hex_digest h = concat (map byte_hex (digest h))"
  by (simp add: hex_digest_def digest_def uint32_to_hex_bytes)

lemma length_digest: "length (digest h) = 16"
  by (simp add: digest_def)

lemma utils_md5_eq:
  "\<exists>h. md5_update (bytes_of s) (md5_init junk) = Some h \<and>
       md5_vec h = md5_reference (bytes_of s) \<and> utils_md5 s = hex_digest h"
proof -
  obtain h where h: "md5_update (bytes_of s) (md5_init junk) = Some h"
    "md5_vec h = md5_reference (bytes_of s)"
    using md5_update_eq [of "bytes_of s" "md5_init junk"] by (auto simp: md5_vec_init md5_reference_def)
  obtain g where g: "md5_update (bytes_of s) (md5_init (\<lambda>_. 0)) = Some g"
    "md5_vec g = md5_reference (bytes_of s)"
    using md5_update_eq [of "bytes_of s" "md5_init (\<lambda>_. 0)"]
    by (auto simp: md5_vec_init md5_reference_def)
  show ?thesis
    using h g hex_digest_vec [of h g] by (simp add: utils_md5_def)
qed

lemma length_uint32_to_hex [simp]: "length (uint32_to_hex w) = 8"
  by (simp add: uint32_to_hex_def)

lemma hex_chars_nth_in: "k < 16 \<Longrightarrow> hex_chars ! k \<in> set hex_chars"
  by (rule nth_mem) (simp add: hex_chars_def)

lemma set_byte_hex: "set (byte_hex b) \<subseteq> set hex_chars"
proof -
  have "unat b < 2 ^ LENGTH(8)" by (rule unsigned_less)
  then show ?thesis by (simp add: byte_hex_def hex_chars_nth_in less_mult_imp_div_less)
qed

lemma set_hex_digest: "set (hex_digest h) \<subseteq> set hex_chars"
  using set_byte_hex by (auto simp: hex_digest_bytes)

lemma length_utils_md5 [simp]: "length (utils_md5 s) = 32"
  using utils_md5_eq [of s "\<lambda>_. 0"] by (auto simp: hex_digest_def)

lemma set_utils_md5: "set (utils_md5 s) \<subseteq> set hex_chars"
  using utils_md5_eq [where junk = "\<lambda>_. 0"] set_hex_digest by metis

section \<open>Properties\<close>


text \<open>
  The printed digest is the 16 digest bytes in order, each as two lower-case hex digits with
  the high nibble first, so \<open>utils::md5\<close> always returns 32 characters of the hex alphabet.
\<close>

theorem md5_hex_digest_shape:
  "hex_digest h = concat (map byte_hex (digest h)) \<and> length (digest h) = 16 \<and>
   length (utils_md5 s) = 32 \<and> set (utils_md5 s) \<subseteq> set ''0123456789abcdef''"
  using hex_digest_bytes length_digest length_utils_md5 set_utils_md5 [of s]
  unfolding hex_chars_def by blast

end
