(* ===== verification/Crypt_Utils.thy ===== *)
theory Crypt_Utils
  imports Text_Format Md5_Digest
begin

text \<open>
  The ciphers of \<open>emulator/utils.h\<close> and \<open>emulator/utils.cpp\<close>: the repeating-key \<open>gs_xor\<close>, the
  password encoding, the RC4-like \<open>encode\<close> of the master-server challenge and the login proof.
  The base64 iterators are Boost's: they are the parameters \<open>enc\<close> and \<open>dec\<close> of the definitions
  that use them, their documented behaviour is the locale \<open>base64_codec\<close>, and the codec of
  RFC 4648 interprets it.  Shown: \<open>gs_xor\<close> and the password stream are involutions, what a
  password round trip returns, and that the challenge cipher permutes its box and never divides
  by zero for a registered game.
\<close>

section \<open>\<open>gs_xor\<close>\<close>

definition xor_gamespy :: string where
  "xor_gamespy = ''gamespy''"

definition xor_GameSpy3D :: string where
  "xor_GameSpy3D = ''GameSpy3D''"

definition xor_ProjectAphex :: string where
  "xor_ProjectAphex = ''ProjectAphex''"

definition xor_Industries :: string where
  "xor_Industries = ''Industries''"

text \<open>\<open>c ^= gsxor[i++ % gsxor.size()]\<close> over the message, from counter \<open>i\<close>.\<close>

fun gs_xor_from :: "nat \<Rightarrow> string \<Rightarrow> string \<Rightarrow> string" where
  "gs_xor_from i gsxor [] = []"
| "gs_xor_from i gsxor (c # cs) =
     xor_char c (gsxor ! (i mod length gsxor)) # gs_xor_from (Suc i) gsxor cs"

definition gs_xor :: "string \<Rightarrow> string \<Rightarrow> string" where
  "gs_xor message gsxor = gs_xor_from 0 gsxor message"

section \<open>The password stream\<close>

text \<open>\<open>std::minstd_rand0\<close>: multiplier 16807, modulus \<open>2 ^ 31 - 1\<close>; each call returns the new state.\<close>

definition minstd_next :: "nat \<Rightarrow> nat" where
  "minstd_next x = 16807 * x mod 2147483647"

definition minstd_seed :: "nat \<Rightarrow> nat" where
  "minstd_seed s = (if s mod 2147483647 = 0 then 1 else s mod 2147483647)"

text \<open>The bytes \<open>rnd() % 0xFF\<close> the stream yields from state \<open>x\<close>.\<close>

fun rnd_bytes :: "nat \<Rightarrow> nat \<Rightarrow> bytes" where
  "rnd_bytes x 0 = []"
| "rnd_bytes x (Suc n) = of_nat (minstd_next x mod 0xFF) # rnd_bytes (minstd_next x) n"

fun gspassenc_from :: "nat \<Rightarrow> string \<Rightarrow> string" where
  "gspassenc_from x [] = []"
| "gspassenc_from x (c # cs) =
     (let x = minstd_next x
      in char_of_byte (byte_of c XOR of_nat (x mod 0xFF)) # gspassenc_from x cs)"

definition gspassenc :: "string \<Rightarrow> string" where
  "gspassenc password = gspassenc_from (minstd_seed 0x79707367) password"

section \<open>Base64 and the password encoding\<close>

text \<open>
  \<open>enc\<close> stands for the iterator \<open>base64_from_binary<transform_width<..., 6, 8>>\<close>; \<open>dec\<close> for
  \<open>transform_width<binary_from_base64<...>, 8, 6>\<close>, which throws on a character outside the
  alphabet (\<open>None\<close>).
\<close>

definition base64_encode :: "(string \<Rightarrow> string) \<Rightarrow> string \<Rightarrow> string" where
  "base64_encode enc data = enc data @ replicate ((3 - length data mod 3) mod 3) (CHR ''='')"

definition trim_right_nul :: "string \<Rightarrow> string" where
  "trim_right_nul s = rev (dropWhile (\<lambda>c. c = NUL) (rev s))"

definition base64_decode :: "(string \<Rightarrow> string option) \<Rightarrow> string \<Rightarrow> string option" where
  "base64_decode dec64 data = map_option trim_right_nul (dec64 data)"

text \<open>\<open>std::replace\<close>\<close>

definition replace_char :: "char \<Rightarrow> char \<Rightarrow> string \<Rightarrow> string" where
  "replace_char a b s = map (\<lambda>c. if c = a then b else c) s"

definition passencode :: "(string \<Rightarrow> string) \<Rightarrow> string \<Rightarrow> string" where
  "passencode enc password =
     (let base64 = base64_encode enc (gspassenc password);
          base64 = replace_char (CHR ''='') (CHR ''_'') base64;
          base64 = replace_char (CHR ''+'') (CHR ''['') base64
      in replace_char (CHR ''/'') (CHR '']'') base64)"

definition passdecode :: "(string \<Rightarrow> string option) \<Rightarrow> string \<Rightarrow> string option" where
  "passdecode dec64 password =
     (let password = replace_char (CHR ''_'') (CHR ''='') password;
          password = replace_char (CHR ''['') (CHR ''+'') password;
          password = replace_char (CHR '']'') (CHR ''/'') password
      in map_option gspassenc (base64_decode dec64 password))"

section \<open>The challenge cipher \<open>encode\<close>\<close>

text \<open>
  The box is an array of 256 bytes, indexed modulo 256; \<open>i\<close> and \<open>j\<close> never leave that range, so
  they are kept modulo 256.  A \<open>char\<close> is sign-extended before it is added, which is the same
  byte modulo 256.  An empty key divides by zero in \<open>i % keyLength\<close>: \<open>None\<close>.
\<close>

definition key_schedule :: "string \<Rightarrow> u8 \<Rightarrow> u8" where
  "key_schedule k =
     fst (fold (\<lambda>i (sbox, j).
       let j = j + sbox (of_nat i) + byte_of (k ! (i mod length k))
       in (swap_at sbox (of_nat i) j, j)) [0..<256] (\<lambda>i. i, 0))"

fun prga :: "(u8 \<Rightarrow> u8) \<Rightarrow> u8 \<Rightarrow> u8 \<Rightarrow> string \<Rightarrow> string \<times> (u8 \<Rightarrow> u8)" where
  "prga sbox i j [] = ([], sbox)"
| "prga sbox i j (c # cs) =
     (let i = i + byte_of c + 1;
          j = j + sbox i;
          sbox = swap_at sbox i j;
          c = char_of_byte (byte_of c XOR sbox (sbox i + sbox j));
          (cs, sbox) = prga sbox i j cs
      in (c # cs, sbox))"

definition encode :: "(string \<Rightarrow> string) \<Rightarrow> string \<Rightarrow> string \<Rightarrow> string option" where
  "encode enc k message =
     (if k = [] then None
      else Some (base64_encode enc (fst (prga (key_schedule k) 0 0 message))))"

section \<open>The login proof\<close>

definition generate_challenge :: "string \<Rightarrow> string \<Rightarrow> string \<Rightarrow> string \<Rightarrow> string" where
  "generate_challenge name md5Password localChallenge remoteChallenge =
     utils_md5 (md5Password @ replicate 48 (CHR '' '') @ name @ localChallenge @ remoteChallenge @ md5Password)"

section \<open>Random texts\<close>

text \<open>
  \<open>utils::random_string\<close>: \<open>draws\<close> are the values of the generator, which the distribution brings into
  the range of the table.
\<close>

definition random_string :: "(nat \<Rightarrow> nat) \<Rightarrow> string \<Rightarrow> nat \<Rightarrow> string" where
  "random_string draws table len = map (\<lambda>i. table ! (draws i mod length table)) [0..<len]"

lemma length_random_string [simp]: "length (random_string draws table len) = len"
  by (simp add: random_string_def)

lemma set_random_string: "table \<noteq> [] \<Longrightarrow> set (random_string draws table len) \<subseteq> set table"
  by (auto simp: random_string_def)

section \<open>Involutions\<close>

lemma gs_xor_from_involution: "gs_xor_from i g (gs_xor_from i g m) = m"
  by (induction m arbitrary: i) simp_all

lemma gs_xor_involution: "gs_xor (gs_xor m g) g = m"
  by (simp add: gs_xor_def gs_xor_from_involution)

lemma length_gs_xor_from: "length (gs_xor_from i g m) = length m"
  by (induction m arbitrary: i) simp_all

lemma length_gs_xor [simp]: "length (gs_xor m g) = length m"
  by (simp add: gs_xor_def length_gs_xor_from)

lemma gspassenc_from_involution: "gspassenc_from x (gspassenc_from x p) = p"
  by (induction p arbitrary: x) (simp_all add: Let_def xor.assoc)

lemma gspassenc_involution: "gspassenc (gspassenc p) = p"
  by (simp add: gspassenc_def gspassenc_from_involution)

lemma gspassenc_from_take: "gspassenc_from x (take n p) = take n (gspassenc_from x p)"
  by (induction p arbitrary: x n) (auto simp: Let_def take_Cons split: nat.splits)

lemma gspassenc_take: "gspassenc (take n p) = take n (gspassenc p)"
  by (simp add: gspassenc_def gspassenc_from_take)

lemma length_gspassenc_from: "length (gspassenc_from x p) = length p"
  by (induction p arbitrary: x) (simp_all add: Let_def)

lemma length_gspassenc [simp]: "length (gspassenc p) = length p"
  by (simp add: gspassenc_def length_gspassenc_from)

lemma gspassenc_from_rnd:
  "gspassenc_from x p = map2 (\<lambda>c b. char_of_byte (byte_of c XOR b)) p (rnd_bytes x (length p))"
  by (induction p arbitrary: x) (simp_all add: Let_def)

section \<open>Trimming\<close>

lemma dropWhile_replicate_append: "P x \<Longrightarrow> dropWhile P (replicate n x @ ys) = dropWhile P ys"
  by (induction n) simp_all

lemma trim_right_nul_append: "trim_right_nul (s @ replicate n NUL) = trim_right_nul s"
  by (simp add: trim_right_nul_def dropWhile_replicate_append)

lemma trim_right_nul_take: "trim_right_nul s = take (length (trim_right_nul s)) s"
proof -
  have "s = trim_right_nul s @ rev (takeWhile (\<lambda>c. c = NUL) (rev s))"
    by (metis rev_append rev_rev_ident takeWhile_dropWhile_id trim_right_nul_def)
  then show ?thesis by (metis append_eq_conv_conj)
qed

lemma trim_right_nul_id: "s = [] \<or> last s \<noteq> NUL \<Longrightarrow> trim_right_nul s = s"
  by (cases s rule: rev_cases) (auto simp: trim_right_nul_def)

lemma trim_right_nul_less: "s \<noteq> [] \<Longrightarrow> last s = NUL \<Longrightarrow> length (trim_right_nul s) < length s"
  by (cases s rule: rev_cases)
    (auto simp: trim_right_nul_def less_Suc_eq_le intro: length_dropWhile_le [THEN order_trans])

section \<open>What the code relies on in the base64 iterators\<close>

definition base64_alphabet :: string where
  "base64_alphabet = ''ABCDEFGHIJKLMNOPQRSTUVWXYZabcdefghijklmnopqrstuvwxyz0123456789+/''"

text \<open>
  Documented behaviour: every six bits of the input, the last group filled with zero bits, become
  one character of the alphabet; decoding reads \<open>=\<close> as six zero bits, so the padded encoding
  decodes to the data followed by one zero byte per padding character.
\<close>

locale base64_codec =
  fixes enc :: "string \<Rightarrow> string" and dec64 :: "string \<Rightarrow> string option"
  assumes enc_alphabet: "set (enc d) \<subseteq> set base64_alphabet"
    and length_enc: "length (enc d) = (4 * length d + 2) div 3"
    and dec_enc: "dec64 (enc d @ replicate ((3 - length d mod 3) mod 3) (CHR ''='')) =
      Some (d @ replicate ((3 - length d mod 3) mod 3) NUL)"
begin

lemma decode_encode: "base64_decode dec64 (base64_encode enc d) = Some (trim_right_nul d)"
  by (simp add: base64_decode_def base64_encode_def dec_enc trim_right_nul_append)

text \<open>The three substitutions of the password alphabet are undone, because their targets do not occur.\<close>

lemma replace_back:
  assumes "b \<notin> set s" shows "replace_char b a (replace_char a b s) = s"
  using assms by (induction s) (auto simp: replace_char_def)

lemma encode_chars:
  "c \<in> set (base64_encode enc d) \<Longrightarrow> c \<noteq> CHR ''_'' \<and> c \<noteq> CHR ''['' \<and> c \<noteq> CHR '']''"
proof -
  assume "c \<in> set (base64_encode enc d)"
  then have "c \<in> set base64_alphabet \<or> c = CHR ''=''"
    using enc_alphabet [of d] by (auto simp: base64_encode_def)
  moreover have "CHR ''_'' \<notin> set base64_alphabet" "CHR ''['' \<notin> set base64_alphabet"
    "CHR '']'' \<notin> set base64_alphabet"
    by (simp_all add: base64_alphabet_def)
  ultimately show ?thesis by auto
qed

lemma passdecode_passencode:
  "passdecode dec64 (passencode enc p) =
     Some (take (length (trim_right_nul (gspassenc p))) p)"
proof -
  define b where "b = base64_encode enc (gspassenc p)"
  have n: "CHR ''_'' \<notin> set b" "CHR ''['' \<notin> set b" "CHR '']'' \<notin> set b"
    using encode_chars by (auto simp: b_def)
  define b1 where "b1 = replace_char (CHR ''='') (CHR ''_'') b"
  define b2 where "b2 = replace_char (CHR ''+'') (CHR ''['') b1"
  define b3 where "b3 = replace_char (CHR ''/'') (CHR '']'') b2"
  have undo: "replace_char (CHR '']'') (CHR ''/'') (replace_char (CHR ''['') (CHR ''+'')
      (replace_char (CHR ''_'') (CHR ''='') b3)) = b"
    using n unfolding b3_def b2_def b1_def
    by (induction b) (auto simp: replace_char_def)
  have "trim_right_nul (gspassenc p) = take (length (trim_right_nul (gspassenc p))) (gspassenc p)"
    by (rule trim_right_nul_take)
  then have "gspassenc (trim_right_nul (gspassenc p)) = take (length (trim_right_nul (gspassenc p))) p"
    by (metis gspassenc_involution gspassenc_take)
  moreover have "passencode enc p = b3"
    by (simp add: passencode_def Let_def b3_def b2_def b1_def b_def)
  ultimately show ?thesis
    using decode_encode [of "gspassenc p"] by (simp add: passdecode_def Let_def undo b_def)
qed

lemma encode_unpadded:
  "length message mod 3 = 0 \<Longrightarrow> base64_encode enc message = enc message"
  by (simp add: base64_encode_def)

end

section \<open>The codec of RFC 4648\<close>

fun sextets :: "nat list \<Rightarrow> nat list" where
  "sextets (a # b # c # r) =
     (a div 4) # (a mod 4 * 16 + b div 16) # (b mod 16 * 4 + c div 64) # (c mod 64) # sextets r"
| "sextets [a, b] = [a div 4, a mod 4 * 16 + b div 16, b mod 16 * 4]"
| "sextets [a] = [a div 4, a mod 4 * 16]"
| "sextets [] = []"

fun octets :: "nat list \<Rightarrow> nat list option" where
  "octets [] = Some []"
| "octets (w # x # y # z # r) =
     map_option (\<lambda>bs. (w * 4 + x div 16) # (x mod 16 * 16 + y div 4) # (y mod 4 * 64 + z) # bs) (octets r)"
| "octets _ = None"

definition sextet_of :: "char \<Rightarrow> nat option" where
  "sextet_of c = (if c = CHR ''='' then Some 0 else map_of (zip base64_alphabet [0..<64]) c)"

definition rfc4648_encode :: "string \<Rightarrow> string" where
  "rfc4648_encode d = map (\<lambda>k. base64_alphabet ! k) (sextets (map of_char d))"

definition rfc4648_decode :: "string \<Rightarrow> string option" where
  "rfc4648_decode s =
     Option.bind (those (map sextet_of s)) (\<lambda>ks. map_option (map char_of) (octets ks))"

lemma length_base64_alphabet [simp]: "length base64_alphabet = 64"
  by (simp add: base64_alphabet_def)

lemma sextets_less: "\<forall>b \<in> set bs. b < 256 \<Longrightarrow> \<forall>k \<in> set (sextets bs). k < 64"
  by (induction bs rule: sextets.induct) (auto simp: less_mult_imp_div_less)

lemma length_sextets: "length (sextets bs) = (4 * length bs + 2) div 3"
  by (induction bs rule: sextets.induct) simp_all

lemma octets_sextets:
  "\<forall>b \<in> set bs. b < 256 \<Longrightarrow>
   octets (sextets bs @ replicate ((3 - length bs mod 3) mod 3) 0) =
     Some (bs @ replicate ((3 - length bs mod 3) mod 3) 0)"
proof (induction bs rule: sextets.induct)
  case (1 a b c r)
  have "(3 - length (a # b # c # r) mod 3) mod 3 = (3 - length r mod 3) mod 3" by simp
  with 1 show ?case by auto
next
  case (2 a b)
  then have "b div 16 < 16" by (simp add: less_mult_imp_div_less)
  then show ?case by simp
next
  case (3 a)
  have "replicate 2 (0 :: nat) = [0, 0]" by (simp add: numeral_2_eq_2)
  with 3 show ?case by simp
qed simp

lemma sextet_of_nth: "k < 64 \<Longrightarrow> sextet_of (base64_alphabet ! k) = Some k"
proof -
  have "\<forall>k \<in> set [0..<64]. sextet_of (base64_alphabet ! k) = Some k" by code_simp
  then show "k < 64 \<Longrightarrow> sextet_of (base64_alphabet ! k) = Some k" by simp
qed

lemma those_sextets:
  "\<forall>k \<in> set ks. k < 64 \<Longrightarrow> those (map sextet_of (map ((!) base64_alphabet) ks @ replicate n (CHR ''=''))) =
     Some (ks @ replicate n 0)"
proof (induction ks)
  case Nil
  have "sextet_of (CHR ''='') = Some 0" by (simp add: sextet_of_def)
  then show ?case by (induction n) simp_all
qed (simp add: sextet_of_nth)

lemma of_char_less_256: "of_char c < (256 :: nat)"
  by (metis mod_less_divisor of_char_mod_256 zero_less_numeral)

interpretation rfc4648: base64_codec rfc4648_encode rfc4648_decode
proof unfold_locales
  fix d :: string
  define bs :: "nat list" where "bs = map of_char d"
  have bs: "\<forall>b \<in> set bs. b < 256" by (auto simp: bs_def of_char_less_256)
  have ks: "\<forall>k \<in> set (sextets bs). k < 64" using bs by (rule sextets_less)
  show "set (rfc4648_encode d) \<subseteq> set base64_alphabet"
    using ks by (auto simp: rfc4648_encode_def bs_def [symmetric] nth_mem)
  show "length (rfc4648_encode d) = (4 * length d + 2) div 3"
    by (simp add: rfc4648_encode_def length_sextets)
  have chars: "map char_of bs = d" by (simp add: bs_def comp_def)
  have nul: "char_of (0 :: nat) = NUL" by code_simp
  have "those (map sextet_of (rfc4648_encode d @ replicate n (CHR ''=''))) =
      Some (sextets bs @ replicate n 0)" for n
    using those_sextets [OF ks, of n] by (simp add: rfc4648_encode_def bs_def)
  then show "rfc4648_decode (rfc4648_encode d @ replicate ((3 - length d mod 3) mod 3) (CHR ''='')) =
      Some (d @ replicate ((3 - length d mod 3) mod 3) NUL)"
    using octets_sextets [OF bs] chars nul
    by (simp add: rfc4648_decode_def bs_def [symmetric] length_map [of of_char d, symmetric] del: map_append)
      (simp add: bs_def)
qed

section \<open>The challenge cipher\<close>

lemma key_schedule_bij_aux:
  "bij (fst st) \<Longrightarrow> bij (fst (fold (\<lambda>i (sbox, j).
       let j = j + sbox (of_nat i) + byte_of (k ! (i mod length k))
       in (swap_at sbox (of_nat i) j, j)) is st))"
  by (induction "is" arbitrary: st) (auto simp: Let_def bij_swap_at split: prod.splits)

lemma bij_key_schedule: "bij (key_schedule k)"
  unfolding key_schedule_def
  by (rule key_schedule_bij_aux) (simp add: bij_id [unfolded id_def])

lemma bij_prga: "bij sbox \<Longrightarrow> bij (snd (prga sbox i j cs))"
  by (induction sbox i j cs rule: prga.induct) (auto simp: Let_def bij_swap_at split: prod.splits)

lemma length_prga: "length (fst (prga sbox i j cs)) = length cs"
  by (induction sbox i j cs rule: prga.induct) (auto simp: Let_def split: prod.splits)

lemma encode_Some: "encode enc k message = Some r \<longleftrightarrow>
    k \<noteq> [] \<and> r = base64_encode enc (fst (prga (key_schedule k) 0 0 message))"
  by (auto simp: encode_def)

section \<open>Properties\<close>

lemma nth_gs_xor_from:
  "n < length m \<Longrightarrow> gs_xor_from i g m ! n = xor_char (m ! n) (g ! ((i + n) mod length g))"
  by (induction m arbitrary: i n) (auto simp: nth_Cons split: nat.splits)

lemma last_gspassenc:
  assumes "p \<noteq> []"
  shows "last (gspassenc p) = NUL \<longleftrightarrow>
    byte_of (last p) = rnd_bytes (minstd_seed 0x79707367) (length p) ! (length p - 1)"
proof -
  let ?r = "rnd_bytes (minstd_seed 0x79707367) (length p)"
  have len: "length (rnd_bytes x n) = n" for x n by (induction n arbitrary: x) simp_all
  have "last (gspassenc p) = gspassenc p ! (length p - 1)"
    using assms by (metis last_conv_nth length_0_conv length_gspassenc)
  also have "\<dots> = char_of_byte (byte_of (last p) XOR ?r ! (length p - 1))"
    using assms by (simp add: gspassenc_def gspassenc_from_rnd len last_conv_nth)
  finally have "last (gspassenc p) = char_of_byte (byte_of (last p) XOR ?r ! (length p - 1))" .
  moreover have "a XOR b = 0 \<longleftrightarrow> a = b" for a b :: u8
    by (metis bit.xor_self xor.assoc xor.left_neutral xor.right_neutral)
  ultimately show ?thesis by simp
qed

text \<open>
  \<open>gs_xor\<close> keeps the length of a message, combines its \<open>n\<close>-th character with the key
  character at \<open>n % gsxor.size()\<close>, and is its own inverse, so the availability and login packets
  decode with the call that encodes them.
\<close>

theorem gs_xor_involutive:
  "length (gs_xor m g) = length m \<and> gs_xor (gs_xor m g) g = m \<and>
   (\<forall>n. n < length m \<longrightarrow> gs_xor m g ! n = xor_char (m ! n) (g ! (n mod length g)))"
  by (simp add: gs_xor_involution) (simp add: gs_xor_def nth_gs_xor_from)

theorem gs_xor_involutive_witness:
  "gs_xor (gs_xor ''lc1'' xor_gamespy) xor_gamespy = ''lc1'' \<and>
   gs_xor ''lc1'' xor_gamespy ! 2 = xor_char (CHR ''1'') (CHR ''m'')"
  using gs_xor_involutive [of "''lc1''" xor_gamespy] by (simp add: xor_gamespy_def)

text \<open>
  For every base64 codec, decoding an encoded password gives the password back up to the
  trailing NUL bytes of its encrypted form, which \<open>base64_decode\<close> strips together with the
  padding: the password survives exactly when its last character differs from the byte of
  the key stream at its position.
\<close>

theorem password_roundtrip:
  assumes "base64_codec enc dec64"
  shows "passdecode dec64 (passencode enc p) = Some (take (length (trim_right_nul (gspassenc p))) p) \<and>
    (passdecode dec64 (passencode enc p) = Some p \<longleftrightarrow>
      p = [] \<or> byte_of (last p) \<noteq> rnd_bytes (minstd_seed 0x79707367) (length p) ! (length p - 1))"
proof -
  let ?t = "trim_right_nul (gspassenc p)"
  have eq: "passdecode dec64 (passencode enc p) = Some (take (length ?t) p)"
    by (rule base64_codec.passdecode_passencode [OF assms])
  have full: "?t = gspassenc p" if "p = [] \<or> last (gspassenc p) \<noteq> NUL"
    using that by (intro trim_right_nul_id) (auto simp: gspassenc_def)
  have part: "length ?t < length p" if "p \<noteq> []" "last (gspassenc p) = NUL"
    using that trim_right_nul_less [of "gspassenc p"] by (metis length_0_conv length_gspassenc)
  have "take (length ?t) p = p \<longleftrightarrow> p = [] \<or> last (gspassenc p) \<noteq> NUL"
  proof
    assume t: "take (length ?t) p = p"
    then have "length p \<le> length ?t" by (metis length_take min.cobounded2)
    then show "p = [] \<or> last (gspassenc p) \<noteq> NUL" using part by linarith
  next
    assume "p = [] \<or> last (gspassenc p) \<noteq> NUL"
    from full [OF this] show "take (length ?t) p = p" by simp
  qed
  then show ?thesis using eq last_gspassenc [of p] by (metis option.inject)
qed

lemma rnd_bytes_numeral:
  "rnd_bytes x (numeral n) = of_nat (minstd_next x mod 0xFF) # rnd_bytes (minstd_next x) (pred_numeral n)"
  by (subst numeral_eq_Suc [of n]) (rule rnd_bytes.simps)

lemma rnd_byte_7:
  "byte_of (last ''yesterda'') \<noteq>
     rnd_bytes (minstd_seed 0x79707367) (length ''yesterda'') ! (length ''yesterda'' - 1)"
proof -
  have "rnd_bytes (minstd_seed 0x79707367) 8 ! 7 \<noteq> byte_of (CHR ''a'')"
    by (simp add: rnd_bytes_numeral minstd_seed_def minstd_next_def byte_of_def)
  moreover have "length ''yesterda'' = 8" "length ''yesterda'' - 1 = 7" "last ''yesterda'' = CHR ''a''"
    by simp_all
  ultimately show ?thesis by metis
qed

lemma rnd_byte_8:
  "byte_of (last ''yesterday'') =
     rnd_bytes (minstd_seed 0x79707367) (length ''yesterday'') ! (length ''yesterday'' - 1)"
proof -
  have "rnd_bytes (minstd_seed 0x79707367) 9 ! 8 = byte_of (CHR ''y'')"
    by (simp add: rnd_bytes_numeral minstd_seed_def minstd_next_def byte_of_def)
  moreover have "length ''yesterday'' = 9" "length ''yesterday'' - 1 = 8" "last ''yesterday'' = CHR ''y''"
    by simp_all
  ultimately show ?thesis by metis
qed

theorem password_roundtrip_witness:
  "passdecode rfc4648_decode (passencode rfc4648_encode ''yesterda'') = Some ''yesterda''"
  using password_roundtrip [OF rfc4648.base64_codec_axioms, of "''yesterda''"] rnd_byte_7 by blast

text \<open>
  A password that does not survive: the ninth byte of the key stream is the letter \<open>y\<close>, so a
  client that registers \<open>yesterday\<close> is stored, and later checked, as \<open>yesterda\<close>; so does one that
  registers \<open>yesterda\<close>, and the two passwords open the same account.
\<close>

theorem password_truncated:
  assumes "base64_codec enc dec64"
  shows "passdecode dec64 (passencode enc ''yesterday'') = Some ''yesterda''"
proof -
  have last_nul: "last (gspassenc ''yesterday'') = NUL"
    using last_gspassenc [of "''yesterday''"] rnd_byte_8 by blast
  have last_a: "last (gspassenc ''yesterda'') \<noteq> NUL"
    using last_gspassenc [of "''yesterda''"] rnd_byte_7 by blast
  have split: "gspassenc ''yesterday'' = butlast (gspassenc ''yesterday'') @ [NUL]"
    using last_nul by (metis append_butlast_last_id length_0_conv length_gspassenc list.distinct(1))
  have eight: "take 8 ''yesterday'' = ''yesterda''" and nine: "length ''yesterday'' - 1 = 8"
    and len: "length ''yesterda'' = 8"
    by simp_all
  have "butlast (gspassenc ''yesterday'') = gspassenc ''yesterda''"
    using gspassenc_take [of 8 "''yesterday''"] unfolding butlast_conv_take length_gspassenc nine eight
    by (rule sym)
  with split have "trim_right_nul (gspassenc ''yesterday'') = trim_right_nul (gspassenc ''yesterda'' @ replicate 1 NUL)"
    by (metis One_nat_def replicate_0 replicate_Suc)
  also have "\<dots> = gspassenc ''yesterda''"
    unfolding trim_right_nul_append using last_a by (intro trim_right_nul_id disjI2)
  finally have "length (trim_right_nul (gspassenc ''yesterday'')) = 8"
    by (metis length_gspassenc len)
  then show ?thesis
    using base64_codec.passdecode_passencode [OF assms, of "''yesterday''"] eight by metis
qed

theorem password_truncated_witness:
  "passdecode rfc4648_decode (passencode rfc4648_encode ''yesterday'') = Some ''yesterda''"
  using password_truncated [OF rfc4648.base64_codec_axioms] .

text \<open>
  The challenge cipher: for a non-empty secret key and every base64 codec, \<open>encode\<close> returns a
  string, its key schedule is a permutation of the 256 bytes that the generation keeps one, and a
  message whose length is a multiple of three is encoded without padding into 4 characters of
  the alphabet for each 3 of the message, which is what the proof comparison of the master server rests on; only the
  empty key divides by zero.
\<close>

theorem challenge_cipher_shape:
  assumes "base64_codec enc dec64"
  shows "(encode enc k message = None \<longleftrightarrow> k = []) \<and>
    bij (key_schedule k) \<and> bij (snd (prga (key_schedule k) 0 0 message)) \<and>
    (k \<noteq> [] \<and> length message mod 3 = 0 \<longrightarrow>
      (\<exists>r. encode enc k message = Some r \<and> length r = 4 * (length message div 3) \<and>
        set r \<subseteq> set base64_alphabet))"
proof -
  have "length (enc d) = 4 * (length d div 3)" if "length d mod 3 = 0" for d
    using base64_codec.length_enc [OF assms, of d] that by (auto simp: mod_0_imp_dvd elim!: dvdE)
  then show ?thesis
    using base64_codec.enc_alphabet [OF assms] base64_codec.encode_unpadded [OF assms]
    by (auto simp: encode_def bij_key_schedule bij_prga length_prga dest!: subsetD)
qed

theorem challenge_cipher_shape_witness:
  "\<exists>r. encode rfc4648_encode ''hW6m9a'' (replicate 21 (CHR ''z'')) = Some r \<and> length r = 28"
  using challenge_cipher_shape [OF rfc4648.base64_codec_axioms, of "''hW6m9a''" "replicate 21 (CHR ''z'')"]
  by auto

end
