(* ===== verification/Master_Server.thy ===== *)
theory Master_Server
  imports Game_Db Qr_Packets Crypt_Utils
begin

text \<open>
  The query-and-reporting server (\<open>emulator/master.h\<close>, \<open>emulator/master.cpp\<close>): game servers
  announce themselves with heartbeats, prove with the secret key of their game that they may, and
  are then stored in the game's server table; clients ask whether a game is available.  A
  datagram is handled as one step; the socket is the list of datagrams sent, and sending may
  throw (\<open>ms_send\<close>).  Boost's address formatting, the base64 iterators and SQLite are parameters,
  the clock and the random challenge come with each datagram.  Shown: what every handler
  does, that no server is stored whose end point has not proven itself, what the proof covers and
  what it does not, and when servers time out.
\<close>

section \<open>State\<close>

type_synonym endpoint = "u32 \<times> u16"

record ms_server =
  srv_last_update :: int
  proof_text :: string
  srv_instance :: bytes
  gamename :: string
  srv_values :: "(string, string) std_map"

record 'd master =
  ms_games :: "'d game_db"
  m_AwaitingValidation :: "(endpoint, ms_server) std_map"
  m_Validated :: "(endpoint, ms_server) std_map"
  ms_sent :: "(endpoint \<times> bytes) list"
  ms_buff :: bytes
  ms_accepting :: bool

text \<open>The outside world: SQLite, base64, \<open>address_v4::to_string\<close> and the socket.\<close>

record ('d, 's) ms_env =
  ms_api :: "('d, 's) sqlite3"
  ms_enc :: "string \<Rightarrow> string"
  ms_addr :: "u32 \<Rightarrow> string"
  ms_send :: "endpoint \<Rightarrow> bytes \<Rightarrow> exn + unit"

definition send_to :: "('d, 's) ms_env \<Rightarrow> endpoint \<Rightarrow> bytes \<Rightarrow> ('d master, unit) io" where
  "send_to env client bs =
     then_io (lift_exn (ms_send env client bs))
       (modify (\<lambda>m. m\<lparr>ms_sent := ms_sent m @ [(client, bs)]\<rparr>))"

definition on_games :: "('d game_db, 'a) io \<Rightarrow> ('d master, 'a) io" where
  "on_games = zoom ms_games (\<lambda>g m. m\<lparr>ms_games := g\<rparr>)"

text \<open>\<open>GetGame(name)\<close> and a call on the game it returns.\<close>

definition with_game :: "string \<Rightarrow> ('d any_game, 'a) io \<Rightarrow> ('d master, 'a) io" where
  "with_game n op = on_games (gdb.call n op)"

definition get_game_data :: "string \<Rightarrow> ('d master, game_data) io" where
  "get_game_data n = (\<lambda>m. case GetGame (ms_games m) n of
     Inl e \<Rightarrow> (Inl e, m) | Inr g \<Rightarrow> (Inr (m_Data (as_game g)), m))"

section \<open>Handlers\<close>

text \<open>
  The reply array holds its terminating NUL, which is sent too.  An empty payload makes the
  length of the name wrap around.
\<close>

definition availability_reply :: "availability \<Rightarrow> bytes" where
  "availability_reply a =
     [0xFE, 0xFD, 0x09, 0, 0, 0, (case a of available \<Rightarrow> 0 | disabled_temporary \<Rightarrow> 1 | disabled_permanently \<Rightarrow> 2), 0]"

definition HandleAvailable :: "('d, 's) ms_env \<Rightarrow> endpoint \<Rightarrow> qr_packet \<Rightarrow> ('d master, unit) io" where
  "HandleAvailable env client packet =
     (if qr_data packet = [] then throw Undefined_behaviour
      else
        let name = string_of (butlast (qr_data packet)) in
        bind_io (gets (\<lambda>m. HasGame (ms_games m) name)) (\<lambda>has.
          if has then
            bind_io (get_game_data name) (\<lambda>game.
              send_to env client (availability_reply (gd_availability game)))
          else ret ()))"

definition incoming_server :: "('d, 's) ms_env \<Rightarrow> endpoint \<Rightarrow> int \<Rightarrow> (string, string) std_map \<Rightarrow> server_data" where
  "incoming_server env client t data =
     \<lparr>last_update = t, public_ip = ms_addr env (fst client), public_port = snd client,
      private_ip = '''', private_port = 0, icmp_ip = '''', sv_data = data, rules = ''''\<rparr>"

text \<open>\<open>std::format("{}{:2X}{:8X}{:4X}", challenge, backend, address, port)\<close>\<close>

definition response_data :: "string \<Rightarrow> u16 \<Rightarrow> endpoint \<Rightarrow> string" where
  "response_data rnd backend client =
     rnd @ pad_left 2 (CHR '' '') (hex_upper (unat backend)) @
     pad_left 8 (CHR '' '') (hex_upper (unat (fst client))) @
     pad_left 4 (CHR '' '') (hex_upper (unat (snd client)))"

definition challenge_packet :: "bytes \<Rightarrow> string \<Rightarrow> bytes" where
  "challenge_packet inst responseData = [0xFE, 0xFD, 0x01] @ inst @ bytes_of responseData @ [0]"

text \<open>
  \<open>utils::encode\<close> divides by zero for an empty key, which no game has.
\<close>

definition HandleHeartbeat ::
  "('d, 's) ms_env \<Rightarrow> int \<Rightarrow> string \<Rightarrow> endpoint \<Rightarrow> qr_packet \<Rightarrow> ('d master, unit) io"
where
  "HandleHeartbeat env now rnd client packet =
     (case heartbeat_parse packet of
        Inl _ \<Rightarrow> ret ()
      | Inr hb \<Rightarrow>
        (case smap_find (serverData hb) ''gamename'' of
           None \<Rightarrow> ret ()
         | Some name \<Rightarrow>
           bind_io (gets (\<lambda>m. HasGame (ms_games m) name)) (\<lambda>has.
           if \<not> has then ret ()
           else
             bind_io (get_game_data name) (\<lambda>game.
             bind_io (gets (\<lambda>m. (smap_contains (m_Validated m) client,
                                 smap_contains (m_AwaitingValidation m) client))) (\<lambda>(isValidated, isAwaiting).
             if isValidated then
               with_game name (game_AddOrUpdateServer (ms_api env)
                 (incoming_server env client now (serverData hb)))
             else if \<not> isAwaiting then
               (let responseData = response_data rnd (gd_backend game) client in
                case encode (ms_enc env) (gd_secretKey game) responseData of
                  None \<Rightarrow> throw Undefined_behaviour
                | Some pr \<Rightarrow>
                    then_io (modify (\<lambda>m. m\<lparr>m_AwaitingValidation :=
                        smap_emplace client \<lparr>srv_last_update = now, proof_text = pr,
                          srv_instance = instance_key packet, gamename = name,
                          srv_values = serverData hb\<rparr> (m_AwaitingValidation m)\<rparr>))
                      (send_to env client (challenge_packet (instance_key packet) responseData)))
             else
               modify (\<lambda>m. case smap_find (m_AwaitingValidation m) client of
                  None \<Rightarrow> m
                | Some server \<Rightarrow> m\<lparr>m_AwaitingValidation := smap_assign client
                    (server\<lparr>srv_last_update := now, srv_values := serverData hb\<rparr>)
                    (m_AwaitingValidation m)\<rparr>))))))"

definition HandleKeepAlive :: "int \<Rightarrow> endpoint \<Rightarrow> ('d master, unit) io" where
  "HandleKeepAlive now client = modify (\<lambda>m.
     case smap_find (m_AwaitingValidation m) client of
       Some server \<Rightarrow> m\<lparr>m_AwaitingValidation :=
         smap_assign client (server\<lparr>srv_last_update := now\<rparr>) (m_AwaitingValidation m)\<rparr>
     | None \<Rightarrow>
         (case smap_find (m_Validated m) client of
            Some server \<Rightarrow> m\<lparr>m_Validated :=
              smap_assign client (server\<lparr>srv_last_update := now\<rparr>) (m_Validated m)\<rparr>
          | None \<Rightarrow> m))"

text \<open>
  \<open>std::string{ packet.data.data() }\<close> reads the receive buffer from its sixth byte to the next NUL,
  which lies in the packet when its payload is not empty.
\<close>

definition challenge_text :: "'d master \<Rightarrow> string" where
  "challenge_text m = string_of (takeWhile (\<lambda>b. b \<noteq> 0) (drop 5 (ms_buff m)))"

definition proven_packet :: "bytes \<Rightarrow> bytes" where
  "proven_packet inst = [0xFE, 0xFD, 0x0A] @ inst"

definition HandleChallenge :: "('d, 's) ms_env \<Rightarrow> endpoint \<Rightarrow> ('d master, unit) io" where
  "HandleChallenge env client =
     bind_io (gets (\<lambda>m. (smap_find (m_AwaitingValidation m) client, challenge_text m))) (\<lambda>(found, answer).
     case found of
       None \<Rightarrow> ret ()
     | Some server \<Rightarrow>
         then_io
           (if proof_text server = answer then
              then_io (modify (\<lambda>m. m\<lparr>m_Validated := smap_emplace client server (m_Validated m)\<rparr>))
             (then_io (send_to env client (proven_packet (srv_instance server)))
                (with_game (gamename server) (game_AddOrUpdateServer (ms_api env)
                  (incoming_server env client (srv_last_update server) (srv_values server)))))
            else ret ())
           (modify (\<lambda>m. m\<lparr>m_AwaitingValidation := smap_erase client (m_AwaitingValidation m)\<rparr>)))"

section \<open>The receive loop\<close>

definition receive_size :: nat where
  "receive_size = 1400"

definition dispatch ::
  "('d, 's) ms_env \<Rightarrow> int \<Rightarrow> string \<Rightarrow> endpoint \<Rightarrow> bytes \<Rightarrow> ('d master, unit) io"
where
  "dispatch env now rnd client datagram =
     (case qr_parse datagram of
        Inl _ \<Rightarrow> ret ()
      | Inr packet \<Rightarrow>
          (case type_of_packet packet of
             prequery_ip_verify \<Rightarrow> HandleAvailable env client packet
           | heartbeat \<Rightarrow> HandleHeartbeat env now rnd client packet
           | keepalive \<Rightarrow> HandleKeepAlive now client
           | challenge \<Rightarrow> HandleChallenge env client
           | _ \<Rightarrow> ret ()))"

text \<open>
  One turn of the loop in \<open>AcceptConnections\<close>: the datagram, cut to the size of the buffer, overwrites
  its beginning; an empty datagram leaves the loop.
\<close>

definition AcceptOne ::
  "('d, 's) ms_env \<Rightarrow> int \<Rightarrow> string \<Rightarrow> endpoint \<Rightarrow> bytes \<Rightarrow> ('d master, unit) io"
where
  "AcceptOne env now rnd client datagram =
     bind_io (gets ms_accepting) (\<lambda>accepting.
     if \<not> accepting then ret ()
     else
       let datagram = take receive_size datagram in
       if datagram = [] then modify (\<lambda>m. m\<lparr>ms_accepting := False\<rparr>)
       else
         then_io (modify (\<lambda>m. m\<lparr>ms_buff := datagram @ drop (length datagram) (ms_buff m)\<rparr>))
           (try_log (dispatch env now rnd client datagram)))"

section \<open>Cleanup\<close>

text \<open>\<open>duration_cast<seconds>\<close> rounds towards zero.\<close>

definition duration_seconds :: "int \<Rightarrow> int" where
  "duration_seconds d = sgn d * (\<bar>d\<bar> div 1000000000)"

definition timed_out :: "int \<Rightarrow> ms_server \<Rightarrow> bool" where
  "timed_out now server \<longleftrightarrow> duration_seconds (now - srv_last_update server) > 60"

text \<open>The two maps, which the loop treats alike.\<close>

datatype server_map = Awaiting_map | Validated_map

definition servers_of :: "server_map \<Rightarrow> 'd master \<Rightarrow> (endpoint, ms_server) std_map" where
  "servers_of w m = (case w of Awaiting_map \<Rightarrow> m_AwaitingValidation m | Validated_map \<Rightarrow> m_Validated m)"

definition erase_server :: "server_map \<Rightarrow> endpoint \<Rightarrow> 'd master \<Rightarrow> 'd master" where
  "erase_server w client m = (case w of
     Awaiting_map \<Rightarrow> m\<lparr>m_AwaitingValidation := smap_erase client (m_AwaitingValidation m)\<rparr>
   | Validated_map \<Rightarrow> m\<lparr>m_Validated := smap_erase client (m_Validated m)\<rparr>)"

definition cleanup_entry ::
  "('d, 's) ms_env \<Rightarrow> int \<Rightarrow> server_map \<Rightarrow> endpoint \<times> ms_server \<Rightarrow> ('d master, unit) io"
where
  "cleanup_entry env now w = (\<lambda>(client, server).
     if timed_out now server then
       then_io (with_game (gamename server)
           (game_RemoveServers (ms_api env) [(ms_addr env (fst client), snd client)]))
         (modify (erase_server w client))
     else ret ())"

definition cleanup_map :: "('d, 's) ms_env \<Rightarrow> int \<Rightarrow> server_map \<Rightarrow> ('d master, unit) io" where
  "cleanup_map env now w =
     bind_io (gets (servers_of w)) (\<lambda>servers. for_each servers (cleanup_entry env now w))"

text \<open>One pass of the loop in \<open>Cleanup\<close>, after the timer has fired.\<close>

definition Cleanup :: "('d, 's) ms_env \<Rightarrow> int \<Rightarrow> ('d master, unit) io" where
  "Cleanup env now = for_each [Awaiting_map, Validated_map] (cleanup_map env now)"

section \<open>The invariant\<close>

text \<open>
  The maps are ordered, the games are sound, and every server that waits or is validated names a
  game that exists, so that neither the challenge nor the cleanup asks for a missing game.
\<close>

definition servers_named :: "'d game_db \<Rightarrow> (endpoint, ms_server) std_map \<Rightarrow> bool" where
  "servers_named db servers \<longleftrightarrow>
     smap_ok servers \<and> (\<forall>c s. smap_find servers c = Some s \<longrightarrow> HasGame db (gamename s))"

definition master_ok :: "'d master \<Rightarrow> bool" where
  "master_ok m \<longleftrightarrow> games_ok (ms_games m) \<and>
     servers_named (ms_games m) (m_AwaitingValidation m) \<and> servers_named (ms_games m) (m_Validated m)"

lemma servers_named_insert:
  "servers_named db servers \<Longrightarrow> HasGame db (gamename s) \<Longrightarrow> servers_named db (smap_emplace c s servers)"
  "servers_named db servers \<Longrightarrow> HasGame db (gamename s) \<Longrightarrow> servers_named db (smap_assign c s servers)"
  by (auto simp: servers_named_def smap.invar_emplace smap.invar_assign smap.lookup_assign
      dest: smap.lookup_emplace_cases split: if_splits)

lemma servers_named_erase: "servers_named db servers \<Longrightarrow> servers_named db (smap_erase c servers)"
  by (auto simp: servers_named_def smap.invar_erase smap.lookup_erase)

lemma servers_named_find: "servers_named db servers \<Longrightarrow> smap_find servers c = Some s \<Longrightarrow> HasGame db (gamename s)"
  unfolding servers_named_def by blast

lemma with_game_eq:
  "with_game n op m = (fst (gdb.call n op (ms_games m)), m\<lparr>ms_games := snd (gdb.call n op (ms_games m))\<rparr>)"
  by (simp add: with_game_def on_games_def zoom_def split: prod.splits)

lemma with_game_ok:
  assumes "master_ok m" and "preserves (any_game_ok n) op"
  shows "master_ok (m\<lparr>ms_games := snd (gdb.call n op (ms_games m))\<rparr>)"
proof -
  have ok: "games_ok (ms_games m)" using assms(1) by (simp add: master_ok_def)
  have "games_ok (snd (gdb.call n op (ms_games m)))"
    using gdb.call_preserves [OF assms(2)] ok by (rule preservesD)
  then show ?thesis
    using assms(1) gdb.call_has [OF ok] unfolding master_ok_def servers_named_def by simp blast
qed

lemma send_to_eq:
  "send_to env client bs m = (ms_send env client bs,
     case ms_send env client bs of Inl _ \<Rightarrow> m | Inr _ \<Rightarrow> m\<lparr>ms_sent := ms_sent m @ [(client, bs)]\<rparr>)"
  by (auto simp: send_to_def then_io_def bind_io_def lift_exn_def modify_def split: sum.splits)

lemma master_ok_sent [simp]: "master_ok (m\<lparr>ms_sent := x\<rparr>) = master_ok m"
  "master_ok (m\<lparr>ms_buff := b\<rparr>) = master_ok m" "master_ok (m\<lparr>ms_accepting := a\<rparr>) = master_ok m"
  by (simp_all add: master_ok_def)

lemma send_to_ok: "preserves master_ok (send_to env client bs)"
  unfolding preserves_def send_to_eq by (simp split: sum.splits)

lemma get_game_data_state [simp]: "snd (get_game_data n m) = m"
  by (simp add: get_game_data_def split: sum.splits)

lemma get_game_data_Inr:
  "HasGame (ms_games m) n \<Longrightarrow> \<exists>g. GetGame (ms_games m) n = Inr g \<and> get_game_data n m = (Inr (m_Data (as_game g)), m)"
  using gdb.get_has by (fastforce simp: get_game_data_def)

lemma get_game_data_ok: "preserves master_ok (get_game_data n)"
  by (simp add: preserves_def)

lemma HandleAvailable_ok: "preserves master_ok (HandleAvailable env client packet)"
  unfolding HandleAvailable_def Let_def
  by (intro preserves_intros get_game_data_ok send_to_ok)

text \<open>The heartbeat of an end point, by what the master knows of it.\<close>

lemma heartbeat_cases:
  assumes "heartbeat_parse packet = Inr hb" and "smap_find (serverData hb) ''gamename'' = Some name"
    and "HasGame (ms_games m) name" and "GetGame (ms_games m) name = Inr g"
  shows "HandleHeartbeat env now rnd client packet m =
    (if smap_contains (m_Validated m) client then
       with_game name (game_AddOrUpdateServer (ms_api env)
         (incoming_server env client now (serverData hb))) m
     else case smap_find (m_AwaitingValidation m) client of
       Some server \<Rightarrow> (Inr (), m\<lparr>m_AwaitingValidation := smap_assign client
         (server\<lparr>srv_last_update := now, srv_values := serverData hb\<rparr>) (m_AwaitingValidation m)\<rparr>)
     | None \<Rightarrow>
       (let data = m_Data (as_game g); responseData = response_data rnd (gd_backend data) client in
        case encode (ms_enc env) (gd_secretKey data) responseData of
          None \<Rightarrow> (Inl Undefined_behaviour, m)
        | Some pr \<Rightarrow> send_to env client (challenge_packet (instance_key packet) responseData)
            (m\<lparr>m_AwaitingValidation := smap_emplace client \<lparr>srv_last_update = now, proof_text = pr,
               srv_instance = instance_key packet, gamename = name, srv_values = serverData hb\<rparr>
               (m_AwaitingValidation m)\<rparr>)))"
  using assms
  by (auto simp: HandleHeartbeat_def bind_io_def then_io_def gets_def get_game_data_def modify_def
      throw_def Let_def smap_contains_def split: option.splits)

lemma HandleHeartbeat_idle:
  assumes "\<nexists>hb name. heartbeat_parse packet = Inr hb \<and>
    smap_find (serverData hb) ''gamename'' = Some name \<and> HasGame (ms_games m) name"
  shows "HandleHeartbeat env now rnd client packet m = (Inr (), m)"
  using assms by (auto simp: HandleHeartbeat_def ret_def bind_io_def gets_def split: sum.splits option.splits)

lemma HandleHeartbeat_ok: "preserves master_ok (HandleHeartbeat env now rnd client packet)"
proof (unfold preserves_def, intro allI impI)
  fix m :: "'a master"
  assume ok: "master_ok m"
  show "master_ok (snd (HandleHeartbeat env now rnd client packet m))"
  proof (cases "\<exists>hb name. heartbeat_parse packet = Inr hb \<and>
      smap_find (serverData hb) ''gamename'' = Some name \<and> HasGame (ms_games m) name")
    case True
    then obtain hb name g where h: "heartbeat_parse packet = Inr hb"
      "smap_find (serverData hb) ''gamename'' = Some name" "HasGame (ms_games m) name"
      "GetGame (ms_games m) name = Inr g"
      using gdb.get_has by metis
    let ?awaiting = "\<lambda>s. m\<lparr>m_AwaitingValidation := smap_emplace client s (m_AwaitingValidation m)\<rparr>"
    have new: "master_ok (?awaiting s)" if "gamename s = name" for s
      using ok h(3) that by (simp add: master_ok_def servers_named_insert)
    have upd: "master_ok (m\<lparr>m_AwaitingValidation := smap_assign client (s\<lparr>srv_last_update := a, srv_values := b\<rparr>)
        (m_AwaitingValidation m)\<rparr>)" if "smap_find (m_AwaitingValidation m) client = Some s" for s a b
      using ok that by (auto simp: master_ok_def intro!: servers_named_insert dest: servers_named_find)
    have sent: "master_ok (snd (send_to env client bs (?awaiting s)))" if "gamename s = name" for s bs
      using new [OF that] by (rule preservesD [OF send_to_ok])
    show ?thesis
    proof (cases "smap_contains (m_Validated m) client")
      case True
      then show ?thesis
        unfolding heartbeat_cases [OF h]
        using with_game_ok [OF ok game_AddOrUpdateServer_ok] by (simp add: with_game_eq)
    next
      case False
      show ?thesis
      proof (cases "smap_find (m_AwaitingValidation m) client")
        case None
        then show ?thesis
          using False ok sent unfolding heartbeat_cases [OF h] by (simp add: Let_def split: option.splits)
      next
        case (Some server)
        then show ?thesis
          using False upd [OF Some] unfolding heartbeat_cases [OF h] by simp
      qed
    qed
  next
    case False
    then show ?thesis using ok by (simp add: HandleHeartbeat_idle)
  qed
qed

lemma HandleKeepAlive_ok: "preserves master_ok (HandleKeepAlive now client)"
  unfolding HandleKeepAlive_def
  by (rule preserves_modify)
    (auto simp: master_ok_def intro!: servers_named_insert(2) dest: servers_named_find split: option.splits)

lemma erase_awaiting_ok:
  "master_ok m \<Longrightarrow> master_ok (m\<lparr>m_AwaitingValidation := smap_erase client (m_AwaitingValidation m)\<rparr>)"
  by (simp add: master_ok_def servers_named_erase)

lemma with_game_preserves: "preserves (any_game_ok n) op \<Longrightarrow> preserves master_ok (with_game n op)"
  unfolding preserves_def [of master_ok] by (simp add: with_game_eq with_game_ok)

text \<open>The challenge of an end point that is known to wait.\<close>

lemma challenge_cases:
  "HandleChallenge env client m =
    (case smap_find (m_AwaitingValidation m) client of
       None \<Rightarrow> (Inr (), m)
     | Some server \<Rightarrow>
        let erase = modify (\<lambda>m. m\<lparr>m_AwaitingValidation := smap_erase client (m_AwaitingValidation m)\<rparr>) in
        if proof_text server = challenge_text m then
          then_io (then_io (send_to env client (proven_packet (srv_instance server)))
            (with_game (gamename server) (game_AddOrUpdateServer (ms_api env)
              (incoming_server env client (srv_last_update server) (srv_values server)))))
            erase (m\<lparr>m_Validated := smap_emplace client server (m_Validated m)\<rparr>)
        else erase m)"
  by (auto simp: HandleChallenge_def bind_io_def then_io_def gets_def ret_def modify_def Let_def
      split: option.splits prod.splits sum.splits)

lemma HandleChallenge_ok: "preserves master_ok (HandleChallenge env client)"
proof (unfold preserves_def, intro allI impI)
  fix m :: "'a master"
  assume ok: "master_ok m"
  show "master_ok (snd (HandleChallenge env client m))"
  proof (cases "smap_find (m_AwaitingValidation m) client")
    case None
    then show ?thesis using ok by (simp add: challenge_cases)
  next
    case (Some server)
    have val: "master_ok (m\<lparr>m_Validated := smap_emplace client server (m_Validated m)\<rparr>)"
      using ok Some by (auto simp: master_ok_def intro!: servers_named_insert dest: servers_named_find)
    have er: "preserves master_ok (modify (\<lambda>m. m\<lparr>m_AwaitingValidation := smap_erase client (m_AwaitingValidation m)\<rparr>))"
      by (rule preserves_modify) (rule erase_awaiting_ok)
    have "preserves master_ok
       (then_io (then_io (send_to env client (proven_packet (srv_instance server)))
            (with_game (gamename server) (game_AddOrUpdateServer (ms_api env)
              (incoming_server env client (srv_last_update server) (srv_values server)))))
       (modify (\<lambda>m. m\<lparr>m_AwaitingValidation := smap_erase client (m_AwaitingValidation m)\<rparr>)))"
      by (intro preserves_intros er send_to_ok with_game_preserves game_AddOrUpdateServer_ok)
    from preservesD [OF this val] preservesD [OF er ok] Some show ?thesis
      by (simp add: challenge_cases Let_def)
  qed
qed

lemma dispatch_ok: "preserves master_ok (dispatch env now rnd client datagram)"
  unfolding dispatch_def
  by (auto split: sum.splits qr_type.splits intro!: preserves_ret HandleAvailable_ok HandleHeartbeat_ok
      HandleKeepAlive_ok HandleChallenge_ok)

lemma AcceptOne_ok: "preserves master_ok (AcceptOne env now rnd client datagram)"
  unfolding AcceptOne_def Let_def
  by (intro preserves_intros preserves_modify dispatch_ok) simp_all

lemma cleanup_map_ok: "preserves master_ok (cleanup_map env now w)"
  unfolding cleanup_map_def cleanup_entry_def
  by (intro preserves_intros)
    (auto intro!: preserves_intros preserves_modify with_game_preserves game_RemoveServers_ok
      simp: erase_server_def master_ok_def servers_named_erase split: server_map.splits)

lemma Cleanup_ok: "preserves master_ok (Cleanup env now)"
  unfolding Cleanup_def by (intro preserves_intros cleanup_map_ok)

section \<open>Who is validated, and what changes the games\<close>

text \<open>A datagram with which an end point that waits answers the challenge it was sent.\<close>

definition answers :: "'d master \<Rightarrow> endpoint \<Rightarrow> bytes \<Rightarrow> bool" where
  "answers m client datagram \<longleftrightarrow>
     (let datagram = take receive_size datagram;
          m = m\<lparr>ms_buff := datagram @ drop (length datagram) (ms_buff m)\<rparr>
      in ms_accepting m \<and> datagram \<noteq> [] \<and>
         (case qr_parse datagram of
            Inl _ \<Rightarrow> False
          | Inr packet \<Rightarrow> type_of_packet packet = challenge \<and>
              (case smap_find (m_AwaitingValidation m) client of
                 None \<Rightarrow> False
               | Some server \<Rightarrow> proof_text server = challenge_text m)))"

text \<open>Operations on the games and on the socket keep what does not depend on them.\<close>

definition ignores_games :: "('d master \<Rightarrow> bool) \<Rightarrow> bool" where
  "ignores_games I \<longleftrightarrow> (\<forall>m g. I m \<longrightarrow> I (m\<lparr>ms_games := g\<rparr>))"

definition ignores_sent :: "('d master \<Rightarrow> bool) \<Rightarrow> bool" where
  "ignores_sent I \<longleftrightarrow> (\<forall>m s. I m \<longrightarrow> I (m\<lparr>ms_sent := s\<rparr>))"

lemma with_game_ignores: "ignores_games I \<Longrightarrow> preserves I (with_game n op)"
  by (simp add: preserves_def with_game_eq ignores_games_def)

lemma send_to_ignores: "ignores_sent I \<Longrightarrow> preserves I (send_to env client bs)"
  by (simp add: preserves_def send_to_eq ignores_sent_def split: sum.splits)

lemma get_game_data_any [preserves_intros]: "preserves I (get_game_data n)"
  by (simp add: preserves_def)

lemma HandleAvailable_ignores: "ignores_sent I \<Longrightarrow> preserves I (HandleAvailable env client packet)"
  unfolding HandleAvailable_def Let_def by (intro preserves_intros send_to_ignores)

definition val_dom :: "'d master \<Rightarrow> endpoint set" where
  "val_dom m = dom (smap_find (m_Validated m))"

lemma val_dom_simps [simp]:
  "val_dom (m\<lparr>ms_games := g\<rparr>) = val_dom m" "val_dom (m\<lparr>ms_sent := s\<rparr>) = val_dom m"
  "val_dom (m\<lparr>ms_buff := b\<rparr>) = val_dom m" "val_dom (m\<lparr>ms_accepting := x\<rparr>) = val_dom m"
  "val_dom (m\<lparr>m_AwaitingValidation := a\<rparr>) = val_dom m"
  by (simp_all add: val_dom_def)

lemma val_dom_send [simp]: "val_dom (snd (send_to env client bs m)) = val_dom m"
  by (simp add: send_to_eq split: sum.splits)

lemma HandleHeartbeat_validated [simp]:
  "m_Validated (snd (HandleHeartbeat env now rnd client packet m)) = m_Validated m"
proof -
  have "ignores_games (\<lambda>s. m_Validated s = m_Validated m)" "ignores_sent (\<lambda>s. m_Validated s = m_Validated m)"
    by (simp_all add: ignores_games_def ignores_sent_def)
  then have "preserves (\<lambda>s. m_Validated s = m_Validated m) (HandleHeartbeat env now rnd client packet)"
    unfolding HandleHeartbeat_def Let_def
    by (auto split: sum.splits option.splits prod.splits
        intro!: preserves_intros preserves_modify with_game_ignores send_to_ignores)
  then show ?thesis by (simp add: preserves_def)
qed

lemma dom_assign_present:
  "smap_ok m \<Longrightarrow> smap_find m k = Some w \<Longrightarrow> dom (smap_find (smap_assign k v m)) = dom (smap_find m)"
  by (auto simp: smap.dom_assign)

lemma HandleKeepAlive_val_dom:
  "smap_ok (m_Validated m) \<Longrightarrow> val_dom (snd (HandleKeepAlive now client m)) = val_dom m"
  by (auto simp: HandleKeepAlive_def modify_def val_dom_def dom_assign_present split: option.splits)

lemma then_modify_val_dom:
  assumes "\<And>m. val_dom (f m) = val_dom m"
  shows "val_dom (snd (then_io op (modify f) m)) = val_dom (snd (op m))"
  using assms by (auto simp: then_io_def bind_io_def modify_def split: prod.splits sum.splits)

lemma send_with_game_val_dom:
  "val_dom (snd (then_io (send_to env client bs) (with_game n op) m)) = val_dom m"
proof -
  have "preserves (\<lambda>s. val_dom s = val_dom m) (then_io (send_to env client bs) (with_game n op))"
    by (intro preserves_intros send_to_ignores with_game_ignores)
      (simp_all add: ignores_sent_def ignores_games_def)
  then show ?thesis unfolding preserves_def by blast
qed

lemma HandleChallenge_val_dom:
  assumes "smap_ok (m_Validated m)"
  shows "val_dom (snd (HandleChallenge env client m)) \<subseteq> val_dom m \<union>
    {c. c = client \<and> (\<exists>server. smap_find (m_AwaitingValidation m) client = Some server \<and>
        proof_text server = challenge_text m)}"
proof (cases "smap_find (m_AwaitingValidation m) client")
  case None
  then show ?thesis by (simp add: challenge_cases)
next
  case (Some server)
  have "val_dom (m\<lparr>m_Validated := smap_emplace client server (m_Validated m)\<rparr>) = insert client (val_dom m)"
    using assms by (simp add: val_dom_def smap.dom_emplace)
  then show ?thesis
    using Some by (auto simp: challenge_cases Let_def then_modify_val_dom send_with_game_val_dom)
      (simp_all add: modify_def)
qed

lemma dispatch_val_dom:
  assumes "smap_ok (m_Validated m)"
  shows "val_dom (snd (dispatch env now rnd client datagram m)) \<subseteq> val_dom m \<union>
    {c. c = client \<and> (\<exists>packet server. qr_parse datagram = Inr packet \<and> type_of_packet packet = challenge \<and>
        smap_find (m_AwaitingValidation m) client = Some server \<and> proof_text server = challenge_text m)}"
proof (cases "qr_parse datagram")
  case (Inr packet)
  have "preserves (\<lambda>s. val_dom s = val_dom m) (HandleAvailable env client packet)"
    by (rule HandleAvailable_ignores) (simp add: ignores_sent_def)
  then have av: "val_dom (snd (HandleAvailable env client packet m)) = val_dom m"
    unfolding preserves_def by blast
  show ?thesis
    using Inr av HandleKeepAlive_val_dom [OF assms, of now client] HandleChallenge_val_dom [OF assms, of env client]
    by (cases "type_of_packet packet") (auto simp: dispatch_def ret_def val_dom_def)
qed (simp add: dispatch_def ret_def)

lemma AcceptOne_val_dom:
  assumes "smap_ok (m_Validated m)"
  shows "val_dom (exec_io (AcceptOne env now rnd client datagram) m) \<subseteq>
    val_dom m \<union> {c. c = client \<and> answers m client datagram}"
proof (cases "ms_accepting m \<and> take receive_size datagram \<noteq> []")
  case True
  let ?d = "take receive_size datagram"
  let ?m = "m\<lparr>ms_buff := ?d @ drop (length ?d) (ms_buff m)\<rparr>"
  have "exec_io (AcceptOne env now rnd client datagram) m = snd (dispatch env now rnd client ?d ?m)"
    using True by (auto simp: AcceptOne_def exec_io_def bind_io_def then_io_def gets_def modify_def
        Let_def try_log_def split: prod.splits sum.splits)
  then show ?thesis
    using dispatch_val_dom [of ?m env now rnd client ?d] assms True
    by (auto simp: answers_def Let_def split: option.splits sum.splits)
next
  case False
  then show ?thesis
    by (auto simp: AcceptOne_def exec_io_def bind_io_def gets_def ret_def modify_def Let_def)
qed

lemma erase_server_val_dom: "val_dom (erase_server w c m) \<subseteq> val_dom m"
  by (cases w) (auto simp: erase_server_def val_dom_def smap_find_erase split: if_splits)

lemma Cleanup_val_dom: "val_dom (exec_io (Cleanup env now) m) \<subseteq> val_dom m"
proof -
  have "preserves (\<lambda>s. val_dom s \<subseteq> val_dom m) (Cleanup env now)"
    unfolding Cleanup_def cleanup_map_def cleanup_entry_def
    by (intro preserves_intros)
      (auto intro!: preserves_intros preserves_modify with_game_ignores order_trans [OF erase_server_val_dom]
        simp: ignores_games_def)
  then show ?thesis by (simp add: preserves_def exec_io_def)
qed

section \<open>The server as a state machine\<close>

datatype ms_event = Datagram int string endpoint bytes | Tick int

definition ms_step :: "('d, 's) ms_env \<Rightarrow> ms_event \<Rightarrow> 'd master \<Rightarrow> 'd master" where
  "ms_step env ev m = (case ev of
     Datagram now rnd client datagram \<Rightarrow> exec_io (AcceptOne env now rnd client datagram) m
   | Tick now \<Rightarrow> exec_io (Cleanup env now) m)"

fun newly_proven :: "'d master \<Rightarrow> ms_event \<Rightarrow> endpoint set" where
  "newly_proven m (Datagram now rnd client datagram) = (if answers m client datagram then {client} else {})"
| "newly_proven m (Tick now) = {}"

text \<open>
  A state that a master server reaches from its construction, with the end points that have
  answered a challenge on the way.
\<close>

inductive ms_reach :: "('d, 's) ms_env \<Rightarrow> 'd master \<Rightarrow> endpoint set \<Rightarrow> bool" for env where
  start: "games_ok (ms_games m) \<Longrightarrow> m_AwaitingValidation m = [] \<Longrightarrow> m_Validated m = [] \<Longrightarrow>
    ms_reach env m {}"
| step: "ms_reach env m P \<Longrightarrow> ms_reach env (ms_step env ev m) (P \<union> newly_proven m ev)"

lemma ms_step_ok: "master_ok m \<Longrightarrow> master_ok (ms_step env ev m)"
  using preservesD [OF AcceptOne_ok] preservesD [OF Cleanup_ok]
  by (auto simp: ms_step_def exec_io_def split: ms_event.splits)

lemma ms_reach_inv: "ms_reach env m P \<Longrightarrow> master_ok m \<and> val_dom m \<subseteq> P"
proof (induction rule: ms_reach.induct)
  case (start m)
  then show ?case by (simp add: master_ok_def servers_named_def val_dom_def fun_eq_iff)
next
  case (step m P ev)
  then have sm: "smap_ok (m_Validated m)" by (simp add: master_ok_def servers_named_def)
  have "val_dom (ms_step env ev m) \<subseteq> val_dom m \<union> newly_proven m ev"
  proof (cases ev)
    case (Datagram now rnd client datagram)
    then show ?thesis
      using AcceptOne_val_dom [OF sm, of env now rnd client datagram]
      by (cases "answers m client datagram") (simp_all add: ms_step_def)
  next
    case (Tick now)
    then show ?thesis using Cleanup_val_dom [of env now m] by (simp add: ms_step_def)
  qed
  with step ms_step_ok show ?case by blast
qed

section \<open>Lemmas on the length of a challenge\<close>

lemma length_hex_upper: "n < 16 ^ w \<Longrightarrow> 0 < w \<Longrightarrow> length (hex_upper n) \<le> w"
proof -
  have "length ''0123456789ABCDEF'' = 16" by simp
  then show "n < 16 ^ w \<Longrightarrow> 0 < w \<Longrightarrow> length (hex_upper n) \<le> w"
    using length_radix_le [of "''0123456789ABCDEF''" n w] unfolding hex_upper_def by presburger
qed

lemma length_response_data:
  assumes "backend < 256"
  shows "length (response_data rnd backend client) = length rnd + 14"
proof -
  have "unat backend < 16 ^ 2" using assms by (simp add: word_less_nat_alt)
  moreover have "unat (fst client) < 16 ^ 8" using unsigned_less [of "fst client", where 'a = nat] by simp
  moreover have "unat (snd client) < 16 ^ 4" using unsigned_less [of "snd client", where 'a = nat] by simp
  ultimately show ?thesis
    by (simp add: response_data_def length_pad_left length_hex_upper)
qed

section \<open>Cleanup, entry by entry\<close>

lemma servers_of_games [simp]: "servers_of w (m\<lparr>ms_games := g\<rparr>) = servers_of w m"
  by (simp add: servers_of_def split: server_map.splits)

lemma servers_of_erase:
  "servers_of w (erase_server w' c m) = (if w = w' then smap_erase c (servers_of w m) else servers_of w m)"
  by (cases w; cases w') (simp_all add: servers_of_def erase_server_def)

lemma cleanup_entry_Inr:
  "cleanup_entry env now w (c, s) m = (Inr (), m') \<Longrightarrow>
   servers_of w' m' = (if w' = w \<and> timed_out now s then smap_erase c (servers_of w' m) else servers_of w' m)"
  by (auto simp: cleanup_entry_def then_io_def bind_io_def with_game_eq modify_def ret_def
      servers_of_erase split: prod.splits sum.splits if_splits)

lemma cleanup_entries:
  "for_each es (cleanup_entry env now w) m = (Inr (), m') \<Longrightarrow>
   servers_of w' m' = filter (\<lambda>(c, _). \<not> (w' = w \<and> (\<exists>s. (c, s) \<in> set es \<and> timed_out now s))) (servers_of w' m)"
proof (induction es arbitrary: m)
  case (Cons e es)
  obtain c s where e [simp]: "e = (c, s)" by (cases e)
  from Cons.prems obtain m1 where m1: "cleanup_entry env now w (c, s) m = (Inr (), m1)"
    and rest: "for_each es (cleanup_entry env now w) m1 = (Inr (), m')"
    by (auto simp: then_io_def bind_io_Inr)
  from Cons.IH [OF rest] cleanup_entry_Inr [OF m1, of w'] show ?case
    by (auto simp: smap_erase_def intro!: filter_cong)
qed (simp add: ret_def)

lemma cleanup_map_Inr:
  assumes "cleanup_map env now w m = (Inr (), m')" and "smap_ok (servers_of w m)"
  shows "servers_of w' m' = (if w' = w then filter (\<lambda>(c, s). \<not> timed_out now s) (servers_of w m)
    else servers_of w' m)"
proof -
  have "for_each (servers_of w m) (cleanup_entry env now w) m = (Inr (), m')"
    using assms(1) by (simp add: cleanup_map_def bind_io_def gets_def)
  from cleanup_entries [OF this, of w'] have e: "servers_of w' m' =
    filter (\<lambda>(c, _). \<not> (w' = w \<and> (\<exists>s. (c, s) \<in> set (servers_of w m) \<and> timed_out now s))) (servers_of w' m)" .
  have one: "(\<exists>s'. (c, s') \<in> set (servers_of w m) \<and> timed_out now s') \<longleftrightarrow> timed_out now s"
    if "(c, s) \<in> set (servers_of w m)" for c s
    using that smap_find_in_set [OF assms(2)] by (metis option.inject)
  show ?thesis
  proof (cases "w' = w")
    case True
    have "filter (\<lambda>(c, _). \<not> (\<exists>s. (c, s) \<in> set (servers_of w m) \<and> timed_out now s)) (servers_of w m) =
        filter (\<lambda>(c, s). \<not> timed_out now s) (servers_of w m)"
    proof (rule filter_cong [OF refl])
      fix x assume x: "x \<in> set (servers_of w m)"
      obtain c s where "x = (c, s)" by (cases x)
      then show "(case x of (c, _) \<Rightarrow> \<not> (\<exists>s. (c, s) \<in> set (servers_of w m) \<and> timed_out now s)) =
          (case x of (c, s) \<Rightarrow> \<not> timed_out now s)"
        using one [of c s] x by auto
    qed
    then show ?thesis using e True by simp
  next
    case False
    then have "servers_of w' m' = filter (\<lambda>(c, s). True) (servers_of w' m)" using e by simp
    then show ?thesis using False by (simp add: case_prod_unfold)
  qed
qed

lemma Cleanup_Inr:
  assumes "Cleanup env now m = (Inr (), m')" and "master_ok m"
  shows "m_AwaitingValidation m' = filter (\<lambda>(c, s). \<not> timed_out now s) (m_AwaitingValidation m) \<and>
    m_Validated m' = filter (\<lambda>(c, s). \<not> timed_out now s) (m_Validated m)"
proof -
  obtain m1 where m1: "cleanup_map env now Awaiting_map m = (Inr (), m1)"
    and m2: "cleanup_map env now Validated_map m1 = (Inr (), m')"
    using assms(1) by (auto simp: Cleanup_def then_io_def bind_io_Inr ret_def)
  have ok: "smap_ok (servers_of w m)" for w
    using assms(2) by (cases w) (simp_all add: servers_of_def master_ok_def servers_named_def)
  have ok1: "smap_ok (servers_of Validated_map m1)"
    using cleanup_map_Inr [OF m1 ok, of Validated_map] ok [of Validated_map] by simp
  show ?thesis
    using cleanup_map_Inr [OF m2 ok1, of Awaiting_map] cleanup_map_Inr [OF m2 ok1, of Validated_map]
      cleanup_map_Inr [OF m1 ok, of Awaiting_map] cleanup_map_Inr [OF m1 ok, of Validated_map]
    by (simp add: servers_of_def)
qed

section \<open>Datagrams that prove nothing\<close>

lemma HandleHeartbeat_games:
  assumes "\<not> smap_contains (m_Validated m) client"
  shows "ms_games (snd (HandleHeartbeat env now rnd client packet m)) = ms_games m"
proof (cases "\<exists>hb name. heartbeat_parse packet = Inr hb \<and>
      smap_find (serverData hb) ''gamename'' = Some name \<and> HasGame (ms_games m) name")
  case True
  then obtain hb name g where h: "heartbeat_parse packet = Inr hb"
      "smap_find (serverData hb) ''gamename'' = Some name" "HasGame (ms_games m) name"
      "GetGame (ms_games m) name = Inr g"
    using gdb.get_has by metis
  show ?thesis
    unfolding heartbeat_cases [OF h] using assms
    by (simp add: send_to_eq Let_def split: option.splits sum.splits)
next
  case False
  then show ?thesis by (simp add: HandleHeartbeat_idle)
qed

lemma dispatch_games:
  assumes "\<not> smap_contains (m_Validated m) client"
    and "\<not> (\<exists>packet server. qr_parse datagram = Inr packet \<and> type_of_packet packet = challenge \<and>
        smap_find (m_AwaitingValidation m) client = Some server \<and> proof_text server = challenge_text m)"
  shows "ms_games (snd (dispatch env now rnd client datagram m)) = ms_games m"
proof (cases "qr_parse datagram")
  case (Inr packet)
  have "preserves (\<lambda>s. ms_games s = ms_games m) (HandleAvailable env client packet)"
    by (rule HandleAvailable_ignores) (simp add: ignores_sent_def)
  then have av: "ms_games (snd (HandleAvailable env client packet m)) = ms_games m"
    unfolding preserves_def by blast
  have ka: "ms_games (snd (HandleKeepAlive now client m)) = ms_games m"
    by (simp add: HandleKeepAlive_def modify_def split: option.splits)
  have ch: "ms_games (snd (HandleChallenge env client m)) = ms_games m" if "type_of_packet packet = challenge"
    using assms(2) Inr that by (auto simp: challenge_cases Let_def modify_def split: option.splits)
  show ?thesis
    using Inr av ka ch HandleHeartbeat_games [OF assms(1)]
    by (cases "type_of_packet packet") (simp_all add: dispatch_def ret_def)
qed (simp add: dispatch_def ret_def)

section \<open>Reading an answer\<close>

lemma challenge_text_answer:
  assumes "length inst = 4" and "NUL \<notin> set answer"
    and "ms_buff m = (qr_type_code challenge # inst @ bytes_of answer @ [0]) @ rest"
  shows "challenge_text m = answer"
proof -
  have "drop 5 (ms_buff m) = bytes_of answer @ 0 # rest" using assms(1,3) by simp
  moreover have "takeWhile (\<lambda>b. b \<noteq> 0) (bytes_of answer @ 0 # rest) = bytes_of answer"
    using assms(2) by (subst takeWhile_append2) auto
  ultimately show ?thesis by (simp add: challenge_text_def)
qed

lemma AcceptOne_dispatch:
  assumes "ms_accepting m" and "datagram \<noteq> []" and "length datagram \<le> receive_size"
  shows "AcceptOne env now rnd client datagram m =
    try_log (dispatch env now rnd client datagram)
      (m\<lparr>ms_buff := datagram @ drop (length datagram) (ms_buff m)\<rparr>)"
  using assms by (simp add: AcceptOne_def bind_io_def then_io_def gets_def modify_def)

section \<open>A concrete master, for the witnesses\<close>

definition sample_env :: "(string, unit) ms_env" where
  "sample_env = \<lparr>ms_api = quiet_sqlite, ms_enc = rfc4648_encode, ms_addr = (\<lambda>_. ''10.0.0.1''),
     ms_send = (\<lambda>_ _. Inr ())\<rparr>"

definition sample_master :: "string master" where
  "sample_master = \<lparr>ms_games = \<lparr>m_Config = [], m_Games = [(''gmtest'', Base_game gmtest_game)]\<rparr>,
     m_AwaitingValidation = [], m_Validated = [], ms_sent = [], ms_buff = [], ms_accepting = True\<rparr>"

definition sample_client :: endpoint where
  "sample_client = (0x0A000001, 6500)"

definition sample_packet :: qr_packet where
  "sample_packet = \<lparr>type_of_packet = heartbeat, instance_key = [1, 2, 3, 4],
     qr_data = qr_map_wire [(''gamename'', ''gmtest'')]\<rparr>"

definition sample_heartbeat :: heartbeat_packet where
  "sample_heartbeat = \<lparr>type_of_packet = heartbeat, instance_key = [1, 2, 3, 4], qr_data = [],
     serverData = [(''gamename'', ''gmtest'')], playerKeys = [], playerValues = [],
     teamKeys = [], teamValues = []\<rparr>"

lemma sample_parse: "heartbeat_parse sample_packet = Inr sample_heartbeat"
proof -
  have "qr_map_parse (qr_map_wire [(''gamename'', ''gmtest'')] @ []) = Inr ([(''gamename'', ''gmtest'')], [])"
    by (subst qr_map_parse_wire)
      (simp_all add: wire_cell_def no_nul_def smap_of_list_def smap_emplace_def smap_contains_def)
  then show ?thesis
    by (simp add: heartbeat_parse_def sample_packet_def sample_heartbeat_def qr_table_parse_def)
qed

lemma sample_games:
  "HasGame (ms_games sample_master) ''gmtest''"
  "GetGame (ms_games sample_master) ''gmtest'' = Inr (Base_game gmtest_game)"
  by (simp_all add: sample_master_def HasGame_def GetGame_def smap_contains_def)

lemma sample_simps:
  "gd_backend (m_Data gmtest_game) = 128" "gd_secretKey (m_Data gmtest_game) = ''HA6zkS''"
  "ms_enc sample_env = rfc4648_encode" "instance_key sample_packet = [1, 2, 3, 4]"
  "serverData sample_heartbeat = [(''gamename'', ''gmtest'')]"
  "m_AwaitingValidation sample_master = []" "ms_sent sample_master = []"
  by (simp_all add: gmtest_game_def gmtest_data_def sample_env_def sample_packet_def sample_heartbeat_def
      sample_master_def)

lemma sample_master_ok: "master_ok sample_master"
proof -
  have "game_ok ''gmtest'' gmtest_game"
    by (simp add: game_ok_def gmtest_game_def gmtest_data_def)
  then show ?thesis
    by (simp add: master_ok_def servers_named_def sample_master_def games_ok_def any_game_ok_def)
qed

section \<open>Properties\<close>

text \<open>
  C1. The validation state machine: in every state the master server reaches, by any datagrams
  from anyone, timer ticks and exceptions on the way, the games are sound, every server that
  waits or is validated names an existing game, and every validated end point has once sent, while it was waiting,
  a challenge packet with exactly the proof the master computed for it.
\<close>

theorem only_proven_validated:
  assumes "ms_reach env m P"
  shows "master_ok m \<and> dom (smap_find (m_Validated m)) \<subseteq> P"
  using ms_reach_inv [OF assms] by (simp add: val_dom_def)

theorem only_proven_validated_witness:
  "dom (smap_find (m_Validated (ms_step sample_env (Datagram 0 ''ABCDEFG'' sample_client [7]) sample_master)))
     \<subseteq> {} \<union> newly_proven sample_master (Datagram 0 ''ABCDEFG'' sample_client [7])"
proof -
  have "ms_reach sample_env sample_master {}"
    by (rule ms_reach.start) (use sample_master_ok in \<open>simp_all add: master_ok_def sample_master_def\<close>)
  then have "ms_reach sample_env (ms_step sample_env (Datagram 0 ''ABCDEFG'' sample_client [7]) sample_master)
      ({} \<union> newly_proven sample_master (Datagram 0 ''ABCDEFG'' sample_client [7]))"
    by (rule ms_reach.step)
  from only_proven_validated [OF this] show ?thesis by blast
qed

text \<open>
  A datagram from an end point that is not validated, and that is not the right answer to a
  challenge, changes no game: nobody stores or removes a server without the secret key.
\<close>

theorem unproven_datagram_harmless:
  assumes "\<not> smap_contains (m_Validated m) client" and "\<not> answers m client datagram"
  shows "ms_games (exec_io (AcceptOne env now rnd client datagram) m) = ms_games m"
proof (cases "ms_accepting m \<and> take receive_size datagram \<noteq> []")
  case True
  let ?d = "take receive_size datagram"
  let ?m = "m\<lparr>ms_buff := ?d @ drop (length ?d) (ms_buff m)\<rparr>"
  have "exec_io (AcceptOne env now rnd client datagram) m = snd (dispatch env now rnd client ?d ?m)"
    using True by (auto simp: AcceptOne_def exec_io_def bind_io_def then_io_def gets_def modify_def
        Let_def try_log_def split: prod.splits sum.splits)
  moreover have "\<not> (\<exists>packet server. qr_parse ?d = Inr packet \<and> type_of_packet packet = challenge \<and>
        smap_find (m_AwaitingValidation ?m) client = Some server \<and> proof_text server = challenge_text ?m)"
    using assms(2) True by (auto simp: answers_def Let_def)
  moreover have "\<not> smap_contains (m_Validated ?m) client" using assms(1) by simp
  ultimately show ?thesis
    using dispatch_games [of ?m client ?d env now rnd] by simp
next
  case False
  then show ?thesis
    by (auto simp: AcceptOne_def exec_io_def bind_io_def gets_def ret_def modify_def Let_def)
qed

theorem unproven_datagram_harmless_witness:
  "ms_games (exec_io (AcceptOne sample_env 0 ''ABCDEFG'' sample_client [1, 0, 0, 0, 0, 65, 0]) sample_master) =
     ms_games sample_master"
  by (rule unproven_datagram_harmless)
    (simp_all add: sample_master_def smap_contains_def answers_def Let_def split: sum.splits)

text \<open>
  The first heartbeat of an end point for a known game: the master remembers the end point
  with the values it sent and the proof it must give, and sends it the challenge, whose 21
  characters are the random part, the backend options, the address and the port; the proof is
  \<open>encode\<close> of these under the game's secret key, 28 characters without padding; nothing is
  stored in the game yet.
\<close>

theorem heartbeat_issues_challenge:
  assumes "heartbeat_parse packet = Inr hb" and "smap_find (serverData hb) ''gamename'' = Some name"
    and "HasGame (ms_games m) name" and "GetGame (ms_games m) name = Inr g"
    and "smap_find (m_Validated m) client = None" and "smap_find (m_AwaitingValidation m) client = None"
    and "base64_codec (ms_enc env) dec64" and "length rnd = 7"
    and "gd_backend (m_Data (as_game g)) < 256" and "gd_secretKey (m_Data (as_game g)) \<noteq> []"
    and "\<And>c bs. ms_send env c bs = Inr ()"
  shows "\<exists>responseData pr.
    responseData = response_data rnd (gd_backend (m_Data (as_game g))) client \<and> length responseData = 21 \<and>
    encode (ms_enc env) (gd_secretKey (m_Data (as_game g))) responseData = Some pr \<and> length pr = 28 \<and>
    set pr \<subseteq> set base64_alphabet \<and>
    HandleHeartbeat env now rnd client packet m = (Inr (), m\<lparr>
      m_AwaitingValidation := smap_emplace client \<lparr>srv_last_update = now, proof_text = pr,
        srv_instance = instance_key packet, gamename = name, srv_values = serverData hb\<rparr> (m_AwaitingValidation m),
      ms_sent := ms_sent m @ [(client, challenge_packet (instance_key packet) responseData)]\<rparr>)"
proof -
  let ?k = "gd_secretKey (m_Data (as_game g))"
  let ?r = "response_data rnd (gd_backend (m_Data (as_game g))) client"
  have len: "length ?r = 21" using length_response_data [OF assms(9)] assms(8) by simp
  define raw where "raw = fst (prga (key_schedule ?k) 0 0 ?r)"
  have raw: "length raw = 21" by (simp add: raw_def length_prga len)
  have enc: "encode (ms_enc env) ?k ?r = Some (ms_enc env raw)"
    using assms(10) base64_codec.encode_unpadded [OF assms(7), of raw] raw
    by (simp add: encode_def raw_def)
  have "length (ms_enc env raw) = 28" using base64_codec.length_enc [OF assms(7), of raw] raw by simp
  moreover have "set (ms_enc env raw) \<subseteq> set base64_alphabet"
    by (rule base64_codec.enc_alphabet [OF assms(7)])
  moreover have "HandleHeartbeat env now rnd client packet m = (Inr (), m\<lparr>
      m_AwaitingValidation := smap_emplace client \<lparr>srv_last_update = now, proof_text = ms_enc env raw,
        srv_instance = instance_key packet, gamename = name, srv_values = serverData hb\<rparr> (m_AwaitingValidation m),
      ms_sent := ms_sent m @ [(client, challenge_packet (instance_key packet) ?r)]\<rparr>)"
    unfolding heartbeat_cases [OF assms(1-4)]
    using assms(5,6,11) enc by (simp add: smap_contains_def Let_def send_to_eq)
  ultimately show ?thesis using len enc by blast
qed

theorem heartbeat_issues_challenge_witness:
  "\<exists>pr. encode rfc4648_encode ''HA6zkS'' (response_data ''ABCDEFG'' 128 sample_client) = Some pr \<and>
     length pr = 28 \<and>
     HandleHeartbeat sample_env 0 ''ABCDEFG'' sample_client sample_packet sample_master =
       (Inr (), sample_master\<lparr>m_AwaitingValidation := [(sample_client, \<lparr>srv_last_update = 0, proof_text = pr,
          srv_instance = [1, 2, 3, 4], gamename = ''gmtest'', srv_values = [(''gamename'', ''gmtest'')]\<rparr>)],
        ms_sent := [(sample_client, challenge_packet [1, 2, 3, 4] (response_data ''ABCDEFG'' 128 sample_client))]\<rparr>)"
proof -
  have codec: "base64_codec (ms_enc sample_env) rfc4648_decode"
    using rfc4648.base64_codec_axioms by (simp add: sample_env_def)
  have "\<exists>responseData pr. responseData = response_data ''ABCDEFG'' (gd_backend (m_Data (as_game (Base_game gmtest_game)))) sample_client \<and>
    length responseData = 21 \<and>
    encode (ms_enc sample_env) (gd_secretKey (m_Data (as_game (Base_game gmtest_game)))) responseData = Some pr \<and> length pr = 28 \<and>
    set pr \<subseteq> set base64_alphabet \<and>
    HandleHeartbeat sample_env 0 ''ABCDEFG'' sample_client sample_packet sample_master = (Inr (), sample_master\<lparr>
      m_AwaitingValidation := smap_emplace sample_client \<lparr>srv_last_update = 0, proof_text = pr,
        srv_instance = instance_key sample_packet, gamename = ''gmtest'', srv_values = serverData sample_heartbeat\<rparr>
        (m_AwaitingValidation sample_master),
      ms_sent := ms_sent sample_master @ [(sample_client, challenge_packet (instance_key sample_packet) responseData)]\<rparr>)"
    by (rule heartbeat_issues_challenge [OF sample_parse _ sample_games _ _ codec])
      (simp_all add: sample_heartbeat_def sample_master_def sample_env_def gmtest_game_def gmtest_data_def)
  then show ?thesis by (simp add: sample_simps smap_emplace_def smap_contains_def) blast
qed

text \<open>
  The answer decides: a challenge packet of a waiting end point with the right proof makes it
  validated, sends it the confirmation with its instance key and stores the server in its
  game with the values and the time of its last heartbeat; with any other answer nothing is stored and the end point must start
  again; in both cases it no longer waits.
\<close>

theorem challenge_decides:
  assumes "smap_find (m_AwaitingValidation m) client = Some server" and "ms_accepting m"
    and "length inst = 4" and "NUL \<notin> set answer" and "length answer \<le> 1394"
    and "\<And>c bs. ms_send env c bs = Inr ()"
    and "fst (gdb.call (gamename server) (game_AddOrUpdateServer (ms_api env)
      (incoming_server env client (srv_last_update server) (srv_values server))) (ms_games m)) = Inr ()"
  shows "let datagram = qr_type_code challenge # inst @ bytes_of answer @ [0];
             m1 = exec_io (AcceptOne env now rnd client datagram) m
         in m_AwaitingValidation m1 = smap_erase client (m_AwaitingValidation m) \<and>
            (if answer = proof_text server then
               m_Validated m1 = smap_emplace client server (m_Validated m) \<and>
               ms_sent m1 = ms_sent m @ [(client, [0xFE, 0xFD, 0x0A] @ srv_instance server)] \<and>
               ms_games m1 = snd (gdb.call (gamename server) (game_AddOrUpdateServer (ms_api env)
                 (incoming_server env client (srv_last_update server) (srv_values server))) (ms_games m))
             else m_Validated m1 = m_Validated m \<and> ms_sent m1 = ms_sent m \<and> ms_games m1 = ms_games m)"
proof -
  let ?d = "qr_type_code challenge # inst @ bytes_of answer @ [0]"
  let ?m = "m\<lparr>ms_buff := ?d @ drop (length ?d) (ms_buff m)\<rparr>"
  let ?p = "\<lparr>type_of_packet = challenge, instance_key = inst, qr_data = bytes_of answer @ [0]\<rparr>"
  have parse: "qr_parse ?d = Inr ?p" using assms(3) by (subst qr_parse_Inr) auto
  have ans: "challenge_text ?m = answer" using assms(3,4) by (rule challenge_text_answer) simp
  have eq: "AcceptOne env now rnd client ?d m = try_log (HandleChallenge env client) ?m"
    using assms(2,3,5) by (subst AcceptOne_dispatch) (auto simp: receive_size_def dispatch_def parse)
  obtain g' where g': "gdb.call (gamename server) (game_AddOrUpdateServer (ms_api env)
      (incoming_server env client (srv_last_update server) (srv_values server))) (ms_games m) = (Inr (), g')"
    using assms(7) by (metis prod.collapse)
  define m2 where "m2 = ?m"
  have same: "m_AwaitingValidation m2 = m_AwaitingValidation m" "m_Validated m2 = m_Validated m"
    "ms_sent m2 = ms_sent m" "ms_games m2 = ms_games m" "challenge_text m2 = answer"
    using ans by (simp_all add: m2_def)
  have m1: "exec_io (AcceptOne env now rnd client ?d) m = snd (HandleChallenge env client m2)"
    unfolding exec_io_def eq m2_def by (simp add: try_log_def split: prod.splits sum.splits)
  show ?thesis
    unfolding m1 Let_def
    using assms(1,6) g' same
    by (auto simp: challenge_cases Let_def then_io_def bind_io_def send_to_eq with_game_eq modify_def
        proven_packet_def)
qed

theorem challenge_decides_witness:
  "let server = \<lparr>srv_last_update = 0, proof_text = ''right'', srv_instance = [1, 2, 3, 4], gamename = ''gmtest'',
         srv_values = []\<rparr>;
       m = sample_master\<lparr>m_AwaitingValidation := [(sample_client, server)]\<rparr>
   in m_Validated (exec_io (AcceptOne sample_env 0 ''ABCDEFG'' sample_client
        (qr_type_code challenge # [1, 2, 3, 4] @ bytes_of ''right'' @ [0])) m) = [(sample_client, server)] \<and>
      m_Validated (exec_io (AcceptOne sample_env 0 ''ABCDEFG'' sample_client
        (qr_type_code challenge # [1, 2, 3, 4] @ bytes_of ''wrong'' @ [0])) m) = []"
proof -
  let ?server = "\<lparr>srv_last_update = 0, proof_text = ''right'', srv_instance = [1, 2, 3, 4], gamename = ''gmtest'',
         srv_values = []\<rparr>"
  let ?m = "sample_master\<lparr>m_AwaitingValidation := [(sample_client, ?server)]\<rparr>"
  have add: "fst (gdb.call (gamename ?server) (game_AddOrUpdateServer (ms_api sample_env)
      (incoming_server sample_env sample_client (srv_last_update ?server) (srv_values ?server))) (ms_games ?m)) = Inr ()"
    by (simp add: gdb.call_def sample_master_def GetGame_def game_AddOrUpdateServer_def on_game_def zoom_def
        AddOrUpdateServer_def incoming_server_def sample_env_def sample_client_def bind_io_def then_io_def
        add_missing_columns_def ret_def on_db_def stmt_prepare_def insert_sql_def int_max_def quiet_sqlite_def
        insert_args_def bind_at_def lift_exn_def stmt_insert_def modify_def)
  have f: "smap_find (m_AwaitingValidation ?m) sample_client = Some ?server" "ms_accepting ?m"
    "length [1, 2, 3, 4 :: u8] = 4" "\<And>c bs. ms_send sample_env c bs = Inr ()"
    by (simp_all add: sample_master_def sample_env_def)
  have r: "NUL \<notin> set ''right''" "length ''right'' \<le> 1394" "NUL \<notin> set ''wrong''" "length ''wrong'' \<le> 1394"
    by simp_all
  show ?thesis
    using challenge_decides [OF f(1-3) r(1,2) f(4) add, of 0 "''ABCDEFG''"]
      challenge_decides [OF f(1-3) r(3,4) f(4) add, of 0 "''ABCDEFG''"]
    by (simp add: Let_def sample_master_def smap_emplace_def smap_contains_def)
qed

text \<open>
  What the proof does not cover: once an end point is validated, for whatever game, a heartbeat
  that names any other known game stores the server in that game, without a challenge and
  without the secret key of that game.
\<close>

theorem validated_for_one_game_serves_all:
  assumes "smap_find (m_Validated m) client = Some server" and "heartbeat_parse packet = Inr hb"
    and "smap_find (serverData hb) ''gamename'' = Some other" and "gamename server \<noteq> other"
    and "HasGame (ms_games m) other" and "GetGame (ms_games m) other = Inr g"
  shows "HandleHeartbeat env now rnd client packet m =
      with_game other (game_AddOrUpdateServer (ms_api env)
        (incoming_server env client now (serverData hb))) m \<and>
    ms_sent (snd (HandleHeartbeat env now rnd client packet m)) = ms_sent m"
proof -
  have eq: "HandleHeartbeat env now rnd client packet m =
      with_game other (game_AddOrUpdateServer (ms_api env)
        (incoming_server env client now (serverData hb))) m"
    unfolding heartbeat_cases [OF assms(2,3,5,6)] using assms(1) by (simp add: smap_contains_def)
  show ?thesis unfolding eq by (simp add: with_game_eq)
qed

definition bf2_server :: ms_server where
  "bf2_server = \<lparr>srv_last_update = 0, proof_text = ''p'', srv_instance = [1, 2, 3, 4],
     gamename = ''battlefield2'', srv_values = []\<rparr>"

theorem validated_for_one_game_serves_all_witness:
  "HandleHeartbeat sample_env 0 ''ABCDEFG'' sample_client sample_packet
     (sample_master\<lparr>m_Validated := [(sample_client, bf2_server)]\<rparr>) =
   with_game ''gmtest'' (game_AddOrUpdateServer quiet_sqlite
     (incoming_server sample_env sample_client 0 [(''gamename'', ''gmtest'')]))
     (sample_master\<lparr>m_Validated := [(sample_client, bf2_server)]\<rparr>)"
proof -
  let ?m = "sample_master\<lparr>m_Validated := [(sample_client, bf2_server)]\<rparr>"
  have "smap_find (m_Validated ?m) sample_client = Some bf2_server"
    "smap_find (serverData sample_heartbeat) ''gamename'' = Some ''gmtest''"
    "gamename bf2_server \<noteq> ''gmtest''"
    "HasGame (ms_games ?m) ''gmtest''" "GetGame (ms_games ?m) ''gmtest'' = Inr (Base_game gmtest_game)"
    using sample_games by (simp_all add: sample_heartbeat_def bf2_server_def)
  from validated_for_one_game_serves_all [OF this(1) sample_parse this(2-5), of sample_env 0 "''ABCDEFG''"]
  show ?thesis by (simp add: sample_heartbeat_def sample_env_def)
qed

text \<open>
  Timeouts: a pass of the cleanup that returns removes exactly the entries whose last update is
  more than 60 whole seconds old, waiting and validated alike, and removes the servers from their games; the
  heartbeats of a validated end point do not count as updates, so a server that sends heartbeats
  but no keep-alive is removed.
\<close>

theorem cleanup_timeouts:
  assumes "master_ok m" and "Cleanup env now (snd (HandleHeartbeat env t rnd client packet m)) = (Inr (), m')"
  shows "m_Validated m' = filter (\<lambda>(c, s). \<not> timed_out now s) (m_Validated m) \<and>
    m_AwaitingValidation m' = filter (\<lambda>(c, s). \<not> timed_out now s)
      (m_AwaitingValidation (snd (HandleHeartbeat env t rnd client packet m)))"
proof -
  have "master_ok (snd (HandleHeartbeat env t rnd client packet m))"
    using HandleHeartbeat_ok assms(1) by (rule preservesD)
  from Cleanup_Inr [OF assms(2) this] show ?thesis by simp
qed

theorem cleanup_timeouts_witness:
  "\<exists>m'. Cleanup sample_env 61000000000 (snd (HandleHeartbeat sample_env 60000000000 ''ABCDEFG'' sample_client
      (sample_packet\<lparr>qr_data := []\<rparr>)
      (sample_master\<lparr>m_Validated := [(sample_client, bf2_server\<lparr>gamename := ''gmtest''\<rparr>)]\<rparr>))) = (Inr (), m') \<and>
    m_Validated m' = []"
proof -
  let ?s = "bf2_server\<lparr>gamename := ''gmtest''\<rparr>"
  let ?m = "sample_master\<lparr>m_Validated := [(sample_client, ?s)]\<rparr>"
  let ?p = "sample_packet\<lparr>qr_data := []\<rparr>"
  have ok: "master_ok ?m"
    using sample_master_ok sample_games by (auto simp: master_ok_def servers_named_def)
  have idle: "HandleHeartbeat sample_env 60000000000 ''ABCDEFG'' sample_client ?p ?m = (Inr (), ?m)"
    by (rule HandleHeartbeat_idle) (simp add: heartbeat_parse_def qr_map_parse_def)
  have old: "timed_out 61000000000 ?s" by (simp add: timed_out_def duration_seconds_def bf2_server_def)
  have "\<exists>m'. Cleanup sample_env 61000000000 ?m = (Inr (), m')"
    using old
    by (simp add: Cleanup_def cleanup_map_def cleanup_entry_def servers_of_def then_io_def bind_io_def gets_def
        sample_master_def ret_def with_game_eq gdb.call_def GetGame_def game_RemoveServers_def on_game_def
        zoom_def RemoveServers_def on_db_def stmt_prepare_def delete_sql_def int_max_def quiet_sqlite_def
        sample_env_def lift_exn_def bind_at_def stmt_update_def stmt_insert_def stmt_reset_def modify_def bf2_server_def)
  then obtain m' where m': "Cleanup sample_env 61000000000 (snd (HandleHeartbeat sample_env 60000000000 ''ABCDEFG'' sample_client
      ?p ?m)) = (Inr (), m')" unfolding idle by auto
  show ?thesis using m' cleanup_timeouts [OF ok m'] old by auto
qed

text \<open>
  The availability request: a payload names a game up to its last byte; the answer to a known
  game is eight bytes whose seventh is 0, 1 or 2 for available, disabled temporarily or
  permanently, while the comment in the code gives 1 and 2 the opposite meanings; an unknown game
  gets no answer, and an empty payload reads outside the packet.
\<close>

theorem availability_answer:
  assumes "\<And>c bs. ms_send env c bs = Inr ()"
  shows "HandleAvailable env client \<lparr>type_of_packet = t, instance_key = i, qr_data = bytes_of name @ [0]\<rparr> m =
      (case GetGame (ms_games m) name of
         Inl _ \<Rightarrow> (Inr (), m)
       | Inr g \<Rightarrow> (Inr (), m\<lparr>ms_sent := ms_sent m @ [(client,
           [0xFE, 0xFD, 0x09, 0, 0, 0, (case gd_availability (m_Data (as_game g)) of
              available \<Rightarrow> 0 | disabled_temporary \<Rightarrow> 1 | disabled_permanently \<Rightarrow> 2), 0])]\<rparr>)) \<and>
    HandleAvailable env client \<lparr>type_of_packet = t, instance_key = i, qr_data = []\<rparr> m =
      (Inl Undefined_behaviour, m)"
proof -
  have send: "ms_send env = (\<lambda>_ _. Inr ())" using assms by (intro ext)
  show ?thesis
    using gdb.get_has [of "ms_games m" name] gdb.get_missing [of "ms_games m" name]
    by (cases "HasGame (ms_games m) name")
      (auto simp: HandleAvailable_def Let_def bind_io_def gets_def get_game_data_def send_to_eq
        availability_reply_def ret_def throw_def send)
qed

theorem availability_answer_witness:
  "HandleAvailable sample_env sample_client
     \<lparr>type_of_packet = prequery_ip_verify, instance_key = [0, 0, 0, 0], qr_data = bytes_of ''gmtest'' @ [0]\<rparr> sample_master =
   (Inr (), sample_master\<lparr>ms_sent := [(sample_client, [0xFE, 0xFD, 0x09, 0, 0, 0, 0, 0])]\<rparr>)"
proof -
  have send: "\<And>c bs. ms_send sample_env c bs = Inr ()" by (simp add: sample_env_def)
  have "ms_sent sample_master = []" "gd_availability (m_Data gmtest_game) = available"
    by (simp_all add: sample_master_def gmtest_game_def gmtest_data_def)
  then show ?thesis
    using availability_answer [OF send, of sample_client prequery_ip_verify "[0, 0, 0, 0]" "''gmtest''" sample_master]
      sample_games by simp
qed

text \<open>
  One empty datagram ends the service: it leaves the receive loop, and from then on no
  datagram of anyone changes the state, while the cleanup goes on removing servers.
\<close>

theorem empty_datagram_ends_service:
  "exec_io (AcceptOne env now rnd client datagram) (exec_io (AcceptOne env' now' rnd' client' []) m) =
   m\<lparr>ms_accepting := False\<rparr>"
  by (simp add: AcceptOne_def exec_io_def bind_io_def gets_def modify_def ret_def)

end

