(* ===== verification/Sb_Request.thy ===== *)
theory Sb_Request
  imports Game_Model
begin

text \<open>
  The server-list request of the server browser and the bytes that answer it
  (\<open>emulator/sb_request.h\<close>, \<open>emulator/sb_request.cpp\<close>): the parser with its limits, the response
  header and the entry of a server.  An iterator is the list of bytes it has left;
  \<open>make_address_v4\<close> is Boost's and a parameter.  The four reads of an integer in one expression
  are unsequenced in C++; the model reads them from left to right.  Shown: written requests are
  read back, and a client that follows the protocol reads the header and every server entry back.
\<close>

section \<open>Requests\<close>

datatype sb_error = unknown_protocol_version | unknown_encoding_version | invalid_key
  | too_many_keys | invalid_alternate_ip | insufficient_length

definition list_protocol_version :: u8 where
  "list_protocol_version = 1"

definition list_encoding_version :: u8 where
  "list_encoding_version = 3"

definition fields_total_length :: nat where
  "fields_total_length = 256"

definition filter_total_length :: nat where
  "filter_total_length = 256"

text \<open>\<open>Options\<close>: the flags as bits of a 32-bit value.\<close>

definition no_server_list :: u32 where "no_server_list = 2"

definition push_updates :: u32 where "push_updates = 4"

definition alternate_source_ip :: u32 where "alternate_source_ip = 8"

definition send_groups :: u32 where "send_groups = 32"

definition limit_result_count :: u32 where "limit_result_count = 128"

definition has_option :: "u32 \<Rightarrow> u32 \<Rightarrow> bool" where
  "has_option Lhs Rhs \<longleftrightarrow> Lhs AND Rhs > 0"

record server_list_request =
  protocolVersion :: u8
  encodingVersion :: u8
  fromGameVersion :: u32
  fromGame :: string
  toGame :: string
  sb_challenge :: bytes
  serverFilter :: string
  fieldList :: "string list"
  sb_options :: u32
  alternateSourceIP :: "u32 option"
  limitResultCount :: "u32 option"

definition ExtractString :: "nat option \<Rightarrow> bytes \<Rightarrow> sb_error + string \<times> bytes" where
  "ExtractString maxLength start =
     (case split_nul start of
        None \<Rightarrow> Inl insufficient_length
      | Some (s, rest) \<Rightarrow>
          (case maxLength of
             Some n \<Rightarrow> if length s > n then Inl too_many_keys else Inr (string_of s, rest)
           | None \<Rightarrow> Inr (string_of s, rest)))"

definition ExtractSpan :: "nat \<Rightarrow> bytes \<Rightarrow> sb_error + bytes \<times> bytes" where
  "ExtractSpan n start =
     (if length start < n then Inl insufficient_length else Inr (take n start, drop n start))"

definition ExtractUInt32 :: "bytes \<Rightarrow> sb_error + u32 \<times> bytes" where
  "ExtractUInt32 start =
     (case start of
        a # b # c # d # rest \<Rightarrow> Inr (un_be32 a b c d, rest)
      | _ \<Rightarrow> Inl insufficient_length)"

definition ExtractOptions :: "bytes \<Rightarrow> sb_error + u32 \<times> bytes" where
  "ExtractOptions start =
     and_then (ExtractUInt32 start) (\<lambda>(v, rest).
       if v = 0 then Inr (0, rest)
       else if 1 \<le> v \<and> v \<le> limit_result_count then Inr (v, rest)
       else Inl invalid_key)"

text \<open>\<open>std::views::split\<close>: an empty range has no parts, a trailing delimiter a last empty one.\<close>

fun split_parts :: "char \<Rightarrow> string \<Rightarrow> string list" where
  "split_parts d [] = [[]]"
| "split_parts d (c # s) =
     (if c = d then [] # split_parts d s
      else case split_parts d s of p # ps \<Rightarrow> (c # p) # ps | [] \<Rightarrow> [[c]])"

definition views_split :: "char \<Rightarrow> string \<Rightarrow> string list" where
  "views_split d s = (if s = [] then [] else split_parts d s)"

definition ExtractFieldList :: "bytes \<Rightarrow> sb_error + string list \<times> bytes" where
  "ExtractFieldList start =
     and_then (ExtractString (Some fields_total_length) start) (\<lambda>(fieldStr, rest).
       if fieldStr = [] \<or> hd fieldStr \<noteq> BS then Inl invalid_key
       else Inr (views_split BS (drop 1 fieldStr), rest))"

definition ExtractOptional :: "u32 \<Rightarrow> u32 \<Rightarrow> bytes \<Rightarrow> sb_error + u32 option \<times> bytes" where
  "ExtractOptional flag options start =
     (if has_option options flag then
        and_then (ExtractUInt32 start) (\<lambda>(v, rest). Inr (Some v, rest))
      else Inr (None, start))"

definition ExtractAlternateIP :: "u32 \<Rightarrow> bytes \<Rightarrow> sb_error + u32 option \<times> bytes" where
  "ExtractAlternateIP options start = ExtractOptional alternate_source_ip options start"

definition ExtractLimit :: "u32 \<Rightarrow> bytes \<Rightarrow> sb_error + u32 option \<times> bytes" where
  "ExtractLimit options start = ExtractOptional limit_result_count options start"

definition client_challenge_length :: nat where
  "client_challenge_length = 8"

definition MIN_SIZE :: nat where
  "MIN_SIZE = 1 + 1 + 4 + 2 + 2 + client_challenge_length + 1 + 3 + 4"

definition sb_parse :: "bytes \<Rightarrow> sb_error + server_list_request" where
  "sb_parse packet =
     (if length packet < MIN_SIZE then Inl insufficient_length
      else if packet ! 0 \<noteq> list_protocol_version then Inl unknown_protocol_version
      else if packet ! 1 \<noteq> list_encoding_version then Inl unknown_encoding_version
      else
        and_then (ExtractUInt32 (drop 2 packet)) (\<lambda>(gameversion, it).
        and_then (ExtractString None it) (\<lambda>(fromGame, it).
        and_then (ExtractString None it) (\<lambda>(toGame, it).
        and_then (ExtractSpan client_challenge_length it) (\<lambda>(chal, it).
        and_then (ExtractString (Some filter_total_length) it) (\<lambda>(serverFilter, it).
        and_then (ExtractFieldList it) (\<lambda>(fieldNames, it).
        and_then (ExtractOptions it) (\<lambda>(options, it).
        and_then (ExtractAlternateIP options it) (\<lambda>(alternateIP, it).
        and_then (ExtractLimit options it) (\<lambda>(limit, it).
          Inr \<lparr>protocolVersion = packet ! 0, encodingVersion = packet ! 1,
               fromGameVersion = gameversion, fromGame = fromGame, toGame = toGame,
               sb_challenge = chal, serverFilter = serverFilter, fieldList = fieldNames,
               sb_options = options, alternateSourceIP = alternateIP,
               limitResultCount = limit\<rparr>))))))))))"

section \<open>The response header\<close>

definition send_code :: "send_type \<Rightarrow> u8" where
  "send_code t = (case t of as_string \<Rightarrow> 0 | as_byte \<Rightarrow> 1 | as_short \<Rightarrow> 2)"

abbreviation zbytes :: "string \<Rightarrow> bytes" where
  "zbytes s \<equiv> bytes_of s @ [0]"

definition GetResponseHeaderBytes :: "server_list_request \<Rightarrow> 'd game \<Rightarrow> u32 \<Rightarrow> bytes" where
  "GetResponseHeaderBytes request forGame socketIP =
     (let queryPort = gd_queryPort (m_Data forGame);
          response = be32 socketIP @ be16 queryPort;
          response = (if queryPort = 0xFFFF
            then response @ zbytes ''Game does not support multiplayer!'' else response)
      in if has_option (sb_options request) no_server_list \<or> queryPort = 0xFFFF then response
         else
           response @
           [of_nat (length (fieldList request))] @
           concat (map (\<lambda>field. send_code (GetParamSendType forGame field) # zbytes field) (fieldList request)) @
           [of_nat (length (m_PopularValues forGame))] @
           concat (map zbytes (m_PopularValues forGame)))"

section \<open>The entry of a server\<close>

text \<open>\<open>ServerOptions\<close>\<close>

definition unsolicited_udp :: u8 where "unsolicited_udp = 1"

definition private_ip_flag :: u8 where "private_ip_flag = 2"

definition connect_negotiate :: u8 where "connect_negotiate = 4"

definition icmp_ip_flag :: u8 where "icmp_ip_flag = 8"

definition non_standard_port :: u8 where "non_standard_port = 16"

definition non_standard_private_port :: u8 where "non_standard_private_port = 32"

definition has_keys :: u8 where "has_keys = 64"

definition has_full_rules :: u8 where "has_full_rules = 128"

definition errc_exn :: "errc \<Rightarrow> exn" where
  "errc_exn ec = (if ec = Result_Out_Of_Range then Result_out_of_range else Invalid_argument)"

definition number_value :: "nat \<Rightarrow> string \<Rightarrow> string \<Rightarrow> exn + nat" where
  "number_value bits message v =
     (let (ptr, ec, keyValue) = from_chars bits v 0
      in if ec \<noteq> Errc_Ok then Inl (errc_exn ec)
         else if ptr \<noteq> [] then Inl (Runtime_error message)
         else Inr keyValue)"

text \<open>\<open>std::ranges::find\<close>: the index of the first occurrence.\<close>

fun index_of :: "'a list \<Rightarrow> 'a \<Rightarrow> nat option" where
  "index_of [] x = None"
| "index_of (y # ys) x = (if x = y then Some 0 else map_option Suc (index_of ys x))"

definition value_bytes :: "'d game \<Rightarrow> (string, string) std_map \<Rightarrow> bool \<Rightarrow> string \<Rightarrow> exn + bytes" where
  "value_bytes g data usePopularList k =
     (let v = (case smap_find data k of Some v \<Rightarrow> v | None \<Rightarrow> '''') in
      case GetParamSendType g k of
        as_string \<Rightarrow>
          (case (if usePopularList then index_of (m_PopularValues g) v else None) of
             Some pos \<Rightarrow> Inr [of_nat (length (m_PopularValues g) - pos)]
           | None \<Rightarrow> Inr (0xFF # zbytes v))
      | as_byte \<Rightarrow>
          if v = [] then Inr [0]
          else and_then (number_value 8 ''Invalid byte value in server data'' v)
            (\<lambda>n. Inr [of_nat n])
      | as_short \<Rightarrow>
          if v = [] then Inr [0, 0]
          else and_then (number_value 16 ''Invalid short value in server data'' v)
            (\<lambda>n. Inr (be16 (of_nat n))))"

fun values_bytes :: "'d game \<Rightarrow> (string, string) std_map \<Rightarrow> bool \<Rightarrow> string list \<Rightarrow> exn + bytes" where
  "values_bytes g data usePopularList [] = Inr []"
| "values_bytes g data usePopularList (k # ks) =
     and_then (value_bytes g data usePopularList k) (\<lambda>bs.
     and_then (values_bytes g data usePopularList ks) (\<lambda>rest. Inr (bs @ rest)))"

text \<open>An address that may be left out.\<close>

definition optional_ip :: "(string \<Rightarrow> exn + u32) \<Rightarrow> u8 \<Rightarrow> string \<Rightarrow> exn + u8 \<times> bytes" where
  "optional_ip make_address flag ip =
     (if ip \<noteq> [] then and_then (make_address ip) (\<lambda>a. Inr (flag, be32 a)) else Inr (0, []))"

definition PrepareServer ::
  "(string \<Rightarrow> exn + u32) \<Rightarrow> 'd game \<Rightarrow> server_data \<Rightarrow> string list \<Rightarrow> bool \<Rightarrow> exn + bytes"
where
  "PrepareServer make_address g server fieldNames usePopularList =
     (let flags = 0 OR unsolicited_udp in
      and_then (make_address (public_ip server)) (\<lambda>public.
      let (flags, port) = (if public_port server \<noteq> gd_queryPort (m_Data g)
            then (flags OR non_standard_port, be16 (public_port server)) else (flags, []))
      in and_then (optional_ip make_address private_ip_flag (private_ip server)) (\<lambda>(pflag, private).
      let flags = flags OR pflag;
          (flags, pport) = (if private_port server \<noteq> 0
            then (flags OR non_standard_private_port, be16 (private_port server)) else (flags, []));
          flags = (if smap_find (sv_data server) ''natneg'' = Some ''1''
            then flags OR connect_negotiate else flags)
      in and_then (optional_ip make_address icmp_ip_flag (icmp_ip server)) (\<lambda>(iflag, icmp).
      let flags = flags OR iflag;
          flags = (if sv_data server \<noteq> [] then flags OR has_keys else flags)
      in and_then (values_bytes g (sv_data server) usePopularList fieldNames) (\<lambda>values.
      let (flags, full) = (if rules server \<noteq> []
            then (flags OR has_full_rules, zbytes (rules server)) else (flags, []))
      in Inr (flags # be32 public @ port @ private @ pport @ icmp @ values @ full))))))"

definition GetServerBytes ::
  "(string \<Rightarrow> exn + u32) \<Rightarrow> 'd game \<Rightarrow> server_data \<Rightarrow> string list \<Rightarrow> bool \<Rightarrow> exn + bytes"
where
  "GetServerBytes make_address g server fieldNames usePopularList =
     PrepareServer make_address g server fieldNames usePopularList"

section \<open>The client's side of the protocol\<close>

text \<open>
  The reference reader: what a server browser does with the header, and with an entry once it
  knows the port, the send types and the popular values of the header.
\<close>

datatype field_value = Text_value string | Number_value nat

record read_header =
  rh_ip :: u32
  rh_port :: u16
  rh_fields :: "(u8 \<times> string) list"
  rh_popular :: "string list"

fun read_zstring :: "bytes \<Rightarrow> (string \<times> bytes) option" where
  "read_zstring bs = map_option (\<lambda>(s, r). (string_of s, r)) (split_nul bs)"

fun read_n :: "(bytes \<Rightarrow> ('a \<times> bytes) option) \<Rightarrow> nat \<Rightarrow> bytes \<Rightarrow> ('a list \<times> bytes) option" where
  "read_n rd 0 bs = Some ([], bs)"
| "read_n rd (Suc n) bs =
     (case rd bs of
        None \<Rightarrow> None
      | Some (x, bs) \<Rightarrow> map_option (\<lambda>(xs, r). (x # xs, r)) (read_n rd n bs))"

fun read_typed_field :: "bytes \<Rightarrow> ((u8 \<times> string) \<times> bytes) option" where
  "read_typed_field [] = None"
| "read_typed_field (t # bs) = map_option (\<lambda>(s, r). ((t, s), r)) (read_zstring bs)"

fun read_response_header :: "bytes \<Rightarrow> (read_header \<times> bytes) option" where
  "read_response_header (a # b # c # d # hi # lo # n # bs) =
     (case read_n read_typed_field (unat n) bs of
        Some (fs, k # bs) \<Rightarrow>
          map_option (\<lambda>(ps, r). (\<lparr>rh_ip = un_be32 a b c d, rh_port = un_be16 hi lo,
            rh_fields = fs, rh_popular = ps\<rparr>, r)) (read_n read_zstring (unat k) bs)
      | _ \<Rightarrow> None)"
| "read_response_header _ = None"

fun read_value :: "string list \<Rightarrow> u8 \<Rightarrow> bytes \<Rightarrow> (field_value \<times> bytes) option" where
  "read_value popular t [] = None"
| "read_value popular t (b # bs) =
     (if t = 0 then
        (if b = 0xFF then map_option (\<lambda>(s, r). (Text_value s, r)) (read_zstring bs)
         else if unat b < length popular then Some (Text_value (popular ! unat b), bs) else None)
      else if t = 1 then Some (Number_value (unat b), bs)
      else case bs of c # bs \<Rightarrow> Some (Number_value (unat (un_be16 b c)), bs) | [] \<Rightarrow> None)"

fun read_values :: "string list \<Rightarrow> u8 list \<Rightarrow> bytes \<Rightarrow> (field_value list \<times> bytes) option" where
  "read_values popular [] bs = Some ([], bs)"
| "read_values popular (t # ts) bs =
     (case read_value popular t bs of
        None \<Rightarrow> None
      | Some (v, bs) \<Rightarrow> map_option (\<lambda>(vs, r). (v # vs, r)) (read_values popular ts bs))"

record read_entry =
  re_ip :: u32
  re_port :: u16
  re_private_ip :: "u32 option"
  re_private_port :: u16
  re_negotiate :: bool
  re_icmp_ip :: "u32 option"
  re_values :: "field_value list"
  re_rules :: string

definition read_if :: "bool \<Rightarrow> 'a \<Rightarrow> (bytes \<Rightarrow> ('a \<times> bytes) option) \<Rightarrow> bytes \<Rightarrow> ('a \<times> bytes) option" where
  "read_if b x rd bs = (if b then rd bs else Some (x, bs))"

fun read_u32 :: "bytes \<Rightarrow> (u32 \<times> bytes) option" where
  "read_u32 (a # b # c # d # r) = Some (un_be32 a b c d, r)"
| "read_u32 _ = None"

fun read_u16 :: "bytes \<Rightarrow> (u16 \<times> bytes) option" where
  "read_u16 (a # b # r) = Some (un_be16 a b, r)"
| "read_u16 _ = None"

definition read_some :: "(bytes \<Rightarrow> ('a \<times> bytes) option) \<Rightarrow> bytes \<Rightarrow> ('a option \<times> bytes) option" where
  "read_some rd bs = map_option (\<lambda>(x, r). (Some x, r)) (rd bs)"

definition has_flag :: "u8 \<Rightarrow> u8 \<Rightarrow> bool" where
  "has_flag flags f \<longleftrightarrow> flags AND f \<noteq> 0"

definition read_server_entry ::
  "u16 \<Rightarrow> u8 list \<Rightarrow> string list \<Rightarrow> bytes \<Rightarrow> (read_entry \<times> bytes) option"
where
  "read_server_entry queryPort types popular bs =
     (case bs of
        [] \<Rightarrow> None
      | flags # bs \<Rightarrow>
        Option.bind (read_u32 bs) (\<lambda>(ip, bs).
        Option.bind (read_if (has_flag flags non_standard_port) queryPort read_u16 bs) (\<lambda>(port, bs).
        Option.bind (read_if (has_flag flags private_ip_flag) None (read_some read_u32) bs) (\<lambda>(pip, bs).
        Option.bind (read_if (has_flag flags non_standard_private_port) 0 read_u16 bs) (\<lambda>(pport, bs).
        Option.bind (read_if (has_flag flags icmp_ip_flag) None (read_some read_u32) bs) (\<lambda>(icmp, bs).
        Option.bind (read_if (has_flag flags has_keys) [] (read_values popular types) bs) (\<lambda>(vs, bs).
        Option.bind (read_if (has_flag flags has_full_rules) [] read_zstring bs) (\<lambda>(full, bs).
          Some (\<lparr>re_ip = ip, re_port = port, re_private_ip = pip, re_private_port = pport,
                 re_negotiate = has_flag flags connect_negotiate, re_icmp_ip = icmp,
                 re_values = vs, re_rules = full\<rparr>, bs)))))))))"

section \<open>The wire format of a request\<close>

definition field_string :: "string list \<Rightarrow> string" where
  "field_string fs = (if fs = [] then [BS] else concat (map (\<lambda>f. BS # f) fs))"

definition optional_u32 :: "u32 option \<Rightarrow> bytes" where
  "optional_u32 v = (case v of None \<Rightarrow> [] | Some w \<Rightarrow> be32 w)"

definition sb_wire :: "server_list_request \<Rightarrow> bytes" where
  "sb_wire r =
     [protocolVersion r, encodingVersion r] @ be32 (fromGameVersion r) @ zbytes (fromGame r) @
     zbytes (toGame r) @ sb_challenge r @ zbytes (serverFilter r) @ zbytes (field_string (fieldList r)) @
     be32 (sb_options r) @ optional_u32 (alternateSourceIP r) @ optional_u32 (limitResultCount r)"

definition request_ok :: "server_list_request \<Rightarrow> bool" where
  "request_ok r \<longleftrightarrow>
     protocolVersion r = 1 \<and> encodingVersion r = 3 \<and>
     NUL \<notin> set (fromGame r) \<and> NUL \<notin> set (toGame r) \<and> NUL \<notin> set (serverFilter r) \<and>
     length (sb_challenge r) = 8 \<and> length (serverFilter r) \<le> 256 \<and>
     list_all (\<lambda>f. NUL \<notin> set f \<and> BS \<notin> set f) (fieldList r) \<and> fieldList r \<noteq> [[]] \<and>
     length (field_string (fieldList r)) \<le> 256 \<and> sb_options r \<le> 128 \<and>
     (alternateSourceIP r \<noteq> None \<longleftrightarrow> has_option (sb_options r) alternate_source_ip) \<and>
     (limitResultCount r \<noteq> None \<longleftrightarrow> has_option (sb_options r) limit_result_count) \<and>
     26 \<le> length (sb_wire r)"

lemma split_nul_zbytes [scan_simps]: "NUL \<notin> set s \<Longrightarrow> split_nul (bytes_of s @ 0 # r) = Some (bytes_of s, r)"
  by (simp add: split_nul_append)

lemma ExtractString_z:
  "NUL \<notin> set s \<Longrightarrow> (case maxLength of None \<Rightarrow> True | Some n \<Rightarrow> length s \<le> n) \<Longrightarrow>
   ExtractString maxLength (bytes_of s @ 0 # r) = Inr (s, r)"
  by (auto simp: ExtractString_def split_nul_zbytes split: option.splits)

lemma ExtractUInt32_be32: "ExtractUInt32 (be32 v @ r) = Inr (v, r)"
  by (simp add: ExtractUInt32_def be32_def un_be32_be32)

lemma split_parts_nonempty [simp]: "split_parts d s \<noteq> []"
  by (cases s) (auto split: list.splits)

lemma split_parts_part: "d \<notin> set p \<Longrightarrow> split_parts d p = [p]"
  by (induction p) auto

lemma split_parts_join: "d \<notin> set p \<Longrightarrow> split_parts d (p @ d # s) = p # split_parts d s"
  by (induction p) auto

lemma split_parts_concat:
  "list_all (\<lambda>p. d \<notin> set p) (p # ps) \<Longrightarrow> split_parts d (p @ concat (map (\<lambda>f. d # f) ps)) = p # ps"
  by (induction ps arbitrary: p) (auto simp: split_parts_part split_parts_join)

lemma views_split_field_string:
  assumes "list_all (\<lambda>f. BS \<notin> set f) fs" and "fs \<noteq> [[]]"
  shows "views_split BS (drop 1 (field_string fs)) = fs"
proof (cases fs)
  case Nil
  then show ?thesis by (simp add: field_string_def views_split_def)
next
  case (Cons p ps)
  have "p @ concat (map (\<lambda>f. BS # f) ps) \<noteq> []" using assms(2) Cons by (cases ps) auto
  then show ?thesis
    using assms(1) split_parts_concat [of BS p ps] by (simp add: Cons field_string_def views_split_def)
qed

lemma field_string_shape: "field_string fs \<noteq> [] \<and> hd (field_string fs) = BS"
  by (cases fs) (simp_all add: field_string_def)

lemma NUL_field_string: "list_all (\<lambda>f. NUL \<notin> set f) fs \<Longrightarrow> NUL \<notin> set (field_string fs)"
  by (auto simp: field_string_def list_all_iff)

lemma ExtractFieldList_wire:
  assumes "list_all (\<lambda>f. NUL \<notin> set f \<and> BS \<notin> set f) fs" and "fs \<noteq> [[]]"
    and "length (field_string fs) \<le> 256"
  shows "ExtractFieldList (bytes_of (field_string fs) @ 0 # r) = Inr (fs, r)"
proof -
  have "NUL \<notin> set (field_string fs)" using assms(1) by (intro NUL_field_string) (auto simp: list_all_iff)
  then have "ExtractString (Some fields_total_length) (bytes_of (field_string fs) @ 0 # r) = Inr (field_string fs, r)"
    using assms(3) by (simp add: ExtractString_z fields_total_length_def)
  moreover have "views_split BS (drop 1 (field_string fs)) = fs"
    using assms(1,2) by (intro views_split_field_string) (auto simp: list_all_iff)
  ultimately show ?thesis using field_string_shape [of fs] by (simp add: ExtractFieldList_def)
qed

lemma ExtractOptions_wire: "v \<le> 128 \<Longrightarrow> ExtractOptions (be32 v @ r) = Inr (v, r)"
  by (auto simp: ExtractOptions_def ExtractUInt32_be32 limit_result_count_def word_le_nat_alt
      unat_gt_0 Suc_le_eq)

lemma ExtractOptional_wire:
  "(v \<noteq> None \<longleftrightarrow> has_option options flag) \<Longrightarrow> ExtractOptional flag options (optional_u32 v @ r) = Inr (v, r)"
  by (cases v) (auto simp: ExtractOptional_def optional_u32_def ExtractUInt32_be32)

section \<open>Flags\<close>

lemma has_flag_or [simp]: "has_flag (a OR b) f \<longleftrightarrow> has_flag a f \<or> has_flag b f"
  by (simp add: has_flag_def and.commute [of "a OR b"] bit.conj_disj_distrib and.commute [of f]) (metis or_eq_0_iff)

lemmas flag_defs = unsolicited_udp_def private_ip_flag_def connect_negotiate_def icmp_ip_flag_def
  non_standard_port_def non_standard_private_port_def has_keys_def has_full_rules_def

lemma has_flag_0 [simp]: "\<not> has_flag 0 f"
  by (simp add: has_flag_def)

section \<open>Reading the header back\<close>

lemma read_n_map:
  "(\<And>x r. x \<in> set xs \<Longrightarrow> rd (w x @ r) = Some (f x, r)) \<Longrightarrow>
   read_n rd (length xs) (concat (map w xs) @ r) = Some (map f xs, r)"
  by (induction xs) simp_all

lemma read_zstring_z: "NUL \<notin> set s \<Longrightarrow> read_zstring (bytes_of s @ 0 # r) = Some (s, r)"
  by (simp add: split_nul_zbytes)

lemma read_typed_field_z: "NUL \<notin> set s \<Longrightarrow> read_typed_field (t # bytes_of s @ 0 # r) = Some ((t, s), r)"
  by (simp add: split_nul_zbytes)

lemma read_response_header_eq:
  assumes "gd_queryPort (m_Data g) \<noteq> 0xFFFF" and "\<not> has_option (sb_options request) no_server_list"
    and "length (fieldList request) < 256" and "list_all (\<lambda>f. NUL \<notin> set f) (fieldList request)"
    and "length (m_PopularValues g) < 256" and "list_all (\<lambda>f. NUL \<notin> set f) (m_PopularValues g)"
  shows "read_response_header (GetResponseHeaderBytes request g ip @ r) =
    Some (\<lparr>rh_ip = ip, rh_port = gd_queryPort (m_Data g),
      rh_fields = map (\<lambda>f. (send_code (GetParamSendType g f), f)) (fieldList request),
      rh_popular = m_PopularValues g\<rparr>, r)"
proof -
  let ?w = "\<lambda>f. send_code (GetParamSendType g f) # zbytes f"
  let ?p = "of_nat (length (m_PopularValues g)) # concat (map zbytes (m_PopularValues g)) @ r"
  have f: "read_n read_typed_field (length (fieldList request)) (concat (map ?w (fieldList request)) @ ?p) =
      Some (map (\<lambda>f. (send_code (GetParamSendType g f), f)) (fieldList request), ?p)"
    by (rule read_n_map) (use assms(4) in \<open>auto simp: list_all_iff split_nul_zbytes\<close>)
  have p: "read_n read_zstring (length (m_PopularValues g)) (concat (map zbytes (m_PopularValues g)) @ r) =
      Some (map id (m_PopularValues g), r)"
    by (rule read_n_map) (use assms(6) in \<open>auto simp: list_all_iff split_nul_zbytes\<close>)
  have n: "unat (of_nat (length (fieldList request)) :: u8) = length (fieldList request)"
    "unat (of_nat (length (m_PopularValues g)) :: u8) = length (m_PopularValues g)"
    using assms(3,5) by (simp_all add: unat_of_nat)
  show ?thesis
    using assms(1,2) f p
    by (simp add: GetResponseHeaderBytes_def Let_def be32_def be16_def un_be32_be32 un_be16_be16 n
        del: read_typed_field.simps read_zstring.simps)
qed

section \<open>Reading an entry back\<close>

text \<open>What a field of a server means to the client.\<close>

definition field_meaning :: "'d game \<Rightarrow> (string, string) std_map \<Rightarrow> string \<Rightarrow> field_value" where
  "field_meaning g data k =
     (let v = (case smap_find data k of Some v \<Rightarrow> v | None \<Rightarrow> '''') in
      if GetParamSendType g k = as_string then Text_value v else Number_value (digits_val v))"

definition stored_value :: "(string, string) std_map \<Rightarrow> string \<Rightarrow> string" where
  "stored_value data k = (case smap_find data k of Some v \<Rightarrow> v | None \<Rightarrow> '''')"

lemma number_value_Inr:
  "number_value bits msg v = Inr n \<longleftrightarrow> v \<noteq> [] \<and> list_all is_digit v \<and> digits_val v < 2 ^ bits \<and> n = digits_val v"
proof -
  obtain ptr ec k where r: "from_chars bits v 0 = (ptr, ec, k)" by (cases "from_chars bits v 0")
  show ?thesis
    using from_chars_complete [of bits v 0 n] from_chars_digits [of v bits 0] r
    by (auto simp: number_value_def split: if_splits)
qed

lemma digits_val_Nil [simp]: "digits_val [] = 0"
  by (simp add: digits_val_def)

lemma read_value_eq:
  assumes "value_bytes g data usePopularList k = Inr bs" and "usePopularList \<longrightarrow> m_PopularValues g = []"
    and "NUL \<notin> set (stored_value data k)"
  shows "read_value popular (send_code (GetParamSendType g k)) (bs @ r) = Some (field_meaning g data k, r)"
proof (cases "GetParamSendType g k")
  case as_string
  then show ?thesis
    using assms by (auto simp: value_bytes_def Let_def field_meaning_def send_code_def stored_value_def
        split_nul_zbytes split: option.splits if_splits)
next
  case as_byte
  then show ?thesis
    using assms(1)
    by (auto simp: value_bytes_def Let_def field_meaning_def send_code_def and_then_eq_Inr number_value_Inr
        unat_of_nat split: option.splits if_splits)
next
  case as_short
  have "un_be16 0 0 = 0" by (simp add: un_be16_def)
  then show ?thesis
    using as_short assms(1)
    by (auto simp: value_bytes_def Let_def field_meaning_def send_code_def and_then_eq_Inr number_value_Inr
        be16_def un_be16_be16 unat_of_nat split: option.splits if_splits)
qed

lemma read_values_eq:
  "values_bytes g data usePopularList ks = Inr bs \<Longrightarrow> usePopularList \<longrightarrow> m_PopularValues g = [] \<Longrightarrow>
   list_all (\<lambda>k. NUL \<notin> set (stored_value data k)) ks \<Longrightarrow>
   read_values popular (map (\<lambda>k. send_code (GetParamSendType g k)) ks) (bs @ r) =
     Some (map (field_meaning g data) ks, r)"
proof (induction ks arbitrary: bs)
  case (Cons k ks)
  then obtain b1 b2 where b: "value_bytes g data usePopularList k = Inr b1"
    "values_bytes g data usePopularList ks = Inr b2" "bs = b1 @ b2"
    by (auto simp: and_then_eq_Inr)
  have "read_value popular (send_code (GetParamSendType g k)) (b1 @ b2 @ r) = Some (field_meaning g data k, b2 @ r)"
    using Cons.prems by (intro read_value_eq [OF b(1)]) auto
  moreover have "read_values popular (map (\<lambda>k. send_code (GetParamSendType g k)) ks) (b2 @ r) =
      Some (map (field_meaning g data) ks, r)"
    using Cons b by simp
  ultimately show ?case by (simp add: b(3))
qed simp

text \<open>What an entry means to the client.\<close>

definition entry_meaning ::
  "(string \<Rightarrow> exn + u32) \<Rightarrow> 'd game \<Rightarrow> server_data \<Rightarrow> string list \<Rightarrow> read_entry"
where
  "entry_meaning make_address g server names =
     (let addr = (\<lambda>ip. case make_address ip of Inr a \<Rightarrow> a | Inl _ \<Rightarrow> 0) in
      \<lparr>re_ip = addr (public_ip server), re_port = public_port server,
       re_private_ip = (if private_ip server = [] then None else Some (addr (private_ip server))),
       re_private_port = private_port server,
       re_negotiate = (smap_find (sv_data server) ''natneg'' = Some ''1''),
       re_icmp_ip = (if icmp_ip server = [] then None else Some (addr (icmp_ip server))),
       re_values = map (field_meaning g (sv_data server)) names,
       re_rules = rules server\<rparr>)"

lemma read_u32_be32 [simp]: "read_u32 (be32 v @ r) = Some (v, r)"
  by (simp add: be32_def un_be32_be32)

lemma read_u16_be16 [simp]: "read_u16 (be16 v @ r) = Some (v, r)"
  by (simp add: be16_def un_be16_be16)

lemma has_flag_if: "has_flag (if b then flags OR f else flags) k = (has_flag flags k \<or> b \<and> has_flag f k)"
  by simp

text \<open>The flag byte, collected in the order of the code.\<close>

definition entry_flags :: "bool \<Rightarrow> bool \<Rightarrow> bool \<Rightarrow> bool \<Rightarrow> bool \<Rightarrow> bool \<Rightarrow> bool \<Rightarrow> u8" where
  "entry_flags port pip pport natneg icmp keys full =
     0 OR unsolicited_udp OR (if port then non_standard_port else 0) OR (if pip then private_ip_flag else 0)
       OR (if pport then non_standard_private_port else 0) OR (if natneg then connect_negotiate else 0)
       OR (if icmp then icmp_ip_flag else 0) OR (if keys then has_keys else 0)
       OR (if full then has_full_rules else 0)"

lemma entry_flags_simps [simp]:
  "has_flag (entry_flags po pi pp nn ic ke fu) non_standard_port = po"
  "has_flag (entry_flags po pi pp nn ic ke fu) private_ip_flag = pi"
  "has_flag (entry_flags po pi pp nn ic ke fu) non_standard_private_port = pp"
  "has_flag (entry_flags po pi pp nn ic ke fu) connect_negotiate = nn"
  "has_flag (entry_flags po pi pp nn ic ke fu) icmp_ip_flag = ic"
  "has_flag (entry_flags po pi pp nn ic ke fu) has_keys = ke"
  "has_flag (entry_flags po pi pp nn ic ke fu) has_full_rules = fu"
  unfolding entry_flags_def has_flag_or
  by (simp_all add: has_flag_def flag_defs)

lemma PrepareServer_Inr:
  assumes "PrepareServer make_address g server names usePopularList = Inr bytes"
  obtains pub priv icmp vals where
    "make_address (public_ip server) = Inr pub"
    "private_ip server \<noteq> [] \<Longrightarrow> make_address (private_ip server) = Inr priv"
    "icmp_ip server \<noteq> [] \<Longrightarrow> make_address (icmp_ip server) = Inr icmp"
    "values_bytes g (sv_data server) usePopularList names = Inr vals"
    "bytes = entry_flags (public_port server \<noteq> gd_queryPort (m_Data g)) (private_ip server \<noteq> [])
        (private_port server \<noteq> 0) (smap_find (sv_data server) ''natneg'' = Some ''1'') (icmp_ip server \<noteq> [])
        (sv_data server \<noteq> []) (rules server \<noteq> []) #
      be32 pub @
      (if public_port server \<noteq> gd_queryPort (m_Data g) then be16 (public_port server) else []) @
      (if private_ip server \<noteq> [] then be32 priv else []) @
      (if private_port server \<noteq> 0 then be16 (private_port server) else []) @
      (if icmp_ip server \<noteq> [] then be32 icmp else []) @ vals @
      (if rules server \<noteq> [] then zbytes (rules server) else [])"
proof -
  obtain pub where p: "make_address (public_ip server) = Inr pub"
    using assms by (auto simp: PrepareServer_def and_then_eq_Inr)
  obtain pflag priv' where q: "optional_ip make_address private_ip_flag (private_ip server) = Inr (pflag, priv')"
    using assms p by (auto simp: PrepareServer_def and_then_eq_Inr Let_def split: prod.splits if_splits)
  obtain iflag icmp' where i: "optional_ip make_address icmp_ip_flag (icmp_ip server) = Inr (iflag, icmp')"
    using assms p q by (auto simp: PrepareServer_def and_then_eq_Inr Let_def split: prod.splits if_splits)
  obtain vals where v: "values_bytes g (sv_data server) usePopularList names = Inr vals"
    using assms p q i by (auto simp: PrepareServer_def and_then_eq_Inr Let_def split: prod.splits if_splits)
  obtain priv where q': "private_ip server \<noteq> [] \<Longrightarrow> make_address (private_ip server) = Inr priv"
    "(pflag, priv') = (if private_ip server \<noteq> [] then (private_ip_flag, be32 priv) else (0, []))"
    using q by (cases "private_ip server = []") (auto simp: optional_ip_def and_then_eq_Inr)
  obtain icmp where i': "icmp_ip server \<noteq> [] \<Longrightarrow> make_address (icmp_ip server) = Inr icmp"
    "(iflag, icmp') = (if icmp_ip server \<noteq> [] then (icmp_ip_flag, be32 icmp) else (0, []))"
    using i by (cases "icmp_ip server = []") (auto simp: optional_ip_def and_then_eq_Inr)
  show ?thesis
    by (rule that [OF p q'(1) i'(1) v])
      (use assms p q i v q'(2) i'(2) in \<open>auto simp: PrepareServer_def Let_def entry_flags_def or.assoc\<close>)
qed

lemma read_server_entry_eq:
  assumes "PrepareServer make_address g server names usePopularList = Inr bytes"
    and "usePopularList \<longrightarrow> m_PopularValues g = []" and "sv_data server \<noteq> [] \<or> names = []"
    and "list_all (\<lambda>k. NUL \<notin> set (stored_value (sv_data server) k)) names" and "NUL \<notin> set (rules server)"
  shows "read_server_entry (gd_queryPort (m_Data g)) (map (\<lambda>k. send_code (GetParamSendType g k)) names) popular
      (bytes @ r) = Some (entry_meaning make_address g server names, r)"
proof -
  obtain pub priv icmp vals where p: "make_address (public_ip server) = Inr pub"
    and q: "private_ip server \<noteq> [] \<Longrightarrow> make_address (private_ip server) = Inr priv"
    and i: "icmp_ip server \<noteq> [] \<Longrightarrow> make_address (icmp_ip server) = Inr icmp"
    and v: "values_bytes g (sv_data server) usePopularList names = Inr vals"
    and bytes: "bytes = entry_flags (public_port server \<noteq> gd_queryPort (m_Data g)) (private_ip server \<noteq> [])
        (private_port server \<noteq> 0) (smap_find (sv_data server) ''natneg'' = Some ''1'') (icmp_ip server \<noteq> [])
        (sv_data server \<noteq> []) (rules server \<noteq> []) #
      be32 pub @
      (if public_port server \<noteq> gd_queryPort (m_Data g) then be16 (public_port server) else []) @
      (if private_ip server \<noteq> [] then be32 priv else []) @
      (if private_port server \<noteq> 0 then be16 (private_port server) else []) @
      (if icmp_ip server \<noteq> [] then be32 icmp else []) @ vals @
      (if rules server \<noteq> [] then zbytes (rules server) else [])"
    using PrepareServer_Inr [OF assms(1)] by blast
  have vals: "read_if (sv_data server \<noteq> []) [] (read_values popular (map (\<lambda>k. send_code (GetParamSendType g k)) names))
      (vals @ t) = Some (map (field_meaning g (sv_data server)) names, t)" for t
    using assms(3) v read_values_eq [OF v assms(2,4), of popular t] by (auto simp: read_if_def)
  have port: "read_if b x read_u16 ((if b then be16 y else []) @ t) = Some (if b then y else x, t)" for b x y t
    by (simp add: read_if_def)
  have ip: "read_if b None (read_some read_u32) ((if b then be32 y else []) @ t) = Some (if b then Some y else None, t)"
    for b y t
    by (simp add: read_if_def read_some_def)
  have full: "read_if (rules server \<noteq> []) [] read_zstring ((if rules server \<noteq> [] then zbytes (rules server) else []) @ t) =
      Some (rules server, t)" for t
    using assms(5) by (simp add: read_if_def split_nul_zbytes)
  show ?thesis
    unfolding bytes read_server_entry_def
    using p q i by (simp add: port ip vals full entry_meaning_def del: read_zstring.simps)
qed

lemma sb_parse_wire:
  assumes "request_ok r"
  shows "sb_parse (sb_wire r) = Inr r"
proof -
  let ?o = "sb_options r"
  let ?rest = "optional_u32 (alternateSourceIP r) @ optional_u32 (limitResultCount r)"
  have len: "\<not> length (sb_wire r) < MIN_SIZE"
    using assms by (simp add: request_ok_def MIN_SIZE_def client_challenge_length_def)
  have head: "sb_wire r ! 0 = 1" "sb_wire r ! Suc 0 = 3"
    using assms by (simp_all add: sb_wire_def request_ok_def)
  have drop2: "drop 2 (sb_wire r) = be32 (fromGameVersion r) @ bytes_of (fromGame r) @ 0 #
      bytes_of (toGame r) @ 0 # sb_challenge r @ bytes_of (serverFilter r) @ 0 #
      bytes_of (field_string (fieldList r)) @ 0 # be32 ?o @ ?rest"
    by (simp add: sb_wire_def)
  have alt: "ExtractAlternateIP ?o ?rest = Inr (alternateSourceIP r, optional_u32 (limitResultCount r))"
    unfolding ExtractAlternateIP_def by (rule ExtractOptional_wire) (use assms in \<open>simp add: request_ok_def\<close>)
  have lim: "ExtractLimit ?o (optional_u32 (limitResultCount r)) = Inr (limitResultCount r, [])"
    unfolding ExtractLimit_def
    using ExtractOptional_wire [of "limitResultCount r" ?o limit_result_count "[]"] assms
    by (simp add: request_ok_def)
  have fl: "ExtractFieldList (bytes_of (field_string (fieldList r)) @ 0 # be32 ?o @ ?rest) = Inr (fieldList r, be32 ?o @ ?rest)"
    by (rule ExtractFieldList_wire) (use assms in \<open>auto simp: request_ok_def\<close>)
  have op: "ExtractOptions (be32 ?o @ ?rest) = Inr (?o, ?rest)"
    by (rule ExtractOptions_wire) (use assms in \<open>simp add: request_ok_def\<close>)
  have span: "ExtractSpan client_challenge_length (sb_challenge r @ t) = Inr (sb_challenge r, t)" for t
    using assms by (simp add: ExtractSpan_def client_challenge_length_def request_ok_def)
  show ?thesis
    unfolding sb_parse_def using len assms
    by (simp add: head list_protocol_version_def list_encoding_version_def drop2 ExtractUInt32_be32
        ExtractString_z span fl op alt lim request_ok_def filter_total_length_def del: append_assoc)
qed

section \<open>Properties\<close>

text \<open>
  C7. A request written by a client within the limits of the protocol is read back field by
  field: game names, challenge, filter, the list of fields, options and the optional address and limit.
\<close>

theorem server_list_request_roundtrip:
  assumes "request_ok r"
  shows "sb_parse (sb_wire r) = Inr r"
  using assms by (rule sb_parse_wire)

definition sample_request :: server_list_request where
  "sample_request = \<lparr>protocolVersion = 1, encodingVersion = 3, fromGameVersion = 0,
     fromGame = ''gmtest'', toGame = ''gmtest'', sb_challenge = [1, 2, 3, 4, 5, 6, 7, 8],
     serverFilter = '''', fieldList = [''hostname'', ''numplayers''], sb_options = 0,
     alternateSourceIP = None, limitResultCount = None\<rparr>"

lemma sample_request_ok: "request_ok sample_request"
  by (simp add: request_ok_def sample_request_def field_string_def sb_wire_def optional_u32_def has_option_def)

theorem server_list_request_roundtrip_witness:
  "sb_parse (sb_wire sample_request) = Inr sample_request"
  by (rule server_list_request_roundtrip) (rule sample_request_ok)

text \<open>
  The options are checked as a number between the least and the greatest flag, so the
  greatest flag, the limit on the number of results, is accepted only when no other option is
  given: a request for a limited list together with any other option is refused.
\<close>

theorem limit_excludes_other_options:
  "ExtractOptions (be32 v @ r) = (if v \<le> 128 then Inr (v, r) else Inl invalid_key) \<and>
   (has_option v limit_result_count \<and> v \<noteq> limit_result_count \<longrightarrow> ExtractOptions (be32 v @ r) = Inl invalid_key)"
proof
  show eq: "ExtractOptions (be32 v @ r) = (if v \<le> 128 then Inr (v, r) else Inl invalid_key)"
    by (auto simp: ExtractOptions_def ExtractUInt32_be32 limit_result_count_def word_le_nat_alt
        unat_gt_0 Suc_le_eq)
  have big: "128 < v" if "has_option v limit_result_count" "v \<noteq> limit_result_count"
  proof (rule ccontr)
    assume "\<not> 128 < v"
    then have "v < 128" using that(2) by (auto simp: limit_result_count_def)
    then have "unat v div 2 ^ 7 = 0" by (simp add: word_less_nat_alt)
    then have "\<not> bit (unat v) 7" unfolding bit_iff_odd by simp
    then have "\<not> bit v 7" using bit_unsigned_iff [of v 7, where 'a = nat] by simp
    then have "v AND 2 ^ 7 = 0" by (simp only: and_exp_eq_0_iff_not_bit not_False_eq_True)
    then have "v AND 128 = 0" by simp
    then show False using that(1) by (simp add: has_option_def limit_result_count_def)
  qed
  show "has_option v limit_result_count \<and> v \<noteq> limit_result_count \<longrightarrow> ExtractOptions (be32 v @ r) = Inl invalid_key"
  proof
    assume "has_option v limit_result_count \<and> v \<noteq> limit_result_count"
    then have "\<not> v \<le> 128" using big by (simp add: not_le)
    then show "ExtractOptions (be32 v @ r) = Inl invalid_key" using eq by simp
  qed
qed

theorem limit_excludes_other_options_witness:
  "ExtractOptions (be32 (push_updates OR limit_result_count)) = Inl invalid_key"
  using limit_excludes_other_options [of "push_updates OR limit_result_count" "[]"]
  by (simp add: push_updates_def limit_result_count_def)

text \<open>
  A client that follows the protocol reads the response header back: its own address, the
  port of the game, every requested field with its send type in order, and the popular values,
  for fewer than 256 fields without NUL.
\<close>

theorem response_header_roundtrip:
  assumes "gd_queryPort (m_Data g) \<noteq> 0xFFFF" and "\<not> has_option (sb_options request) no_server_list"
    and "length (fieldList request) < 256" and "list_all (\<lambda>f. NUL \<notin> set f) (fieldList request)"
    and "length (m_PopularValues g) < 256" and "list_all (\<lambda>f. NUL \<notin> set f) (m_PopularValues g)"
  shows "read_response_header (GetResponseHeaderBytes request g ip @ r) =
    Some (\<lparr>rh_ip = ip, rh_port = gd_queryPort (m_Data g),
      rh_fields = map (\<lambda>f. (send_code (GetParamSendType g f), f)) (fieldList request),
      rh_popular = m_PopularValues g\<rparr>, r)"
  using assms by (rule read_response_header_eq)

theorem response_header_roundtrip_witness:
  "read_response_header (GetResponseHeaderBytes sample_request gmtest_game 0x7F000001 @ [7]) =
    Some (\<lparr>rh_ip = 0x7F000001, rh_port = 6500, rh_fields = [(0, ''hostname''), (0, ''numplayers'')],
      rh_popular = []\<rparr>, [7])"
proof -
  have "GetParamSendType gmtest_game f = as_string" for f
    by (simp add: GetParamSendType_def param_key_def gmtest_game_def)
  moreover have "gd_queryPort (m_Data gmtest_game) = 6500" "m_PopularValues gmtest_game = []"
    by (simp_all add: gmtest_game_def gmtest_data_def)
  ultimately show ?thesis
    using response_header_roundtrip [where g = gmtest_game and request = sample_request and ip = "0x7F000001" and r = "[7]"]
    by (simp add: sample_request_def no_server_list_def has_option_def send_code_def)
qed

text \<open>
  A client reads every entry of a server back: address and port (the game's own port when the
  entry leaves it out), the optional addresses and the private port, the NAT flag, the
  value of every field by its send type, and the rules, with what follows left untouched, as long as
  the popular values are not used.
\<close>

theorem server_entry_roundtrip:
  assumes "GetServerBytes make_address g server names usePopularList = Inr bytes"
    and "usePopularList \<longrightarrow> m_PopularValues g = []" and "sv_data server \<noteq> [] \<or> names = []"
    and "list_all (\<lambda>k. NUL \<notin> set (stored_value (sv_data server) k)) names" and "NUL \<notin> set (rules server)"
  shows "read_server_entry (gd_queryPort (m_Data g)) (map (\<lambda>k. send_code (GetParamSendType g k)) names) popular
      (bytes @ r) = Some (entry_meaning make_address g server names, r)"
  using assms unfolding GetServerBytes_def by (rule read_server_entry_eq)

theorem server_entry_roundtrip_witness:
  "\<exists>bytes. GetServerBytes (\<lambda>_. Inr 0x0A000001) gmtest_game (sample_server\<lparr>public_port := 29900\<rparr>) [''hostname''] True = Inr bytes \<and>
     map_option (\<lambda>(e, r). (re_ip e, re_port e, re_values e, r)) (read_server_entry 6500 [0] [] (bytes @ [0, 1])) =
       Some (0x0A000001, 29900, [Text_value ''x''], [0, 1])"
proof -
  let ?s = "sample_server\<lparr>public_port := 29900\<rparr>"
  have t: "GetParamSendType gmtest_game f = as_string" for f
    by (simp add: GetParamSendType_def param_key_def gmtest_game_def)
  have g: "gd_queryPort (m_Data gmtest_game) = 6500" "m_PopularValues gmtest_game = []"
    by (simp_all add: gmtest_game_def gmtest_data_def)
  obtain bytes where b: "GetServerBytes (\<lambda>_. Inr 0x0A000001) gmtest_game ?s [''hostname''] True = Inr bytes"
    by (simp add: GetServerBytes_def PrepareServer_def sample_server_def optional_ip_def Let_def value_bytes_def t g
        split: prod.splits)
  have "read_server_entry (gd_queryPort (m_Data gmtest_game)) (map (\<lambda>k. send_code (GetParamSendType gmtest_game k)) [''hostname'']) []
      (bytes @ [0, 1]) = Some (entry_meaning (\<lambda>_. Inr 0x0A000001) gmtest_game ?s [''hostname''], [0, 1])"
    by (rule server_entry_roundtrip [OF b]) (simp_all add: g sample_server_def stored_value_def)
  then show ?thesis
    using b by (simp add: t g send_code_def entry_meaning_def sample_server_def field_meaning_def)
qed

text \<open>
  A popular value is not read back: for the value at position \<open>k\<close> of \<open>n\<close> popular values the
  server sends its distance \<open>n - k\<close> from the end, while the client, and the comment in \<open>game.h\<close>,
  take the byte for the position; the client finds no value for the first, and otherwise the value at \<open>n - k\<close>.
\<close>

theorem popular_value_misread:
  assumes "GetParamSendType g field = as_string"
    and "index_of (m_PopularValues g) (stored_value data field) = Some k"
    and "length (m_PopularValues g) < 255"
  shows "value_bytes g data True field = Inr [of_nat (length (m_PopularValues g) - k)] \<and>
    read_value (m_PopularValues g) 0 [of_nat (length (m_PopularValues g) - k)] =
      (if k = 0 then None else Some (Text_value (m_PopularValues g ! (length (m_PopularValues g) - k)), []))"
proof
  have "k < length xs" if "index_of xs x = Some k" for xs and x :: string and k
    using that by (induction xs arbitrary: k) (auto split: if_splits)
  then have k: "k < length (m_PopularValues g)" using assms(2) .
  have small: "unat (of_nat d :: u8) = d" if "d < 255" for d using that by (simp add: unat_of_nat)
  have n: "unat (of_nat (length (m_PopularValues g) - k) :: u8) = length (m_PopularValues g) - k"
    by (rule small) (use assms(3) in linarith)
  moreover have unat_numeral_255: "unat (0xFF :: u8) = 255" by simp
  ultimately have "(of_nat (length (m_PopularValues g) - k) :: u8) \<noteq> 0xFF"
    using assms(3) by (metis diff_le_self le_less_trans less_irrefl unat_numeral_255)
  then show "read_value (m_PopularValues g) 0 [of_nat (length (m_PopularValues g) - k)] =
      (if k = 0 then None else Some (Text_value (m_PopularValues g ! (length (m_PopularValues g) - k)), []))"
    using n k by (auto simp del: of_nat_diff)
  show "value_bytes g data True field = Inr [of_nat (length (m_PopularValues g) - k)]"
    using assms(1,2) by (simp add: value_bytes_def stored_value_def split: option.splits)
qed

theorem popular_value_misread_witness:
  "value_bytes (gmtest_game\<lparr>m_PopularValues := [''us'', ''de'', ''fr'']\<rparr>) [(''country'', ''us'')] True ''country'' = Inr [3]"
proof -
  let ?g = "gmtest_game\<lparr>m_PopularValues := [''us'', ''de'', ''fr'']\<rparr>"
  have "GetParamSendType ?g ''country'' = as_string"
    by (simp add: GetParamSendType_def param_key_def gmtest_game_def)
  moreover have "index_of (m_PopularValues ?g) (stored_value [(''country'', ''us'')] ''country'') = Some 0"
    by (simp add: stored_value_def)
  ultimately show ?thesis using popular_value_misread [of ?g "''country''" "[(''country'', ''us'')]" 0] by simp
qed

end

