(* ===== verification/Sapphire_Cipher.thy ===== *)
theory Sapphire_Cipher
  imports Gs_Prelude
begin

text \<open>
  \<open>emulator/sapphire.h\<close> and \<open>emulator/sapphire.cpp\<close>: the Sapphire II stream cipher with the
  GameSpy customisation.  The 256 cards are an array indexed by an \<open>unsigned char\<close>, hence a
  function on \<open>u8\<close>; the five index variables are the record's other fields.  Shown: the key
  schedule terminates, stays inside the key and yields a permutation; every operation keeps
  the cards a permutation; decryption inverts encryption and leaves both ends in step.
\<close>

section \<open>State\<close>

record sapphire =
  cards :: "u8 \<Rightarrow> u8"
  rotor :: u8
  ratchet :: u8
  avalanche :: u8
  last_plain :: u8
  last_cipher :: u8

definition cards_ok :: "sapphire \<Rightarrow> bool" where
  "cards_ok s \<longleftrightarrow> bij (cards s)"

section \<open>Initialisation\<close>

text \<open>\<open>hash_init\<close>: the index variables' defaults and the cards in inverse order.\<close>

definition hash_init :: "sapphire \<Rightarrow> sapphire" where
  "hash_init s = s\<lparr>rotor := 1, ratchet := 3, avalanche := 5, last_plain := 7, last_cipher := 11,
     cards := (\<lambda>i. 255 - i)\<rparr>"

text \<open>
  \<open>while (mask < limit) mask = (mask << 1) + 1;\<close> on values below 256.
\<close>

function keyrand_mask :: "nat \<Rightarrow> nat \<Rightarrow> nat" where
  "keyrand_mask limit msk =
     (if msk < limit then keyrand_mask limit (push_bit 1 msk + 1) else msk)"
  by pat_completeness auto
termination
  by (relation "measure (\<lambda>(limit, msk). limit - msk)") (auto simp: push_bit_eq_mult)

declare keyrand_mask.simps [simp del]

lemma not_less_mod: "limit \<noteq> 0 \<Longrightarrow> \<not> limit < u mod (limit :: nat)"
  using mod_less_divisor [of limit u] by linarith

text \<open>
  The do-while loop of \<open>keyrand\<close>, with the retry counter, the running sum and the key
  position as its variables.  \<open>limit = 0\<close> returns 0 before the loop is entered.  The retry
  limiter makes the loop end: from the twelfth round on \<open>u\<close> is reduced modulo \<open>limit\<close>.
\<close>

function keyrand_loop ::
  "(u8 \<Rightarrow> u8) \<Rightarrow> bytes \<Rightarrow> u8 \<Rightarrow> nat \<Rightarrow> nat \<Rightarrow> nat \<Rightarrow> u8 \<Rightarrow> nat \<Rightarrow> nat \<times> u8 \<times> nat" where
  "keyrand_loop cs user_key keysize limit msk retry rsum keypos =
     (if limit = 0 then (0, rsum, keypos)
      else
        let rsum = cs rsum + user_key ! keypos;
            keypos = keypos + 1;
            (rsum, keypos) =
              (if unat keysize \<le> keypos then (rsum + keysize, 0) else (rsum, keypos));
            u = msk AND unat rsum;
            retry = retry + 1;
            u = (if 11 < retry then u mod limit else u)
        in if limit < u then keyrand_loop cs user_key keysize limit msk retry rsum keypos
           else (u, rsum, keypos))"
  by pat_completeness auto
termination
  by (relation "measure (\<lambda>(_, _, _, _, _, retry, _, _). 12 - retry)")
    (auto simp: not_less_mod split: if_splits)

declare keyrand_loop.simps [simp del]

definition keyrand :: "(u8 \<Rightarrow> u8) \<Rightarrow> nat \<Rightarrow> bytes \<Rightarrow> u8 \<Rightarrow> u8 \<Rightarrow> nat \<Rightarrow> nat \<times> u8 \<times> nat" where
  "keyrand cs limit user_key keysize rsum keypos =
     keyrand_loop cs user_key keysize limit (keyrand_mask limit 1) 0 rsum keypos"

text \<open>\<open>for (i = 255; i >= 0; i--)\<close>: \<open>Suc i\<close> rounds are left when the index is \<open>i\<close>.\<close>

fun init_cards :: "bytes \<Rightarrow> u8 \<Rightarrow> nat \<Rightarrow> (u8 \<Rightarrow> u8) \<times> u8 \<times> nat \<Rightarrow> (u8 \<Rightarrow> u8) \<times> u8 \<times> nat" where
  "init_cards key keysize 0 st = st"
| "init_cards key keysize (Suc i) (cs, rsum, keypos) =
     (let (toswap, rsum, keypos) = keyrand cs i key keysize rsum keypos
      in init_cards key keysize i (swap_at cs (of_nat i) (of_nat toswap), rsum, keypos))"

definition initialize :: "bytes \<Rightarrow> u8 \<Rightarrow> sapphire \<Rightarrow> sapphire" where
  "initialize key keysize s =
     (if keysize < 1 then hash_init s
      else
        let (cs, rsum, keypos) = init_cards key keysize 256 (\<lambda>i. i, 0, 0)
        in s\<lparr>cards := cs, rotor := cs 1, ratchet := cs 3, avalanche := cs 5,
             last_plain := cs 7, last_cipher := cs rsum\<rparr>)"

text \<open>
  The constructors.  The array member has no initialiser: \<open>junk\<close> is its content before
  \<open>initialize\<close> runs.  The range constructor narrows the size to 8 bits for the delegated
  call and rejects a key of more than 255 bytes afterwards.
\<close>

datatype cipher_error = Key_Overflow

definition sapphire_of :: "(u8 \<Rightarrow> u8) \<Rightarrow> bytes \<Rightarrow> u8 \<Rightarrow> sapphire" where
  "sapphire_of junk key keysize =
     (let s = \<lparr>cards = junk, rotor = 1, ratchet = 3, avalanche = 5, last_plain = 7, last_cipher = 11\<rparr>
      in if keysize \<noteq> 0 then initialize key keysize s else s)"

definition sapphire_ctor :: "(u8 \<Rightarrow> u8) \<Rightarrow> bytes \<Rightarrow> cipher_error + sapphire" where
  "sapphire_ctor junk key =
     (let s = sapphire_of junk key (of_nat (length key))
      in if 255 < length key then Inl Key_Overflow else Inr s)"

definition burn :: "sapphire \<Rightarrow> sapphire" where
  "burn s = s\<lparr>cards := (\<lambda>_. 0), rotor := 0, ratchet := 0, avalanche := 0,
     last_plain := 0, last_cipher := 0\<rparr>"

section \<open>Encryption and decryption of a byte\<close>

text \<open>The shuffle that opens both functions, assignment by assignment.\<close>

definition shuffle :: "sapphire \<Rightarrow> sapphire" where
  "shuffle s =
     (let ratchet' = ratchet s + cards s (rotor s);
          rotor' = rotor s + 1;
          swaptemp = cards s (last_cipher s);
          c1 = (cards s)(last_cipher s := cards s ratchet');
          c2 = c1(ratchet' := c1 (last_plain s));
          c3 = c2(last_plain s := c2 rotor');
          c4 = c3(rotor' := swaptemp)
      in s\<lparr>cards := c4, rotor := rotor', ratchet := ratchet',
           avalanche := avalanche s + c4 swaptemp\<rparr>)"

text \<open>The two card look-ups whose exclusive or is the key stream (sums are taken modulo 256).\<close>

definition keystream :: "sapphire \<Rightarrow> u8" where
  "keystream s =
     cards s (cards s (avalanche s) + cards s (rotor s)) XOR
     cards s (cards s (cards s (last_plain s) + cards s (last_cipher s) + cards s (ratchet s)))"

definition encrypt :: "u8 \<Rightarrow> sapphire \<Rightarrow> u8 \<times> sapphire" where
  "encrypt b s =
     (let s = shuffle s; c = b XOR keystream s
      in (c, s\<lparr>last_cipher := c, last_plain := b\<rparr>))"

definition decrypt :: "u8 \<Rightarrow> sapphire \<Rightarrow> u8 \<times> sapphire" where
  "decrypt b s =
     (let s = shuffle s; p = b XOR keystream s
      in (p, s\<lparr>last_plain := p, last_cipher := b\<rparr>))"

text \<open>\<open>encrypt(R&&)\<close> on a range, and the receiving end's loop over \<open>decrypt\<close>.\<close>

fun encrypt_range :: "bytes \<Rightarrow> sapphire \<Rightarrow> bytes \<times> sapphire" where
  "encrypt_range [] s = ([], s)"
| "encrypt_range (b # bs) s =
     (let (c, s) = encrypt b s; (cs, s) = encrypt_range bs s in (c # cs, s))"

fun decrypt_range :: "bytes \<Rightarrow> sapphire \<Rightarrow> bytes \<times> sapphire" where
  "decrypt_range [] s = ([], s)"
| "decrypt_range (b # bs) s =
     (let (c, s) = decrypt b s; (cs, s) = decrypt_range bs s in (c # cs, s))"

definition hash_final :: "u8 \<Rightarrow> sapphire \<Rightarrow> bytes \<times> sapphire" where
  "hash_final hashlength s =
     (let (_, s) = encrypt_range (map of_nat (rev [0..<256])) s
      in encrypt_range (replicate (unat hashlength) 0) s)"

section \<open>The key schedule\<close>

lemma keyrand_loop_le: "fst (keyrand_loop cs key ks limit msk retry rsum keypos) \<le> limit"
proof (induction cs key ks limit msk retry rsum keypos rule: keyrand_loop.induct)
  case (1 cs key ks limit msk retry rsum keypos)
  show ?case
    by (subst keyrand_loop.simps) (auto simp: Let_def not_less intro!: "1.IH" split: prod.splits)
qed

lemma keyrand_loop_keypos:
  "keypos < unat ks \<Longrightarrow> snd (snd (keyrand_loop cs key ks limit msk retry rsum keypos)) < unat ks"
proof (induction cs key ks limit msk retry rsum keypos rule: keyrand_loop.induct)
  case (1 cs key ks limit msk retry rsum keypos)
  from "1.prems" show ?case
    by (subst keyrand_loop.simps) (auto simp: Let_def not_less intro!: "1.IH" split: prod.splits)
qed

text \<open>The key is only read below \<open>keysize\<close>: bytes after it do not matter.\<close>

lemma keyrand_loop_take:
  "keypos < unat ks \<Longrightarrow>
     keyrand_loop cs (take (unat ks) key) ks limit msk retry rsum keypos =
     keyrand_loop cs key ks limit msk retry rsum keypos"
proof (induction cs "take (unat ks) key" ks limit msk retry rsum keypos
    arbitrary: key rule: keyrand_loop.induct)
  case (1 cs ks limit msk retry rsum keypos)
  from "1.prems" show ?case
    by (subst (1 2) keyrand_loop.simps) (auto simp: Let_def not_less intro!: "1.hyps" split: prod.splits)
qed

lemma init_cards_keypos:
  "snd (snd st) < unat ks \<Longrightarrow> snd (snd (init_cards key ks n st)) < unat ks"
proof (induction key ks n st rule: init_cards.induct)
  case (2 key ks i cs rsum keypos)
  then show ?case
    using keyrand_loop_keypos [of keypos ks cs key i "keyrand_mask i 1" 0 rsum]
    by (auto simp: keyrand_def split: prod.splits)
qed simp

lemma init_cards_take:
  "snd (snd st) < unat ks \<Longrightarrow> init_cards (take (unat ks) key) ks n st = init_cards key ks n st"
proof (induction key ks n st rule: init_cards.induct)
  case (2 key ks i cs rsum keypos)
  then show ?case
    using keyrand_loop_keypos [of keypos ks cs key i "keyrand_mask i 1" 0 rsum]
    by (auto simp: keyrand_def keyrand_loop_take split: prod.splits)
qed simp

lemma init_cards_bij: "bij (fst st) \<Longrightarrow> bij (fst (init_cards key ks n st))"
  by (induction key ks n st rule: init_cards.induct) (auto simp: bij_swap_at split: prod.splits)

lemma bij_reversed: "bij (\<lambda>i :: u8. 255 - i)"
  by (rule o_bij [of "\<lambda>i. 255 - i"]) (auto simp: fun_eq_iff)

lemma initialize_junk: "initialize key ks (s\<lparr>cards := junk\<rparr>) = initialize key ks s"
  by (simp add: initialize_def hash_init_def Let_def split: prod.splits)

lemma cards_ok_initialize: "cards_ok (initialize key ks s)"
  using init_cards_bij [of "(\<lambda>i. i, 0, 0)" key ks 256] bij_reversed
  by (auto simp: initialize_def hash_init_def cards_ok_def bij_id [unfolded id_def]
      split: prod.splits)

section \<open>One byte\<close>

text \<open>Four assignments through a hole are three exchanges, however the indices coincide.\<close>

lemma cards_shuffle:
  "cards (shuffle s) =
     swap_at (swap_at (swap_at (cards s) (last_cipher s) (ratchet (shuffle s)))
       (ratchet (shuffle s)) (last_plain s)) (last_plain s) (rotor (shuffle s))"
  by (auto simp: shuffle_def Let_def swap_at_def fun_eq_iff)

lemma bij_swap_at_iff: "bij (swap_at f i j) \<longleftrightarrow> bij f"
proof
  have "swap_at (swap_at f i j) i j = f" by (auto simp: swap_at_def fun_eq_iff)
  then show "bij (swap_at f i j) \<Longrightarrow> bij f" using bij_swap_at [of "swap_at f i j" i j] by simp
qed (rule bij_swap_at)

lemma cards_ok_shuffle: "cards_ok (shuffle s) \<longleftrightarrow> cards_ok s"
  by (simp add: cards_ok_def cards_shuffle bij_swap_at_iff)

lemma cards_ok_encrypt: "cards_ok (snd (encrypt b s)) \<longleftrightarrow> cards_ok s"
  using cards_ok_shuffle [of s] by (simp add: encrypt_def Let_def cards_ok_def)

lemma cards_ok_decrypt: "cards_ok (snd (decrypt b s)) \<longleftrightarrow> cards_ok s"
  using cards_ok_shuffle [of s] by (simp add: decrypt_def Let_def cards_ok_def)

lemma decrypt_encrypt: "decrypt (fst (encrypt b s)) s = (b, snd (encrypt b s))"
  by (simp add: encrypt_def decrypt_def Let_def xor.assoc)

lemma length_encrypt_range: "length (fst (encrypt_range bs s)) = length bs"
  by (induction bs s rule: encrypt_range.induct) (auto split: prod.splits)

lemma cards_ok_encrypt_range: "cards_ok (snd (encrypt_range bs s)) \<longleftrightarrow> cards_ok s"
proof (induction bs arbitrary: s)
  case (Cons b bs)
  show ?case using Cons.IH [of "snd (encrypt b s)"]
    by (simp add: cards_ok_encrypt split: prod.split) (metis cards_ok_encrypt snd_conv)
qed simp

lemma decrypt_encrypt_range:
  "decrypt_range (fst (encrypt_range bs s)) s = (bs, snd (encrypt_range bs s))"
proof (induction bs arbitrary: s)
  case (Cons b bs)
  obtain c s' where e: "encrypt b s = (c, s')" by (cases "encrypt b s")
  obtain cs s'' where es: "encrypt_range bs s' = (cs, s'')" by (cases "encrypt_range bs s'")
  have "decrypt c s = (b, s')" using decrypt_encrypt [of b s] e by simp
  then show ?case using Cons.IH [of s'] e es by simp
qed simp

text \<open>Sending in two parts is sending the concatenation.\<close>

lemma encrypt_range_append:
  "encrypt_range (as @ bs) s =
     (fst (encrypt_range as s) @ fst (encrypt_range bs (snd (encrypt_range as s))),
      snd (encrypt_range bs (snd (encrypt_range as s))))"
  by (induction as arbitrary: s) (simp_all add: case_prod_unfold Let_def)

lemma sapphire_of_junk: "ks \<noteq> 0 \<Longrightarrow> sapphire_of junk key ks = sapphire_of junk' key ks"
  using initialize_junk [where junk = junk and
      s = "\<lparr>cards = junk', rotor = 1, ratchet = 3, avalanche = 5, last_plain = 7, last_cipher = 11\<rparr>"]
  by (simp add: sapphire_of_def Let_def)

lemma sapphire_ctor_junk:
  assumes "key \<noteq> []" and "length key \<le> 255"
  shows "sapphire_ctor junk key = Inr (sapphire_of junk' key (of_nat (length key)))"
proof -
  have "(of_nat (length key) :: u8) \<noteq> 0"
    using assms by (simp add: word_of_nat_eq_0_iff nat_dvd_not_less)
  from sapphire_of_junk [OF this] assms(2) show ?thesis by (simp add: sapphire_ctor_def Let_def)
qed

section \<open>Properties\<close>

text \<open>
  C14. Decrypting an encrypted range from the same state gives the plain bytes back, and the
  receiver ends in the state of the sender, so that the next range decrypts too.
\<close>

theorem sapphire_roundtrip:
  "decrypt_range (fst (encrypt_range bs s)) s = (bs, snd (encrypt_range bs s))"
  by (rule decrypt_encrypt_range)

text \<open>
  Every keyed or keyless initialisation leaves the cards a permutation of the 256 byte
  values, and encrypting any range of bytes keeps them one (and cannot repair a deck that is not).
\<close>

theorem sapphire_cards_permutation:
  "cards_ok (initialize key keysize s) \<and>
   (cards_ok (snd (encrypt_range bs t)) \<longleftrightarrow> cards_ok t)"
proof
  show "cards_ok (initialize key keysize s)" by (rule cards_ok_initialize)
qed (rule cards_ok_encrypt_range)

text \<open>
  The key schedule's bounded search: \<open>keyrand\<close> always returns (the retry limiter makes it a
  total function) with a value not above \<open>limit\<close>, and the schedule reads no byte of the key
  at or past \<open>keysize\<close>.
\<close>

theorem sapphire_key_schedule_bounds:
  "fst (keyrand cs limit key keysize rsum keypos) \<le> limit \<and>
   initialize (take (unat keysize) key) keysize s = initialize key keysize s"
proof
  show "fst (keyrand cs limit key keysize rsum keypos) \<le> limit"
    by (simp add: keyrand_def keyrand_loop_le)
  have "0 < unat keysize" if "\<not> keysize < 1"
    using that by (simp add: unat_gt_0 word_less_1)
  then show "initialize (take (unat keysize) key) keysize s = initialize key keysize s"
    by (simp add: initialize_def init_cards_take)
qed

text \<open>
  The range constructor: a key longer than 255 bytes is rejected; a shorter non-empty one
  gives a state that does not depend on what the cards held before; an empty one leaves the
  cards as the memory was, not in the default order \<open>hash_init\<close> would give them.
\<close>

theorem sapphire_ctor_cases:
  "(case sapphire_ctor junk key of
      Inl e \<Rightarrow> e = Key_Overflow \<and> 255 < length key
    | Inr s \<Rightarrow> length key \<le> 255 \<and>
        (if key = [] then cards s = junk
         else cards_ok s \<and> sapphire_ctor junk' key = Inr s))"
proof -
  have "sapphire_of junk key ks = sapphire_of junk' key ks" if "ks \<noteq> 0" for ks
    using that by (rule sapphire_of_junk)
  moreover have "(of_nat (length key) :: u8) \<noteq> 0" if "key \<noteq> []" "length key \<le> 255"
    using that by (simp add: word_of_nat_eq_0_iff nat_dvd_not_less)
  ultimately show ?thesis
    using cards_ok_initialize [of key "of_nat (length key)"]
    by (auto simp: sapphire_ctor_def Let_def sapphire_of_def)
qed

end
