(* ===== verification/Browser_Client.thy ===== *)
theory Browser_Client
  imports Game_Db Sb_Request Sapphire_Cipher
begin

text \<open>
  The server browser's connection (\<open>emulator/ms.client.h\<close>, \<open>emulator/ms.client.cpp\<close>): the packet
  reader that cuts the TCP stream into packets, the key derivation, the answer to a server-list
  request and the messages pushed when servers come and go.  The socket is the list of buffers sent;
  the random strings, the peer's address, \<open>make_address_v4\<close> and SQLite are parameters.  Shown: how
  the stream is divided does not matter, written packets are read back, and a client that knows
  the secret key decrypts the answer and reads exactly the servers of the query from it.
\<close>

section \<open>The packet reader\<close>

datatype sb_type = server_list_req | server_info_req | send_message_req | keepalive_req
  | maploop_req | playersearch_req

definition sb_types :: "sb_type list" where
  "sb_types = [server_list_req, server_info_req, send_message_req, keepalive_req, maploop_req, playersearch_req]"

record sb_packet =
  sb_type :: sb_type
  sb_data :: bytes

definition gs_recv_buffer_size :: nat where
  "gs_recv_buffer_size = 4096"

text \<open>
  The inner loop on the bytes that are available: the packets it yields and the bytes that
  stay in the buffer, or \<open>None\<close> when it ends the reader.
\<close>

function reader_loop :: "bytes \<Rightarrow> sb_packet list \<times> bytes option" where
  "reader_loop buf =
     (if length buf < 3 then ([], Some buf)
      else
        let packetLength = unat (un_be16 (buf ! 0) (buf ! 1)) in
        if packetLength < 3 then ([], None)
        else if packetLength > gs_recv_buffer_size then ([], None)
        else if packetLength > length buf then ([], Some buf)
        else if buf ! 2 > 5 then ([], None)
        else
          let packet = \<lparr>sb_type = sb_types ! unat (buf ! 2), sb_data = drop 3 (take packetLength buf)\<rparr>;
              (ps, r) = reader_loop (drop packetLength buf)
          in (packet # ps, r))"
  by pat_completeness auto
termination by (relation "measure length") auto

declare reader_loop.simps [simp del]

text \<open>
  The outer loop: each read appends what has arrived, at most the space that is left, to the
  buffer.  The list holds what the successive reads deliver.
\<close>

fun packet_reader :: "bytes \<Rightarrow> bytes list \<Rightarrow> sb_packet list \<times> bytes option" where
  "packet_reader buf [] = ([], Some buf)"
| "packet_reader buf (chunk # chunks) =
     (case reader_loop (buf @ chunk) of
        (ps, None) \<Rightarrow> (ps, None)
      | (ps, Some buf) \<Rightarrow> (case packet_reader buf chunks of (qs, r) \<Rightarrow> (ps @ qs, r)))"

section \<open>The client object\<close>

record 'd browser =
  br_games :: "'d game_db"
  m_Cypher :: "sapphire option"
  m_Game :: "string option"
  m_KeyList :: "string list"
  br_subscribed :: bool
  m_SignalChannel :: "bytes list"
  br_sent :: "bytes list"
  br_open :: bool

record ('d, 's) br_env =
  br_api :: "('d, 's) sqlite3"
  br_make_address :: "string \<Rightarrow> exn + u32"
  br_peer :: u32
  br_send :: "bytes \<Rightarrow> exn + unit"
  br_cryptKey :: string
  br_serverChallenge :: string
  br_junk :: "u8 \<Rightarrow> u8"

definition async_send :: "('d, 's) br_env \<Rightarrow> bytes \<Rightarrow> ('d browser, unit) io" where
  "async_send env bs =
     then_io (lift_exn (br_send env bs)) (modify (\<lambda>m. m\<lparr>br_sent := br_sent m @ [bs]\<rparr>))"

text \<open>\<open>m_Cypher->encrypt(bytes)\<close> in place.\<close>

definition encrypt_bytes :: "bytes \<Rightarrow> ('d browser, bytes) io" where
  "encrypt_bytes bs = (\<lambda>m. case m_Cypher m of
     None \<Rightarrow> (Inl Undefined_behaviour, m)
   | Some c \<Rightarrow> (case encrypt_range bs c of (es, c) \<Rightarrow> (Inr es, m\<lparr>m_Cypher := Some c\<rparr>)))"

definition Send :: "('d, 's) br_env \<Rightarrow> bytes \<Rightarrow> ('d browser, unit) io" where
  "Send env bs = bind_io (encrypt_bytes bs) (async_send env)"

section \<open>Starting the encryption\<close>

definition crypt_header :: "u16 \<Rightarrow> string \<Rightarrow> string \<Rightarrow> bytes" where
  "crypt_header gameOptions cryptKey serverChallenge =
     [of_nat (length cryptKey + 2) XOR 0xEC] @ be16 gameOptions @ bytes_of cryptKey @
     [of_nat (length serverChallenge) XOR 0xEA] @ bytes_of serverChallenge"

text \<open>
  \<open>key[(i * secretKey[i % secretKeySize]) % keySize] ^= (key[i % keySize] ^ serverChallenge[i])\<close>: the
  product is a \<open>std::size_t\<close>, a negative \<open>char\<close> is converted to it.
\<close>

definition mix_key :: "string \<Rightarrow> string \<Rightarrow> nat \<Rightarrow> bytes \<Rightarrow> bytes" where
  "mix_key secretKey serverChallenge i k =
     (let factor = of_int (schar (secretKey ! (i mod length secretKey))) :: u64;
          pos = unat (of_nat i * factor) mod length k
      in k[pos := k ! pos XOR (k ! (i mod length k) XOR byte_of (serverChallenge ! i))])"

definition derive_key :: "string \<Rightarrow> string \<Rightarrow> bytes \<Rightarrow> bytes" where
  "derive_key secretKey serverChallenge clientChallenge =
     fold (mix_key secretKey serverChallenge) [0..<length serverChallenge] clientChallenge"

definition StartEncryption :: "('d, 's) br_env \<Rightarrow> bytes \<Rightarrow> game_data \<Rightarrow> ('d browser, unit) io" where
  "StartEncryption env clientChallenge game =
     bind_io (gets m_Cypher) (\<lambda>cypher.
     if cypher \<noteq> None then ret ()
     else
       let k = derive_key (gd_secretKey game) (br_serverChallenge env) clientChallenge in
       (case sapphire_ctor (br_junk env) k of
          Inl _ \<Rightarrow> throw (Overflow_error '''')
        | Inr c \<Rightarrow>
            then_io (modify (\<lambda>m. m\<lparr>m_Cypher := Some c\<rparr>))
              (async_send env (crypt_header (gd_backend game) (br_cryptKey env) (br_serverChallenge env)))))"

section \<open>A server-list request\<close>

definition browser_game :: "string \<Rightarrow> ('d any_game, 'a) io \<Rightarrow> ('d browser, 'a) io" where
  "browser_game n op = zoom br_games (\<lambda>g m. m\<lparr>br_games := g\<rparr>) (gdb.call n op)"

definition get_game_object :: "string \<Rightarrow> ('d browser, 'd game) io" where
  "get_game_object n = (\<lambda>m. case GetGame (br_games m) n of
     Inl e \<Rightarrow> (Inl e, m) | Inr g \<Rightarrow> (Inr (as_game g), m))"

definition close_socket :: "('d browser, unit) io" where
  "close_socket = modify (\<lambda>m. m\<lparr>br_open := False\<rparr>)"

definition list_terminator :: bytes where
  "list_terminator = [0x00, 0xFF, 0xFF, 0xFF, 0xFF]"

definition list_limit :: "server_list_request \<Rightarrow> nat" where
  "list_limit request = min (case limitResultCount request of None \<Rightarrow> 500 | Some l \<Rightarrow> unat l) 500"

definition send_server :: "('d, 's) br_env \<Rightarrow> 'd game \<Rightarrow> string list \<Rightarrow> server_data \<Rightarrow> ('d browser, unit) io" where
  "send_server env game names server =
     bind_io (lift_exn (GetServerBytes (br_make_address env) game server names True)) (Send env)"

text \<open>
  The servers of a query that the library answers beyond its \<open>LIMIT\<close> have no meaning here.
\<close>

definition HandleServerListRequest :: "('d, 's) br_env \<Rightarrow> bytes \<Rightarrow> ('d browser, unit) io" where
  "HandleServerListRequest env payload =
     (case sb_parse payload of
        Inl _ \<Rightarrow> close_socket
      | Inr request \<Rightarrow>
          bind_io (gets (\<lambda>m. HasGame (br_games m) (toGame request))) (\<lambda>has.
          if \<not> has then close_socket
          else
            bind_io (get_game_object (toGame request)) (\<lambda>game.
            then_io (modify (\<lambda>m. m\<lparr>m_Game := Some (toGame request)\<rparr>))
           (then_io (StartEncryption env (sb_challenge request) (m_Data game))
           (then_io (Send env (GetResponseHeaderBytes request game (br_peer env)))
           (if has_option (sb_options request) no_server_list \<or> gd_queryPort (m_Data game) = 0xFFFF then ret ()
            else if has_option (sb_options request) send_groups then ret ()
            else
              bind_io (browser_game (toGame request)
                (game_GetServers (br_api env) (serverFilter request) (fieldList request) (list_limit request) 0))
                (\<lambda>servers. case servers of
                   None \<Rightarrow> throw Undefined_behaviour
                 | Some servers \<Rightarrow>
                     then_io (for_each servers (send_server env game (fieldList request)))
                    (then_io (Send env list_terminator)
                    (if has_option (sb_options request) push_updates
                     then modify (\<lambda>m. m\<lparr>m_KeyList := m_KeyList m @ fieldList request, br_subscribed := True\<rparr>)
                     else ret ())))))))))"

section \<open>Pushed messages\<close>

definition channel_capacity :: nat where
  "channel_capacity = 10"

text \<open>\<open>m_SignalChannel.try_send\<close>: a full channel drops the message.\<close>

definition try_send :: "bytes \<Rightarrow> 'd browser \<Rightarrow> 'd browser" where
  "try_send bs m =
     (if length (m_SignalChannel m) < channel_capacity
      then m\<lparr>m_SignalChannel := m_SignalChannel m @ [bs]\<rparr> else m)"

definition push_server_message :: "bytes \<Rightarrow> bytes" where
  "push_server_message serverBytes = 0x02 # be16 (of_nat (length serverBytes)) @ serverBytes"

definition delete_server_message :: "u32 \<Rightarrow> u16 \<Rightarrow> bytes" where
  "delete_server_message ip port = [0x04, 0, 6] @ be32 ip @ be16 port"

text \<open>The two slots connected to the signals of the game.\<close>

definition on_signal :: "('d, 's) br_env \<Rightarrow> 'd game \<Rightarrow> game_signal \<Rightarrow> ('d browser, unit) io" where
  "on_signal env game sig =
     bind_io (gets (\<lambda>m. (br_subscribed m, m_KeyList m))) (\<lambda>(subscribed, keyList).
     if \<not> subscribed then ret ()
     else case sig of
       Server_added server \<Rightarrow>
         bind_io (lift_exn (GetServerBytes (br_make_address env) game server keyList False))
           (\<lambda>bs. modify (try_send (push_server_message bs)))
     | Server_removed ip port \<Rightarrow>
         bind_io (lift_exn (br_make_address env ip))
           (\<lambda>a. modify (try_send (delete_server_message a port))))"

section \<open>\<open>Process\<close>\<close>

text \<open>The first packet.\<close>

definition process_first :: "('d, 's) br_env \<Rightarrow> sb_packet \<Rightarrow> ('d browser, unit) io" where
  "process_first env packet =
     (if sb_type packet \<noteq> server_list_req then close_socket
      else HandleServerListRequest env (sb_data packet))"

text \<open>
  One turn of the loop: a pushed message (the first alternative) or a packet (the second).  After a
  pushed message the code goes on to read the second alternative, which the variant does not hold.
\<close>

definition process_turn :: "('d, 's) br_env \<Rightarrow> bytes + sb_packet \<Rightarrow> ('d browser, unit) io" where
  "process_turn env incoming =
     (case incoming of
        Inl bs \<Rightarrow> then_io (Send env bs) (throw Bad_variant_access)
      | Inr packet \<Rightarrow> ret ())"

section \<open>The reader does not depend on how the stream is divided\<close>

lemma reader_loop_rest:
  "reader_loop buf = (ps, Some r) \<Longrightarrow> length r < gs_recv_buffer_size \<and> (length r < 3 \<or> length r < unat (un_be16 (r ! 0) (r ! 1)))"
proof (induction buf arbitrary: ps rule: reader_loop.induct)
  case (1 buf)
  show ?case
  proof (cases "length buf < 3 \<or> unat (un_be16 (buf ! 0) (buf ! 1)) < 3 \<or>
      unat (un_be16 (buf ! 0) (buf ! 1)) > gs_recv_buffer_size \<or>
      unat (un_be16 (buf ! 0) (buf ! 1)) > length buf \<or> buf ! 2 > 5")
    case True
    then show ?thesis
      using "1.prems" by (subst (asm) reader_loop.simps) (auto simp: Let_def gs_recv_buffer_size_def split: if_splits)
  next
    case False
    then obtain qs where "reader_loop (drop (unat (un_be16 (buf ! 0) (buf ! 1))) buf) = (qs, Some r)"
      using "1.prems" by (subst (asm) reader_loop.simps) (auto simp: Let_def split: prod.splits)
    then show ?thesis using "1.IH" [OF _ refl _ _ _ _ refl] False by auto
  qed
qed

lemma reader_loop_append:
  "reader_loop (a @ b) = (case reader_loop a of
     (ps, None) \<Rightarrow> (ps, None)
   | (ps, Some r) \<Rightarrow> (case reader_loop (r @ b) of (qs, t) \<Rightarrow> (ps @ qs, t)))"
proof (induction a rule: reader_loop.induct)
  case (1 buf)
  let ?n = "unat (un_be16 (buf ! 0) (buf ! 1))"
  show ?case
  proof (cases "length buf < 3")
    case True
    then show ?thesis by (subst (2) reader_loop.simps) (simp split: prod.splits)
  next
    case False
    then have same: "(buf @ b) ! 0 = buf ! 0" "(buf @ b) ! 1 = buf ! 1" "(buf @ b) ! 2 = buf ! 2"
      by (auto simp: nth_append)
    consider (bad) "?n < 3 \<or> ?n > gs_recv_buffer_size" | (wait) "?n > length buf" "3 \<le> ?n" "?n \<le> gs_recv_buffer_size"
      | (type) "?n \<le> length buf" "3 \<le> ?n" "?n \<le> gs_recv_buffer_size" "buf ! 2 > 5"
      | (packet) "?n \<le> length buf" "3 \<le> ?n" "?n \<le> gs_recv_buffer_size" "\<not> buf ! 2 > 5"
      by linarith
    then show ?thesis
    proof cases
      case bad
      then show ?thesis
        using False same by (subst (1 2) reader_loop.simps) (auto simp: Let_def)
    next
      case wait
      then have "reader_loop buf = ([], Some buf)"
        using False by (subst reader_loop.simps) (simp add: Let_def)
      then show ?thesis by (simp split: prod.splits)
    next
      case type
      then show ?thesis
        using False same by (subst (1 2) reader_loop.simps) (auto simp: Let_def)
    next
      case packet
      have ih: "reader_loop (drop ?n buf @ b) = (case reader_loop (drop ?n buf) of
           (ps, None) \<Rightarrow> (ps, None)
         | (ps, Some r) \<Rightarrow> (case reader_loop (r @ b) of (qs, t) \<Rightarrow> (ps @ qs, t)))"
        by (rule "1.IH" [OF False refl]) (use packet in \<open>simp_all add: Let_def\<close>)
      have "reader_loop (buf @ b) =
        (case reader_loop (drop ?n buf @ b) of (ps, r) \<Rightarrow>
           (\<lparr>sb_type = sb_types ! unat (buf ! 2), sb_data = drop 3 (take ?n buf)\<rparr> # ps, r))"
        using False same packet by (subst reader_loop.simps) (simp add: Let_def)
      moreover have "reader_loop buf =
        (case reader_loop (drop ?n buf) of (ps, r) \<Rightarrow>
           (\<lparr>sb_type = sb_types ! unat (buf ! 2), sb_data = drop 3 (take ?n buf)\<rparr> # ps, r))"
        using False packet by (subst reader_loop.simps) (simp add: Let_def)
      ultimately show ?thesis
        unfolding ih by (auto split: prod.splits option.splits)
    qed
  qed
qed

lemma reader_loop_idem: "reader_loop buf = (ps, Some r) \<Longrightarrow> reader_loop r = ([], Some r)"
  using reader_loop_append [of buf "[]"] by (auto split: prod.splits)

lemma packet_reader_concat:
  "reader_loop buf = ([], Some buf) \<Longrightarrow> packet_reader buf chunks = reader_loop (buf @ concat chunks)"
proof (induction chunks arbitrary: buf)
  case (Cons chunk chunks)
  obtain ps r where r: "reader_loop (buf @ chunk) = (ps, r)" by (cases "reader_loop (buf @ chunk)")
  have "reader_loop (buf @ concat (chunk # chunks)) = reader_loop ((buf @ chunk) @ concat chunks)" by simp
  also have "\<dots> = (case reader_loop (buf @ chunk) of
     (ps, None) \<Rightarrow> (ps, None)
   | (ps, Some r) \<Rightarrow> (case reader_loop (r @ concat chunks) of (qs, t) \<Rightarrow> (ps @ qs, t)))"
    by (rule reader_loop_append)
  also have "\<dots> = packet_reader buf (chunk # chunks)"
    using Cons.IH reader_loop_idem r by (auto split: option.splits)
  finally show ?case by simp
qed simp

section \<open>Packets on the wire\<close>

definition frame :: "sb_packet \<Rightarrow> bytes" where
  "frame p = be16 (of_nat (3 + length (sb_data p))) @
     [case sb_type p of server_list_req \<Rightarrow> 0 | server_info_req \<Rightarrow> 1 | send_message_req \<Rightarrow> 2
        | keepalive_req \<Rightarrow> 3 | maploop_req \<Rightarrow> 4 | playersearch_req \<Rightarrow> 5] @ sb_data p"

lemma reader_loop_frame:
  assumes "length (sb_data p) \<le> 4093"
  shows "reader_loop (frame p @ r) = (case reader_loop r of (ps, t) \<Rightarrow> (p # ps, t))"
proof -
  let ?code = "case sb_type p of server_list_req \<Rightarrow> 0 :: u8 | server_info_req \<Rightarrow> 1 | send_message_req \<Rightarrow> 2
        | keepalive_req \<Rightarrow> 3 | maploop_req \<Rightarrow> 4 | playersearch_req \<Rightarrow> 5"
  define w where "w = (of_nat (3 + length (sb_data p)) :: u16)"
  have w: "unat w = 3 + length (sb_data p)" using assms by (simp add: w_def unat_of_nat del: of_nat_add)
  have f: "frame p = ucast (drop_bit 8 w) # ucast w # ?code # sb_data p"
    by (simp add: frame_def w_def be16_def)
  have code: "\<not> ?code > 5" "sb_types ! unat ?code = sb_type p"
    by (cases "sb_type p"; simp add: sb_types_def)+
  define c where "c = ?code"
  have c: "\<not> c > 5" "sb_types ! unat c = sb_type p" unfolding c_def by (rule code)+
  let ?buf = "ucast (drop_bit 8 w) # ucast w # c # sb_data p @ r"
  have len: "un_be16 (?buf ! 0) (?buf ! 1) = w" by (simp add: un_be16_be16)
  have "drop (unat w) ?buf = r" "drop 3 (take (unat w) ?buf) = sb_data p" "?buf ! 2 = c"
    by (simp_all add: w numeral_3_eq_3 numeral_2_eq_2)
  moreover have "\<not> length ?buf < 3" "\<not> unat w < 3" "\<not> unat w > gs_recv_buffer_size" "\<not> unat w > length ?buf"
    using assms by (simp_all add: w gs_recv_buffer_size_def)
  moreover have "\<lparr>sb_type = sb_type p, sb_data = sb_data p\<rparr> = p" by simp
  ultimately have "reader_loop ?buf = (case reader_loop r of (ps, t) \<Rightarrow> (p # ps, t))"
    using c by (subst reader_loop.simps) (simp only: len Let_def if_False c)
  then show ?thesis unfolding f c_def by simp
qed

lemma reader_loop_frames:
  "list_all (\<lambda>p. length (sb_data p) \<le> 4093) ps \<Longrightarrow> reader_loop (concat (map frame ps)) = (ps, Some [])"
proof (induction ps)
  case Nil
  then show ?case by (simp add: reader_loop.simps)
next
  case (Cons p ps)
  then show ?case by (simp add: reader_loop_frame)
qed

section \<open>What sending does\<close>

text \<open>The plain bytes \<open>p\<close> were encrypted and sent, in some division, and nothing else has changed.\<close>

definition sends :: "'d browser \<Rightarrow> bytes \<Rightarrow> 'd browser \<Rightarrow> bool" where
  "sends m p m' \<longleftrightarrow> (\<exists>c sent. m_Cypher m = Some c \<and> concat sent = fst (encrypt_range p c) \<and>
     m' = m\<lparr>m_Cypher := Some (snd (encrypt_range p c)), br_sent := br_sent m @ sent\<rparr>)"

lemma sends_Nil: "m_Cypher m \<noteq> None \<Longrightarrow> sends m [] m"
  by (auto simp: sends_def intro!: exI [of _ "[]"])

lemma sends_trans: "sends m p m1 \<Longrightarrow> sends m1 q m2 \<Longrightarrow> sends m (p @ q) m2"
proof -
  assume "sends m p m1" "sends m1 q m2"
  then obtain c s1 s2 where c: "m_Cypher m = Some c" "concat s1 = fst (encrypt_range p c)"
    "m1 = m\<lparr>m_Cypher := Some (snd (encrypt_range p c)), br_sent := br_sent m @ s1\<rparr>"
    "concat s2 = fst (encrypt_range q (snd (encrypt_range p c)))"
    "m2 = m1\<lparr>m_Cypher := Some (snd (encrypt_range q (snd (encrypt_range p c)))), br_sent := br_sent m1 @ s2\<rparr>"
    by (auto simp: sends_def)
  then show ?thesis
    by (auto simp: sends_def encrypt_range_append intro!: exI [of _ "s1 @ s2"])
qed

lemma Send_sends:
  assumes "m_Cypher m \<noteq> None" and "\<And>bs. br_send env bs = Inr ()"
  shows "\<exists>m'. Send env p m = (Inr (), m') \<and> sends m p m'"
proof -
  obtain c where c: "m_Cypher m = Some c" using assms(1) by auto
  let ?m = "m\<lparr>m_Cypher := Some (snd (encrypt_range p c)), br_sent := br_sent m @ [fst (encrypt_range p c)]\<rparr>"
  have "Send env p m = (Inr (), ?m)"
    using c assms(2)
    by (simp add: Send_def encrypt_bytes_def bind_io_def async_send_def then_io_def lift_exn_def modify_def
        split: prod.splits)
  moreover have "sends m p ?m" using c by (auto simp: sends_def intro!: exI [of _ "[fst (encrypt_range p c)]"])
  ultimately show ?thesis by blast
qed

lemma sends_cypher: "sends m p m' \<Longrightarrow> m_Cypher m' \<noteq> None"
  by (auto simp: sends_def)

definition entry_bytes :: "('d, 's) br_env \<Rightarrow> 'd game \<Rightarrow> string list \<Rightarrow> server_data \<Rightarrow> bytes" where
  "entry_bytes env game names server =
     (case GetServerBytes (br_make_address env) game server names True of Inr bs \<Rightarrow> bs | Inl _ \<Rightarrow> [])"

lemma send_servers_sends:
  assumes "\<And>bs. br_send env bs = Inr ()"
  shows "m_Cypher m \<noteq> None \<Longrightarrow>
    list_all (\<lambda>s. \<exists>bs. GetServerBytes (br_make_address env) game s names True = Inr bs) servers \<Longrightarrow>
    \<exists>m'. for_each servers (send_server env game names) m = (Inr (), m') \<and>
      sends m (concat (map (entry_bytes env game names) servers)) m'"
proof (induction servers arbitrary: m)
  case Nil
  then show ?case using sends_Nil by (auto simp: ret_def)
next
  case (Cons s servers)
  then obtain bs where bs: "GetServerBytes (br_make_address env) game s names True = Inr bs" by auto
  obtain m1 where m1: "Send env bs m = (Inr (), m1)" "sends m bs m1"
    using Send_sends [OF Cons.prems(1) assms] by blast
  obtain m2 where m2: "for_each servers (send_server env game names) m1 = (Inr (), m2)"
    "sends m1 (concat (map (entry_bytes env game names) servers)) m2"
    using Cons.IH [OF sends_cypher [OF m1(2)]] Cons.prems by auto
  have "send_server env game names s m = (Inr (), m1)"
    using bs m1 by (simp add: send_server_def bind_io_def lift_exn_def)
  moreover have "entry_bytes env game names s = bs" using bs by (simp add: entry_bytes_def)
  ultimately show ?case
    using m2 sends_trans [OF m1(2) m2(2)] by (simp add: then_io_def bind_io_def)
qed

section \<open>The client's view of the answer\<close>

text \<open>
  The reference client: it reads the server's challenge from the clear header, derives the same
  key from the secret key of its game, decrypts the rest of the stream and reads the header and
  the entries up to the terminator.  The fuel is one more than the number of entries.
\<close>

definition read_crypt_header :: "bytes \<Rightarrow> (string \<times> bytes) option" where
  "read_crypt_header bs =
     (case bs of
        [] \<Rightarrow> None
      | a # bs \<Rightarrow>
          (case drop (unat (a XOR 0xEC)) bs of
             [] \<Rightarrow> None
           | b # bs \<Rightarrow>
               let n = unat (b XOR 0xEA)
               in if length bs < n then None else Some (string_of (take n bs), drop n bs)))"

fun read_entries :: "nat \<Rightarrow> u16 \<Rightarrow> u8 list \<Rightarrow> string list \<Rightarrow> bytes \<Rightarrow> read_entry list option" where
  "read_entries 0 queryPort types popular bs = None"
| "read_entries (Suc n) queryPort types popular bs =
     (if take 5 bs = list_terminator then Some []
      else case read_server_entry queryPort types popular bs of
        None \<Rightarrow> None
      | Some (e, r) \<Rightarrow> map_option ((#) e) (read_entries n queryPort types popular r))"

definition client_view ::
  "string \<Rightarrow> bytes \<Rightarrow> nat \<Rightarrow> bytes \<Rightarrow> (read_header \<times> read_entry list) option"
where
  "client_view secretKey clientChallenge n stream =
     (case read_crypt_header stream of
        None \<Rightarrow> None
      | Some (serverChallenge, stream) \<Rightarrow>
          (case sapphire_ctor (\<lambda>_. 0) (derive_key secretKey serverChallenge clientChallenge) of
             Inl _ \<Rightarrow> None
           | Inr c \<Rightarrow>
               (case read_response_header (fst (decrypt_range stream c)) of
                  None \<Rightarrow> None
                | Some (h, bs) \<Rightarrow>
                    map_option (Pair h) (read_entries n (rh_port h) (map fst (rh_fields h)) (rh_popular h) bs))))"

lemma read_crypt_header_eq:
  assumes "length cryptKey < 254" and "length serverChallenge < 256"
  shows "read_crypt_header (crypt_header opts cryptKey serverChallenge @ r) = Some (serverChallenge, r)"
proof -
  define a where "a = (of_nat (length cryptKey + 2) :: u8)"
  define b where "b = (of_nat (length serverChallenge) :: u8)"
  have n: "unat a = length cryptKey + 2" "unat b = length serverChallenge"
  proof -
    have small: "unat (of_nat k :: u8) = k" if "k < 256" for k using that by (simp add: unat_of_nat)
    show "unat a = length cryptKey + 2" unfolding a_def by (rule small) (use assms in linarith)
    show "unat b = length serverChallenge" unfolding b_def by (rule small) (use assms in linarith)
  qed
  have x: "(a XOR 0xEC) XOR 0xEC = a" "(b XOR 0xEA) XOR 0xEA = b" by (simp_all add: xor.assoc)
  have "drop (length cryptKey + 2) (be16 opts @ bytes_of cryptKey @ y # ys) = y # ys" for y ys
    by (simp add: be16_def)
  then show ?thesis
    unfolding crypt_header_def a_def [symmetric] b_def [symmetric]
    by (simp add: read_crypt_header_def x n Let_def)
qed

lemma entry_bytes_not_terminator:
  assumes "GetServerBytes make_address g server names usePopularList = Inr bytes"
  shows "take 5 (bytes @ r) \<noteq> list_terminator"
proof -
  have "entry_flags a b c d e f h \<noteq> 0" for a b c d e f h
  proof -
    have "has_flag (entry_flags a b c d e f h) unsolicited_udp"
      unfolding entry_flags_def has_flag_or by (simp add: has_flag_def flag_defs)
    then show ?thesis by auto
  qed
  moreover obtain a b c d e f h t where "bytes = entry_flags a b c d e f h # t"
    using PrepareServer_Inr assms unfolding GetServerBytes_def by metis
  ultimately show ?thesis by (simp add: list_terminator_def)
qed

lemma read_entries_eq:
  assumes "\<And>s. s \<in> set servers \<Longrightarrow> \<exists>bs. GetServerBytes make_address g s names True = Inr bs \<and> f s = bs"
    and "m_PopularValues g = []"
    and "\<And>s. s \<in> set servers \<Longrightarrow> (sv_data s \<noteq> [] \<or> names = []) \<and>
      list_all (\<lambda>k. NUL \<notin> set (stored_value (sv_data s) k)) names \<and> NUL \<notin> set (rules s)"
  shows "read_entries (Suc (length servers)) (gd_queryPort (m_Data g))
      (map (\<lambda>k. send_code (GetParamSendType g k)) names) popular (concat (map f servers) @ list_terminator) =
    Some (map (\<lambda>s. entry_meaning make_address g s names) servers)"
  using assms
proof (induction servers)
  case Nil
  then show ?case by (simp add: list_terminator_def)
next
  case (Cons s servers)
  obtain bs where bs: "GetServerBytes make_address g s names True = Inr bs" "f s = bs"
    using Cons.prems(1) [of s] by auto
  have e: "read_server_entry (gd_queryPort (m_Data g)) (map (\<lambda>k. send_code (GetParamSendType g k)) names) popular
      (bs @ t) = Some (entry_meaning make_address g s names, t)" for t
    using bs(1) Cons.prems(2) Cons.prems(3) [of s] unfolding GetServerBytes_def
    by (intro read_server_entry_eq) auto
  have "read_entries (Suc (length servers)) (gd_queryPort (m_Data g))
      (map (\<lambda>k. send_code (GetParamSendType g k)) names) popular (concat (map f servers) @ list_terminator) =
    Some (map (\<lambda>s. entry_meaning make_address g s names) servers)"
    by (rule Cons.IH) (use Cons.prems in auto)
  then show ?case
    using entry_bytes_not_terminator [OF bs(1), of "concat (map f servers) @ list_terminator"] e
    by (simp add: bs(2) del: read_entries.simps) (subst read_entries.simps, simp add: e)
qed

lemma length_derive_key [simp]: "length (derive_key s c k) = length k"
proof -
  have "length (fold (mix_key s c) is k) = length k" for "is"
    by (induction "is" arbitrary: k) (simp_all add: mix_key_def Let_def)
  then show ?thesis by (simp add: derive_key_def)
qed

text \<open>The answer to a request that asks for the list, up to the first server.\<close>

lemma list_request_start:
  assumes parse: "sb_parse payload = Inr request"
    and game: "HasGame (br_games m) (toGame request)" "GetGame (br_games m) (toGame request) = Inr g"
    and fresh: "m_Cypher m = None" "br_sent m = []"
    and opts: "\<not> has_option (sb_options request) no_server_list" "\<not> has_option (sb_options request) send_groups"
    and port: "gd_queryPort (m_Data (as_game g)) \<noteq> 0xFFFF"
    and send: "\<And>bs. br_send env bs = Inr ()"
    and chal: "length (sb_challenge request) = 8"
    and servers: "gdb.call (toGame request) (game_GetServers (br_api env) (serverFilter request)
        (fieldList request) (list_limit request) 0) (br_games m) = (Inr (Some ss), db')"
  shows "\<exists>m3 c. HandleServerListRequest env payload m =
      then_io (for_each ss (send_server env (as_game g) (fieldList request)))
        (then_io (Send env list_terminator)
          (if has_option (sb_options request) push_updates
           then modify (\<lambda>m. m\<lparr>m_KeyList := m_KeyList m @ fieldList request, br_subscribed := True\<rparr>)
           else ret ())) m3 \<and>
    sapphire_ctor (\<lambda>_. 0) (derive_key (gd_secretKey (m_Data (as_game g))) (br_serverChallenge env) (sb_challenge request)) = Inr c \<and>
    m_Cypher m3 = Some (snd (encrypt_range (GetResponseHeaderBytes request (as_game g) (br_peer env)) c)) \<and>
    concat (br_sent m3) =
      crypt_header (gd_backend (m_Data (as_game g))) (br_cryptKey env) (br_serverChallenge env) @
      fst (encrypt_range (GetResponseHeaderBytes request (as_game g) (br_peer env)) c)"
proof -
  let ?G = "as_game g"
  let ?k = "derive_key (gd_secretKey (m_Data ?G)) (br_serverChallenge env) (sb_challenge request)"
  have k: "?k \<noteq> []" "length ?k \<le> 255" using chal by (simp_all flip: length_0_conv)
  define c where "c = sapphire_of (\<lambda>_. 0) ?k (of_nat (length ?k))"
  have ctor: "sapphire_ctor junk ?k = Inr c" for junk
    unfolding c_def by (rule sapphire_ctor_junk [OF k])
  let ?clear = "crypt_header (gd_backend (m_Data ?G)) (br_cryptKey env) (br_serverChallenge env)"
  let ?m1 = "m\<lparr>m_Game := Some (toGame request), m_Cypher := Some c, br_sent := [?clear]\<rparr>"
  have start: "StartEncryption env (sb_challenge request) (m_Data ?G) (m\<lparr>m_Game := Some (toGame request)\<rparr>) = (Inr (), ?m1)"
    using fresh send
    by (simp add: StartEncryption_def bind_io_def gets_def ctor Let_def then_io_def modify_def async_send_def lift_exn_def)
  obtain m2 where m2: "Send env (GetResponseHeaderBytes request ?G (br_peer env)) ?m1 = (Inr (), m2)"
    "sends ?m1 (GetResponseHeaderBytes request ?G (br_peer env)) m2"
    using Send_sends [of ?m1 env] send by auto
  have games2: "br_games m2 = br_games m" using m2(2) by (auto simp: sends_def)
  let ?m3 = "m2\<lparr>br_games := db'\<rparr>"
  have list: "browser_game (toGame request) (game_GetServers (br_api env) (serverFilter request)
        (fieldList request) (list_limit request) 0) m2 = (Inr (Some ss), ?m3)"
    using servers by (simp add: browser_game_def zoom_def games2)
  have run: "HandleServerListRequest env payload m =
      then_io (for_each ss (send_server env ?G (fieldList request)))
        (then_io (Send env list_terminator)
          (if has_option (sb_options request) push_updates
           then modify (\<lambda>m. m\<lparr>m_KeyList := m_KeyList m @ fieldList request, br_subscribed := True\<rparr>)
           else ret ())) ?m3"
    using parse game opts port start m2(1) list
    by (simp add: HandleServerListRequest_def bind_io_def [of "gets _"] gets_def get_game_object_def
        then_io_def bind_io_def modify_def)
  have "m_Cypher ?m3 = Some (snd (encrypt_range (GetResponseHeaderBytes request ?G (br_peer env)) c))"
    "concat (br_sent ?m3) = ?clear @ fst (encrypt_range (GetResponseHeaderBytes request ?G (br_peer env)) c)"
    using m2(2) by (auto simp: sends_def)
  with run ctor show ?thesis by blast
qed

text \<open>The whole answer, when every server can be written.\<close>

lemma list_request_answer:
  assumes start: "sb_parse payload = Inr request"
    "HasGame (br_games m) (toGame request)" "GetGame (br_games m) (toGame request) = Inr g"
    "m_Cypher m = None" "br_sent m = []"
    "\<not> has_option (sb_options request) no_server_list" "\<not> has_option (sb_options request) send_groups"
    "gd_queryPort (m_Data (as_game g)) \<noteq> 0xFFFF" "\<And>bs. br_send env bs = Inr ()"
    "length (sb_challenge request) = 8"
    "gdb.call (toGame request) (game_GetServers (br_api env) (serverFilter request)
        (fieldList request) (list_limit request) 0) (br_games m) = (Inr (Some ss), db')"
    and good: "list_all (\<lambda>s. \<exists>bs. GetServerBytes (br_make_address env) (as_game g) s (fieldList request) True = Inr bs) ss"
  shows "\<exists>m' c. HandleServerListRequest env payload m = (Inr (), m') \<and>
    sapphire_ctor (\<lambda>_. 0) (derive_key (gd_secretKey (m_Data (as_game g))) (br_serverChallenge env) (sb_challenge request)) = Inr c \<and>
    concat (br_sent m') =
      crypt_header (gd_backend (m_Data (as_game g))) (br_cryptKey env) (br_serverChallenge env) @
      fst (encrypt_range (GetResponseHeaderBytes request (as_game g) (br_peer env) @
        concat (map (entry_bytes env (as_game g) (fieldList request)) ss) @ list_terminator) c)"
proof -
  let ?hdr = "GetResponseHeaderBytes request (as_game g) (br_peer env)"
  obtain m3 c where run: "HandleServerListRequest env payload m =
      then_io (for_each ss (send_server env (as_game g) (fieldList request)))
        (then_io (Send env list_terminator)
          (if has_option (sb_options request) push_updates
           then modify (\<lambda>m. m\<lparr>m_KeyList := m_KeyList m @ fieldList request, br_subscribed := True\<rparr>)
           else ret ())) m3"
    and ctor: "sapphire_ctor (\<lambda>_. 0) (derive_key (gd_secretKey (m_Data (as_game g))) (br_serverChallenge env) (sb_challenge request)) = Inr c"
    and m3: "m_Cypher m3 = Some (snd (encrypt_range ?hdr c))"
      "concat (br_sent m3) = crypt_header (gd_backend (m_Data (as_game g))) (br_cryptKey env) (br_serverChallenge env) @
        fst (encrypt_range ?hdr c)"
    using list_request_start [OF start] by blast
  have "m_Cypher m3 \<noteq> None" using m3(1) by simp
  then obtain m4 where m4: "for_each ss (send_server env (as_game g) (fieldList request)) m3 = (Inr (), m4)"
    "sends m3 (concat (map (entry_bytes env (as_game g) (fieldList request)) ss)) m4"
    using send_servers_sends [OF start(9) _ good] by blast
  obtain m5 where m5: "Send env list_terminator m4 = (Inr (), m5)" "sends m4 list_terminator m5"
    using Send_sends [OF sends_cypher [OF m4(2)] start(9)] by blast
  let ?m6 = "if has_option (sb_options request) push_updates
    then m5\<lparr>m_KeyList := m_KeyList m5 @ fieldList request, br_subscribed := True\<rparr> else m5"
  have "HandleServerListRequest env payload m = (Inr (), ?m6)"
    unfolding run using m4(1) m5(1) by (simp add: then_io_def bind_io_def modify_def ret_def)
  moreover have "sends m3 (concat (map (entry_bytes env (as_game g) (fieldList request)) ss) @ list_terminator) m5"
    by (rule sends_trans [OF m4(2) m5(2)])
  then have "concat (br_sent ?m6) =
      crypt_header (gd_backend (m_Data (as_game g))) (br_cryptKey env) (br_serverChallenge env) @
      fst (encrypt_range (?hdr @ concat (map (entry_bytes env (as_game g) (fieldList request)) ss) @ list_terminator) c)"
    using m3 by (auto simp: sends_def encrypt_range_append)
  ultimately show ?thesis using ctor by blast
qed

text \<open>A value that the wire cannot carry makes the entry of its server throw.\<close>

lemma value_bytes_Inr_byte:
  assumes "value_bytes g data usePopularList k = Inr bs" and "GetParamSendType g k = as_byte"
  shows "stored_value data k = [] \<or> list_all is_digit (stored_value data k) \<and> digits_val (stored_value data k) < 256"
  using assms by (auto simp: value_bytes_def Let_def stored_value_def and_then_eq_Inr number_value_Inr
      split: if_splits option.splits)

lemma values_bytes_Inr_each:
  "values_bytes g data usePopularList ks = Inr bs \<Longrightarrow> k \<in> set ks \<Longrightarrow> \<exists>b. value_bytes g data usePopularList k = Inr b"
  by (induction ks arbitrary: bs) (auto simp: and_then_eq_Inr)

lemma bad_byte_throws:
  assumes "k \<in> set names" and "GetParamSendType g k = as_byte" and "stored_value (sv_data s) k \<noteq> []"
    and "\<not> (list_all is_digit (stored_value (sv_data s) k) \<and> digits_val (stored_value (sv_data s) k) < 256)"
  shows "\<exists>e. GetServerBytes make_address g s names usePopularList = Inl e"
proof (cases "GetServerBytes make_address g s names usePopularList")
  case (Inr bytes)
  then obtain vals where "values_bytes g (sv_data s) usePopularList names = Inr vals"
    using PrepareServer_Inr unfolding GetServerBytes_def by metis
  then obtain b where "value_bytes g (sv_data s) usePopularList k = Inr b"
    using values_bytes_Inr_each assms(1) by metis
  with value_bytes_Inr_byte assms(2-4) show ?thesis by blast
qed simp

lemma for_each_throws:
  "for_each xs f m = (Inr (), m1) \<Longrightarrow> f x m1 = (Inl e, m2) \<Longrightarrow> for_each (xs @ x # ys) f m = (Inl e, m2)"
proof (induction xs arbitrary: m)
  case (Cons a xs)
  then obtain m' where "f a m = (Inr (), m')" "for_each xs f m' = (Inr (), m1)"
    by (auto simp: then_io_def bind_io_Inr)
  with Cons show ?case by (simp add: then_io_def bind_io_def)
qed (simp add: ret_def then_io_def bind_io_def)

section \<open>Properties\<close>

text \<open>
  C15. The packet reader does not depend on how TCP divides the stream: reading it in any
  pieces yields the packets and the rest that reading it at once yields, or ends at the same
  packet; and between two reads the buffer is never full, so that a read always makes progress.
\<close>

theorem reader_chunking:
  "packet_reader [] chunks = reader_loop (concat chunks) \<and>
   (\<forall>ps r. reader_loop (concat chunks) = (ps, Some r) \<longrightarrow> length r < gs_recv_buffer_size)"
proof
  have "reader_loop [] = ([], Some [])" by (simp add: reader_loop.simps)
  from packet_reader_concat [OF this, of chunks]
  show "packet_reader [] chunks = reader_loop (concat chunks)" by simp
  show "\<forall>ps r. reader_loop (concat chunks) = (ps, Some r) \<longrightarrow> length r < gs_recv_buffer_size"
    using reader_loop_rest by blast
qed

theorem reader_chunking_witness:
  "packet_reader [] [[0], [4], [3, 9]] = ([\<lparr>sb_type = keepalive_req, sb_data = [9]\<rparr>], Some []) \<and>
   length ([] :: bytes) < gs_recv_buffer_size"
proof -
  have "reader_loop [0, 4, 3, 9] = ([\<lparr>sb_type = keepalive_req, sb_data = [9]\<rparr>], Some [])"
    by (simp add: reader_loop.simps Let_def un_be16_def gs_recv_buffer_size_def sb_types_def)
  then show ?thesis using reader_chunking [of "[[0], [4], [3, 9 :: u8]]"] by simp
qed

text \<open>
  Packets of every type with payloads up to 4093 bytes are read back in order with nothing left.
\<close>

theorem reader_roundtrip:
  assumes "list_all (\<lambda>p. length (sb_data p) \<le> 4093) ps"
  shows "packet_reader [] [concat (map frame ps)] = (ps, Some [])"
  using reader_loop_frames [OF assms] by simp

theorem reader_roundtrip_witness:
  "packet_reader [] [frame \<lparr>sb_type = server_list_req, sb_data = [1, 2]\<rparr> @ frame \<lparr>sb_type = maploop_req, sb_data = []\<rparr>] =
     ([\<lparr>sb_type = server_list_req, sb_data = [1, 2]\<rparr>, \<lparr>sb_type = maploop_req, sb_data = []\<rparr>], Some [])"
  using reader_roundtrip [of "[\<lparr>sb_type = server_list_req, sb_data = [1, 2]\<rparr>, \<lparr>sb_type = maploop_req, sb_data = []\<rparr>]"]
  by simp

lemma list_request_read:
  assumes "sb_parse payload = Inr request"
    and "HasGame (br_games m) (toGame request)" and "GetGame (br_games m) (toGame request) = Inr g"
    and "m_Cypher m = None" and "br_sent m = []"
    and "\<not> has_option (sb_options request) no_server_list" and "\<not> has_option (sb_options request) send_groups"
    and "gd_queryPort (m_Data (as_game g)) \<noteq> 0xFFFF"
    and "\<And>bs. br_send env bs = Inr ()"
    and "length (sb_challenge request) = 8" and "length (br_cryptKey env) = 8" and "length (br_serverChallenge env) = 25"
    and "gdb.call (toGame request) (game_GetServers (br_api env) (serverFilter request)
        (fieldList request) (list_limit request) 0) (br_games m) = (Inr (Some ss), db')"
    and "list_all (\<lambda>s. \<exists>bs. GetServerBytes (br_make_address env) (as_game g) s (fieldList request) True = Inr bs) ss"
    and "m_PopularValues (as_game g) = []"
    and "length (fieldList request) < 256" and "list_all (\<lambda>f. NUL \<notin> set f) (fieldList request)"
    and "\<And>s. s \<in> set ss \<Longrightarrow> (sv_data s \<noteq> [] \<or> fieldList request = []) \<and>
      list_all (\<lambda>k. NUL \<notin> set (stored_value (sv_data s) k)) (fieldList request) \<and> NUL \<notin> set (rules s)"
  shows "\<exists>m'. HandleServerListRequest env payload m = (Inr (), m') \<and>
    client_view (gd_secretKey (m_Data (as_game g))) (sb_challenge request) (Suc (length ss)) (concat (br_sent m')) =
      Some (\<lparr>rh_ip = br_peer env, rh_port = gd_queryPort (m_Data (as_game g)),
              rh_fields = map (\<lambda>f. (send_code (GetParamSendType (as_game g) f), f)) (fieldList request),
              rh_popular = []\<rparr>,
            map (\<lambda>s. entry_meaning (br_make_address env) (as_game g) s (fieldList request)) ss)"
proof -
  let ?G = "as_game g"
  let ?list = "concat (map (entry_bytes env ?G (fieldList request)) ss) @ list_terminator"
  obtain m' c where run: "HandleServerListRequest env payload m = (Inr (), m')"
    and ctor: "sapphire_ctor (\<lambda>_. 0) (derive_key (gd_secretKey (m_Data ?G)) (br_serverChallenge env) (sb_challenge request)) = Inr c"
    and sent: "concat (br_sent m') =
      crypt_header (gd_backend (m_Data ?G)) (br_cryptKey env) (br_serverChallenge env) @
      fst (encrypt_range (GetResponseHeaderBytes request ?G (br_peer env) @ ?list) c)"
    using list_request_answer [OF assms(1-10,13,14)] by blast
  have hdr: "read_response_header (GetResponseHeaderBytes request ?G (br_peer env) @ ?list) =
    Some (\<lparr>rh_ip = br_peer env, rh_port = gd_queryPort (m_Data ?G),
      rh_fields = map (\<lambda>f. (send_code (GetParamSendType ?G f), f)) (fieldList request),
      rh_popular = m_PopularValues ?G\<rparr>, ?list)"
    by (rule read_response_header_eq) (use assms(6,8,15-17) in simp_all)
  have entries: "read_entries (Suc (length ss)) (gd_queryPort (m_Data ?G))
      (map (\<lambda>k. send_code (GetParamSendType ?G k)) (fieldList request)) [] ?list =
    Some (map (\<lambda>s. entry_meaning (br_make_address env) ?G s (fieldList request)) ss)"
    by (rule read_entries_eq) (use assms(14,15,18) in \<open>auto simp: list_all_iff entry_bytes_def dest!: bspec\<close>)
  have crypt: "read_crypt_header (concat (br_sent m')) =
      Some (br_serverChallenge env, fst (encrypt_range (GetResponseHeaderBytes request ?G (br_peer env) @ ?list) c))"
    unfolding sent by (rule read_crypt_header_eq) (use assms(11,12) in simp_all)
  have dec: "fst (decrypt_range (fst (encrypt_range p c)) c) = p" for p
    by (simp add: decrypt_encrypt_range)
  have "client_view (gd_secretKey (m_Data ?G)) (sb_challenge request) (Suc (length ss)) (concat (br_sent m')) =
      Some (\<lparr>rh_ip = br_peer env, rh_port = gd_queryPort (m_Data ?G),
              rh_fields = map (\<lambda>f. (send_code (GetParamSendType ?G f), f)) (fieldList request),
              rh_popular = []\<rparr>,
            map (\<lambda>s. entry_meaning (br_make_address env) ?G s (fieldList request)) ss)"
    using entries assms(15) unfolding client_view_def crypt
    by (simp add: ctor dec hdr comp_def del: read_entries.simps)
  with run show ?thesis by blast
qed

text \<open>
  C4. End to end: a client that knows the secret key of the game and sends a server-list request
  reads the answer back from the bytes on the wire: it finds the server's challenge in the clear header,
  derives the same key, decrypts the stream, whatever buffers it came in, and reads its own address, the
  fields with their types, and exactly the servers that the query returned, each with its address
  and its values, up to the terminator.
\<close>

theorem server_list_end_to_end:
  assumes "sb_parse payload = Inr request"
    and "HasGame (br_games m) (toGame request)" and "GetGame (br_games m) (toGame request) = Inr g"
    and "m_Cypher m = None" and "br_sent m = []"
    and "\<not> has_option (sb_options request) no_server_list" and "\<not> has_option (sb_options request) send_groups"
    and "gd_queryPort (m_Data (as_game g)) \<noteq> 0xFFFF"
    and "\<And>bs. br_send env bs = Inr ()"
    and "length (sb_challenge request) = 8" and "length (br_cryptKey env) = 8" and "length (br_serverChallenge env) = 25"
    and "gdb.call (toGame request) (game_GetServers (br_api env) (serverFilter request)
        (fieldList request) (list_limit request) 0) (br_games m) = (Inr (Some ss), db')"
    and "list_all (\<lambda>s. \<exists>bs. GetServerBytes (br_make_address env) (as_game g) s (fieldList request) True = Inr bs) ss"
    and "m_PopularValues (as_game g) = []"
    and "length (fieldList request) < 256" and "list_all (\<lambda>f. NUL \<notin> set f) (fieldList request)"
    and "\<And>s. s \<in> set ss \<Longrightarrow> (sv_data s \<noteq> [] \<or> fieldList request = []) \<and>
      list_all (\<lambda>k. NUL \<notin> set (stored_value (sv_data s) k)) (fieldList request) \<and> NUL \<notin> set (rules s)"
  shows "\<exists>m'. HandleServerListRequest env payload m = (Inr (), m') \<and>
    client_view (gd_secretKey (m_Data (as_game g))) (sb_challenge request) (Suc (length ss)) (concat (br_sent m')) =
      Some (\<lparr>rh_ip = br_peer env, rh_port = gd_queryPort (m_Data (as_game g)),
              rh_fields = map (\<lambda>f. (send_code (GetParamSendType (as_game g) f), f)) (fieldList request),
              rh_popular = []\<rparr>,
            map (\<lambda>s. entry_meaning (br_make_address env) (as_game g) s (fieldList request)) ss)"
  by (rule list_request_read) (fact assms)+

definition sample_br_env :: "(string, unit) br_env" where
  "sample_br_env = \<lparr>br_api = quiet_sqlite, br_make_address = (\<lambda>_. Inr 0x0A000001), br_peer = 0x7F000001,
     br_send = (\<lambda>_. Inr ()), br_cryptKey = ''ABCDEFGH'', br_serverChallenge = ''abcdefghjklmnopqrstuvwxyz'',
     br_junk = (\<lambda>_. 0)\<rparr>"

definition sample_browser :: "string browser" where
  "sample_browser = \<lparr>br_games = \<lparr>m_Config = [], m_Games = [(''gmtest'', Base_game gmtest_game)]\<rparr>,
     m_Cypher = None, m_Game = None, m_KeyList = [], br_subscribed = False, m_SignalChannel = [],
     br_sent = [], br_open = True\<rparr>"

lemma sample_query:
  "fst (gdb.call ''gmtest'' (game_GetServers quiet_sqlite '''' [''hostname'', ''numplayers''] 500 0)
     (br_games sample_browser)) = Inr (Some [])"
proof -
  have "length (dec 500) \<le> 3" by (rule length_dec) simp_all
  then have len: "\<not> length (select_sql '''' [''hostname'', ''numplayers''] 500 0) > int_max"
    by (simp add: select_sql_def int_max_def)
  have quiet: "c_prepare quiet_sqlite = (\<lambda>_ d. (0, ()))" "c_set_authorizer quiet_sqlite = (\<lambda>_ d. (0, d))"
    "c_step quiet_sqlite = (\<lambda>s d. (101, s, d))"
    by (simp_all add: quiet_sqlite_def)
  have rows: "fetch_rows quiet_sqlite names n st d = (Inr (Some []), d)" if "0 < n" for names n st d
    using that by (cases n) (simp_all add: stmt_query_def quiet bind_io_def ret_def)
  show ?thesis
    using len
    by (simp add: gdb.call_def sample_browser_def GetGame_def game_GetServers_def on_game_def zoom_def
        GetServers_def on_db_def scoped_authorizer_def then_io_def bind_io_def set_authorizer_def
        stmt_prepare_def quiet rows)
qed

theorem server_list_end_to_end_witness:
  "\<exists>m'. HandleServerListRequest sample_br_env (sb_wire sample_request) sample_browser = (Inr (), m') \<and>
     client_view ''HA6zkS'' [1, 2, 3, 4, 5, 6, 7, 8] 1 (concat (br_sent m')) =
       Some (\<lparr>rh_ip = 0x7F000001, rh_port = 6500, rh_fields = [(0, ''hostname''), (0, ''numplayers'')],
         rh_popular = []\<rparr>, [])"
proof -
  have parse: "sb_parse (sb_wire sample_request) = Inr sample_request"
    by (rule sb_parse_wire) (rule sample_request_ok)
  obtain db' where q: "gdb.call ''gmtest'' (game_GetServers quiet_sqlite '''' [''hostname'', ''numplayers''] 500 0)
     (br_games sample_browser) = (Inr (Some []), db')"
    using sample_query by (metis prod.collapse)
  have t: "GetParamSendType gmtest_game f = as_string" for f
    by (simp add: GetParamSendType_def param_key_def gmtest_game_def)
  have "\<exists>m'. HandleServerListRequest sample_br_env (sb_wire sample_request) sample_browser = (Inr (), m') \<and>
    client_view (gd_secretKey (m_Data (as_game (Base_game gmtest_game)))) (sb_challenge sample_request) (Suc (length ([] :: server_data list))) (concat (br_sent m')) =
      Some (\<lparr>rh_ip = br_peer sample_br_env, rh_port = gd_queryPort (m_Data (as_game (Base_game gmtest_game))),
              rh_fields = map (\<lambda>f. (send_code (GetParamSendType (as_game (Base_game gmtest_game)) f), f)) (fieldList sample_request),
              rh_popular = []\<rparr>,
            map (\<lambda>s. entry_meaning (br_make_address sample_br_env) (as_game (Base_game gmtest_game)) s (fieldList sample_request)) [])"
    by (rule server_list_end_to_end [OF parse, where db' = db'])
      (use q in \<open>simp_all add: sample_request_def sample_browser_def HasGame_def GetGame_def smap_contains_def
        no_server_list_def send_groups_def has_option_def sample_br_env_def gmtest_game_def gmtest_data_def list_limit_def\<close>)
  moreover have "gd_secretKey (m_Data gmtest_game) = ''HA6zkS''" "gd_queryPort (m_Data gmtest_game) = 6500"
    "br_peer sample_br_env = 0x7F000001" "sb_challenge sample_request = [1, 2, 3, 4, 5, 6, 7, 8]"
    "fieldList sample_request = [''hostname'', ''numplayers'']"
    by (simp_all add: gmtest_game_def gmtest_data_def sample_br_env_def sample_request_def)
  ultimately show ?thesis by (simp add: t send_code_def)
qed

text \<open>
  One server spoils the list for every client: when a server of the query has, in a requested
  field that is sent as a byte, a value that is not a number below 256, the answer stops there: the
  client gets the header and the servers before it, then the request ends with an exception, and the
  servers after it and the terminator are never sent.
\<close>

theorem bad_value_cuts_the_list:
  assumes "sb_parse payload = Inr request"
    and "HasGame (br_games m) (toGame request)" and "GetGame (br_games m) (toGame request) = Inr g"
    and "m_Cypher m = None" and "br_sent m = []"
    and "\<not> has_option (sb_options request) no_server_list" and "\<not> has_option (sb_options request) send_groups"
    and "gd_queryPort (m_Data (as_game g)) \<noteq> 0xFFFF"
    and "\<And>bs. br_send env bs = Inr ()" and "length (sb_challenge request) = 8"
    and "gdb.call (toGame request) (game_GetServers (br_api env) (serverFilter request)
        (fieldList request) (list_limit request) 0) (br_games m) = (Inr (Some (good @ bad # others)), db')"
    and "list_all (\<lambda>s. \<exists>bs. GetServerBytes (br_make_address env) (as_game g) s (fieldList request) True = Inr bs) good"
    and "k \<in> set (fieldList request)" and "GetParamSendType (as_game g) k = as_byte"
    and "stored_value (sv_data bad) k \<noteq> []"
    and "\<not> (list_all is_digit (stored_value (sv_data bad) k) \<and> digits_val (stored_value (sv_data bad) k) < 256)"
  shows "\<exists>e m' c. HandleServerListRequest env payload m = (Inl e, m') \<and>
    sapphire_ctor (\<lambda>_. 0) (derive_key (gd_secretKey (m_Data (as_game g))) (br_serverChallenge env) (sb_challenge request)) = Inr c \<and>
    concat (br_sent m') =
      crypt_header (gd_backend (m_Data (as_game g))) (br_cryptKey env) (br_serverChallenge env) @
      fst (encrypt_range (GetResponseHeaderBytes request (as_game g) (br_peer env) @
        concat (map (entry_bytes env (as_game g) (fieldList request)) good)) c)"
proof -
  let ?hdr = "GetResponseHeaderBytes request (as_game g) (br_peer env)"
  obtain m3 c where run: "HandleServerListRequest env payload m =
      then_io (for_each (good @ bad # others) (send_server env (as_game g) (fieldList request)))
        (then_io (Send env list_terminator)
          (if has_option (sb_options request) push_updates
           then modify (\<lambda>m. m\<lparr>m_KeyList := m_KeyList m @ fieldList request, br_subscribed := True\<rparr>)
           else ret ())) m3"
    and ctor: "sapphire_ctor (\<lambda>_. 0) (derive_key (gd_secretKey (m_Data (as_game g))) (br_serverChallenge env) (sb_challenge request)) = Inr c"
    and m3: "m_Cypher m3 = Some (snd (encrypt_range ?hdr c))"
      "concat (br_sent m3) = crypt_header (gd_backend (m_Data (as_game g))) (br_cryptKey env) (br_serverChallenge env) @
        fst (encrypt_range ?hdr c)"
    using list_request_start [OF assms(1-11)] by blast
  have "m_Cypher m3 \<noteq> None" using m3(1) by simp
  then obtain m4 where m4: "for_each good (send_server env (as_game g) (fieldList request)) m3 = (Inr (), m4)"
    "sends m3 (concat (map (entry_bytes env (as_game g) (fieldList request)) good)) m4"
    using send_servers_sends [OF assms(9) _ assms(12)] by blast
  obtain e where "GetServerBytes (br_make_address env) (as_game g) bad (fieldList request) True = Inl e"
    using bad_byte_throws [OF assms(13-16)] by blast
  then have "send_server env (as_game g) (fieldList request) bad m4 = (Inl e, m4)"
    by (simp add: send_server_def bind_io_def lift_exn_def)
  from for_each_throws [OF m4(1) this] have "HandleServerListRequest env payload m = (Inl e, m4)"
    unfolding run by (simp add: then_io_def bind_io_def)
  moreover have "concat (br_sent m4) =
      crypt_header (gd_backend (m_Data (as_game g))) (br_cryptKey env) (br_serverChallenge env) @
      fst (encrypt_range (?hdr @ concat (map (entry_bytes env (as_game g) (fieldList request)) good)) c)"
    using m3 m4(2) by (auto simp: sends_def encrypt_range_append)
  ultimately show ?thesis using ctor by blast
qed

text \<open>A library that answers every query with one row of the text \<open>x\<close>, for the witness.\<close>

definition one_row_sqlite :: "(string, nat) sqlite3" where
  "one_row_sqlite = \<lparr>c_exec = (\<lambda>sql d. (0, d)), c_set_authorizer = (\<lambda>_ d. (0, d)),
     c_errmsg = (\<lambda>_. ''''), c_last_insert_rowid = (\<lambda>_. 0), c_prepare = (\<lambda>_ d. (0, 0)),
     c_bind_text = (\<lambda>_ _ s. (0, s)), c_bind_int = (\<lambda>_ _ s. (0, s)),
     c_step = (\<lambda>s d. if s = 0 then (100, 1, d) else (101, s, d)),
     c_reset = (\<lambda>s. (0, s)), c_column_text = (\<lambda>_ _. Some ''x''), c_column_int64 = (\<lambda>_ _. 0)\<rparr>"

definition byte_game :: "string game" where
  "byte_game = \<lparr>m_DB = '''', m_Data = gmtest_data\<lparr>gd_keys := [(default_key ''hostname'')\<lparr>key_send := as_byte\<rparr>]\<rparr>,
     m_Params = [(''hostname'', 0)], m_PopularValues = [], fired = []\<rparr>"

definition byte_browser :: "string browser" where
  "byte_browser = sample_browser\<lparr>br_games := \<lparr>m_Config = [], m_Games = [(''gmtest'', Base_game byte_game)]\<rparr>\<rparr>"

lemma one_row_query:
  "fst (gdb.call ''gmtest'' (game_GetServers one_row_sqlite '''' [''hostname'', ''numplayers''] 500 0)
     (br_games byte_browser)) = Inr (Some [saved_server one_row_sqlite [''hostname'', ''numplayers''] 1])"
proof -
  have "length (dec 500) \<le> 3" by (rule length_dec) simp_all
  then have len: "\<not> length (select_sql '''' [''hostname'', ''numplayers''] 500 0) > int_max"
    by (simp add: select_sql_def int_max_def)
  have one: "c_prepare one_row_sqlite = (\<lambda>_ d. (0, 0))" "c_set_authorizer one_row_sqlite = (\<lambda>_ d. (0, d))"
    "c_step one_row_sqlite = (\<lambda>s d. if s = 0 then (100, 1, d) else (101, s, d))"
    by (simp_all add: one_row_sqlite_def)
  have rows: "fetch_rows one_row_sqlite names (500 + 1) 0 d = (Inr (Some (map (saved_server one_row_sqlite names) [1])), d)"
    for names d
    by (rule fetch_rows_delivers) (simp_all add: one)
  have b: "br_games byte_browser = \<lparr>m_Config = [], m_Games = [(''gmtest'', Base_game byte_game)]\<rparr>"
    by (simp add: byte_browser_def)
  show ?thesis
    using len rows [of "[''hostname'', ''numplayers'']" "m_DB byte_game"]
    by (simp add: gdb.call_def b GetGame_def game_GetServers_def on_game_def zoom_def
        GetServers_def on_db_def scoped_authorizer_def then_io_def bind_io_def set_authorizer_def
        stmt_prepare_def one)
qed


definition one_row_env :: "(string, nat) br_env" where
  "one_row_env = \<lparr>br_api = one_row_sqlite, br_make_address = (\<lambda>_. Inr 0x0A000001), br_peer = 0x7F000001,
     br_send = (\<lambda>_. Inr ()), br_cryptKey = ''ABCDEFGH'', br_serverChallenge = ''abcdefghjklmnopqrstuvwxyz'',
     br_junk = (\<lambda>_. 0)\<rparr>"

theorem bad_value_cuts_the_list_witness:
  "\<exists>e m'. HandleServerListRequest one_row_env (sb_wire sample_request) byte_browser = (Inl e, m')"
proof -
  let ?bad = "saved_server one_row_sqlite [''hostname'', ''numplayers''] 1"
  have parse: "sb_parse (sb_wire sample_request) = Inr sample_request"
    by (rule sb_parse_wire) (rule sample_request_ok)
  have req: "toGame sample_request = ''gmtest''" "serverFilter sample_request = ''''" "sb_options sample_request = 0"
    "fieldList sample_request = [''hostname'', ''numplayers'']" "length (sb_challenge sample_request) = 8"
    "list_limit sample_request = 500"
    by (simp_all add: sample_request_def list_limit_def)
  obtain db' where q: "gdb.call ''gmtest'' (game_GetServers one_row_sqlite '''' [''hostname'', ''numplayers''] 500 0)
     (br_games byte_browser) = (Inr (Some [?bad]), db')"
    using one_row_query by (metis prod.collapse)
  have b: "HasGame (br_games byte_browser) ''gmtest''" "GetGame (br_games byte_browser) ''gmtest'' = Inr (Base_game byte_game)"
    "m_Cypher byte_browser = None" "br_sent byte_browser = []"
    by (simp_all add: byte_browser_def sample_browser_def HasGame_def GetGame_def smap_contains_def)
  have port: "gd_queryPort (m_Data byte_game) \<noteq> 0xFFFF"
    by (simp add: byte_game_def gmtest_data_def)
  have byte: "GetParamSendType byte_game ''hostname'' = as_byte"
    by (simp add: GetParamSendType_def param_key_def byte_game_def)
  have v: "stored_value (sv_data ?bad) ''hostname'' = ''x''"
    by (simp add: stored_value_def saved_server_def column_text_def one_row_sqlite_def)
  have x: "\<not> (list_all is_digit ''x'' \<and> digits_val ''x'' < 256)" by (simp add: is_digit_def)
  have o: "\<not> has_option 0 no_server_list" "\<not> has_option 0 send_groups"
    by (simp_all add: has_option_def)
  have env: "br_api one_row_env = one_row_sqlite" "br_send one_row_env bs = Inr ()" for bs
    by (simp_all add: one_row_env_def)
  show ?thesis
    using bad_value_cuts_the_list [of "sb_wire sample_request" sample_request byte_browser "Base_game byte_game" one_row_env
        "[]" ?bad "[]" db' "''hostname''"] parse req q b port byte v x o env
    by simp blast
qed



end
