(* ===== verification/Sqlite_Answers.thy ===== *)
theory Sqlite_Answers
  imports Sqlite_Wrapper
begin

text \<open>
  What SQLite documents of its prepared statements, for the locales that say what the statements of the emulator mean
  (\<open>sqlite_players\<close>, \<open>sqlite_servers\<close>): the values of the columns of a row, the steps of a statement, and what the
  wrapper's operations make of them.
\<close>

text \<open>A value of a column; \<open>Sql_uint\<close> is an unsigned integer of MySQL.\<close>

datatype sql_value = Sql_text string | Sql_int int | Sql_uint nat | Sql_null

text \<open>
  What SQLite documents of a prepared statement: it yields rows with the columns of the result, in
  any order, and is then done; at any step it may report an error instead, and then the table is
  as it was before the statement.  The text of a column ends at its first NUL for a C reader.
\<close>

definition c_string :: "string \<Rightarrow> string" where
  "c_string s = takeWhile (\<lambda>c. c \<noteq> NUL) s"

definition column_holds :: "('d, 's) sqlite3 \<Rightarrow> 's \<Rightarrow> nat \<Rightarrow> sql_value \<Rightarrow> bool" where
  "column_holds api st i v = (case v of
     Sql_text s \<Rightarrow> c_column_text api i st = Some (c_string s)
   | Sql_int n \<Rightarrow> c_column_int64 api i st = n
   | Sql_uint n \<Rightarrow> c_column_int64 api i st = int n
   | Sql_null \<Rightarrow> c_column_text api i st = None)"

definition row_holds :: "('d, 's) sqlite3 \<Rightarrow> 's \<Rightarrow> sql_value list \<Rightarrow> bool" where
  "row_holds api st vs = list_all (\<lambda>(i, v). column_holds api st i v) (enumerate 0 vs)"

definition step_fails :: "('d, 's) sqlite3 \<Rightarrow> ('d \<Rightarrow> 't) \<Rightarrow> 's \<Rightarrow> 'd \<Rightarrow> bool" where
  "step_fails api table st d =
     (case c_step api st d of (ec, _, d') \<Rightarrow> ec \<noteq> SQLITE_ROW \<and> ec \<noteq> SQLITE_DONE \<and> table d' = table d)"

fun serves :: "('d, 's) sqlite3 \<Rightarrow> ('d \<Rightarrow> 't) \<Rightarrow> sql_value list list \<Rightarrow> 's \<Rightarrow> 'd \<Rightarrow> 't \<Rightarrow> bool" where
  "serves api table [] st d t' \<longleftrightarrow> step_fails api table st d \<or>
     (case c_step api st d of (ec, _, d') \<Rightarrow> ec = SQLITE_DONE \<and> table d' = t')"
| "serves api table (row # rows) st d t' \<longleftrightarrow> step_fails api table st d \<or>
     (case c_step api st d of (ec, st', d') \<Rightarrow> ec = SQLITE_ROW \<and> table d' = t' \<and>
        row_holds api st' row \<and> serves api table rows st' d' t')"

lemma stmt_make_state: "snd (stmt_make api sql args d) = d"
  by (auto simp: stmt_make_def stmt_prepare_def bind_io_def lift_exn_def split: prod.splits sum.splits)

lemma stmt_make_Inl: "stmt_make api sql args d = (r, d') \<Longrightarrow> d' = d"
  using stmt_make_state [of api sql args d] by simp

lemma bind_all_returns: "bind_all api i args st = Inl e \<Longrightarrow> e \<noteq> No_return"
  by (induction api i args st rule: bind_all.induct)
    (auto simp: and_then_def bind_at_def split: sum.splits if_splits sql_arg.splits prod.splits)

lemma make_returns: "stmt_make api sql args d = (Inl e, d') \<Longrightarrow> e \<noteq> No_return"
  by (auto simp: stmt_make_def stmt_prepare_def bind_io_def lift_exn_def split: prod.splits sum.splits if_splits
      dest: bind_all_returns)

lemma query_fails: "step_fails api table st d \<Longrightarrow> \<exists>d'. stmt_query api st d = (Inl Undefined_behaviour, d') \<and> table d' = table d"
  by (auto simp: step_fails_def stmt_query_def split: prod.splits)

lemma row_holds_Cons:
  "row_holds api st [] \<longleftrightarrow> True"
  "row_holds api st [a] \<longleftrightarrow> column_holds api st 0 a"
  "row_holds api st [a, b, c] \<longleftrightarrow> column_holds api st 0 a \<and> column_holds api st 1 b \<and> column_holds api st 2 c"
  "row_holds api st [a, b, c, d] \<longleftrightarrow> column_holds api st 0 a \<and> column_holds api st 1 b \<and>
     column_holds api st 2 c \<and> column_holds api st 3 d"
  by (simp_all add: row_holds_def numeral_eq_Suc)

section \<open>Executable statements\<close>

text \<open>
  The statements of the executable libraries: the text, the values bound so far in their order, and the rows that remain once the
  statement has been stepped.
\<close>

datatype table_stmt = Table_stmt string "sql_arg list" "sql_value list list option"

fun table_bind :: "nat \<Rightarrow> sql_arg \<Rightarrow> table_stmt \<Rightarrow> nat \<times> table_stmt" where
  "table_bind pos arg (Table_stmt sql args rows) =
     (if pos = length args + 1 then (0, Table_stmt sql (args @ [arg]) rows) else (25, Table_stmt sql args rows))"

fun table_column :: "nat \<Rightarrow> table_stmt \<Rightarrow> sql_value" where
  "table_column i (Table_stmt sql args (Some (row # rows))) = (if i < length row then row ! i else Sql_null)"
| "table_column i st = Sql_null"

definition table_statements :: "('d, table_stmt) sqlite3 \<Rightarrow> bool" where
  "table_statements api \<longleftrightarrow> c_bind_text api = (\<lambda>pos s. table_bind pos (Bind_text s)) \<and>
     c_bind_int api = (\<lambda>pos n. table_bind pos (Bind_int n)) \<and>
     c_column_text api = (\<lambda>i st. case table_column i st of Sql_text s \<Rightarrow> Some (c_string s) | _ \<Rightarrow> None) \<and>
     c_column_int64 api = (\<lambda>i st. case table_column i st of Sql_int n \<Rightarrow> n | Sql_uint n \<Rightarrow> int n | _ \<Rightarrow> 0)"

lemma table_statements_bind:
  assumes "table_statements api"
  shows "bind_all api (length acc) args (Table_stmt sql acc None) = Inr st \<Longrightarrow> st = Table_stmt sql (acc @ args) None"
proof (induction args arbitrary: acc)
  case (Cons arg args)
  have "bind_at api (length acc + 1) arg (Table_stmt sql acc None) = Inr st' \<Longrightarrow>
      st' = Table_stmt sql (acc @ [arg]) None" for st'
    using assms by (auto simp: bind_at_def table_statements_def split: if_splits sql_arg.splits)
  with Cons.prems Cons.IH [of "acc @ [arg]"] show ?case by (auto simp: and_then_eq_Inr)
qed simp

lemma table_statements_make:
  assumes "table_statements api" and "stmt_make api sql args d = (Inr st, d')"
    and "snd (c_prepare api sql d) = Table_stmt sql [] None"
  shows "st = Table_stmt sql args None"
  using table_statements_bind [OF assms(1), of "[]" args sql st] assms(2,3)
  by (auto simp: stmt_make_def bind_io_Inr stmt_prepare_def lift_exn_def split: if_splits prod.splits)

lemma table_statements_row:
  assumes "table_statements api"
  shows "row_holds api (Table_stmt sql args (Some (row # rows))) row"
  using assms by (auto simp: row_holds_def list_all_iff in_set_enumerate_eq column_holds_def table_statements_def
      split: sql_value.splits)

end
