(* ===== verification/Player_Db.thy ===== *)
theory Player_Db
  imports Sqlite_Answers Text_Format "HOL-Library.Multiset"
begin

text \<open>
  The player database: the abstract class \<open>PlayerDB\<close> (\<open>emulator/playerdb.h\<close>, \<open>playerdb.cpp\<close>) as
  the record \<open>player_db\<close> of its virtual operations, and its two implementations over SQLite
  (\<open>playerdb.sqlite.cpp\<close>) and MySQL (\<open>playerdb.mysql.cpp\<close>).  The two libraries are
  parameters.  What a statement of the source means is \<open>player_sql\<close>, a function on the table of
  players; the locales \<open>sqlite_players\<close> and \<open>mysql_players\<close> say that a library answers the
  statements by their meaning or reports an error.  Shown: both classes then keep the contract
  \<open>player_directory\<close> that the login, search and statistics servers rely on.
\<close>

section \<open>\<open>PlayerData\<close>\<close>

record player_data =
  pl_id :: u64
  pl_name :: string
  pl_email :: string
  pl_password :: string
  pl_country :: string
  pl_session :: u16

definition PlayerData :: "string \<Rightarrow> string \<Rightarrow> string \<Rightarrow> string \<Rightarrow> player_data" where
  "PlayerData name email password country =
     \<lparr>pl_id = 0, pl_name = name, pl_email = email, pl_password = password, pl_country = country,
      pl_session = 0\<rparr>"

definition PlayerData_of :: "u64 \<Rightarrow> string \<Rightarrow> string \<Rightarrow> string \<Rightarrow> string \<Rightarrow> player_data" where
  "PlayerData_of i name email password country =
     \<lparr>pl_id = i, pl_name = name, pl_email = email, pl_password = password, pl_country = country,
      pl_session = 0\<rparr>"

definition GetUserID :: "player_data \<Rightarrow> u64" where
  "GetUserID p = pl_id p"

definition GetProfileID :: "player_data \<Rightarrow> u64" where
  "GetProfileID p = pl_id p"

section \<open>The abstract class\<close>

text \<open>
  The virtual operations on an object \<open>'p\<close>.  \<open>CreatePlayer\<close> changes the player it is given, so the
  model returns it.  \<open>GetPlayerByMailAndPassword\<close> reads rows until there are no more: \<open>No_return\<close> when
  that never happens.
\<close>

record 'p player_db =
  pdb_Connect :: "('p, unit) io"
  pdb_Disconnect :: "('p, unit) io"
  HasPlayer :: "string \<Rightarrow> ('p, bool) io"
  GetPlayerByName :: "string \<Rightarrow> ('p, player_data option) io"
  GetPlayerByPID :: "u64 \<Rightarrow> ('p, player_data option) io"
  GetPlayerByMailAndPassword :: "string \<Rightarrow> string \<Rightarrow> ('p, player_data list) io"
  CreatePlayer :: "player_data \<Rightarrow> ('p, player_data) io"
  UpdatePlayer :: "player_data \<Rightarrow> ('p, unit) io"

section \<open>The statements of the source\<close>

definition sql_has :: string where
  "sql_has = ''SELECT COUNT(*) FROM player WHERE name=?''"

definition sql_by_name :: string where
  "sql_by_name = ''SELECT id, email, password, country FROM player WHERE name=?''"

definition sql_by_pid :: string where
  "sql_by_pid = ''SELECT name, email, password, country FROM player WHERE id=?''"

definition sql_by_mail :: string where
  "sql_by_mail = ''SELECT id, name, country FROM player WHERE email=? AND password=?''"

definition sql_insert :: string where
  "sql_insert = ''INSERT INTO player (name, password, email, country, rank_id) VALUES (?, ?, ?, ?, 0)''"

definition sql_insert_returning :: string where
  "sql_insert_returning = sql_insert @ '' RETURNING id''"

definition sql_update :: string where
  "sql_update = ''UPDATE player SET password=?, email=?, country=? WHERE name=?''"

section \<open>\<open>PlayerDBSQLite\<close>\<close>

definition create_player_sql :: string where
  "create_player_sql =
     NL @ TAB 4 @ ''BEGIN TRANSACTION;'' @
     NL @ TAB 4 @ ''PRAGMA user_version = 1;'' @
     NL @ TAB 4 @ ''CREATE TABLE `player` ('' @
     NL @ TAB 5 @ ''`id` INTEGER PRIMARY KEY AUTOINCREMENT,'' @
     NL @ TAB 5 @ ''`name` VARCHAR(32) UNIQUE NOT NULL,'' @
     NL @ TAB 5 @ ''`password` VARCHAR(32) NOT NULL,'' @
     NL @ TAB 5 @ ''`email` VARCHAR(64) DEFAULT NULL,'' @
     NL @ TAB 5 @ ''`country` CHAR(2) NOT NULL DEFAULT '' @ [CHR 0x27] @ ''xx'' @ [CHR 0x27] @ '','' @
     NL @ TAB 5 @ ''`lastip` VARCHAR(15) NOT NULL DEFAULT '' @ [CHR 0x27] @ ''0.0.0.0'' @ [CHR 0x27] @ '','' @
     NL @ TAB 5 @ ''`joined` INT UNSIGNED NOT NULL DEFAULT (datetime('' @ [CHR 0x27] @ ''now'' @ [CHR 0x27] @ '','' @
       [CHR 0x27] @ ''localtime'' @ [CHR 0x27] @ '')),'' @
     NL @ TAB 5 @ ''`lastonline` INT UNSIGNED NOT NULL DEFAULT 0,'' @
     NL @ TAB 5 @ ''`rank_id` TINYINT UNSIGNED NOT NULL, -- added for compatibility with bf2stats'' @
     NL @ TAB 5 @ ''`permban` BOOLEAN NOT NULL DEFAULT 0,'' @
     NL @ TAB 5 @ ''`bantime` INT UNSIGNED NOT NULL DEFAULT 0,'' @
     NL @ TAB 5 @ ''`online` BOOLEAN NOT NULL DEFAULT 0'' @
     NL @ TAB 4 @ '');'' @
     NL @ TAB 4 @ ''UPDATE sqlite_sequence SET seq=2900000 WHERE name='' @ [CHR 0x27] @ ''player'' @ [CHR 0x27] @ '';'' @
     NL @ TAB 4 @ ''INSERT INTO sqlite_sequence (name, seq) SELECT '' @ [CHR 0x27] @ ''player'' @ [CHR 0x27] @
       '', 2900000 WHERE NOT EXISTS (SELECT changes() AS change FROM sqlite_sequence WHERE change <> 0);'' @
     NL @ TAB 4 @ ''END TRANSACTION;'' @
     NL @ TAB 3"

text \<open>The constructor, on the database it has opened.\<close>

definition sqlite_ctor :: "('d, 's) sqlite3 \<Rightarrow> ('d, unit) io" where
  "sqlite_ctor api =
     bind_io (stmt_make api ''PRAGMA user_version'' []) (\<lambda>st.
     bind_io (stmt_query api st) (\<lambda>(row, st).
     if row then
       (if column_u32 api st 0 < 1 then db_exec api create_player_sql else ret ())
     else throw (Runtime_error ''unable to detect sqlite database version'')))"

definition sqlite_HasPlayer :: "('d, 's) sqlite3 \<Rightarrow> string \<Rightarrow> ('d, bool) io" where
  "sqlite_HasPlayer api name =
     bind_io (stmt_make api sql_has [Bind_text name]) (\<lambda>st.
     bind_io (stmt_query api st) (\<lambda>(row, st).
     ret ((if row then column_u64 api st 0 else 0) > 0)))"

definition sqlite_GetPlayerByName :: "('d, 's) sqlite3 \<Rightarrow> string \<Rightarrow> ('d, player_data option) io" where
  "sqlite_GetPlayerByName api name =
     (if length name > int_max then throw (Overflow_error ''name too long'')
      else
        bind_io (stmt_make api sql_by_name [Bind_text name]) (\<lambda>st.
        bind_io (stmt_query api st) (\<lambda>(row, st).
        ret (if row
             then Some (PlayerData_of (column_u64 api st 0) name
               (column_text api st 1) (column_text api st 2) (column_text api st 3))
             else None))))"

text \<open>\<open>static_cast<std::int64_t>(pid)\<close>\<close>

definition sqlite_GetPlayerByPID :: "('d, 's) sqlite3 \<Rightarrow> u64 \<Rightarrow> ('d, player_data option) io" where
  "sqlite_GetPlayerByPID api pid =
     bind_io (stmt_make api sql_by_pid [Bind_int (sint pid)]) (\<lambda>st.
     bind_io (stmt_query api st) (\<lambda>(row, st).
     ret (if row
          then Some (PlayerData_of pid (column_text api st 0)
            (column_text api st 1) (column_text api st 2) (column_text api st 3))
          else None)))"

text \<open>\<open>while (stmt.query(data)) players.emplace_back(...)\<close>\<close>

partial_function (option) collect_players ::
  "('d, 's) sqlite3 \<Rightarrow> string \<Rightarrow> string \<Rightarrow> player_data list \<Rightarrow> 's \<Rightarrow> 'd \<Rightarrow>
   ((exn + player_data list) \<times> 'd) option"
where
  "collect_players api email password players st d =
     (case stmt_query api st d of
        (Inl e, d) \<Rightarrow> Some (Inl e, d)
      | (Inr (row, st), d) \<Rightarrow>
          if row then
            collect_players api email password
              (players @ [PlayerData_of (column_u64 api st 0) (column_text api st 1) email password
                 (column_text api st 2)]) st d
          else Some (Inr players, d))"

definition sqlite_GetPlayerByMailAndPassword ::
  "('d, 's) sqlite3 \<Rightarrow> string \<Rightarrow> string \<Rightarrow> ('d, player_data list) io"
where
  "sqlite_GetPlayerByMailAndPassword api email password =
     bind_io (stmt_make api sql_by_mail [Bind_text email, Bind_text password]) (\<lambda>st d.
       case collect_players api email password [] st d of
         None \<Rightarrow> (Inl No_return, d)
       | Some (r, d) \<Rightarrow> (r, d))"

definition sqlite_CreatePlayer :: "('d, 's) sqlite3 \<Rightarrow> player_data \<Rightarrow> ('d, player_data) io" where
  "sqlite_CreatePlayer api player =
     bind_io (stmt_make api sql_insert_returning
       [Bind_text (pl_name player), Bind_text (pl_password player), Bind_text (pl_email player),
        Bind_text (pl_country player)]) (\<lambda>st.
     bind_io (stmt_query api st) (\<lambda>(row, st).
     ret (if row then player\<lparr>pl_id := column_u64 api st 0\<rparr> else player)))"

definition sqlite_UpdatePlayer :: "('d, 's) sqlite3 \<Rightarrow> player_data \<Rightarrow> ('d, unit) io" where
  "sqlite_UpdatePlayer api player =
     bind_io (stmt_make api sql_update
       [Bind_text (pl_password player), Bind_text (pl_email player), Bind_text (pl_country player),
        Bind_text (pl_name player)]) (\<lambda>st.
     bind_io (stmt_update api st) (\<lambda>_. ret ()))"

definition PlayerDBSQLite :: "('d, 's) sqlite3 \<Rightarrow> 'd player_db" where
  "PlayerDBSQLite api =
     \<lparr>pdb_Connect = ret (), pdb_Disconnect = ret (),
      HasPlayer = sqlite_HasPlayer api,
      GetPlayerByName = sqlite_GetPlayerByName api,
      GetPlayerByPID = sqlite_GetPlayerByPID api,
      GetPlayerByMailAndPassword = sqlite_GetPlayerByMailAndPassword api,
      CreatePlayer = sqlite_CreatePlayer api,
      UpdatePlayer = sqlite_UpdatePlayer api\<rparr>"

section \<open>\<open>PlayerDBMySQL\<close>\<close>

text \<open>
  A field of a row, and what the client library makes of it: \<open>as_int64\<close>, \<open>as_uint64\<close> and
  \<open>as_string\<close> throw on a field of another kind.
\<close>

definition as_int64 :: "sql_value \<Rightarrow> exn + int" where
  "as_int64 v = (case v of Sql_int n \<Rightarrow> Inr n | _ \<Rightarrow> Inl (Runtime_error ''bad_field_access''))"

definition as_uint64 :: "sql_value \<Rightarrow> exn + u64" where
  "as_uint64 v = (case v of Sql_uint n \<Rightarrow> Inr (of_nat n) | _ \<Rightarrow> Inl (Runtime_error ''bad_field_access''))"

definition as_text_field :: "sql_value \<Rightarrow> exn + string" where
  "as_text_field v = (case v of Sql_text s \<Rightarrow> Inr s | _ \<Rightarrow> Inl (Runtime_error ''bad_field_access''))"

text \<open>\<open>row.at(i)\<close> throws when the row is too short; \<open>rows().front()\<close> of no rows is undefined.\<close>

definition field_at :: "sql_value list \<Rightarrow> nat \<Rightarrow> exn + sql_value" where
  "field_at row i = (if i < length row then Inr (row ! i) else Inl Out_of_range)"

definition front_row :: "sql_value list list \<Rightarrow> exn + sql_value list" where
  "front_row rows = (case rows of [] \<Rightarrow> Inl Undefined_behaviour | row # _ \<Rightarrow> Inr row)"

definition text_at :: "sql_value list \<Rightarrow> nat \<Rightarrow> exn + string" where
  "text_at row i = and_then (field_at row i) as_text_field"

definition uint_at :: "sql_value list \<Rightarrow> nat \<Rightarrow> exn + u64" where
  "uint_at row i = and_then (field_at row i) as_uint64"

text \<open>
  \<open>boost::mysql::results\<close>: the rows of the first resultset, the last insert id, and \<open>empty()\<close>, which
  the library defines as holding no resultset.
\<close>

record mysql_results =
  mr_rows :: "sql_value list list"
  mr_empty :: bool
  mr_last_insert_id :: u64

record ('m, 's) mysql =
  my_connect :: "('m, unit) io"
  my_close :: "('m, unit) io"
  my_prepare :: "string \<Rightarrow> ('m, 's) io"
  my_execute :: "'s \<Rightarrow> sql_arg list \<Rightarrow> ('m, mysql_results) io"

definition mysql_run :: "('m, 's) mysql \<Rightarrow> string \<Rightarrow> sql_arg list \<Rightarrow> ('m, mysql_results) io" where
  "mysql_run my sql args = bind_io (my_prepare my sql) (\<lambda>stmt. my_execute my stmt args)"

definition mysql_HasPlayer :: "('m, 's) mysql \<Rightarrow> string \<Rightarrow> ('m, bool) io" where
  "mysql_HasPlayer my name =
     bind_io (mysql_run my sql_has [Bind_text name]) (\<lambda>result.
     lift_exn (and_then (front_row (mr_rows result)) (\<lambda>row.
       and_then (field_at row 0) (\<lambda>v. and_then (as_int64 v) (\<lambda>n. Inr (n > 0))))))"

definition mysql_GetPlayerByName :: "('m, 's) mysql \<Rightarrow> string \<Rightarrow> ('m, player_data option) io" where
  "mysql_GetPlayerByName my name =
     bind_io (mysql_run my sql_by_name [Bind_text name]) (\<lambda>result.
     if \<not> mr_empty result then
       lift_exn (and_then (front_row (mr_rows result)) (\<lambda>row.
         and_then (uint_at row 0) (\<lambda>i. and_then (text_at row 1) (\<lambda>email.
         and_then (text_at row 2) (\<lambda>password. and_then (text_at row 3) (\<lambda>country.
           Inr (Some (PlayerData_of i name email password country))))))))
     else ret None)"

definition mysql_GetPlayerByPID :: "('m, 's) mysql \<Rightarrow> u64 \<Rightarrow> ('m, player_data option) io" where
  "mysql_GetPlayerByPID my pid =
     bind_io (mysql_run my sql_by_pid [Bind_int (uint pid)]) (\<lambda>result.
     if \<not> mr_empty result then
       lift_exn (and_then (front_row (mr_rows result)) (\<lambda>row.
         and_then (text_at row 0) (\<lambda>name. and_then (text_at row 1) (\<lambda>email.
         and_then (text_at row 2) (\<lambda>password. and_then (text_at row 3) (\<lambda>country.
           Inr (Some (PlayerData_of pid name email password country))))))))
     else ret None)"

fun mysql_players :: "string \<Rightarrow> string \<Rightarrow> sql_value list list \<Rightarrow> exn + player_data list" where
  "mysql_players email password [] = Inr []"
| "mysql_players email password (row # rows) =
     and_then (uint_at row 0) (\<lambda>i. and_then (text_at row 1) (\<lambda>name. and_then (text_at row 2) (\<lambda>country.
       and_then (mysql_players email password rows)
         (\<lambda>players. Inr (PlayerData_of i name email password country # players)))))"

definition mysql_GetPlayerByMailAndPassword ::
  "('m, 's) mysql \<Rightarrow> string \<Rightarrow> string \<Rightarrow> ('m, player_data list) io"
where
  "mysql_GetPlayerByMailAndPassword my email password =
     bind_io (mysql_run my sql_by_mail [Bind_text email, Bind_text password]) (\<lambda>result.
     lift_exn (mysql_players email password (mr_rows result)))"

definition mysql_CreatePlayer :: "('m, 's) mysql \<Rightarrow> player_data \<Rightarrow> ('m, player_data) io" where
  "mysql_CreatePlayer my player =
     bind_io (mysql_run my sql_insert
       [Bind_text (pl_name player), Bind_text (pl_password player), Bind_text (pl_email player),
        Bind_text (pl_country player)]) (\<lambda>result.
     ret (player\<lparr>pl_id := mr_last_insert_id result\<rparr>))"

definition mysql_UpdatePlayer :: "('m, 's) mysql \<Rightarrow> player_data \<Rightarrow> ('m, unit) io" where
  "mysql_UpdatePlayer my player =
     bind_io (mysql_run my sql_update
       [Bind_text (pl_password player), Bind_text (pl_email player), Bind_text (pl_country player),
        Bind_text (pl_name player)]) (\<lambda>_. ret ())"

definition PlayerDBMySQL :: "('m, 's) mysql \<Rightarrow> 'm player_db" where
  "PlayerDBMySQL my =
     \<lparr>pdb_Connect = my_connect my, pdb_Disconnect = my_close my,
      HasPlayer = mysql_HasPlayer my,
      GetPlayerByName = mysql_GetPlayerByName my,
      GetPlayerByPID = mysql_GetPlayerByPID my,
      GetPlayerByMailAndPassword = mysql_GetPlayerByMailAndPassword my,
      CreatePlayer = mysql_CreatePlayer my,
      UpdatePlayer = mysql_UpdatePlayer my\<rparr>"

section \<open>What the statements mean\<close>

text \<open>
  The table \<open>player\<close>, with the columns the source reads and writes, and the last id of
  \<open>AUTOINCREMENT\<close>.  Names are compared by \<open>same\<close>, the collation of the column: equality in SQLite.
\<close>

record player_row =
  row_id :: int
  row_name :: string
  row_password :: string
  row_email :: "string option"
  row_country :: string

record player_table =
  tbl_rows :: "player_row list"
  tbl_seq :: int

definition rows_named :: "(string \<Rightarrow> string \<Rightarrow> bool) \<Rightarrow> string \<Rightarrow> player_table \<Rightarrow> player_row list" where
  "rows_named same n t = filter (\<lambda>r. same (row_name r) n) (tbl_rows t)"

definition rows_mailed ::
  "(string \<Rightarrow> string \<Rightarrow> bool) \<Rightarrow> string \<Rightarrow> string \<Rightarrow> player_table \<Rightarrow> player_row list"
where
  "rows_mailed same e p t =
     filter (\<lambda>r. (case row_email r of None \<Rightarrow> False | Some m \<Rightarrow> same m e) \<and> same (row_password r) p) (tbl_rows t)"

text \<open>The name is \<open>UNIQUE\<close>; \<open>AUTOINCREMENT\<close> fails when the largest id was given.\<close>

definition insert_player ::
  "(string \<Rightarrow> string \<Rightarrow> bool) \<Rightarrow> string \<Rightarrow> string \<Rightarrow> string \<Rightarrow> string \<Rightarrow> player_table \<Rightarrow> player_table option"
where
  "insert_player same name password email country t =
     (if rows_named same name t \<noteq> [] \<or> tbl_seq t \<ge> 2 ^ 63 - 1 then None
      else Some \<lparr>tbl_rows = tbl_rows t @
          [\<lparr>row_id = tbl_seq t + 1, row_name = name, row_password = password,
            row_email = Some email, row_country = country\<rparr>],
        tbl_seq = tbl_seq t + 1\<rparr>)"

definition update_player ::
  "(string \<Rightarrow> string \<Rightarrow> bool) \<Rightarrow> string \<Rightarrow> string \<Rightarrow> string \<Rightarrow> string \<Rightarrow> player_table \<Rightarrow> player_table"
where
  "update_player same name password email country t =
     t\<lparr>tbl_rows := map (\<lambda>r. if same (row_name r) name
          then r\<lparr>row_password := password, row_email := Some email, row_country := country\<rparr> else r) (tbl_rows t)\<rparr>"

definition email_value :: "player_row \<Rightarrow> sql_value" where
  "email_value r = (case row_email r of None \<Rightarrow> Sql_null | Some e \<Rightarrow> Sql_text e)"

text \<open>
  A statement with its arguments gives rows and the new table, or an error (\<open>None\<close>); \<open>idv\<close> is how the
  library represents an id.
\<close>

definition player_sql ::
  "(int \<Rightarrow> sql_value) \<Rightarrow> (string \<Rightarrow> string \<Rightarrow> bool) \<Rightarrow> string \<Rightarrow> sql_arg list \<Rightarrow> player_table \<Rightarrow>
   (sql_value list list \<times> player_table) option"
where
  "player_sql idv same sql args t =
     (case args of
        [Bind_text n] \<Rightarrow>
          if sql = sql_has then Some ([[Sql_int (int (length (rows_named same n t)))]], t)
          else if sql = sql_by_name then
            Some (map (\<lambda>r. [idv (row_id r), email_value r, Sql_text (row_password r), Sql_text (row_country r)])
              (rows_named same n t), t)
          else None
      | [Bind_int i] \<Rightarrow>
          if sql = sql_by_pid then
            Some (map (\<lambda>r. [Sql_text (row_name r), email_value r, Sql_text (row_password r), Sql_text (row_country r)])
              (filter (\<lambda>r. row_id r = i) (tbl_rows t)), t)
          else None
      | [Bind_text e, Bind_text p] \<Rightarrow>
          if sql = sql_by_mail then
            Some (map (\<lambda>r. [idv (row_id r), Sql_text (row_name r), Sql_text (row_country r)])
              (rows_mailed same e p t), t)
          else None
      | [Bind_text a, Bind_text b, Bind_text c, Bind_text d] \<Rightarrow>
          if sql = sql_insert then map_option (\<lambda>t'. ([], t')) (insert_player same a b c d t)
          else if sql = sql_insert_returning then
            map_option (\<lambda>t'. ([[idv (tbl_seq t')]], t')) (insert_player same a b c d t)
          else if sql = sql_update then Some ([], update_player same d a b c t)
          else None
      | _ \<Rightarrow> None)"

lemma sql_texts_distinct [simp]:
  "sql_has \<noteq> sql_by_name" "sql_by_name \<noteq> sql_has"
  "sql_insert \<noteq> sql_insert_returning" "sql_insert_returning \<noteq> sql_insert"
  "sql_insert \<noteq> sql_update" "sql_update \<noteq> sql_insert"
  "sql_insert_returning \<noteq> sql_update" "sql_update \<noteq> sql_insert_returning"
  by (simp_all add: sql_has_def sql_by_name_def sql_insert_returning_def sql_insert_def sql_update_def)

lemma player_sql_simps:
  "player_sql idv same sql_has [Bind_text n] t = Some ([[Sql_int (int (length (rows_named same n t)))]], t)"
  "player_sql idv same sql_by_name [Bind_text n] t =
     Some (map (\<lambda>r. [idv (row_id r), email_value r, Sql_text (row_password r), Sql_text (row_country r)])
       (rows_named same n t), t)"
  "player_sql idv same sql_by_pid [Bind_int i] t =
     Some (map (\<lambda>r. [Sql_text (row_name r), email_value r, Sql_text (row_password r), Sql_text (row_country r)])
       (filter (\<lambda>r. row_id r = i) (tbl_rows t)), t)"
  "player_sql idv same sql_by_mail [Bind_text e, Bind_text p] t =
     Some (map (\<lambda>r. [idv (row_id r), Sql_text (row_name r), Sql_text (row_country r)]) (rows_mailed same e p t), t)"
  "player_sql idv same sql_insert [Bind_text a, Bind_text b, Bind_text c, Bind_text d] t =
     map_option (\<lambda>t'. ([], t')) (insert_player same a b c d t)"
  "player_sql idv same sql_insert_returning [Bind_text a, Bind_text b, Bind_text c, Bind_text d] t =
     map_option (\<lambda>t'. ([[idv (tbl_seq t')]], t')) (insert_player same a b c d t)"
  "player_sql idv same sql_update [Bind_text a, Bind_text b, Bind_text c, Bind_text d] t =
     Some ([], update_player same d a b c t)"
  by (simp_all add: player_sql_def)


section \<open>The contract\<close>

text \<open>
  A row as the player a lookup returns; \<open>str\<close> is what the library's reader makes of a stored text.
\<close>

definition row_player :: "(string \<Rightarrow> string) \<Rightarrow> player_row \<Rightarrow> player_data" where
  "row_player str r =
     PlayerData_of (of_int (row_id r)) (str (row_name r))
       (case row_email r of None \<Rightarrow> '''' | Some e \<Rightarrow> str e) (str (row_password r)) (str (row_country r))"

definition name_taken :: "(string \<Rightarrow> string \<Rightarrow> bool) \<Rightarrow> string \<Rightarrow> player_table \<Rightarrow> bool" where
  "name_taken same n t \<longleftrightarrow> (\<exists>r \<in> set (tbl_rows t). same (row_name r) n)"

text \<open>The names of a sound table are unique, and its ids are the numbers that were handed out.\<close>

definition sound_table :: "(string \<Rightarrow> string \<Rightarrow> bool) \<Rightarrow> player_table \<Rightarrow> bool" where
  "sound_table same t \<longleftrightarrow>
     pairwise (\<lambda>r s. \<not> same (row_name r) (row_name s)) (set (tbl_rows t)) \<and>
     distinct (map row_id (tbl_rows t)) \<and>
     (\<forall>r \<in> set (tbl_rows t). 0 < row_id r \<and> row_id r \<le> tbl_seq t) \<and>
     0 \<le> tbl_seq t \<and> tbl_seq t < 2 ^ 63"

text \<open>
  What the servers rely on, whichever class serves them: an operation that returns has read, or has
  changed, the table by the meaning of its statement, and one that throws has not changed it.
\<close>

locale player_directory =
  fixes db :: "'p player_db"
    and table :: "'p \<Rightarrow> player_table"
    and same :: "string \<Rightarrow> string \<Rightarrow> bool"
    and str :: "string \<Rightarrow> string"
  assumes same_equiv: "equivp same"
    and has: "HasPlayer db n p = (Inr b, p') \<Longrightarrow> table p' = table p \<and>
      (length (tbl_rows (table p)) < 2 ^ 63 \<longrightarrow> b = name_taken same n (table p))"
    and has_fails: "HasPlayer db n p = (Inl e, p') \<Longrightarrow> table p' = table p"
    and by_name: "GetPlayerByName db n p = (Inr found, p') \<Longrightarrow> table p' = table p \<and>
      (case found of
         None \<Rightarrow> \<not> name_taken same n (table p)
       | Some pl \<Rightarrow> \<exists>r \<in> set (tbl_rows (table p)). same (row_name r) n \<and> pl = (row_player str r)\<lparr>pl_name := n\<rparr>)"
    and by_name_fails: "GetPlayerByName db n p = (Inl e, p') \<Longrightarrow> table p' = table p"
    and by_pid: "GetPlayerByPID db i p = (Inr (Some pl), p') \<Longrightarrow> table p' = table p \<and>
      (\<exists>r \<in> set (tbl_rows (table p)). of_int (row_id r) = i \<and> pl = row_player str r)"
    and by_pid_none: "GetPlayerByPID db i p = (Inr None, p') \<Longrightarrow> table p' = table p \<and>
      (\<forall>r \<in> set (tbl_rows (table p)). 0 \<le> row_id r \<and> row_id r < 2 ^ 63 \<longrightarrow> of_int (row_id r) \<noteq> i)"
    and by_pid_fails: "GetPlayerByPID db i p = (Inl e, p') \<Longrightarrow> table p' = table p"
    and by_mail: "GetPlayerByMailAndPassword db m w p = (Inr pls, p') \<Longrightarrow> table p' = table p \<and>
      mset pls = mset (map (\<lambda>r. (row_player str r)\<lparr>pl_email := m, pl_password := w\<rparr>)
        (rows_mailed same m w (table p)))"
    and by_mail_fails: "GetPlayerByMailAndPassword db m w p = (Inl e, p') \<Longrightarrow> table p' = table p"
    and create: "CreatePlayer db pl p = (Inr pl', p') \<Longrightarrow>
      insert_player same (pl_name pl) (pl_password pl) (pl_email pl) (pl_country pl) (table p) = Some (table p') \<and>
      pl' = pl\<lparr>pl_id := of_int (tbl_seq (table p'))\<rparr>"
    and create_fails: "CreatePlayer db pl p = (Inl e, p') \<Longrightarrow> table p' = table p"
    and update: "UpdatePlayer db pl p = (Inr u, p') \<Longrightarrow>
      table p' = update_player same (pl_name pl) (pl_password pl) (pl_email pl) (pl_country pl) (table p)"
    and update_fails: "UpdatePlayer db pl p = (Inl e, p') \<Longrightarrow> table p' = table p"
begin

abbreviation sound :: "player_table \<Rightarrow> bool" where
  "sound \<equiv> sound_table same"

lemmas sound_def = sound_table_def

lemma insert_sound:
  assumes "sound t" "insert_player same n w m c t = Some t'"
  shows "sound t'"
proof -
  have fresh: "\<not> same (row_name r) n" if "r \<in> set (tbl_rows t)" for r
    using assms(2) that by (auto simp: insert_player_def rows_named_def filter_empty_conv split: if_splits)
  then have fresh': "\<not> same n (row_name r)" if "r \<in> set (tbl_rows t)" for r
    using that same_equiv by (meson equivp_symp)
  have ids: "row_id r \<le> tbl_seq t + 1" "tbl_seq t + 1 \<noteq> row_id r" if "r \<in> set (tbl_rows t)" for r
    using assms(1) that by (force simp: sound_def)+
  then have new: "tbl_seq t + 1 \<notin> row_id ` set (tbl_rows t)" by auto
  from assms(2) have t': "t' = \<lparr>tbl_rows = tbl_rows t @ [\<lparr>row_id = tbl_seq t + 1, row_name = n,
      row_password = w, row_email = Some m, row_country = c\<rparr>], tbl_seq = tbl_seq t + 1\<rparr>"
    and "tbl_seq t < 2 ^ 63 - 1"
    by (auto simp: insert_player_def split: if_splits)
  with assms(1) fresh fresh' ids(1) new show ?thesis
    unfolding t' sound_def by (simp add: pairwise_insert)
qed

lemma update_sound:
  assumes "sound t"
  shows "sound (update_player same n w m c t)"
proof -
  define u :: "player_row \<Rightarrow> player_row" where "u = (\<lambda>r. if same (row_name r) n
    then r\<lparr>row_password := w, row_email := Some m, row_country := c\<rparr> else r)"
  have keep: "row_name (u r) = row_name r" "row_id (u r) = row_id r" for r by (simp_all add: u_def)
  then have ids: "row_id \<circ> u = row_id" by auto
  have "pairwise (\<lambda>r s. \<not> same (row_name r) (row_name s)) (u ` set (tbl_rows t))"
    using assms unfolding sound_def pairwise_def by (metis (no_types, lifting) imageE keep(1))
  with assms ids show ?thesis
    by (simp add: sound_def update_player_def u_def [symmetric] keep)
qed

lemma create_sound: "preserves (sound \<circ> table) (CreatePlayer db pl)"
  unfolding preserves_def
proof (intro allI impI)
  fix p assume "(sound \<circ> table) p"
  then show "(sound \<circ> table) (snd (CreatePlayer db pl p))"
    using create [of pl p] create_fails [of pl p] insert_sound
    by (cases "CreatePlayer db pl p"; cases "fst (CreatePlayer db pl p)") auto
qed

lemma update_sound_op: "preserves (sound \<circ> table) (UpdatePlayer db pl)"
  unfolding preserves_def
proof (intro allI impI)
  fix p assume "(sound \<circ> table) p"
  then show "(sound \<circ> table) (snd (UpdatePlayer db pl p))"
    using update [of pl p] update_fails [of pl p] update_sound
    by (cases "UpdatePlayer db pl p"; cases "fst (UpdatePlayer db pl p)") auto
qed

lemma unchanged:
  "(\<And>x p'. m p = (Inr x, p') \<Longrightarrow> table p' = table p) \<Longrightarrow>
   (\<And>e p'. m p = (Inl e, p') \<Longrightarrow> table p' = table p) \<Longrightarrow> table (snd (m p)) = table p"
  by (metis obj_sumE surjective_pairing)

lemma lookups_sound:
  "preserves (\<lambda>p. P (table p)) (HasPlayer db n)"
  "preserves (\<lambda>p. P (table p)) (GetPlayerByName db n)"
  "preserves (\<lambda>p. P (table p)) (GetPlayerByPID db i)"
  "preserves (\<lambda>p. P (table p)) (GetPlayerByMailAndPassword db m w)"
proof -
  have "table (snd (HasPlayer db n p)) = table p" for p
    by (rule unchanged) (use has has_fails in blast)+
  moreover have "table (snd (GetPlayerByName db n p)) = table p" for p
    by (rule unchanged) (use by_name by_name_fails in blast)+
  moreover have "table (snd (GetPlayerByPID db i p)) = table p" for p
    by (rule unchanged) (metis by_pid by_pid_none option.exhaust, use by_pid_fails in blast)
  moreover have "table (snd (GetPlayerByMailAndPassword db m w p)) = table p" for p
    by (rule unchanged) (use by_mail by_mail_fails in blast)+
  ultimately show
    "preserves (\<lambda>p. P (table p)) (HasPlayer db n)"
    "preserves (\<lambda>p. P (table p)) (GetPlayerByName db n)"
    "preserves (\<lambda>p. P (table p)) (GetPlayerByPID db i)"
    "preserves (\<lambda>p. P (table p)) (GetPlayerByMailAndPassword db m w)"
    by (simp_all add: preserves_def)
qed

text \<open>A sound table counts its rows without wrapping around.\<close>

lemma sound_length:
  assumes "sound t"
  shows "length (tbl_rows t) < 2 ^ 63"
proof -
  have "length (tbl_rows t) = card (row_id ` set (tbl_rows t))"
    using assms distinct_card [of "map row_id (tbl_rows t)"] by (simp add: sound_def)
  also have "\<dots> \<le> card {1..tbl_seq t}"
    using assms by (intro card_mono) (force simp: sound_def)+
  also have "\<dots> = nat (tbl_seq t)" by simp
  also have "\<dots> < 2 ^ 63" using assms by (simp add: sound_def nat_less_iff)
  finally show ?thesis .
qed

lemma has_sound:
  "HasPlayer db n p = (Inr b, p') \<Longrightarrow> sound (table p) \<Longrightarrow> table p' = table p \<and> b = name_taken same n (table p)"
  using has sound_length by blast

text \<open>A player that \<open>HasPlayer\<close> reports is found by the lookup that follows it.\<close>

lemma has_then_get:
  "HasPlayer db n p = (Inr True, p1) \<Longrightarrow> sound (table p) \<Longrightarrow> GetPlayerByName db n p1 = (Inr found, p2) \<Longrightarrow>
   \<exists>r \<in> set (tbl_rows (table p)). same (row_name r) n \<and> found = Some ((row_player str r)\<lparr>pl_name := n\<rparr>)"
  using has_sound [of n p True p1] by_name [of n p1 found p2]
  by (auto split: option.splits)

text \<open>A name that was registered is taken, and stays so.\<close>

lemma insert_taken: "insert_player same n w m c t = Some t' \<Longrightarrow> name_taken same n t'"
  using equivp_reflp [OF same_equiv] by (auto simp: insert_player_def name_taken_def split: if_splits)

text \<open>A player that was created is found by its name, as the library's reader returns it.\<close>

lemma create_then_get:
  assumes "sound (table p)" "CreatePlayer db pl p = (Inr pl', p1)"
    "GetPlayerByName db (pl_name pl) p1 = (Inr found, p2)"
  shows "found = Some (PlayerData_of (pl_id pl') (pl_name pl) (str (pl_email pl)) (str (pl_password pl))
    (str (pl_country pl)))"
proof -
  define new where "new = \<lparr>row_id = tbl_seq (table p) + 1, row_name = pl_name pl,
    row_password = pl_password pl, row_email = Some (pl_email pl), row_country = pl_country pl\<rparr>"
  have t: "insert_player same (pl_name pl) (pl_password pl) (pl_email pl) (pl_country pl) (table p) = Some (table p1)"
    and pl': "pl' = pl\<lparr>pl_id := of_int (tbl_seq (table p1))\<rparr>" using create [OF assms(2)] by auto
  then have rows: "tbl_rows (table p1) = tbl_rows (table p) @ [new]" and seq: "tbl_seq (table p1) = tbl_seq (table p) + 1"
    and free: "rows_named same (pl_name pl) (table p) = []"
    by (auto simp: insert_player_def new_def split: if_splits) (metis player_table.select_convs(1,2))+
  have refl: "same (pl_name pl) (pl_name pl)" using equivp_reflp [OF same_equiv] .
  then have "name_taken same (pl_name pl) (table p1)" by (simp add: name_taken_def rows new_def)
  then obtain r where r: "r \<in> set (tbl_rows (table p1))" "same (row_name r) (pl_name pl)"
    "found = Some ((row_player str r)\<lparr>pl_name := pl_name pl\<rparr>)"
    using by_name [OF assms(3)] by (auto split: option.splits)
  from r(1,2) free have "r = new" by (auto simp: rows rows_named_def filter_empty_conv)
  with r(3) pl' seq show ?thesis by (simp add: row_player_def PlayerData_of_def new_def)
qed

text \<open>A taken name is refused.\<close>

lemma create_duplicate:
  assumes "name_taken same (pl_name pl) (table p)"
  shows "\<exists>e p'. CreatePlayer db pl p = (Inl e, p') \<and> table p' = table p"
proof -
  obtain r p' where run: "CreatePlayer db pl p = (r, p')" by fastforce
  from assms have "rows_named same (pl_name pl) (table p) \<noteq> []"
    by (auto simp: name_taken_def rows_named_def filter_empty_conv)
  then have "insert_player same (pl_name pl) w m c (table p) = None" for w m c
    by (simp add: insert_player_def)
  then show ?thesis using run create [of pl p _ p'] create_fails [of pl p _ p'] by (cases r) auto
qed

lemma create_taken: "CreatePlayer db pl p = (Inr pl', p') \<Longrightarrow> name_taken same (pl_name pl) (table p')"
  using create insert_taken by blast

end


section \<open>SQLite keeps the contract\<close>

locale sqlite_players =
  fixes api :: "('d, 's) sqlite3" and table :: "'d \<Rightarrow> player_table"
  assumes answers: "stmt_make api sql args d = (Inr st, d) \<Longrightarrow>
    player_sql Sql_int (=) sql args (table d) = Some (rows, t') \<Longrightarrow>
    \<exists>rows'. mset rows' = mset rows \<and> serves api table rows' st d t'"
  and refuses: "stmt_make api sql args d = (Inr st, d) \<Longrightarrow>
    player_sql Sql_int (=) sql args (table d) = None \<Longrightarrow> step_fails api table st d"

lemma column_holds_read:
  "column_holds api st i (Sql_text s) \<Longrightarrow> column_text api st i = c_string s"
  "column_holds api st i (email_value r) \<Longrightarrow>
     column_text api st i = (case row_email r of None \<Rightarrow> '''' | Some e \<Rightarrow> c_string e)"
  "column_holds api st i (Sql_int n) \<Longrightarrow> column_u64 api st i = of_int n"
  by (auto simp: column_holds_def column_text_def column_u64_def email_value_def split: option.splits)

lemma sint_of_int_id: "0 \<le> n \<Longrightarrow> n < 2 ^ 63 \<Longrightarrow> sint (of_int n :: u64) = n"
  by (simp add: sint_sbintrunc' signed_take_bit_int_eq_self)

context sqlite_players
begin

text \<open>One step of a statement that answers.\<close>

lemma first_step:
  assumes "stmt_make api sql args d = (Inr st, d1)"
    and "player_sql Sql_int (=) sql args (table d) = Some (rows, t')"
    and "stmt_query api st d1 = (r, d')"
  shows "(r = Inl Undefined_behaviour \<and> table d' = table d) \<or>
    (\<exists>st'. r = Inr (False, st') \<and> rows = [] \<and> table d' = t') \<or>
    (\<exists>st' row rest. r = Inr (True, st') \<and> mset rows = mset (row # rest) \<and> table d' = t' \<and>
       row_holds api st' row \<and> serves api table rest st' d' t')"
proof -
  have d1: "d1 = d" using stmt_make_Inl [OF assms(1)] .
  from answers [OF assms(1) [unfolded d1] assms(2)] obtain rows' where
    r: "mset rows' = mset rows" "serves api table rows' st d t'" by blast
  show ?thesis
  proof (cases "step_fails api table st d")
    case True
    with query_fails [OF True] assms(3) d1 show ?thesis by auto
  next
    case False
    show ?thesis
    proof (cases rows')
      case Nil
      with r False assms(3) d1 show ?thesis by (auto simp: stmt_query_def split: prod.splits)
    next
      case (Cons row rest)
      with r False assms(3) d1 show ?thesis by (auto simp: stmt_query_def split: prod.splits)
    qed
  qed
qed

lemma make_fails: "stmt_make api sql args d = (Inl e, d') \<Longrightarrow> table d' = table d"
  using stmt_make_Inl by metis

lemma mset_single: "mset [x] = mset (row # rest) \<Longrightarrow> row = x \<and> rest = []"
  by (simp add: add_mset_eq_single)

text \<open>A statement of which one row is read.\<close>

lemma run_one:
  assumes run: "bind_io (stmt_make api sql args) (\<lambda>st. bind_io (stmt_query api st) (\<lambda>(row, st). ret (f row st))) d = (r, d')"
    and sql: "player_sql Sql_int (=) sql args (table d) = Some (rows, t')"
  shows "(\<exists>e. r = Inl e \<and> table d' = table d) \<or>
    (\<exists>st'. r = Inr (f False st') \<and> rows = [] \<and> table d' = t') \<or>
    (\<exists>st' row rest. r = Inr (f True st') \<and> mset rows = mset (row # rest) \<and> table d' = t' \<and> row_holds api st' row)"
proof (cases "stmt_make api sql args d")
  case (Pair x d1)
  show ?thesis
  proof (cases x)
    case (Inl e)
    with Pair run have "r = Inl e" "d' = d1" by (simp_all add: bind_io_def)
    with make_fails [OF Pair [unfolded Inl]] show ?thesis by simp
  next
    case (Inr st)
    obtain q d2 where q: "stmt_query api st d1 = (q, d2)" by (cases "stmt_query api st d1")
    from run Pair Inr q have res: "(r, d') = (case q of Inl e \<Rightarrow> (Inl e, d2) | Inr (row, st') \<Rightarrow> (Inr (f row st'), d2))"
      by (simp add: bind_io_def ret_def split: sum.splits prod.splits)
    from first_step [OF Pair [unfolded Inr] sql q] show ?thesis
    proof (elim disjE exE conjE)
      assume "q = Inl Undefined_behaviour" "table d2 = table d"
      with res show ?thesis by simp
    next
      fix st' assume "q = Inr (False, st')" "rows = []" "table d2 = t'"
      with res show ?thesis by (intro disjI2 disjI1 exI [of _ st']) simp
    next
      fix st' row rest
      assume "q = Inr (True, st')" "mset rows = mset (row # rest)" "table d2 = t'" "row_holds api st' row"
      with res show ?thesis by (intro disjI2 exI [of _ st'] exI [of _ row] exI [of _ rest]) simp
    qed
  qed
qed

lemma run_refused:
  assumes run: "bind_io (stmt_make api sql args) (\<lambda>st. bind_io (stmt_query api st) g) d = (r, d')"
    and sql: "player_sql Sql_int (=) sql args (table d) = None"
  shows "\<exists>e. r = Inl e \<and> table d' = table d"
proof (cases "stmt_make api sql args d")
  case (Pair x d1)
  show ?thesis
  proof (cases x)
    case (Inl e)
    with Pair run have "r = Inl e" "d' = d1" by (simp_all add: bind_io_def)
    with make_fails [OF Pair [unfolded Inl]] show ?thesis by simp
  next
    case (Inr st)
    have d1: "d1 = d" using stmt_make_Inl [OF Pair] .
    from query_fails [OF refuses [OF Pair [unfolded d1 Inr] sql]] obtain d2 where
      q: "stmt_query api st d = (Inl Undefined_behaviour, d2)" "table d2 = table d" by blast
    from run Pair Inr d1 q(1) have "r = Inl Undefined_behaviour" "d' = d2"
      by (simp_all add: bind_io_def)
    with q(2) show ?thesis by simp
  qed
qed

lemma sqlite_has:
  assumes "sqlite_HasPlayer api n d = (r, d')"
  shows "table d' = table d \<and>
    (\<forall>b. r = Inr b \<longrightarrow> length (tbl_rows (table d)) < 2 ^ 63 \<longrightarrow> b = name_taken (=) n (table d))"
proof -
  have pos: "(0 :: u64) < of_int (int (length (rows_named (=) n (table d)))) \<longleftrightarrow> name_taken (=) n (table d)"
    if "length (tbl_rows (table d)) < 2 ^ 63"
  proof -
    have "length (rows_named (=) n (table d)) < 2 ^ 63"
      using that by (simp add: rows_named_def le_less_trans [OF length_filter_le])
    then have "(0 :: u64) < of_int (int (length (rows_named (=) n (table d)))) \<longleftrightarrow> rows_named (=) n (table d) \<noteq> []"
      by (simp add: word_less_nat_alt unat_of_nat)
    then show ?thesis by (auto simp: rows_named_def name_taken_def filter_empty_conv)
  qed
  from run_one [OF assms [unfolded sqlite_HasPlayer_def] player_sql_simps(1)] pos
  show ?thesis by (auto simp: row_holds_Cons dest!: mset_single column_holds_read(3))
qed

lemma mset_member: "mset (map f xs) = mset (row # rest) \<Longrightarrow> \<exists>x \<in> set xs. row = f x"
  by (metis imageE list.set_intros(1) list.set_map mset_eq_setD)

lemma sqlite_by_name:
  assumes "sqlite_GetPlayerByName api n d = (r, d')"
  shows "table d' = table d \<and>
    (\<forall>found. r = Inr found \<longrightarrow>
      (case found of
         None \<Rightarrow> \<not> name_taken (=) n (table d)
       | Some pl \<Rightarrow> \<exists>r \<in> set (tbl_rows (table d)). row_name r = n \<and> pl = (row_player c_string r)\<lparr>pl_name := n\<rparr>))"
proof (cases "length n > int_max")
  case True
  with assms show ?thesis by (auto simp: sqlite_GetPlayerByName_def throw_def)
next
  case False
  have none: "rows_named (=) n (table d) = [] \<Longrightarrow> \<not> name_taken (=) n (table d)"
    by (auto simp: rows_named_def name_taken_def filter_empty_conv)
  have named: "x \<in> set (rows_named (=) n (table d)) \<Longrightarrow> x \<in> set (tbl_rows (table d)) \<and> row_name x = n" for x
    by (auto simp: rows_named_def)
  from assms False have "bind_io (stmt_make api sql_by_name [Bind_text n]) (\<lambda>st. bind_io (stmt_query api st)
      (\<lambda>(row, st). ret (if row
             then Some (PlayerData_of (column_u64 api st 0) n
               (column_text api st 1) (column_text api st 2) (column_text api st 3))
             else None))) d = (r, d')"
    by (simp add: sqlite_GetPlayerByName_def)
  from run_one [OF this player_sql_simps(2)] show ?thesis
  proof (elim disjE exE conjE)
    fix st' row rest
    assume a: "r = Inr (if True then Some (PlayerData_of (column_u64 api st' 0) n
        (column_text api st' 1) (column_text api st' 2) (column_text api st' 3)) else None)"
      "mset (map (\<lambda>r. [Sql_int (row_id r), email_value r, Sql_text (row_password r), Sql_text (row_country r)])
        (rows_named (=) n (table d))) = mset (row # rest)"
      "table d' = table d" "row_holds api st' row"
    from mset_member [OF a(2)] obtain x where x: "x \<in> set (rows_named (=) n (table d))"
      "row = [Sql_int (row_id x), email_value x, Sql_text (row_password x), Sql_text (row_country x)]"
      by blast
    with a(4) have "PlayerData_of (column_u64 api st' 0) n (column_text api st' 1) (column_text api st' 2)
        (column_text api st' 3) = (row_player c_string x)\<lparr>pl_name := n\<rparr>"
      by (simp add: row_holds_Cons column_holds_read PlayerData_of_def row_player_def)
    with a named [OF x(1)] show ?thesis by auto
  qed (use none in auto)
qed

lemma sqlite_by_pid:
  assumes "sqlite_GetPlayerByPID api i d = (r, d')"
  shows "table d' = table d \<and>
    (\<forall>pl. r = Inr (Some pl) \<longrightarrow>
      (\<exists>r \<in> set (tbl_rows (table d)). of_int (row_id r) = i \<and> pl = row_player c_string r)) \<and>
    (r = Inr None \<longrightarrow>
      (\<forall>r \<in> set (tbl_rows (table d)). 0 \<le> row_id r \<and> row_id r < 2 ^ 63 \<longrightarrow> of_int (row_id r) \<noteq> i))"
proof -
  have none: "of_int (row_id x) \<noteq> i"
    if "filter (\<lambda>r. row_id r = sint i) (tbl_rows (table d)) = []" "x \<in> set (tbl_rows (table d))"
      "0 \<le> row_id x" "row_id x < 2 ^ 63" for x
  proof
    assume e: "of_int (row_id x) = i"
    have "sint (of_int (row_id x) :: u64) = row_id x"
      using that(3,4) by (simp add: sint_of_int_id)
    with e that(1,2) show False by (auto simp: filter_empty_conv)
  qed
  from run_one [OF assms [unfolded sqlite_GetPlayerByPID_def] player_sql_simps(3)] show ?thesis
  proof (elim disjE exE conjE)
    fix st' row rest
    assume a: "r = Inr (if True then Some (PlayerData_of i (column_text api st' 0)
        (column_text api st' 1) (column_text api st' 2) (column_text api st' 3)) else None)"
      "mset (map (\<lambda>r. [Sql_text (row_name r), email_value r, Sql_text (row_password r), Sql_text (row_country r)])
        (filter (\<lambda>r. row_id r = sint i) (tbl_rows (table d)))) = mset (row # rest)"
      "table d' = table d" "row_holds api st' row"
    from mset_member [OF a(2)] obtain x where x: "x \<in> set (tbl_rows (table d))" "row_id x = sint i"
      "row = [Sql_text (row_name x), email_value x, Sql_text (row_password x), Sql_text (row_country x)]"
      by auto
    with a(4) have "PlayerData_of i (column_text api st' 0) (column_text api st' 1) (column_text api st' 2)
        (column_text api st' 3) = row_player c_string x"
      by (simp add: row_holds_Cons column_holds_read PlayerData_of_def row_player_def)
    with a x show ?thesis by (auto intro!: bexI [of _ x])
  qed (use none in auto)
qed

lemma sqlite_create:
  assumes "sqlite_CreatePlayer api pl d = (r, d')"
  shows "(\<exists>e. r = Inl e \<and> table d' = table d) \<or>
    (insert_player (=) (pl_name pl) (pl_password pl) (pl_email pl) (pl_country pl) (table d) = Some (table d') \<and>
     r = Inr (pl\<lparr>pl_id := of_int (tbl_seq (table d'))\<rparr>))"
proof (cases "insert_player (=) (pl_name pl) (pl_password pl) (pl_email pl) (pl_country pl) (table d)")
  case None
  then have "player_sql Sql_int (=) sql_insert_returning [Bind_text (pl_name pl), Bind_text (pl_password pl),
      Bind_text (pl_email pl), Bind_text (pl_country pl)] (table d) = None"
    by (simp add: player_sql_simps)
  from run_refused [OF assms [unfolded sqlite_CreatePlayer_def] this] show ?thesis by blast
next
  case (Some t)
  then have "player_sql Sql_int (=) sql_insert_returning [Bind_text (pl_name pl), Bind_text (pl_password pl),
      Bind_text (pl_email pl), Bind_text (pl_country pl)] (table d) = Some ([[Sql_int (tbl_seq t)]], t)"
    by (simp add: player_sql_simps)
  from run_one [OF assms [unfolded sqlite_CreatePlayer_def] this] Some show ?thesis
    by (auto simp: row_holds_Cons dest!: mset_single column_holds_read(3))
qed

lemma sqlite_update:
  assumes "sqlite_UpdatePlayer api pl d = (r, d')"
  shows "(\<exists>e. r = Inl e \<and> table d' = table d) \<or>
    (r = Inr () \<and>
     table d' = update_player (=) (pl_name pl) (pl_password pl) (pl_email pl) (pl_country pl) (table d))"
proof (cases "stmt_make api sql_update [Bind_text (pl_password pl), Bind_text (pl_email pl),
    Bind_text (pl_country pl), Bind_text (pl_name pl)] d")
  case (Pair x d1)
  show ?thesis
  proof (cases x)
    case (Inl e)
    with Pair assms make_fails show ?thesis by (auto simp: sqlite_UpdatePlayer_def bind_io_def)
  next
    case (Inr st)
    have d1: "d1 = d" using stmt_make_Inl [OF Pair] .
    from answers [OF Pair [unfolded d1 Inr] player_sql_simps(7)] obtain rows' where
      "mset rows' = mset []" "serves api table rows' st d
        (update_player (=) (pl_name pl) (pl_password pl) (pl_email pl) (pl_country pl) (table d))" by blast
    with assms Pair Inr d1 show ?thesis
      by (auto simp: sqlite_UpdatePlayer_def bind_io_def ret_def stmt_update_def stmt_insert_def step_fails_def
          split: prod.splits if_splits)
  qed
qed

text \<open>The loop over the rows ends, with the players of the rows that were left.\<close>

lemma collect_serves:
  "serves api table rows st d (table d) \<Longrightarrow>
   \<forall>row \<in> set rows. \<exists>i n c. row = [Sql_int i, Sql_text n, Sql_text c] \<Longrightarrow>
   (\<exists>d'. collect_players api email password players st d = Some (Inl Undefined_behaviour, d') \<and> table d' = table d) \<or>
   (\<exists>d'. collect_players api email password players st d = Some (Inr (players @ map (\<lambda>row. case row of
      [Sql_int i, Sql_text n, Sql_text c] \<Rightarrow> PlayerData_of (of_int i) (c_string n) email password (c_string c)) rows), d')
      \<and> table d' = table d)"
proof (induction rows arbitrary: players st d)
  case Nil
  then show ?case
    by (subst (1 2) collect_players.simps)
      (auto simp: step_fails_def stmt_query_def split: prod.splits)
next
  case (Cons row rows)
  show ?case
  proof (cases "step_fails api table st d")
    case True
    from query_fails [OF True] show ?thesis by (subst (1 2) collect_players.simps) auto
  next
    case False
    obtain ec st' d' where step: "c_step api st d = (ec, st', d')" by (cases "c_step api st d")
    with Cons.prems(1) False have s: "ec = SQLITE_ROW" "table d' = table d" "row_holds api st' row"
      "serves api table rows st' d' (table d)" by auto
    from Cons.prems(2) obtain i n c where row: "row = [Sql_int i, Sql_text n, Sql_text c]" by auto
    let ?p = "PlayerData_of (of_int i) (c_string n) email password (c_string c)"
    from s(3) row have "column_holds api st' 0 (Sql_int i)" "column_holds api st' 1 (Sql_text n)"
      "column_holds api st' 2 (Sql_text c)" by (simp_all add: row_holds_Cons)
    then have "collect_players api email password players st d =
        collect_players api email password (players @ [?p]) st' d'"
      by (subst collect_players.simps) (simp add: stmt_query_def step s(1) column_holds_read)
    with Cons.IH [of st' d' "players @ [?p]"] s(2,4) Cons.prems(2) row show ?thesis by auto
  qed
qed

lemma sqlite_by_mail:
  assumes "sqlite_GetPlayerByMailAndPassword api m w d = (r, d')"
  shows "(\<exists>e. r = Inl e \<and> e \<noteq> No_return \<and> table d' = table d) \<or>
    (\<exists>pls. r = Inr pls \<and> table d' = table d \<and>
      mset pls = mset (map (\<lambda>r. (row_player c_string r)\<lparr>pl_email := m, pl_password := w\<rparr>)
          (rows_mailed (=) m w (table d))))"
proof (cases "stmt_make api sql_by_mail [Bind_text m, Bind_text w] d")
  case (Pair x d1)
  show ?thesis
  proof (cases x)
    case (Inl e)
    with Pair assms have "r = Inl e" "d' = d1"
      by (simp_all add: bind_io_def sqlite_GetPlayerByMailAndPassword_def)
    with make_fails [OF Pair [unfolded Inl]] make_returns [OF Pair [unfolded Inl]] show ?thesis by simp
  next
    case (Inr st)
    let ?read = "\<lambda>row. case row of [Sql_int i, Sql_text n, Sql_text c] \<Rightarrow>
      PlayerData_of (of_int i) (c_string n) m w (c_string c)"
    have d1: "d1 = d" using stmt_make_Inl [OF Pair] .
    from answers [OF Pair [unfolded d1 Inr] player_sql_simps(4)] obtain rows where
      rows: "mset rows = mset (map (\<lambda>r. [Sql_int (row_id r), Sql_text (row_name r), Sql_text (row_country r)])
        (rows_mailed (=) m w (table d)))" "serves api table rows st d (table d)" by blast
    from rows(1) have shape: "\<forall>row \<in> set rows. \<exists>i n c. row = [Sql_int i, Sql_text n, Sql_text c]"
      by (fastforce dest: mset_eq_setD)
    have "mset (map ?read rows) = mset (map (\<lambda>r. (row_player c_string r)\<lparr>pl_email := m, pl_password := w\<rparr>)
        (rows_mailed (=) m w (table d)))"
      using arg_cong [OF rows(1), of "image_mset ?read"]
      by (simp add: multiset.map_comp comp_def row_player_def PlayerData_of_def)
    with collect_serves [OF rows(2) shape, of m w "[]"] assms Pair Inr d1 show ?thesis
      by (auto simp: bind_io_def sqlite_GetPlayerByMailAndPassword_def)
  qed
qed

end

sublocale sqlite_players \<subseteq> players: player_directory "PlayerDBSQLite api" table "(=)" c_string
proof (unfold_locales, unfold PlayerDBSQLite_def player_db.simps)
  show "equivp ((=) :: string \<Rightarrow> string \<Rightarrow> bool)" by (rule identity_equivp)
  show "sqlite_HasPlayer api n p = (Inr b, p') \<Longrightarrow> table p' = table p \<and>
      (length (tbl_rows (table p)) < 2 ^ 63 \<longrightarrow> b = name_taken (=) n (table p))" for n p b p'
    using sqlite_has by blast
  show "sqlite_GetPlayerByName api n p = (Inr found, p') \<Longrightarrow> table p' = table p \<and>
      (case found of
         None \<Rightarrow> \<not> name_taken (=) n (table p)
       | Some pl \<Rightarrow> \<exists>r \<in> set (tbl_rows (table p)). row_name r = n \<and> pl = (row_player c_string r)\<lparr>pl_name := n\<rparr>)"
    for n p found p' using sqlite_by_name by blast
  show "sqlite_GetPlayerByMailAndPassword api m w p = (Inr pls, p') \<Longrightarrow> table p' = table p \<and>
      mset pls = mset (map (\<lambda>r. (row_player c_string r)\<lparr>pl_email := m, pl_password := w\<rparr>)
        (rows_mailed (=) m w (table p)))" for m w p pls p'
    using sqlite_by_mail by (metis Inl_Inr_False sum.inject(2))
  show "sqlite_CreatePlayer api pl p = (Inr pl', p') \<Longrightarrow>
      insert_player (=) (pl_name pl) (pl_password pl) (pl_email pl) (pl_country pl) (table p) = Some (table p') \<and>
      pl' = pl\<lparr>pl_id := of_int (tbl_seq (table p'))\<rparr>" for pl p pl' p'
    using sqlite_create by (metis Inl_Inr_False sum.inject(2))
  show "sqlite_UpdatePlayer api pl p = (Inr u, p') \<Longrightarrow>
      table p' = update_player (=) (pl_name pl) (pl_password pl) (pl_email pl) (pl_country pl) (table p)"
    for pl p u p' using sqlite_update by (metis Inl_Inr_False)
  show "sqlite_HasPlayer api n p = (Inl e, p') \<Longrightarrow> table p' = table p" for n p e p'
    using sqlite_has by blast
  show "sqlite_GetPlayerByName api n p = (Inl e, p') \<Longrightarrow> table p' = table p" for n p e p'
    using sqlite_by_name by blast
  show "sqlite_GetPlayerByPID api i p = (Inl e, p') \<Longrightarrow> table p' = table p" for i p e p'
    using sqlite_by_pid by blast
  show "sqlite_GetPlayerByMailAndPassword api m w p = (Inl e, p') \<Longrightarrow> table p' = table p" for m w p e p'
    using sqlite_by_mail by blast
  show "sqlite_CreatePlayer api pl p = (Inl e, p') \<Longrightarrow> table p' = table p" for pl p e p'
    using sqlite_create by (metis Inl_Inr_False)
  show "sqlite_UpdatePlayer api pl p = (Inl e, p') \<Longrightarrow> table p' = table p" for pl p e p'
    using sqlite_update by (metis Inl_Inr_False)
  show "sqlite_GetPlayerByPID api i p = (Inr (Some pl), p') \<Longrightarrow> table p' = table p \<and>
      (\<exists>r \<in> set (tbl_rows (table p)). of_int (row_id r) = i \<and> pl = row_player c_string r)" for i p pl p'
    using sqlite_by_pid by blast
  show "sqlite_GetPlayerByPID api i p = (Inr None, p') \<Longrightarrow> table p' = table p \<and>
      (\<forall>r \<in> set (tbl_rows (table p)). 0 \<le> row_id r \<and> row_id r < 2 ^ 63 \<longrightarrow> of_int (row_id r) \<noteq> i)" for i p p'
    using sqlite_by_pid by blast
qed


section \<open>MySQL keeps the contract\<close>

text \<open>
  What MySQL and its client library document: a prepared statement that is executed without an error
  gives the rows of its result, in any order, in one resultset, so that \<open>empty()\<close> is false, and the
  id of an inserted row; a statement that violates a constraint is an error; an error leaves the
  table.  The id column is unsigned; \<open>same\<close> is the collation of the text columns.
\<close>

abbreviation mysql_id :: "int \<Rightarrow> sql_value" where
  "mysql_id i \<equiv> Sql_uint (unat (of_int i :: u64))"

locale mysql_directory =
  fixes my :: "('m, 's) mysql" and table :: "'m \<Rightarrow> player_table"
    and same :: "string \<Rightarrow> string \<Rightarrow> bool"
  assumes same_equiv: "equivp same"
    and prepares: "table (snd (my_prepare my sql p)) = table p"
    and errors: "my_execute my stmt args p = (Inl e, p') \<Longrightarrow> table p' = table p"
    and answers: "my_prepare my sql p = (Inr stmt, p1) \<Longrightarrow> my_execute my stmt args p1 = (Inr res, p') \<Longrightarrow>
      \<exists>rows. player_sql mysql_id same sql args (table p) = Some (rows, table p') \<and>
        mset (mr_rows res) = mset rows \<and> \<not> mr_empty res"
    and inserted: "my_prepare my sql_insert p = (Inr stmt, p1) \<Longrightarrow> my_execute my stmt args p1 = (Inr res, p') \<Longrightarrow>
      mr_last_insert_id res = of_int (tbl_seq (table p'))"

lemma front_row_mem: "front_row rows = Inr row \<Longrightarrow> row \<in> set rows"
  by (auto simp: front_row_def split: list.splits)

lemma field_reads:
  "text_at row i = (if i < length row then as_text_field (row ! i) else Inl Out_of_range)"
  "uint_at row i = (if i < length row then as_uint64 (row ! i) else Inl Out_of_range)"
  by (simp_all add: text_at_def uint_at_def field_at_def)

lemma as_text_email: "as_text_field (email_value r) = Inr e \<Longrightarrow> row_email r = Some e"
  by (auto simp: as_text_field_def email_value_def split: option.splits)

lemma as_reads:
  "as_text_field (Sql_text s) = Inr s" "as_uint64 (mysql_id i) = Inr (of_int i)" "as_int64 (Sql_int n) = Inr n"
  by (simp_all add: as_text_field_def as_uint64_def as_int64_def)

lemma bind_lift_Inr:
  "bind_io m (\<lambda>x. lift_exn (f x)) p = (Inr y, p') \<longleftrightarrow> (\<exists>x. m p = (Inr x, p') \<and> f x = Inr y)"
  by (auto simp: bind_io_Inr lift_exn_def)

lemma mset_map_mem: "mset xs = mset (map f ys) \<Longrightarrow> x \<in> set xs \<Longrightarrow> \<exists>y \<in> set ys. x = f y"
  using mset_eq_setD [of xs "map f ys"] by auto

lemma mset_map_perm: "mset xs = mset (map f ys) \<Longrightarrow> \<exists>zs. xs = map f zs \<and> mset zs = mset ys"
proof (induction xs arbitrary: ys)
  case (Cons x xs)
  from mset_map_mem [OF Cons.prems, of x] obtain y where y: "y \<in> set ys" "x = f y" by auto
  have ys: "mset ys = add_mset y (mset (remove1 y ys))" using y(1) by simp
  from Cons.prems have "mset xs = mset (map f (remove1 y ys))"
    unfolding y(2) mset_map ys by simp
  from Cons.IH [OF this] obtain zs where "xs = map f zs" "mset zs = mset (remove1 y ys)" by blast
  with y(2) ys show ?case by (intro exI [of _ "y # zs"]) simp
qed simp

context mysql_directory
begin

lemma run_Inr:
  assumes "mysql_run my sql args p = (Inr res, p')"
  shows "\<exists>rows. player_sql mysql_id same sql args (table p) = Some (rows, table p') \<and>
    mset (mr_rows res) = mset rows \<and> \<not> mr_empty res \<and>
    (sql = sql_insert \<longrightarrow> mr_last_insert_id res = of_int (tbl_seq (table p')))"
proof -
  from assms obtain stmt p1 where s: "my_prepare my sql p = (Inr stmt, p1)" "my_execute my stmt args p1 = (Inr res, p')"
    by (auto simp: mysql_run_def bind_io_Inr)
  from answers [OF s] inserted [of p stmt p1 args res p'] s show ?thesis by blast
qed

lemma run_Inl: "mysql_run my sql args p = (Inl e, p') \<Longrightarrow> table p' = table p"
  using prepares [of sql p] errors
  by (auto simp: mysql_run_def bind_io_def split: prod.splits sum.splits)

text \<open>An operation that only reads the result fails with the table of before, or after a lookup.\<close>

lemma read_fails:
  assumes run: "bind_io (mysql_run my sql args) f p = (Inl e, p')"
    and reads: "\<And>res p. snd (f res p) = p"
    and same_table: "\<And>rows t'. player_sql mysql_id same sql args (table p) = Some (rows, t') \<Longrightarrow> t' = table p"
  shows "table p' = table p"
proof (cases "mysql_run my sql args p")
  case (Pair x p1)
  show ?thesis
  proof (cases x)
    case (Inl e')
    with Pair run run_Inl [of sql args p e' p1] show ?thesis by (simp add: bind_io_def)
  next
    case (Inr res)
    from run_Inr [OF Pair [unfolded Inr]] same_table have "table p1 = table p" by blast
    with Pair run Inr reads [of res p1] show ?thesis by (simp add: bind_io_def)
  qed
qed

text \<open>An operation that does not throw once its statement has run.\<close>

lemma write_fails:
  assumes "bind_io (mysql_run my sql args) (\<lambda>res. ret (f res)) p = (Inl e, p')"
  shows "table p' = table p"
proof (cases "mysql_run my sql args p")
  case (Pair x p1)
  with assms have "mysql_run my sql args p = (Inl e, p')"
    by (cases x) (simp_all add: bind_io_def ret_def)
  then show ?thesis by (rule run_Inl)
qed

lemma mysql_has:
  assumes "mysql_HasPlayer my n p = (Inr b, p')"
  shows "table p' = table p \<and> b = name_taken same n (table p)"
proof -
  from assms obtain res row v where r: "mysql_run my sql_has [Bind_text n] p = (Inr res, p')"
    "front_row (mr_rows res) = Inr row" "field_at row 0 = Inr v" "and_then (as_int64 v) (\<lambda>n. Inr (n > 0)) = Inr b"
    by (auto simp: mysql_HasPlayer_def bind_lift_Inr and_then_eq_Inr)
  from run_Inr [OF r(1)] obtain rows where rows:
    "player_sql mysql_id same sql_has [Bind_text n] (table p) = Some (rows, table p')"
    "mset (mr_rows res) = mset rows" by blast
  from rows(1) have t: "table p' = table p" and "rows = [[Sql_int (int (length (rows_named same n (table p))))]]"
    by (auto simp: player_sql_simps)
  with rows(2) front_row_mem [OF r(2)] have "row = [Sql_int (int (length (rows_named same n (table p))))]"
    by (metis mset_eq_setD empty_iff insert_iff list.set)
  with r(3,4) have "b \<longleftrightarrow> rows_named same n (table p) \<noteq> []"
    by (auto simp: field_at_def as_reads and_then_def)
  with t show ?thesis by (auto simp: rows_named_def name_taken_def filter_empty_conv)
qed

lemma mysql_by_name:
  assumes "mysql_GetPlayerByName my n p = (Inr found, p')"
  shows "table p' = table p \<and>
    (\<exists>r \<in> set (tbl_rows (table p)). same (row_name r) n \<and> found = Some ((row_player id r)\<lparr>pl_name := n\<rparr>))"
proof -
  from assms obtain res where r: "mysql_run my sql_by_name [Bind_text n] p = (Inr res, p')"
    by (auto simp: mysql_GetPlayerByName_def bind_io_Inr lift_exn_def ret_def split: if_splits)
  from run_Inr [OF r] obtain rows where rows:
    "player_sql mysql_id same sql_by_name [Bind_text n] (table p) = Some (rows, table p')"
    "mset (mr_rows res) = mset rows" "\<not> mr_empty res" by blast
  from assms r rows(3) obtain row where row: "front_row (mr_rows res) = Inr row"
    "and_then (uint_at row 0) (\<lambda>i. and_then (text_at row 1) (\<lambda>email.
         and_then (text_at row 2) (\<lambda>password. and_then (text_at row 3) (\<lambda>country.
           Inr (Some (PlayerData_of i n email password country)))))) = Inr found"
    by (auto simp: mysql_GetPlayerByName_def bind_io_Inr lift_exn_def and_then_eq_Inr)
  from rows(1) have t: "table p' = table p" and "rows = map (\<lambda>r. [mysql_id (row_id r), email_value r,
      Sql_text (row_password r), Sql_text (row_country r)]) (rows_named same n (table p))"
    by (auto simp: player_sql_simps)
  then obtain x where x: "x \<in> set (rows_named same n (table p))"
    "row = [mysql_id (row_id x), email_value x, Sql_text (row_password x), Sql_text (row_country x)]"
    using mset_map_mem [OF rows(2) [unfolded \<open>rows = _\<close>] front_row_mem [OF row(1)]] by blast
  from row(2) x(2) have "found = Some ((row_player id x)\<lparr>pl_name := n\<rparr>)"
    by (auto simp: field_reads as_reads and_then_eq_Inr row_player_def PlayerData_of_def numeral_eq_Suc
        dest: as_text_email)
  with x(1) t show ?thesis by (auto simp: rows_named_def)
qed

lemma mysql_by_pid:
  assumes "mysql_GetPlayerByPID my i p = (Inr found, p')"
  shows "table p' = table p \<and>
    (\<exists>r \<in> set (tbl_rows (table p)). of_int (row_id r) = i \<and> found = Some (row_player id r))"
proof -
  from assms obtain res where r: "mysql_run my sql_by_pid [Bind_int (uint i)] p = (Inr res, p')"
    by (auto simp: mysql_GetPlayerByPID_def bind_io_Inr lift_exn_def ret_def split: if_splits)
  from run_Inr [OF r] obtain rows where rows:
    "player_sql mysql_id same sql_by_pid [Bind_int (uint i)] (table p) = Some (rows, table p')"
    "mset (mr_rows res) = mset rows" "\<not> mr_empty res" by blast
  from assms r rows(3) obtain row where row: "front_row (mr_rows res) = Inr row"
    "and_then (text_at row 0) (\<lambda>n. and_then (text_at row 1) (\<lambda>email.
         and_then (text_at row 2) (\<lambda>password. and_then (text_at row 3) (\<lambda>country.
           Inr (Some (PlayerData_of i n email password country)))))) = Inr found"
    by (auto simp: mysql_GetPlayerByPID_def bind_io_Inr lift_exn_def and_then_eq_Inr)
  from rows(1) have t: "table p' = table p" and "rows = map (\<lambda>r. [Sql_text (row_name r), email_value r,
      Sql_text (row_password r), Sql_text (row_country r)]) (filter (\<lambda>r. row_id r = uint i) (tbl_rows (table p)))"
    by (auto simp: player_sql_simps)
  then obtain x where x: "x \<in> set (tbl_rows (table p))" "row_id x = uint i"
    "row = [Sql_text (row_name x), email_value x, Sql_text (row_password x), Sql_text (row_country x)]"
    using mset_map_mem [OF rows(2) [unfolded \<open>rows = _\<close>] front_row_mem [OF row(1)]] by auto
  from row(2) x(2,3) have "found = Some (row_player id x)"
    by (auto simp: field_reads as_reads and_then_eq_Inr row_player_def PlayerData_of_def numeral_eq_Suc
        dest: as_text_email)
  with x(1,2) t show ?thesis by (auto intro!: bexI [of _ x])
qed

lemma read_rows:
  "mysql_players m w (map (\<lambda>r. [mysql_id (row_id r), Sql_text (row_name r), Sql_text (row_country r)]) rs) =
   Inr (map (\<lambda>r. (row_player id r)\<lparr>pl_email := m, pl_password := w\<rparr>) rs)"
  by (induction rs)
    (simp_all add: field_reads as_reads and_then_def row_player_def PlayerData_of_def numeral_eq_Suc)

lemma mysql_by_mail:
  assumes "mysql_GetPlayerByMailAndPassword my m w p = (Inr pls, p')"
  shows "table p' = table p \<and>
    mset pls = mset (map (\<lambda>r. (row_player id r)\<lparr>pl_email := m, pl_password := w\<rparr>) (rows_mailed same m w (table p)))"
proof -
  let ?row = "\<lambda>r. [mysql_id (row_id r), Sql_text (row_name r), Sql_text (row_country r)]"
  from assms obtain res where r: "mysql_run my sql_by_mail [Bind_text m, Bind_text w] p = (Inr res, p')"
    "mysql_players m w (mr_rows res) = Inr pls"
    by (auto simp: mysql_GetPlayerByMailAndPassword_def bind_lift_Inr)
  from run_Inr [OF r(1)] obtain rows where rows:
    "player_sql mysql_id same sql_by_mail [Bind_text m, Bind_text w] (table p) = Some (rows, table p')"
    "mset (mr_rows res) = mset rows" by blast
  from rows(1) have t: "table p' = table p" and "rows = map ?row (rows_mailed same m w (table p))"
    by (auto simp: player_sql_simps)
  then obtain rs where rs: "mr_rows res = map ?row rs" "mset rs = mset (rows_mailed same m w (table p))"
    using mset_map_perm [OF rows(2) [unfolded \<open>rows = _\<close>]] by blast
  from r(2) rs(1) read_rows have "pls = map (\<lambda>r. (row_player id r)\<lparr>pl_email := m, pl_password := w\<rparr>) rs"
    by simp
  with t rs(2) show ?thesis by (simp add: mset_map)
qed

lemma mysql_create:
  assumes "mysql_CreatePlayer my pl p = (Inr pl', p')"
  shows "insert_player same (pl_name pl) (pl_password pl) (pl_email pl) (pl_country pl) (table p) = Some (table p') \<and>
      pl' = pl\<lparr>pl_id := of_int (tbl_seq (table p'))\<rparr>"
proof -
  from assms obtain res where r: "mysql_run my sql_insert [Bind_text (pl_name pl), Bind_text (pl_password pl),
      Bind_text (pl_email pl), Bind_text (pl_country pl)] p = (Inr res, p')"
    "pl' = pl\<lparr>pl_id := mr_last_insert_id res\<rparr>"
    by (auto simp: mysql_CreatePlayer_def bind_io_Inr ret_def)
  from run_Inr [OF r(1)] obtain rows where rows: "player_sql mysql_id same sql_insert [Bind_text (pl_name pl),
      Bind_text (pl_password pl), Bind_text (pl_email pl), Bind_text (pl_country pl)] (table p) = Some (rows, table p')"
    "mr_last_insert_id res = of_int (tbl_seq (table p'))" by blast
  from rows(1) have "insert_player same (pl_name pl) (pl_password pl) (pl_email pl) (pl_country pl) (table p) =
      Some (table p')" unfolding player_sql_simps by auto
  with rows(2) r(2) show ?thesis by simp
qed

lemma mysql_update:
  assumes "mysql_UpdatePlayer my pl p = (Inr u, p')"
  shows "table p' = update_player same (pl_name pl) (pl_password pl) (pl_email pl) (pl_country pl) (table p)"
proof -
  from assms obtain res where r: "mysql_run my sql_update [Bind_text (pl_password pl), Bind_text (pl_email pl),
      Bind_text (pl_country pl), Bind_text (pl_name pl)] p = (Inr res, p')"
    by (auto simp: mysql_UpdatePlayer_def bind_io_Inr ret_def)
  from run_Inr [OF r(1)] obtain rows where rows: "player_sql mysql_id same sql_update [Bind_text (pl_password pl),
      Bind_text (pl_email pl), Bind_text (pl_country pl), Bind_text (pl_name pl)] (table p) = Some (rows, table p')"
    by blast
  then show ?thesis unfolding player_sql_simps by auto
qed

lemma mysql_reads_fail:
  "mysql_HasPlayer my n p = (Inl e, p') \<Longrightarrow> table p' = table p"
  "mysql_GetPlayerByName my n p = (Inl e, p') \<Longrightarrow> table p' = table p"
  "mysql_GetPlayerByPID my i p = (Inl e, p') \<Longrightarrow> table p' = table p"
  "mysql_GetPlayerByMailAndPassword my m w p = (Inl e, p') \<Longrightarrow> table p' = table p"
  unfolding mysql_HasPlayer_def mysql_GetPlayerByName_def mysql_GetPlayerByPID_def
    mysql_GetPlayerByMailAndPassword_def
  by (erule read_fails; auto simp: lift_exn_def ret_def player_sql_simps)+

lemma mysql_writes_fail:
  "mysql_CreatePlayer my pl p = (Inl e, p') \<Longrightarrow> table p' = table p"
  "mysql_UpdatePlayer my pl p = (Inl e, p') \<Longrightarrow> table p' = table p"
  unfolding mysql_CreatePlayer_def mysql_UpdatePlayer_def
  by (erule write_fails)+

end

sublocale mysql_directory \<subseteq> players: player_directory "PlayerDBMySQL my" table same id
proof (unfold_locales, unfold PlayerDBMySQL_def player_db.simps)
  show "equivp same" by (rule same_equiv)
  show "mysql_GetPlayerByName my n p = (Inr found, p') \<Longrightarrow> table p' = table p \<and>
      (case found of
         None \<Rightarrow> \<not> name_taken same n (table p)
       | Some pl \<Rightarrow> \<exists>r \<in> set (tbl_rows (table p)). same (row_name r) n \<and> pl = (row_player id r)\<lparr>pl_name := n\<rparr>)"
    for n p found p' using mysql_by_name by fastforce
  show "mysql_GetPlayerByPID my i p = (Inr (Some pl), p') \<Longrightarrow> table p' = table p \<and>
      (\<exists>r \<in> set (tbl_rows (table p)). of_int (row_id r) = i \<and> pl = row_player id r)" for i p pl p'
    using mysql_by_pid by blast
  show "mysql_GetPlayerByPID my i p = (Inr None, p') \<Longrightarrow> table p' = table p \<and>
      (\<forall>r \<in> set (tbl_rows (table p)). 0 \<le> row_id r \<and> row_id r < 2 ^ 63 \<longrightarrow> of_int (row_id r) \<noteq> i)" for i p p'
    using mysql_by_pid by blast
qed (erule mysql_reads_fail mysql_writes_fail mysql_by_mail mysql_create mysql_update | drule mysql_has, simp)+

text \<open>What the contract gives, under each library's hypotheses.\<close>

context sqlite_players
begin

lemmas contract_create_sound = players.create_sound
lemmas contract_update_sound_op = players.update_sound_op
lemmas contract_lookups_sound = players.lookups_sound
lemmas contract_create_then_get = players.create_then_get
lemmas contract_create_duplicate = players.create_duplicate

end

context mysql_directory
begin

lemmas contract_create_sound = players.create_sound
lemmas contract_update_sound_op = players.update_sound_op
lemmas contract_lookups_sound = players.lookups_sound
lemmas contract_create_then_get = players.create_then_get
lemmas contract_create_duplicate = players.create_duplicate

end

section \<open>Executable libraries\<close>

text \<open>
  Both interfaces hold of the table itself: a statement of the source is answered by its meaning, one
  row a step, and a refused one reports \<open>SQLITE_CONSTRAINT\<close> (19) or throws.
\<close>

fun table_step :: "table_stmt \<Rightarrow> player_table \<Rightarrow> nat \<times> table_stmt \<times> player_table" where
  "table_step (Table_stmt sql args None) t =
     (case player_sql Sql_int (=) sql args t of
        None \<Rightarrow> (19, Table_stmt sql args None, t)
      | Some (rows, t') \<Rightarrow> (if rows = [] then 101 else 100, Table_stmt sql args (Some rows), t'))"
| "table_step (Table_stmt sql args (Some rows)) t =
     (if tl rows = [] then 101 else 100, Table_stmt sql args (Some (tl rows)), t)"

definition table_sqlite :: "(player_table, table_stmt) sqlite3" where
  "table_sqlite = \<lparr>
     c_exec = \<lambda>sql t. (0, t), c_set_authorizer = \<lambda>auth t. (0, t), c_errmsg = \<lambda>t. ''constraint failed'',
     c_last_insert_rowid = tbl_seq,
     c_prepare = \<lambda>sql t. (0, Table_stmt sql [] None),
     c_bind_text = \<lambda>pos s. table_bind pos (Bind_text s), c_bind_int = \<lambda>pos n. table_bind pos (Bind_int n),
     c_step = table_step, c_reset = \<lambda>st. (0, st),
     c_column_text = \<lambda>i st. (case table_column i st of Sql_text s \<Rightarrow> Some (c_string s) | _ \<Rightarrow> None),
     c_column_int64 = \<lambda>i st. (case table_column i st of Sql_int n \<Rightarrow> n | Sql_uint n \<Rightarrow> int n | _ \<Rightarrow> 0)\<rparr>"

lemma table_statements_sqlite: "table_statements table_sqlite"
  by (simp add: table_statements_def table_sqlite_def)

lemma table_make: "stmt_make table_sqlite sql args d = (Inr st, d') \<Longrightarrow> st = Table_stmt sql args None"
  by (rule table_statements_make [OF table_statements_sqlite]) (simp_all add: table_sqlite_def)

lemmas table_row_holds = table_statements_row [OF table_statements_sqlite]

lemma table_serves_rest:
  "serves table_sqlite id rows (Table_stmt sql args (Some (row # rows))) t t"
  by (induction rows arbitrary: row) (simp_all add: table_sqlite_def table_row_holds [unfolded table_sqlite_def])

interpretation table_players: sqlite_players table_sqlite id
proof
  show "\<exists>rows'. mset rows' = mset rows \<and> serves table_sqlite id rows' st d t'"
    if "stmt_make table_sqlite sql args d = (Inr st, d)" "player_sql Sql_int (=) sql args (id d) = Some (rows, t')"
    for sql args d st rows t'
    using that table_make [OF that(1)] table_serves_rest [of "tl rows" sql args "hd rows" t']
      table_row_holds [of sql args "hd rows" "tl rows"]
    by (intro exI [of _ rows]; cases rows) (simp_all add: table_sqlite_def)
  show "step_fails table_sqlite id st d"
    if "stmt_make table_sqlite sql args d = (Inr st, d)" "player_sql Sql_int (=) sql args (id d) = None"
    for sql args d st
    using that table_make [OF that(1)] by (simp add: table_sqlite_def step_fails_def)
qed

text \<open>Statements of the source on it, for evaluation.\<close>

definition short_args :: "string \<Rightarrow> sql_arg list \<Rightarrow> bool" where
  "short_args sql args \<longleftrightarrow> length sql \<le> int_max \<and> length args < int_max \<and>
     list_all (\<lambda>arg. case arg of Bind_text s \<Rightarrow> length s \<le> int_max | Bind_int _ \<Rightarrow> True) args"

lemma table_bind_short:
  "length acc + length args < int_max \<Longrightarrow>
   list_all (\<lambda>arg. case arg of Bind_text s \<Rightarrow> length s \<le> int_max | Bind_int _ \<Rightarrow> True) args \<Longrightarrow>
   bind_all table_sqlite (length acc) args (Table_stmt sql acc None) = Inr (Table_stmt sql (acc @ args) None)"
proof (induction args arbitrary: acc)
  case (Cons arg args)
  have "bind_at table_sqlite (length acc + 1) arg (Table_stmt sql acc None) = Inr (Table_stmt sql (acc @ [arg]) None)"
    using Cons.prems by (cases arg) (simp_all add: bind_at_def table_sqlite_def)
  with Cons.prems Cons.IH [of "acc @ [arg]"] show ?case by simp
qed simp

lemma table_stmt_make:
  "short_args sql args \<Longrightarrow> stmt_make table_sqlite sql args t = (Inr (Table_stmt sql args None), t)"
  using table_bind_short [of "[]" args sql]
  by (simp add: short_args_def stmt_make_def stmt_prepare_def bind_io_def lift_exn_def table_sqlite_def)

lemma table_stmt_query:
  "player_sql Sql_int (=) sql args t = Some (rows, t') \<Longrightarrow>
   stmt_query table_sqlite (Table_stmt sql args None) t = (Inr (rows \<noteq> [], Table_stmt sql args (Some rows)), t')"
  "player_sql Sql_int (=) sql args t = None \<Longrightarrow>
   stmt_query table_sqlite (Table_stmt sql args None) t = (Inl Undefined_behaviour, t)"
  by (simp_all add: stmt_query_def table_sqlite_def)

lemma table_columns:
  "column_u64 table_sqlite (Table_stmt sql args (Some (row # rows))) i =
     (case if i < length row then row ! i else Sql_null of Sql_int n \<Rightarrow> of_int n | Sql_uint n \<Rightarrow> of_nat n | _ \<Rightarrow> 0)"
  "column_text table_sqlite (Table_stmt sql args (Some (row # rows))) i =
     (case if i < length row then row ! i else Sql_null of Sql_text s \<Rightarrow> c_string s | _ \<Rightarrow> [])"
  by (simp_all add: column_u64_def column_text_def table_sqlite_def split: sql_value.splits)

lemma table_sqlite_CreatePlayer:
  "short_args sql_insert_returning [Bind_text (pl_name pl), Bind_text (pl_password pl), Bind_text (pl_email pl),
     Bind_text (pl_country pl)] \<Longrightarrow>
   sqlite_CreatePlayer table_sqlite pl t =
     (case insert_player (=) (pl_name pl) (pl_password pl) (pl_email pl) (pl_country pl) t of
        None \<Rightarrow> (Inl Undefined_behaviour, t)
      | Some t' \<Rightarrow> (Inr (pl\<lparr>pl_id := of_int (tbl_seq t')\<rparr>), t'))"
  by (auto simp: sqlite_CreatePlayer_def bind_io_def table_stmt_make table_stmt_query player_sql_simps table_columns
      ret_def split: option.splits)

lemma table_sqlite_GetPlayerByName:
  "short_args sql_by_name [Bind_text n] \<Longrightarrow>
   sqlite_GetPlayerByName table_sqlite n t =
     (case rows_named (=) n t of
        [] \<Rightarrow> (Inr None, t)
      | r # _ \<Rightarrow> (Inr (Some ((row_player c_string r)\<lparr>pl_name := n\<rparr>)), t))"
  by (cases "rows_named (=) n t")
    (auto simp: sqlite_GetPlayerByName_def bind_io_def table_stmt_make table_stmt_query player_sql_simps table_columns
      ret_def short_args_def email_value_def row_player_def PlayerData_of_def numeral_eq_Suc split: option.splits)

lemma table_sqlite_HasPlayer:
  assumes "short_args sql_has [Bind_text n]" "length (tbl_rows t) < 2 ^ 63"
  shows "sqlite_HasPlayer table_sqlite n t = (Inr (name_taken (=) n t), t)"
proof -
  have "\<exists>b. sqlite_HasPlayer table_sqlite n t = (Inr b, t)"
    using assms(1) by (simp add: sqlite_HasPlayer_def bind_io_def table_stmt_make table_stmt_query player_sql_simps ret_def)
  then show ?thesis using table_players.sqlite_has [of n t] assms(2) by auto
qed

lemma short_args_sql:
  "length n \<le> int_max \<Longrightarrow> short_args sql_has [Bind_text n]"
  "length n \<le> int_max \<Longrightarrow> short_args sql_by_name [Bind_text n]"
  "length a \<le> int_max \<Longrightarrow> length b \<le> int_max \<Longrightarrow> length c \<le> int_max \<Longrightarrow> length d \<le> int_max \<Longrightarrow>
   short_args sql_insert_returning [Bind_text a, Bind_text b, Bind_text c, Bind_text d]"
  by (simp_all add: short_args_def int_max_def sql_has_def sql_by_name_def sql_insert_returning_def sql_insert_def)

lemma table_collect:
  "collect_players table_sqlite e w acc (Table_stmt sql args (Some (row # map f rs))) t =
     Some (Inr (acc @ map (\<lambda>r. PlayerData_of (column_u64 table_sqlite (Table_stmt sql args (Some [f r])) 0)
       (column_text table_sqlite (Table_stmt sql args (Some [f r])) 1) e w
       (column_text table_sqlite (Table_stmt sql args (Some [f r])) 2)) rs), t)"
proof (induction rs arbitrary: acc row)
  case Nil
  then show ?case by (subst collect_players.simps) (simp add: stmt_query_def table_sqlite_def)
next
  case (Cons r rs)
  have "stmt_query table_sqlite (Table_stmt sql args (Some (row # f r # map f rs))) t =
      (Inr (True, Table_stmt sql args (Some (f r # map f rs))), t)"
    by (simp add: stmt_query_def table_sqlite_def)
  moreover have "column_u64 table_sqlite (Table_stmt sql args (Some (f r # map f rs))) i =
      column_u64 table_sqlite (Table_stmt sql args (Some [f r])) i"
    "column_text table_sqlite (Table_stmt sql args (Some (f r # map f rs))) i =
      column_text table_sqlite (Table_stmt sql args (Some [f r])) i" for i
    by (simp_all only: table_columns)
  ultimately show ?case by (subst collect_players.simps) (simp add: Cons.IH)
qed

lemma table_sqlite_GetPlayerByMailAndPassword:
  assumes "length e \<le> int_max" "length w \<le> int_max"
  shows "sqlite_GetPlayerByMailAndPassword table_sqlite e w t =
    (Inr (map (\<lambda>r. (row_player c_string r)\<lparr>pl_email := e, pl_password := w\<rparr>) (rows_mailed (=) e w t)), t)"
proof -
  have "short_args sql_by_mail [Bind_text e, Bind_text w]"
    using assms by (simp add: short_args_def sql_by_mail_def int_max_def)
  note make = table_stmt_make [OF this]
  let ?f = "\<lambda>r. [Sql_int (row_id r), Sql_text (row_name r), Sql_text (row_country r)]"
  let ?st = "\<lambda>rows. Table_stmt sql_by_mail [Bind_text e, Bind_text w] rows"
  note query = table_stmt_query(1) [OF player_sql_simps(4)]
  have "collect_players table_sqlite e w [] (?st None) t =
      Some (Inr (map (\<lambda>r. (row_player c_string r)\<lparr>pl_email := e, pl_password := w\<rparr>) (rows_mailed (=) e w t)), t)"
  proof (cases "rows_mailed (=) e w t")
    case Nil
    then show ?thesis by (subst collect_players.simps) (simp add: query)
  next
    case (Cons r rs)
    then show ?thesis
      by (subst collect_players.simps)
        (simp add: query table_collect table_columns row_player_def PlayerData_of_def numeral_eq_Suc)
  qed
  then show ?thesis by (simp add: sqlite_GetPlayerByMailAndPassword_def bind_io_def make)
qed

definition table_mysql :: "(player_table, string) mysql" where
  "table_mysql = \<lparr>
     my_connect = ret (), my_close = ret (), my_prepare = \<lambda>sql. ret sql,
     my_execute = \<lambda>sql args t. (case player_sql mysql_id (=) sql args t of
        None \<Rightarrow> (Inl (Runtime_error ''constraint''), t)
      | Some (rows, t') \<Rightarrow>
          (Inr \<lparr>mr_rows = rows, mr_empty = False, mr_last_insert_id = of_int (tbl_seq t')\<rparr>, t'))\<rparr>"

interpretation table_server: mysql_directory table_mysql id "(=)"
  by unfold_locales (auto simp: table_mysql_def ret_def identity_equivp split: option.splits)

section \<open>Properties\<close>

abbreviation sample_table :: player_table where
  "sample_table \<equiv> \<lparr>tbl_rows = [], tbl_seq = 2900000\<rparr>"

abbreviation sample_player :: player_data where
  "sample_player \<equiv> PlayerData ''bob'' ''bob@ea.com'' ''5f4dcc3b'' ''DE''"

abbreviation sample_registered :: player_table where
  "sample_registered \<equiv>
     \<lparr>tbl_rows = [\<lparr>row_id = 2900001, row_name = ''bob'', row_password = ''5f4dcc3b'',
       row_email = Some ''bob@ea.com'', row_country = ''DE''\<rparr>], tbl_seq = 2900001\<rparr>"

lemma sample_short:
  "short_args sql_insert_returning [Bind_text (pl_name sample_player), Bind_text (pl_password sample_player),
     Bind_text (pl_email sample_player), Bind_text (pl_country sample_player)]"
  "short_args sql_by_name [Bind_text ''bob'']"
  by (simp_all add: short_args_def int_max_def sql_insert_returning_def sql_insert_def sql_by_name_def PlayerData_def)

lemma sample_create:
  "sqlite_CreatePlayer table_sqlite sample_player sample_table =
     (Inr (sample_player\<lparr>pl_id := 2900001\<rparr>), sample_registered)"
  by (simp add: table_sqlite_CreatePlayer [OF sample_short(1)])
    (simp add: insert_player_def rows_named_def PlayerData_def)

lemma sample_get:
  "sqlite_GetPlayerByName table_sqlite ''bob'' sample_registered =
     (Inr (Some (PlayerData_of 2900001 ''bob'' ''bob@ea.com'' ''5f4dcc3b'' ''DE'')), sample_registered)"
  by (simp add: table_sqlite_GetPlayerByName [OF sample_short(2)])
    (simp add: rows_named_def row_player_def PlayerData_of_def c_string_def)



text \<open>
  A name that is taken is refused: \<open>CreatePlayer\<close> of either class throws and the table is as before.
\<close>

theorem taken_name_refused:
  assumes "sqlite_players api table" and "mysql_directory my tbl same"
  shows "(name_taken (=) (pl_name pl) (table d) \<longrightarrow>
      (\<exists>e d'. CreatePlayer (PlayerDBSQLite api) pl d = (Inl e, d') \<and> table d' = table d)) \<and>
    (name_taken same (pl_name pl) (tbl p) \<longrightarrow>
      (\<exists>e p'. CreatePlayer (PlayerDBMySQL my) pl p = (Inl e, p') \<and> tbl p' = tbl p))"
  using sqlite_players.contract_create_duplicate [OF assms(1)] mysql_directory.contract_create_duplicate [OF assms(2)] by blast

text \<open>
  \<open>PlayerDBMySQL::GetPlayerByName\<close> asks \<open>result.empty()\<close>, which tells whether there is a resultset,
  not whether it has rows: a statement that ran and found no player makes it read the first of no
  rows, so an unknown name is undefined behaviour and never \<open>std::nullopt\<close>.
\<close>

theorem mysql_unknown_player:
  assumes "mysql_directory my table same" and "\<not> name_taken same n (table p)"
    and "mysql_run my sql_by_name [Bind_text n] p = (Inr res, p')"
  shows "mysql_GetPlayerByName my n p = (Inl Undefined_behaviour, p')"
proof -
  from mysql_directory.run_Inr [OF assms(1,3)] obtain rows where rows:
    "player_sql mysql_id same sql_by_name [Bind_text n] (table p) = Some (rows, table p')"
    "mset (mr_rows res) = mset rows" "\<not> mr_empty res" by blast
  from assms(2) have "rows_named same n (table p) = []"
    by (simp add: rows_named_def name_taken_def filter_empty_conv)
  with rows(1,2) have "mr_rows res = []" by (simp add: player_sql_simps)
  with rows(3) assms(3) show ?thesis
    by (simp add: mysql_GetPlayerByName_def bind_io_def lift_exn_def front_row_def)
qed

lemma sample_sound: "sound_table (=) sample_table"
  by (simp add: sound_table_def)



theorem taken_name_refused_witness:
  "\<exists>e p'. CreatePlayer (PlayerDBMySQL table_mysql) sample_player sample_registered = (Inl e, p') \<and>
     p' = sample_registered"
proof -
  have "name_taken (=) (pl_name sample_player) (id sample_registered)"
    by (simp add: name_taken_def PlayerData_def)
  from conjunct2 [OF taken_name_refused [OF table_players.sqlite_players_axioms table_server.mysql_directory_axioms],
      rule_format, OF this]
  show ?thesis by simp
qed

theorem mysql_unknown_player_witness:
  "mysql_GetPlayerByName table_mysql ''bob'' sample_table = (Inl Undefined_behaviour, sample_table)"
proof -
  have "mysql_run table_mysql sql_by_name [Bind_text ''bob''] sample_table =
      (Inr \<lparr>mr_rows = [], mr_empty = False, mr_last_insert_id = 2900000\<rparr>, sample_table)"
    by (simp add: mysql_run_def table_mysql_def bind_io_def ret_def player_sql_simps rows_named_def)
  from mysql_unknown_player [OF table_server.mysql_directory_axioms _ this]
  show ?thesis by (simp add: name_taken_def)
qed

end
