(* ===== verification/Text_Stream.thy ===== *)
theory Text_Stream
  imports Text_Format Exn_State
begin

text \<open>
  How the text protocols (login, search, statistics) cut a TCP stream into packets:
  \<open>async_read_until(sock, dynamic_buffer(buffer, limit), "\final\")\<close>, the handling of the packet at the
  front of the buffer, and \<open>buffer.erase(0, length)\<close>.  Shown: the packets depend on the bytes
  received only and not on how they arrive, packets that fit are all seen in order, a packet never
  exceeds the limit, and reading always ends.
\<close>

section \<open>The delimiter\<close>

definition final_mark :: string where
  "final_mark = key ''final''"

lemma final_mark_eq: "final_mark = [BS, CHR ''f'', CHR ''i'', CHR ''n'', CHR ''a'', CHR ''l'', BS]"
  by (simp add: final_mark_def key_def)

lemma length_final_mark [simp]: "length final_mark = 7"
  by (simp add: final_mark_eq)

section \<open>Reading\<close>

text \<open>
  The read completes when the buffer holds the delimiter, with the position after it.  Otherwise a
  full buffer or the end of the stream is an error (\<open>None\<close>).  The list holds what the
  network delivers next; one read takes at most the space that is left.
\<close>

function read_until :: "nat \<Rightarrow> string \<Rightarrow> string list \<Rightarrow> (nat \<times> string \<times> string list) option" where
  "read_until limit buf chunks =
     (case sv_find final_mark buf of
        Some i \<Rightarrow> Some (i + length final_mark, buf, chunks)
      | None \<Rightarrow>
          if limit \<le> length buf then None
          else case chunks of
            [] \<Rightarrow> None
          | c # cs \<Rightarrow>
              let space = limit - length buf in
              if length c \<le> space then read_until limit (buf @ c) cs
              else read_until limit (buf @ take space c) (drop space c # cs))"
  by pat_completeness auto
termination
  by (relation "measure (\<lambda>(limit, buf, chunks). sum_list (map (Suc \<circ> length) chunks))") auto

declare read_until.simps [simp del]

text \<open>
  The packets a connection sees: a packet is the buffer up to the end of the delimiter, and is
  erased after it was handled.
\<close>

definition total_length :: "string \<Rightarrow> string list \<Rightarrow> nat" where
  "total_length buf chunks = length buf + sum_list (map length chunks)"

lemma read_until_total:
  "read_until limit buf chunks = Some (n, buf', chunks') \<Longrightarrow>
   total_length buf' chunks' = total_length buf chunks \<and> 7 \<le> n \<and> n \<le> length buf' \<and>
   sv_find final_mark buf' = Some (n - 7)"
proof (induction limit buf chunks rule: read_until.induct)
  case (1 limit buf chunks)
  show ?case
  proof (cases "sv_find final_mark buf")
    case (Some i)
    with "1.prems" show ?thesis
      using sv_find_Some [OF Some] by (subst (asm) read_until.simps) auto
  next
    case None
    with "1.prems" obtain c cs where c: "\<not> limit \<le> length buf" "chunks = c # cs"
      by (subst (asm) read_until.simps) (auto split: if_splits list.splits)
    show ?thesis
    proof (cases "length c \<le> limit - length buf")
      case True
      with "1.prems" None c have "read_until limit (buf @ c) cs = Some (n, buf', chunks')"
        by (subst (asm) read_until.simps) simp
      from "1.IH"(1) [OF None c refl True this] c show ?thesis by (simp add: total_length_def)
    next
      case False
      with "1.prems" None c
      have "read_until limit (buf @ take (limit - length buf) c) (drop (limit - length buf) c # cs) =
          Some (n, buf', chunks')"
        by (subst (asm) read_until.simps) (simp add: Let_def)
      from "1.IH"(2) [OF None c refl False this] c False show ?thesis by (simp add: total_length_def)
    qed
  qed
qed

function packets :: "nat \<Rightarrow> string \<Rightarrow> string list \<Rightarrow> string list" where
  "packets limit buf chunks =
     (case read_until limit buf chunks of
        None \<Rightarrow> []
      | Some (n, buf, chunks) \<Rightarrow> take n buf # packets limit (drop n buf) chunks)"
  by pat_completeness auto
termination
  by (relation "measure (\<lambda>(limit, buf, chunks). total_length buf chunks)")
    (auto dest!: read_until_total simp: total_length_def)

declare packets.simps [simp del]

section \<open>What is read, independently of the network\<close>

function split_packets :: "nat \<Rightarrow> string \<Rightarrow> string list" where
  "split_packets limit s =
     (case sv_find final_mark s of
        None \<Rightarrow> []
      | Some i \<Rightarrow>
          if limit < i + 7 then []
          else take (i + 7) s # split_packets limit (drop (i + 7) s))"
  by pat_completeness auto
termination
  by (relation "measure (length \<circ> snd)") (auto dest!: sv_find_Some)

declare split_packets.simps [simp del]

lemma prefix_take: "prefix p s \<longleftrightarrow> take (length p) s = p"
  by (metis append_eq_conv_conj prefix_def take_is_prefix)

text \<open>A first occurrence stays the first one when text is appended.\<close>

lemma sv_find_append:
  "sv_find pat s = Some i \<Longrightarrow> sv_find pat (s @ t) = Some i"
proof (rule sv_find_eq)
  assume a: "sv_find pat s = Some i"
  note b = sv_find_Some [OF a]
  show "i \<le> length (s @ t)" using b by simp
  show "prefix pat (drop i (s @ t))" using b by (simp add: prefix_prefix)
  show "\<not> prefix pat (drop j (s @ t))" if "j < i" for j
    using sv_find_first [OF a that] that b by (simp add: prefix_take)
qed

text \<open>The converse: an occurrence that ends inside the first part is found there.\<close>

lemma sv_find_append_inside:
  "sv_find pat (s @ t) = Some i \<Longrightarrow> i + length pat \<le> length s \<Longrightarrow> sv_find pat s = Some i"
proof (rule sv_find_eq)
  assume a: "sv_find pat (s @ t) = Some i" and le: "i + length pat \<le> length s"
  show "i \<le> length s" using le by simp
  show "prefix pat (drop i s)" using sv_find_Some [OF a] le by (simp add: prefix_take)
  show "\<not> prefix pat (drop j s)" if "j < i" for j
    using sv_find_first [OF a that] that le by (auto simp: prefix_prefix)
qed

lemma read_until_spec:
  "length buf \<le> limit \<Longrightarrow>
   (case sv_find final_mark (buf @ concat chunks) of
      None \<Rightarrow> read_until limit buf chunks = None
    | Some i \<Rightarrow>
        if limit < i + 7 then read_until limit buf chunks = None
        else \<exists>buf' chunks'. read_until limit buf chunks = Some (i + 7, buf', chunks') \<and>
          buf' @ concat chunks' = buf @ concat chunks \<and> length buf' \<le> limit)"
proof (induction limit buf chunks rule: read_until.induct)
  case (1 limit buf chunks)
  show ?case
  proof (cases "sv_find final_mark buf")
    case (Some i)
    then show ?thesis
      using "1.prems" sv_find_Some [OF Some] sv_find_append [OF Some]
      by (subst (1 2 3) read_until.simps) auto
  next
    case None
    show ?thesis
    proof (cases "limit \<le> length buf \<or> chunks = []")
      case True
      then have r: "read_until limit buf chunks = None"
        using None by (subst read_until.simps) auto
      have "limit < i + 7" if f: "sv_find final_mark (buf @ concat chunks) = Some i" for i
      proof (rule ccontr)
        assume "\<not> limit < i + 7"
        with True sv_find_Some [OF f] have "i + length final_mark \<le> length buf" using "1.prems" by auto
        with sv_find_append_inside [OF f] None show False by simp
      qed
      with r show ?thesis by (auto split: option.splits)
    next
      case False
      then obtain c cs where c: "\<not> limit \<le> length buf" "chunks = c # cs" by (cases chunks) auto
      show ?thesis
      proof (cases "length c \<le> limit - length buf")
        case True
        then have r: "read_until limit buf chunks = read_until limit (buf @ c) cs"
          using None c by (subst read_until.simps) (simp add: Let_def)
        have e: "(buf @ c) @ concat cs = buf @ concat chunks" by (simp add: c)
        have "length (buf @ c) \<le> limit" using True c by simp
        from "1.IH"(1) [OF None c refl True this] show ?thesis unfolding e r .
      next
        case False
        let ?k = "limit - length buf"
        from False have r: "read_until limit buf chunks =
            read_until limit (buf @ take ?k c) (drop ?k c # cs)"
          using None c by (subst read_until.simps) (simp add: Let_def)
        have e: "(buf @ take ?k c) @ concat (drop ?k c # cs) = buf @ concat chunks" by (simp add: c)
        have "length (buf @ take ?k c) \<le> limit" using c by simp
        from "1.IH"(2) [OF None c refl False this] show ?thesis unfolding e r .
      qed
    qed
  qed
qed

lemma packets_split:
  "length buf \<le> limit \<Longrightarrow> packets limit buf chunks = split_packets limit (buf @ concat chunks)"
proof (induction limit buf chunks rule: packets.induct)
  case (1 limit buf chunks)
  show ?case
  proof (cases "read_until limit buf chunks")
    case None
    with read_until_spec [OF "1.prems", of chunks] show ?thesis
      by (subst packets.simps, subst split_packets.simps) (auto split: option.splits if_splits)
  next
    case (Some r)
    obtain n buf' chunks' where r: "r = (n, buf', chunks')" by (cases r)
    with Some read_until_spec [OF "1.prems", of chunks] obtain i where
      i: "sv_find final_mark (buf @ concat chunks) = Some i" "\<not> limit < i + 7" "n = i + 7"
        "buf' @ concat chunks' = buf @ concat chunks" "length buf' \<le> limit"
      by (auto split: option.splits if_splits)
    have le: "n \<le> length buf'" using read_until_total Some r by blast
    have "packets limit (drop n buf') chunks' = split_packets limit (drop n buf' @ concat chunks')"
      using "1.IH" [OF Some, of n "(buf', chunks')" buf' chunks'] r i by simp
    moreover have "drop n buf' @ concat chunks' = drop n (buf @ concat chunks)"
      using i(4) le by (metis diff_is_0_eq drop0 drop_append)
    moreover have "take n buf' = take n (buf @ concat chunks)"
      using i(4) le by (metis append_Nil2 diff_is_0_eq take0 take_append)
    ultimately show ?thesis
      using i by (subst packets.simps, subst split_packets.simps) (simp add: Some r)
  qed
qed

section \<open>Messages\<close>

text \<open>A message without the delimiter, not even across its end, that fits the buffer.\<close>

definition sendable :: "nat \<Rightarrow> string \<Rightarrow> bool" where
  "sendable limit m \<longleftrightarrow> sv_find final_mark (m @ final_mark) = Some (length m) \<and> length m + 7 \<le> limit"

lemma split_packets_messages:
  "\<forall>m \<in> set ms. sendable limit m \<Longrightarrow>
   split_packets limit (concat (map (\<lambda>m. m @ final_mark) ms) @ rest) =
     map (\<lambda>m. m @ final_mark) ms @ split_packets limit rest"
proof (induction ms)
  case (Cons m ms)
  then have "sv_find final_mark ((m @ final_mark) @ concat (map (\<lambda>m. m @ final_mark) ms) @ rest) = Some (length m)"
    "length m + 7 \<le> limit"
    by (simp_all add: sendable_def sv_find_append del: append_assoc)
  with Cons show ?case by (subst split_packets.simps) simp
qed simp

lemma split_packets_bound: "p \<in> set (split_packets limit s) \<Longrightarrow> length p \<le> limit"
proof (induction limit s rule: split_packets.induct)
  case (1 limit s)
  show ?case
  proof (cases "sv_find final_mark s")
    case (Some i)
    with 1 show ?thesis by (subst (asm) (2) split_packets.simps) (auto split: if_splits)
  qed (use 1 in \<open>subst (asm) (2) split_packets.simps, simp\<close>)
qed

lemma split_packets_end: "p \<in> set (split_packets limit s) \<Longrightarrow> \<exists>m. p = m @ final_mark"
proof (induction limit s rule: split_packets.induct)
  case (1 limit s)
  show ?case
  proof (cases "sv_find final_mark s")
    case (Some i)
    note i = sv_find_Some [OF Some]
    then have "take (i + 7) s = take i s @ final_mark" by (simp add: take_add prefix_take)
    with 1 Some show ?thesis by (subst (asm) (2) split_packets.simps) (auto split: if_splits)
  qed (use 1 in \<open>subst (asm) (2) split_packets.simps, simp\<close>)
qed

text \<open>
  The code looks for the command with \<open>buffer.starts_with(...)\<close>, in the whole buffer; the command
  is never longer than the packet, so the packet alone decides.
\<close>

lemma command_in_packet:
  assumes "read_until limit buf chunks = Some (n, buf', chunks')" "sv_find final_mark cmd = None"
  shows "prefix cmd buf' \<longleftrightarrow> prefix cmd (take n buf')"
proof -
  have f: "sv_find final_mark buf' = Some (n - 7) \<and> 7 \<le> n"
    using read_until_total [OF assms(1)] by simp
  have "n < length cmd \<Longrightarrow> \<not> prefix cmd buf'"
  proof
    assume lt: "n < length cmd" and p: "prefix cmd buf'"
    then obtain r where r: "buf' = cmd @ r" by (auto simp: prefix_def)
    from f lt have "n - 7 + length final_mark \<le> length cmd" by simp
    with f r assms(2) sv_find_append_inside [of final_mark cmd r "n - 7"] show False by simp
  qed
  moreover have "prefix cmd (take n buf') \<Longrightarrow> \<not> n < length cmd"
    using prefix_length_le by fastforce
  ultimately show ?thesis
    by (cases "n < length cmd") (auto simp: prefix_take min_def)
qed

section \<open>Serving a connection\<close>

text \<open>
  The loop of the text servers: \<open>while (m_Socket.is_open())\<close>, read until the delimiter, hand the
  buffer and its first packet to the handlers, erase the packet.  An exception leaves the loop.
\<close>

function serve_packets ::
  "nat \<Rightarrow> ('m \<Rightarrow> bool) \<Rightarrow> (string \<Rightarrow> string \<Rightarrow> ('m, unit) io) \<Rightarrow> string \<Rightarrow> string list \<Rightarrow> ('m, unit) io"
where
  "serve_packets limit is_open handle buf chunks m =
     (if \<not> is_open m then (Inr (), m)
      else case read_until limit buf chunks of
        None \<Rightarrow> (Inr (), m)
      | Some (n, buf, chunks) \<Rightarrow>
          (case handle buf (take n buf) m of
             (Inl e, m) \<Rightarrow> (Inl e, m)
           | (Inr _, m) \<Rightarrow> serve_packets limit is_open handle (drop n buf) chunks m))"
  by pat_completeness auto
termination
  by (relation "measure (\<lambda>(limit, is_open, handle, buf, chunks, m). total_length buf chunks)")
    (auto dest!: read_until_total simp: total_length_def)

declare serve_packets.simps [simp del]

fun serve_list :: "('m \<Rightarrow> bool) \<Rightarrow> (string \<Rightarrow> ('m, unit) io) \<Rightarrow> string list \<Rightarrow> ('m, unit) io" where
  "serve_list is_open handle [] m = (Inr (), m)"
| "serve_list is_open handle (p # ps) m =
     (if \<not> is_open m then (Inr (), m)
      else case handle p m of
        (Inl e, m) \<Rightarrow> (Inl e, m)
      | (Inr _, m) \<Rightarrow> serve_list is_open handle ps m)"

lemma serve_packets_list:
  assumes "\<And>buf chunks n buf' chunks'. read_until limit buf chunks = Some (n, buf', chunks') \<Longrightarrow>
      handle buf' (take n buf') = handle1 (take n buf')"
  shows "serve_packets limit is_open handle buf chunks m = serve_list is_open handle1 (packets limit buf chunks) m"
  using assms
proof (induction limit is_open handle buf chunks m rule: serve_packets.induct)
  case (1 limit is_open handle buf chunks m)
  show ?case
  proof (cases "\<not> is_open m")
    case True
    then show ?thesis
      by (subst serve_packets.simps) (cases "packets limit buf chunks"; simp)
  next
    case False
    show ?thesis
    proof (cases "read_until limit buf chunks")
      case None
      with False show ?thesis by (subst serve_packets.simps, subst packets.simps) simp
    next
      case (Some r)
      obtain n b c where r: "r = (n, b, c)" by (cases r)
      note read = Some [unfolded r]
      have p: "packets limit buf chunks = take n b # packets limit (drop n b) c"
        by (subst packets.simps) (simp add: read)
      have h1: "handle b (take n b) = handle1 (take n b)" by (rule "1.prems") (rule read)
      obtain x m' where h: "handle1 (take n b) m = (x, m')" by (cases "handle1 (take n b) m")
      show ?thesis
      proof (cases x)
        case (Inl e)
        with False read p h h1 show ?thesis by (subst serve_packets.simps) simp
      next
        case (Inr u)
        with False read p h h1 have "serve_packets limit is_open handle buf chunks m =
            serve_packets limit is_open handle (drop n b) c m'"
          by (subst serve_packets.simps) simp
        moreover have "serve_packets limit is_open handle (drop n b) c m' =
            serve_list is_open handle1 (packets limit (drop n b) c) m'"
          by (rule "1.IH" [OF False read refl refl _ Inr]) (use h h1 "1.prems" in \<open>simp_all\<close>)
        ultimately show ?thesis using False p h Inr by simp
      qed
    qed
  qed
qed

lemma preserves_serve_packets:
  assumes "\<And>buf p. preserves I (handle buf p)"
  shows "preserves I (serve_packets limit is_open handle buf chunks)"
proof -
  have "I m \<Longrightarrow> I (snd (serve_packets limit is_open handle buf chunks m))" for m
    using assms
  proof (induction limit is_open handle buf chunks m rule: serve_packets.induct)
    case (1 limit is_open handle buf chunks m)
    show ?case
    proof (cases "\<not> is_open m \<or> read_until limit buf chunks = None")
      case True
      with "1.prems" show ?thesis by (subst serve_packets.simps) auto
    next
      case False
      then obtain n b c where r: "is_open m" "read_until limit buf chunks = Some (n, b, c)" by auto
      obtain x m' where h: "handle b (take n b) m = (x, m')" by (cases "handle b (take n b) m")
      have m': "I m'" using preservesD [OF "1.prems"(2) "1.prems"(1), of b "take n b"] h by simp
      show ?thesis
      proof (cases x)
        case (Inl e)
        with r h m' show ?thesis by (subst serve_packets.simps) simp
      next
        case (Inr u)
        with r h have "serve_packets limit is_open handle buf chunks m =
            serve_packets limit is_open handle (drop n b) c m'"
          by (subst serve_packets.simps) simp
        with "1.IH" [OF _ r(2) refl refl h [symmetric] Inr m' "1.prems"(2)] r(1) show ?thesis by simp
      qed
    qed
  qed
  then show ?thesis by (simp add: preserves_def)
qed

section \<open>Properties\<close>

text \<open>
  C27. However the network divides the bytes, a connection sees exactly the messages sent to it, in
  order, each with its delimiter, as long as they fit the buffer; and whatever is sent, no
  packet is longer than the buffer's limit.
\<close>

theorem text_packets_delivered:
  assumes "concat chunks = concat (map (\<lambda>m. m @ final_mark) ms) @ rest"
    and "\<forall>m \<in> set ms. sendable limit m"
  shows "packets limit [] chunks = map (\<lambda>m. m @ final_mark) ms @ packets limit [] [rest] \<and>
    (\<forall>p \<in> set (packets limit [] chunks). length p \<le> limit)"
  using assms(1) split_packets_messages [OF assms(2), of rest] split_packets_bound [of _ limit "concat chunks"]
  by (simp add: packets_split)

theorem text_packets_delivered_witness:
  "packets 2048 [] [''a'', BS # ''fin'', ''al'' @ [BS] @ ''b'', final_mark @ ''c''] =
     [''a'' @ final_mark, ''b'' @ final_mark] @ packets 2048 [] [''c'']"
proof -
  have "concat [''a'', BS # ''fin'', ''al'' @ [BS] @ ''b'', final_mark @ ''c''] =
      concat (map (\<lambda>m. m @ final_mark) [''a'', ''b'']) @ ''c''"
    by (simp add: final_mark_eq)
  moreover have "\<forall>m \<in> set [''a'', ''b'']. sendable 2048 m"
    by (simp add: sendable_def final_mark_eq)
  ultimately show ?thesis
    using text_packets_delivered [of "[''a'', BS # ''fin'', ''al'' @ [BS] @ ''b'', final_mark @ ''c'']"
        "[''a'', ''b'']" "''c''" 2048] by simp
qed

end
