(* ===== verification/Login_Client.thy ===== *)
theory Login_Client
  imports Player_Db Text_Stream Crypt_Utils
begin

text \<open>
  A connection to the login server (\<open>emulator/gpcm.client.h\<close>, \<open>emulator/gpcm.client.cpp\<close>, port 29900):
  the challenge, \<open>login\<close>, \<open>newuser\<close>, \<open>getprofile\<close>, \<open>updatepro\<close> and \<open>logout\<close>.  The connection is the
  record \<open>login_client\<close>, which includes the player database it shares with the other servers; what
  comes from outside is the record \<open>login_env\<close>.  Shown: a session is authenticated only by the
  right response to its own challenge, each request is answered as the protocol says on
  every branch, and a player who registers can log in.
\<close>

section \<open>State\<close>

datatype login_state = INITIALIZING | AUTHENTICATING | AUTHENTICATED | LOGGING_OUT

record 'p login_client =
  lc_PlayerDB :: 'p
  lc_PlayerData :: "player_data option"
  lc_ServerChallenge :: string
  lc_LoginTicket :: string
  lc_State :: login_state
  lc_sent :: "string list"
  lc_open :: bool

text \<open>
  The virtual operations of the player database; boost's base64 decoder (\<open>None\<close>: it throws) and
  \<open>crc_16_type\<close>; the draws of the random generator; \<open>async_send\<close>, which throws when the connection is
  broken.
\<close>

record 'p login_env =
  le_db :: "'p player_db"
  le_dec64 :: "string \<Rightarrow> string option"
  le_crc16 :: "string \<Rightarrow> u16"
  le_rng :: "nat \<Rightarrow> nat"
  le_send :: "string \<Rightarrow> exn + unit"

definition login_client_of :: "'p \<Rightarrow> 'p login_client" where
  "login_client_of p =
     \<lparr>lc_PlayerDB = p, lc_PlayerData = None, lc_ServerChallenge = [], lc_LoginTicket = [],
      lc_State = INITIALIZING, lc_sent = [], lc_open = True\<rparr>"

definition login_db :: "('p, 'a) io \<Rightarrow> ('p login_client, 'a) io" where
  "login_db = zoom lc_PlayerDB (\<lambda>p m. m\<lparr>lc_PlayerDB := p\<rparr>)"

definition login_send :: "'p login_env \<Rightarrow> string \<Rightarrow> ('p login_client, unit) io" where
  "login_send env response =
     then_io (lift_exn (le_send env response)) (modify (\<lambda>m. m\<lparr>lc_sent := lc_sent m @ [response]\<rparr>))"

definition set_state :: "login_state \<Rightarrow> ('p login_client, unit) io" where
  "set_state s = modify (\<lambda>m. m\<lparr>lc_State := s\<rparr>)"

definition set_player :: "player_data option \<Rightarrow> ('p login_client, unit) io" where
  "set_player pl = modify (\<lambda>m. m\<lparr>lc_PlayerData := pl\<rparr>)"

text \<open>\<open>*m_PlayerData\<close> of no player is undefined.\<close>

definition the_player :: "('p login_client, player_data) io" where
  "the_player = (\<lambda>m. case lc_PlayerData m of
     None \<Rightarrow> (Inl Undefined_behaviour, m)
   | Some pl \<Rightarrow> (Inr pl, m))"

section \<open>Answers\<close>

definition login_error :: "u32 \<Rightarrow> nat \<Rightarrow> string \<Rightarrow> bool \<Rightarrow> string" where
  "login_error requestId errorCode errorMessage fatal =
     key ''error'' @ key ''err'' @ dec errorCode @ key ''errmsg'' @ errorMessage @
     (if fatal then key ''fatal'' else []) @
     key ''id'' @ dec (unat requestId) @ final_mark"

definition SendError ::
  "'p login_env \<Rightarrow> u32 \<Rightarrow> nat \<Rightarrow> string \<Rightarrow> bool \<Rightarrow> ('p login_client, unit) io"
where
  "SendError env requestId errorCode errorMessage fatal =
     login_send env (login_error requestId errorCode errorMessage fatal)"

definition invalid_query :: string where
  "invalid_query = ''Invalid Query!''"

text \<open>2014-05-31\<close>

definition birthday :: u32 where
  "birthday = to_date \<lparr>cd_year = 2014, cd_month = 5, cd_day = 31\<rparr>"

definition player_info :: "player_data \<Rightarrow> string \<Rightarrow> u32 \<Rightarrow> string" where
  "player_info pl ticket requestId =
     key ''pi'' @ key ''profileid'' @ dec (unat (GetProfileID pl)) @ key ''nick'' @ pl_name pl @
     key ''userid'' @ dec (unat (GetUserID pl)) @ key ''email'' @ pl_email pl @
     key ''sig'' @ ticket @ key ''uniquenick'' @ pl_name pl @ key ''pid'' @ ''0'' @
     key ''firstname'' @ key ''lastname'' @ key ''countrycode'' @ pl_country pl @
     key ''birthday'' @ dec (unat birthday) @ key ''lon'' @ ''0.000000'' @ key ''lat'' @ ''0.000000'' @
     key ''loc'' @ key ''id'' @ dec (unat requestId) @ final_mark"

definition SendPlayerData :: "'p login_env \<Rightarrow> u32 \<Rightarrow> ('p login_client, unit) io" where
  "SendPlayerData env requestId =
     bind_io the_player (\<lambda>pl.
     bind_io (gets lc_LoginTicket) (\<lambda>ticket. login_send env (player_info pl ticket requestId)))"

section \<open>Requests\<close>

definition SendChallenge :: "'p login_env \<Rightarrow> ('p login_client, unit) io" where
  "SendChallenge env =
     (let challenge = random_string (le_rng env) ''ABCDEFGHIJKLMNOPQRSTUVWXYZ'' (128 - 1);
          ticket = random_string (\<lambda>i. le_rng env (127 + i))
            ''0123456789abcdefghijklmnopqrstuvwxyzABCDEFGHIJKLMNOPQRSTUVWXYZ]['' (25 - 3) @ ''__''
      in then_io (modify (\<lambda>m. m\<lparr>lc_ServerChallenge := challenge, lc_LoginTicket := ticket\<rparr>))
        (then_io (login_send env
            (key ''lc'' @ ''1'' @ key ''challenge'' @ challenge @ key ''id'' @ ''1'' @ final_mark))
          (set_state AUTHENTICATING)))"

definition login_reply :: "player_data \<Rightarrow> string \<Rightarrow> string \<Rightarrow> string" where
  "login_reply pl ticket proof =
     key ''lc'' @ ''2'' @ key ''sesskey'' @ dec (unat (pl_session pl)) @
     key ''userid'' @ dec (unat (GetUserID pl)) @ key ''profileid'' @ dec (unat (GetProfileID pl)) @
     key ''uniquenick'' @ pl_name pl @ key ''lt'' @ ticket @ key ''proof'' @ proof @ [BS] @
     key ''id'' @ ''1'' @ final_mark"

text \<open>The part of \<open>HandleLogin\<close> after the player was found.\<close>

definition login_player ::
  "'p login_env \<Rightarrow> string \<Rightarrow> string \<Rightarrow> string \<Rightarrow> player_data \<Rightarrow> ('p login_client, unit) io"
where
  "login_player env playerName clientChallenge challengeResponse player =
     bind_io (gets lc_ServerChallenge) (\<lambda>serverChallenge.
     if challengeResponse \<noteq> generate_challenge playerName (pl_password player) clientChallenge serverChallenge
     then SendError env 1 260 ''The password provided is incorrect.'' True
     else
       (let data = player\<lparr>pl_session := le_crc16 env playerName\<rparr>;
            proof = generate_challenge (pl_name data) (pl_password player) serverChallenge clientChallenge
        in then_io (set_player (Some data))
          (bind_io (gets lc_LoginTicket) (\<lambda>ticket.
           then_io (login_send env (login_reply data ticket proof)) (set_state AUTHENTICATED)))))"

definition HandleLogin :: "'p login_env \<Rightarrow> string \<Rightarrow> ('p login_client, unit) io" where
  "HandleLogin env packet =
     bind_io (gets lc_State) (\<lambda>state.
     if state \<noteq> AUTHENTICATING then ret ()
     else
       (let uniqueNick = value_for_key packet (key ''uniquenick'');
            user = value_for_key packet (key ''user'');
            clientChallenge = value_for_key packet (key ''challenge'');
            challengeResponse = value_for_key packet (key ''response'')
        in if (uniqueNick = None \<and> user = None) \<or> clientChallenge = None \<or> challengeResponse = None
           then SendError env 1 0 invalid_query True
           else
             (let playerName = (case uniqueNick of Some n \<Rightarrow> n | None \<Rightarrow> the user)
              in if playerName = [] then SendError env 1 0 invalid_query True
                 else
                   bind_io (login_db (HasPlayer (le_db env) playerName)) (\<lambda>exists.
                   if \<not> exists then
                     SendError env 1 265 (''Username ['' @ playerName @ ''] doesn'' @ [CHR 0x27] @ ''t exist!'') True
                   else
                     bind_io (login_db (GetPlayerByName (le_db env) playerName)) (\<lambda>player.
                     (case player of
                        None \<Rightarrow> throw Undefined_behaviour
                      | Some player \<Rightarrow>
                          login_player env playerName (the clientChallenge) (the challengeResponse) player))))))"

definition new_user_reply :: "player_data \<Rightarrow> string" where
  "new_user_reply pl =
     key ''nur'' @ key ''userid'' @ dec (unat (GetUserID pl)) @ key ''profileid'' @ dec (unat (GetProfileID pl)) @
     key ''id'' @ ''1'' @ final_mark"

text \<open>
  \<open>CreatePlayer\<close> gets a reference to the player of the connection, which is stored before and
  changed by it.
\<close>

definition HandleNewUser :: "'p login_env \<Rightarrow> string \<Rightarrow> ('p login_client, unit) io" where
  "HandleNewUser env packet =
     bind_io (gets lc_State) (\<lambda>state.
     if state \<noteq> AUTHENTICATING then SendError env 1 0 invalid_query True
     else
       (case (value_for_key packet (key ''email''), value_for_key packet (key ''nick''),
              value_for_key packet (key ''passwordenc'')) of
          (Some email, Some nick, Some passwordEnc) \<Rightarrow>
            bind_io (login_db (HasPlayer (le_db env) nick)) (\<lambda>exists.
            if exists then SendError env 1 516 ''This account name is already in use!'' True
            else
              (case passdecode (le_dec64 env) passwordEnc of
                 None \<Rightarrow> throw (Runtime_error ''dataflow_exception'')
               | Some password \<Rightarrow>
                   if length password < 3 then
                     SendError env 1 0 ''The password is too short, must be 3 characters at least!'' True
                   else if length password > 30 then
                     SendError env 1 0 ''The password is too long, must be 30 characters at most!'' True
                   else
                     (let player = PlayerData nick email (utils_md5 password) ''??''
                      in then_io (set_player (Some player))
                        (bind_io (login_db (CreatePlayer (le_db env) player)) (\<lambda>player.
                         then_io (set_player (Some player))
                           (login_send env (new_user_reply player)))))))
        | _ \<Rightarrow> SendError env 1 0 invalid_query True))"

definition HandleGetProfile :: "'p login_env \<Rightarrow> string \<Rightarrow> ('p login_client, unit) io" where
  "HandleGetProfile env packet =
     (case value_for_key_u32 packet (key ''id'') of
        None \<Rightarrow> SendError env 0 0 invalid_query True
      | Some requestId \<Rightarrow>
          bind_io (gets lc_State) (\<lambda>state.
          if state \<noteq> AUTHENTICATED then SendError env requestId 0 invalid_query True
          else SendPlayerData env requestId))"

definition HandleUpdateProfile :: "'p login_env \<Rightarrow> string \<Rightarrow> ('p login_client, unit) io" where
  "HandleUpdateProfile env packet =
     bind_io (gets lc_State) (\<lambda>state.
     if state \<noteq> AUTHENTICATED then SendError env (-1) 0 invalid_query True
     else
       (case value_for_key packet (key ''countrycode'') of
          None \<Rightarrow> ret ()
        | Some countryCode \<Rightarrow>
            bind_io the_player (\<lambda>pl.
            let player = pl\<lparr>pl_country := map toupper countryCode\<rparr>
            in then_io (set_player (Some player)) (login_db (UpdatePlayer (le_db env) player)))))"

definition HandleLogout :: "string \<Rightarrow> ('p login_client, unit) io" where
  "HandleLogout packet = modify (\<lambda>m. m\<lparr>lc_open := False\<rparr>)"

text \<open>The command is looked for in the whole buffer, of which \<open>packet\<close> is the front.\<close>

definition login_dispatch :: "'p login_env \<Rightarrow> string \<Rightarrow> string \<Rightarrow> ('p login_client, unit) io" where
  "login_dispatch env buffer packet =
     (if prefix (key ''login'') buffer then HandleLogin env packet
      else if prefix (key ''newuser'') buffer then HandleNewUser env packet
      else if prefix (key ''getprofile'') buffer then HandleGetProfile env packet
      else if prefix (key ''updatepro'') buffer then HandleUpdateProfile env packet
      else if prefix (key ''logout'') buffer then HandleLogout packet
      else SendError env 0 0 invalid_query False)"

definition login_Process :: "'p login_env \<Rightarrow> string list \<Rightarrow> ('p login_client, unit) io" where
  "login_Process env chunks =
     then_io (SendChallenge env) (serve_packets 2048 lc_open (login_dispatch env) [] chunks)"

text \<open>
  \<open>KeepAliveClient\<close>, which nothing starts: the outcomes of the timer, one per minute, with \<open>False\<close> for an error.
\<close>

fun KeepAliveClient :: "'p login_env \<Rightarrow> bool list \<Rightarrow> ('p login_client, unit) io" where
  "KeepAliveClient env [] = ret ()"
| "KeepAliveClient env (expired # timers) =
     (if \<not> expired then ret ()
      else
        bind_io (gets lc_LoginTicket) (\<lambda>ticket.
        then_io (login_send env (key ''lt'' @ ticket @ ''__'' @ final_mark @ key ''ka'' @ final_mark))
          (KeepAliveClient env timers)))"

text \<open>\<open>LoginServer::HandleIncoming\<close>: what \<open>Process\<close> throws is logged.\<close>

definition login_HandleIncoming :: "'p login_env \<Rightarrow> string list \<Rightarrow> 'p \<Rightarrow> (exn + unit) \<times> 'p login_client" where
  "login_HandleIncoming env chunks p = try_log (login_Process env chunks) (login_client_of p)"


section \<open>Rules\<close>

named_theorems login_defs

lemmas [login_defs] = SendChallenge_def login_player_def HandleLogin_def HandleNewUser_def HandleGetProfile_def
  HandleUpdateProfile_def HandleLogout_def SendPlayerData_def SendError_def

text \<open>What an operation changes, whether it returns or throws.\<close>

lemma login_db_simps [io_simps]:
  "op (lc_PlayerDB m) = (r, p) \<Longrightarrow> login_db op m = (r, m\<lparr>lc_PlayerDB := p\<rparr>)"
  by (simp add: login_db_def zoom_def)

lemma snd_login_db: "snd (login_db op m) = m\<lparr>lc_PlayerDB := snd (op (lc_PlayerDB m))\<rparr>"
  by (simp add: login_db_def zoom_def split: prod.splits)

lemma login_send_ok [io_simps]:
  "le_send env s = Inr () \<Longrightarrow> login_send env s m = (Inr (), m\<lparr>lc_sent := lc_sent m @ [s]\<rparr>)"
  by (simp add: login_send_def then_io_def bind_io_def lift_exn_def modify_def)

lemma snd_login_send: "snd (login_send env s m) = (case le_send env s of Inl _ \<Rightarrow> m | Inr _ \<Rightarrow> m\<lparr>lc_sent := lc_sent m @ [s]\<rparr>)"
  by (simp add: login_send_def then_io_def bind_io_def lift_exn_def modify_def split: sum.splits)

lemma preserves_login_db:
  "(\<And>m p. I m \<Longrightarrow> I (m\<lparr>lc_PlayerDB := p\<rparr>)) \<Longrightarrow> preserves I (login_db op)"
  by (simp add: preserves_def snd_login_db)

lemma preserves_login_send:
  "(\<And>m s. I m \<Longrightarrow> I (m\<lparr>lc_sent := s\<rparr>)) \<Longrightarrow> preserves I (login_send env r)"
  by (simp add: preserves_def snd_login_send split: sum.splits)

lemma preserves_the_player: "preserves I the_player"
  by (simp add: preserves_def the_player_def split: option.splits)

section \<open>Sessions\<close>

text \<open>
  What can happen to a connection between two of its packets: another connection changes the
  database.  A session is the list of the packets handled so far, each without throwing.
\<close>

definition login_handle :: "'p login_env \<Rightarrow> string \<Rightarrow> ('p login_client, unit) io" where
  "login_handle env packet = login_dispatch env packet packet"

inductive login_session :: "'p login_env \<Rightarrow> 'p login_client \<Rightarrow> string list \<Rightarrow> 'p login_client \<Rightarrow> bool"
  for env m0 where
  session_start: "SendChallenge env m0 = (Inr (), m) \<Longrightarrow> login_session env m0 [] m"
| session_packet: "login_session env m0 ps m \<Longrightarrow> lc_open m \<Longrightarrow> login_handle env p m = (Inr (), m') \<Longrightarrow>
    login_session env m0 (ps @ [p]) m'"
| session_database: "login_session env m0 ps m \<Longrightarrow> login_session env m0 ps (m\<lparr>lc_PlayerDB := q\<rparr>)"

text \<open>The packets of a connection, cut from the stream, form a session.\<close>

lemma login_command: "sv_find final_mark (key c) = None \<Longrightarrow> read_until limit buf chunks = Some (n, buf', chunks') \<Longrightarrow>
  prefix (key c) buf' = prefix (key c) (take n buf')"
  using command_in_packet by blast

lemma login_dispatch_packet:
  assumes "read_until limit buf chunks = Some (n, buf', chunks')"
  shows "login_dispatch env buf' (take n buf') = login_handle env (take n buf')"
proof -
  have "prefix (key c) buf' = prefix (key c) (take n buf')"
    if "c \<in> {''login'', ''newuser'', ''getprofile'', ''updatepro'', ''logout''}" for c
    by (rule login_command [OF _ assms]) (use that in \<open>auto simp: final_mark_eq key_def\<close>)
  then show ?thesis by (simp add: login_dispatch_def login_handle_def)
qed

lemma login_Process_packets:
  "login_Process env chunks =
     then_io (SendChallenge env) (serve_list lc_open (login_handle env) (packets 2048 [] chunks))"
  unfolding login_Process_def
  by (rule arg_cong [where f = "then_io (SendChallenge env)"], rule ext)
    (rule serve_packets_list, rule login_dispatch_packet)

lemma serve_list_session:
  "serve_list lc_open (login_handle env) ps m = (Inr (), m') \<Longrightarrow> login_session env m0 qs m \<Longrightarrow>
   \<exists>rs. prefix rs ps \<and> login_session env m0 (qs @ rs) m'"
proof (induction ps arbitrary: m qs)
  case Nil
  then show ?case by (auto intro: exI [of _ "[]"])
next
  case (Cons p ps)
  show ?case
  proof (cases "lc_open m")
    case False
    with Cons.prems show ?thesis by (auto intro: exI [of _ "[]"])
  next
    case True
    with Cons.prems(1) obtain m1 where h: "login_handle env p m = (Inr (), m1)"
      "serve_list lc_open (login_handle env) ps m1 = (Inr (), m')"
      by (auto split: prod.splits sum.splits)
    from Cons.IH [OF h(2) session_packet [OF Cons.prems(2) True h(1)]] obtain rs where
      "prefix rs ps" "login_session env m0 (qs @ [p] @ rs) m'" by auto
    then show ?thesis by (intro exI [of _ "p # rs"]) simp
  qed
qed

text \<open>Who is authenticated has a player.\<close>

definition login_inv :: "'p login_client \<Rightarrow> bool" where
  "login_inv m \<longleftrightarrow> (lc_State m = AUTHENTICATED \<longrightarrow> lc_PlayerData m \<noteq> None)"


section \<open>Who gets authenticated\<close>

text \<open>The name a login packet is for, and the response it must carry.\<close>

definition login_name :: "string \<Rightarrow> string option" where
  "login_name p =
     (case value_for_key p (key ''uniquenick'') of Some n \<Rightarrow> Some n | None \<Rightarrow> value_for_key p (key ''user''))"

definition right_response :: "string \<Rightarrow> string \<Rightarrow> player_data \<Rightarrow> bool" where
  "right_response serverChallenge p pl =
     (case (login_name p, value_for_key p (key ''challenge''), value_for_key p (key ''response'')) of
        (Some n, Some c, Some r) \<Rightarrow> r = generate_challenge n (pl_password pl) c serverChallenge
      | _ \<Rightarrow> False)"

text \<open>The database has answered a name with a player.\<close>

definition looked_up :: "'p player_db \<Rightarrow> string \<Rightarrow> player_data \<Rightarrow> bool" where
  "looked_up db n pl \<longleftrightarrow>
     (\<exists>q q1 q2. HasPlayer db n q = (Inr True, q1) \<and> GetPlayerByName db n q1 = (Inr (Some pl), q2))"

definition same_account :: "player_data \<Rightarrow> player_data option \<Rightarrow> bool" where
  "same_account pl d \<longleftrightarrow> (case d of None \<Rightarrow> False | Some d \<Rightarrow>
     pl_id d = pl_id pl \<and> pl_name d = pl_name pl \<and> pl_password d = pl_password pl)"

definition login_event :: "'p login_env \<Rightarrow> string \<Rightarrow> 'p login_client \<Rightarrow> 'p login_client \<Rightarrow> bool" where
  "login_event env p m m' \<longleftrightarrow> lc_State m = AUTHENTICATING \<and>
     (\<exists>n pl. login_name p = Some n \<and> n \<noteq> [] \<and> looked_up (le_db env) n pl \<and>
        right_response (lc_ServerChallenge m) p pl \<and> same_account pl (lc_PlayerData m'))"

lemma login_player_effect:
  assumes "login_player env n c r pl m = (x, m')"
  shows "lc_ServerChallenge m' = lc_ServerChallenge m \<and>
    (lc_State m' = lc_State m \<or> (lc_State m' = AUTHENTICATED \<and>
      r = generate_challenge n (pl_password pl) c (lc_ServerChallenge m) \<and> same_account pl (lc_PlayerData m')))"
proof (cases "r = generate_challenge n (pl_password pl) c (lc_ServerChallenge m)")
  case True
  with assms show ?thesis
    by (auto simp: login_player_def bind_io_def gets_def then_io_def set_player_def set_state_def modify_def
        login_send_def lift_exn_def Let_def same_account_def split: sum.splits)
next
  case False
  with assms have "m' = snd (SendError env 1 260 ''The password provided is incorrect.'' True m)"
    by (simp add: login_player_def bind_io_def gets_def)
  then show ?thesis by (simp add: SendError_def snd_login_send split: sum.splits)
qed

lemma SendError_effect:
  "SendError env i e t f m = (x, m') \<Longrightarrow> \<exists>s. m' = m\<lparr>lc_sent := s\<rparr>"
  using snd_login_send [of env "login_error i e t f" m]
  by (auto simp: SendError_def split: sum.splits intro: exI [of _ "lc_sent m"])

lemma HandleLogin_effect:
  assumes "HandleLogin env p m = (x, m')"
  shows "lc_ServerChallenge m' = lc_ServerChallenge m \<and>
    (lc_State m' = lc_State m \<or> lc_State m' = AUTHENTICATED \<and> login_event env p m m') \<and>
    (lc_State m = AUTHENTICATED \<longrightarrow> m' = m)"
proof (cases "lc_State m = AUTHENTICATING")
  case False
  with assms show ?thesis by (simp add: HandleLogin_def bind_io_def gets_def ret_def)
next
  case state: True
  show ?thesis
  proof (cases "login_name p = None \<or> login_name p = Some [] \<or> value_for_key p (key ''challenge'') = None \<or>
      value_for_key p (key ''response'') = None")
    case True
    with assms state have "SendError env 1 0 invalid_query True m = (x, m')"
      by (auto simp: HandleLogin_def login_name_def bind_io_def gets_def Let_def split: option.splits if_splits)
    from SendError_effect [OF this] state show ?thesis by auto
  next
    case False
    then obtain n c r where f: "login_name p = Some n" "n \<noteq> []" "value_for_key p (key ''challenge'') = Some c"
      "value_for_key p (key ''response'') = Some r" by auto
    obtain h q1 where h: "HasPlayer (le_db env) n (lc_PlayerDB m) = (h, q1)"
      by (cases "HasPlayer (le_db env) n (lc_PlayerDB m)")
    let ?m1 = "m\<lparr>lc_PlayerDB := q1\<rparr>"
    obtain g q2 where g: "GetPlayerByName (le_db env) n q1 = (g, q2)"
      by (cases "GetPlayerByName (le_db env) n q1")
    let ?m2 = "m\<lparr>lc_PlayerDB := q2\<rparr>"
    let ?unknown = "''Username ['' @ n @ ''] doesn'' @ [CHR 0x27] @ ''t exist!''"
    have run: "(x, m') = (case h of Inl e \<Rightarrow> (Inl e, ?m1)
      | Inr False \<Rightarrow> SendError env 1 265 ?unknown True ?m1
      | Inr True \<Rightarrow> (case g of Inl e \<Rightarrow> (Inl e, ?m2)
          | Inr None \<Rightarrow> (Inl Undefined_behaviour, ?m2)
          | Inr (Some pl) \<Rightarrow> login_player env n c r pl ?m2))"
      using assms state f h g
      by (auto simp: HandleLogin_def login_name_def bind_io_def gets_def Let_def login_db_simps throw_def
          split: option.splits sum.splits bool.splits)
    show ?thesis
    proof (cases h)
      case (Inl e)
      with run state show ?thesis by simp
    next
      case h': (Inr b)
      show ?thesis
      proof (cases b)
        case False
        with run h' have "SendError env 1 265 ?unknown True ?m1 = (x, m')" by simp
        from SendError_effect [OF this] state show ?thesis by auto
      next
        case b: True
        show ?thesis
        proof (cases "\<exists>pl. g = Inr (Some pl)")
          case True
          then obtain pl where pl: "g = Inr (Some pl)" by blast
          with run h' b have "login_player env n c r pl ?m2 = (x, m')" by simp
          note e = login_player_effect [OF this]
          have "looked_up (le_db env) n pl" using h h' b g pl by (auto simp: looked_up_def)
          with e f state show ?thesis by (auto simp: login_event_def right_response_def)
        next
          case False
          with run h' b state show ?thesis by (auto split: sum.splits option.splits)
        qed
      qed
    qed
  qed
qed


text \<open>The other requests change neither the state nor the challenge.\<close>

definition lc_fixed :: "login_state \<Rightarrow> string \<Rightarrow> 'p login_client \<Rightarrow> bool" where
  "lc_fixed s c m \<longleftrightarrow> lc_State m = s \<and> lc_ServerChallenge m = c"

lemma fixed_intros:
  "preserves (lc_fixed s c) (login_db op)" "preserves (lc_fixed s c) (login_send env r)"
  "preserves (lc_fixed s c) (set_player pl)" "preserves (lc_fixed s c) the_player"
  "preserves (lc_fixed s c) (SendError env i e t f)"
  by (auto intro!: preserves_login_db preserves_login_send preserves_the_player preserves_modify
      simp: lc_fixed_def set_player_def SendError_def)

lemma fixed_requests:
  "preserves (lc_fixed s c) (HandleNewUser env p)"
  "preserves (lc_fixed s c) (HandleGetProfile env p)"
  "preserves (lc_fixed s c) (HandleUpdateProfile env p)"
  "preserves (lc_fixed s c) (HandleLogout p)"
proof -
  show "preserves (lc_fixed s c) (HandleNewUser env p)"
    unfolding HandleNewUser_def Let_def prod.case by (intro preserves_intros fixed_intros)
  show "preserves (lc_fixed s c) (HandleGetProfile env p)"
    unfolding HandleGetProfile_def SendPlayerData_def by (intro preserves_intros fixed_intros)
  show "preserves (lc_fixed s c) (HandleUpdateProfile env p)"
    unfolding HandleUpdateProfile_def Let_def by (intro preserves_intros fixed_intros)
  show "preserves (lc_fixed s c) (HandleLogout p)"
    by (auto simp: HandleLogout_def lc_fixed_def intro!: preserves_modify)
qed

definition signed_in :: "player_data \<Rightarrow> 'p login_client \<Rightarrow> bool" where
  "signed_in pl m \<longleftrightarrow> lc_State m = AUTHENTICATED \<and> same_account pl (lc_PlayerData m)"

lemma signed_in_intros:
  "preserves (signed_in pl) (login_db op)" "preserves (signed_in pl) (login_send env r)"
  "preserves (signed_in pl) (SendError env i e t f)" "preserves (signed_in pl) the_player"
  by (auto intro!: preserves_login_db preserves_login_send preserves_the_player simp: signed_in_def SendError_def)

lemma signed_in_requests:
  fixes env :: "'p login_env"
  shows "preserves (signed_in pl) (HandleLogin env p)"
  "preserves (signed_in pl) (HandleNewUser env p)"
  "preserves (signed_in pl) (HandleGetProfile env p)"
  "preserves (signed_in pl) (HandleUpdateProfile env p)"
  "preserves (signed_in pl) (HandleLogout p)"
proof -
  show "preserves (signed_in pl) (HandleLogin env p)"
    by (simp add: preserves_def signed_in_def HandleLogin_def bind_io_def gets_def ret_def)
  show "preserves (signed_in pl) (HandleNewUser env p)"
    by (auto simp: preserves_def signed_in_def HandleNewUser_def bind_io_def gets_def SendError_def snd_login_send
        split: sum.split)
  show "preserves (signed_in pl) (HandleGetProfile env p)"
    unfolding HandleGetProfile_def SendPlayerData_def by (intro preserves_intros signed_in_intros)
  show "preserves (signed_in pl) (HandleLogout p)"
    by (auto simp: HandleLogout_def signed_in_def intro!: preserves_modify)
  show "preserves (signed_in pl) (HandleUpdateProfile env p)"
    unfolding preserves_def
  proof (intro allI impI)
    fix m :: "'p login_client" assume i: "signed_in pl m"
    then obtain d where d: "lc_PlayerData m = Some d" "lc_State m = AUTHENTICATED"
      "pl_id d = pl_id pl" "pl_name d = pl_name pl" "pl_password d = pl_password pl"
      by (auto simp: signed_in_def same_account_def split: option.splits)
    show "signed_in pl (snd (HandleUpdateProfile env p m))"
    proof (cases "value_for_key p (key ''countrycode'')")
      case None
      with d i show ?thesis by (simp add: HandleUpdateProfile_def bind_io_def gets_def ret_def)
    next
      case (Some c)
      with d have "snd (HandleUpdateProfile env p m) = snd (login_db (UpdatePlayer (le_db env)
          (d\<lparr>pl_country := map toupper c\<rparr>)) (m\<lparr>lc_PlayerData := Some (d\<lparr>pl_country := map toupper c\<rparr>)\<rparr>))"
        by (simp add: HandleUpdateProfile_def bind_io_def gets_def the_player_def then_io_def set_player_def
            modify_def Let_def)
      with d show ?thesis by (simp add: snd_login_db signed_in_def same_account_def)
    qed
  qed
qed

lemma login_handle_cases:
  "login_handle env p = HandleLogin env p \<and> prefix (key ''login'') p \<or>
   login_handle env p \<in> {HandleNewUser env p, HandleGetProfile env p, HandleUpdateProfile env p,
     HandleLogout p, SendError env 0 0 invalid_query False}"
  by (auto simp: login_handle_def login_dispatch_def)

lemma login_handle_signed_in: "preserves (signed_in pl) (login_handle env p)"
  using login_handle_cases [of env p] signed_in_requests(1-4) [of pl env p] signed_in_requests(5) [of pl p]
    signed_in_intros(3) [of pl env 0 0 invalid_query False] by auto

lemma login_handle_effect:
  assumes "login_handle env p m = (x, m')"
  shows "lc_ServerChallenge m' = lc_ServerChallenge m \<and>
    (lc_State m' = lc_State m \<or>
     lc_State m' = AUTHENTICATED \<and> prefix (key ''login'') p \<and> login_event env p m m')"
proof (cases "login_handle env p = HandleLogin env p \<and> prefix (key ''login'') p")
  case True
  with HandleLogin_effect [of env p m x m'] assms show ?thesis by auto
next
  case False
  with login_handle_cases [of env p] fixed_requests(1-3) [of _ _ env p] fixed_requests(4) [of _ _ p]
    fixed_intros(5) [of _ _ env 0 0 invalid_query False]
  have "preserves (lc_fixed s c) (login_handle env p)" for s c by auto
  from preservesD [OF this, of "lc_State m" "lc_ServerChallenge m" m] assms show ?thesis
    by (simp add: lc_fixed_def)
qed


section \<open>Answers of the requests\<close>

text \<open>A login packet that is complete, when nothing fails.\<close>

lemma HandleLogin_run:
  assumes "\<And>s. le_send env s = Inr ()" and "lc_State m = AUTHENTICATING"
    and "login_name p = Some n" and "n \<noteq> []"
    and "value_for_key p (key ''challenge'') = Some c" and "value_for_key p (key ''response'') = Some r"
    and has: "HasPlayer (le_db env) n (lc_PlayerDB m) = (Inr exists, q1)"
    and get: "exists \<Longrightarrow> GetPlayerByName (le_db env) n q1 = (Inr (Some pl), q2)"
  shows "HandleLogin env p m = (Inr (),
    (if \<not> exists then m\<lparr>lc_PlayerDB := q1, lc_sent := lc_sent m @
        [login_error 1 265 (''Username ['' @ n @ ''] doesn'' @ [CHR 0x27] @ ''t exist!'') True]\<rparr>
     else if r \<noteq> generate_challenge n (pl_password pl) c (lc_ServerChallenge m) then
       m\<lparr>lc_PlayerDB := q2, lc_sent := lc_sent m @ [login_error 1 260 ''The password provided is incorrect.'' True]\<rparr>
     else
       m\<lparr>lc_PlayerDB := q2, lc_PlayerData := Some (pl\<lparr>pl_session := le_crc16 env n\<rparr>), lc_State := AUTHENTICATED,
         lc_sent := lc_sent m @ [login_reply (pl\<lparr>pl_session := le_crc16 env n\<rparr>) (lc_LoginTicket m)
           (generate_challenge (pl_name pl) (pl_password pl) (lc_ServerChallenge m) c)]\<rparr>))"
proof -
  have "HandleLogin env p m =
      bind_io (login_db (HasPlayer (le_db env) n)) (\<lambda>exists.
        if \<not> exists then
          SendError env 1 265 (''Username ['' @ n @ ''] doesn'' @ [CHR 0x27] @ ''t exist!'') True
        else
          bind_io (login_db (GetPlayerByName (le_db env) n)) (\<lambda>player.
          (case player of
             None \<Rightarrow> throw Undefined_behaviour
           | Some player \<Rightarrow> login_player env n c r player))) m"
    using assms(2-6)
    by (auto simp: HandleLogin_def login_name_def bind_io_simps(1) [OF gets_simps] Let_def split: option.splits
        cong: if_cong)
  also have "\<dots> = (Inr (),
    (if \<not> exists then m\<lparr>lc_PlayerDB := q1, lc_sent := lc_sent m @
        [login_error 1 265 (''Username ['' @ n @ ''] doesn'' @ [CHR 0x27] @ ''t exist!'') True]\<rparr>
     else if r \<noteq> generate_challenge n (pl_password pl) c (lc_ServerChallenge m) then
       m\<lparr>lc_PlayerDB := q2, lc_sent := lc_sent m @ [login_error 1 260 ''The password provided is incorrect.'' True]\<rparr>
     else
       m\<lparr>lc_PlayerDB := q2, lc_PlayerData := Some (pl\<lparr>pl_session := le_crc16 env n\<rparr>), lc_State := AUTHENTICATED,
         lc_sent := lc_sent m @ [login_reply (pl\<lparr>pl_session := le_crc16 env n\<rparr>) (lc_LoginTicket m)
           (generate_challenge (pl_name pl) (pl_password pl) (lc_ServerChallenge m) c)]\<rparr>))"
  proof (cases "exists")
    case False
    with has assms(1) show ?thesis by (simp add: bind_io_def login_db_simps SendError_def login_send_ok)
  next
    case True
    with has get assms(1) show ?thesis
      by (simp add: bind_io_def login_db_simps SendError_def login_send_ok login_player_def gets_def then_io_def
          set_player_def set_state_def modify_def Let_def)
  qed
  finally show ?thesis .
qed

lemma HandleNewUser_run:
  assumes "\<And>s. le_send env s = Inr ()" and "lc_State m = AUTHENTICATING"
    and "value_for_key p (key ''email'') = Some e" and "value_for_key p (key ''nick'') = Some n"
    and "value_for_key p (key ''passwordenc'') = Some w" and "passdecode (le_dec64 env) w = Some pw"
    and has: "HasPlayer (le_db env) n (lc_PlayerDB m) = (Inr exists, q1)"
    and create: "\<not> exists \<Longrightarrow> 3 \<le> length pw \<Longrightarrow> length pw \<le> 30 \<Longrightarrow>
      CreatePlayer (le_db env) (PlayerData n e (utils_md5 pw) ''??'') q1 = (Inr pl, q2)"
  shows "HandleNewUser env p m = (Inr (),
    (if exists then m\<lparr>lc_PlayerDB := q1, lc_sent := lc_sent m @
        [login_error 1 516 ''This account name is already in use!'' True]\<rparr>
     else if length pw < 3 then m\<lparr>lc_PlayerDB := q1, lc_sent := lc_sent m @
        [login_error 1 0 ''The password is too short, must be 3 characters at least!'' True]\<rparr>
     else if length pw > 30 then m\<lparr>lc_PlayerDB := q1, lc_sent := lc_sent m @
        [login_error 1 0 ''The password is too long, must be 30 characters at most!'' True]\<rparr>
     else m\<lparr>lc_PlayerDB := q2, lc_PlayerData := Some pl, lc_sent := lc_sent m @ [new_user_reply pl]\<rparr>))"
proof -
  consider "exists" | "\<not> exists" "length pw < 3" | "\<not> exists" "length pw > 30" |
    "\<not> exists" "3 \<le> length pw" "length pw \<le> 30" by linarith
  then show ?thesis
  proof cases
    case 4
    from create [OF this] 4 assms show ?thesis
      by (simp add: HandleNewUser_def bind_io_def gets_def login_db_simps login_send_ok then_io_def
          set_player_def modify_def Let_def)
  qed (use assms in \<open>simp_all add: HandleNewUser_def bind_io_def gets_def login_db_simps SendError_def login_send_ok\<close>)
qed


section \<open>Registration and login over the tables\<close>

lemma plain_passencode: "plain (passencode rfc4648_encode w)"
proof -
  have "BS \<notin> set base64_alphabet" "NUL \<notin> set base64_alphabet" by (simp_all add: base64_alphabet_def)
  then have "BS \<notin> set (base64_encode rfc4648_encode d)" "NUL \<notin> set (base64_encode rfc4648_encode d)" for d
    using rfc4648.enc_alphabet [of d] by (auto simp: base64_encode_def)
  then have "BS \<notin> set (replace_char (CHR ''/'') (CHR '']'') (replace_char (CHR ''+'') (CHR ''['')
      (replace_char (CHR ''='') (CHR ''_'') (base64_encode rfc4648_encode d))))"
    "NUL \<notin> set (replace_char (CHR ''/'') (CHR '']'') (replace_char (CHR ''+'') (CHR ''['')
      (replace_char (CHR ''='') (CHR ''_'') (base64_encode rfc4648_encode d))))" for d
    by (auto simp: replace_char_def)
  then show ?thesis by (simp add: plain_def passencode_def Let_def)
qed

lemma plain_hex: "plain (utils_md5 s)"
  using set_utils_md5 [of s] by (auto simp: plain_def hex_chars_def)

lemma plain_challenge: "plain (generate_challenge n w a b)"
  by (simp add: generate_challenge_def plain_hex)

lemma plain_c_string: "plain s \<Longrightarrow> c_string s = s"
  by (auto simp: plain_def c_string_def takeWhile_eq_all_conv)

text \<open>The packets of a client.\<close>

definition newuser_packet :: "string \<Rightarrow> string \<Rightarrow> string \<Rightarrow> string" where
  "newuser_packet email nick password = packet_of [''newuser'', [], ''email'', email, ''nick'', nick,
     ''passwordenc'', passencode rfc4648_encode password, ''id'', ''1'', ''final'']"

definition login_packet :: "string \<Rightarrow> string \<Rightarrow> string \<Rightarrow> string" where
  "login_packet clientChallenge nick response = packet_of [''login'', [], ''challenge'', clientChallenge,
     ''uniquenick'', nick, ''response'', response, ''id'', ''1'', ''final'']"

lemma newuser_packet_fields:
  assumes "plain e" "plain n" "e \<noteq> ''nick''" "e \<noteq> ''passwordenc''" "n \<noteq> ''passwordenc''"
  shows "value_for_key (newuser_packet e n w) (key ''email'') = Some e"
    "value_for_key (newuser_packet e n w) (key ''nick'') = Some n"
    "value_for_key (newuser_packet e n w) (key ''passwordenc'') = Some (passencode rfc4648_encode w)"
  unfolding newuser_packet_def using assms plain_passencode [of w]
  by (subst value_for_key_segments; simp add: plain_def)+

lemma login_packet_fields:
  assumes "plain c" "plain n" "plain r" "c \<noteq> ''uniquenick''" "c \<noteq> ''response''" "n \<noteq> ''response''"
  shows "value_for_key (login_packet c n r) (key ''challenge'') = Some c"
    "login_name (login_packet c n r) = Some n"
    "value_for_key (login_packet c n r) (key ''response'') = Some r"
  unfolding login_packet_def login_name_def using assms
  by (subst value_for_key_segments; simp add: plain_def)+

lemma packet_commands:
  "login_handle env (newuser_packet e n w) = HandleNewUser env (newuser_packet e n w)"
  "login_handle env (login_packet c n r) = HandleLogin env (login_packet c n r)"
  by (simp_all add: login_handle_def login_dispatch_def newuser_packet_def login_packet_def key_def packet_of.simps(2))

text \<open>A client with the player database of the tables, and a network and a codec that work.\<close>

definition table_env :: "(string \<Rightarrow> u16) \<Rightarrow> (nat \<Rightarrow> nat) \<Rightarrow> player_table login_env" where
  "table_env crc rng = \<lparr>le_db = PlayerDBSQLite table_sqlite, le_dec64 = rfc4648_decode, le_crc16 = crc,
     le_rng = rng, le_send = \<lambda>_. Inr ()\<rparr>"

lemma table_env_simps:
  "le_db (table_env crc rng) = PlayerDBSQLite table_sqlite" "le_dec64 (table_env crc rng) = rfc4648_decode"
  "le_crc16 (table_env crc rng) = crc" "le_send (table_env crc rng) s = Inr ()"
  by (simp_all add: table_env_def)

lemma int_max_30: "length s \<le> 64 \<Longrightarrow> length s \<le> int_max"
  by (simp add: int_max_def)

lemma register_run:
  assumes "lc_State m = AUTHENTICATING" "sound_table (=) (lc_PlayerDB m)"
    and "tbl_seq (lc_PlayerDB m) < 2 ^ 63 - 1" "\<not> name_taken (=) n (lc_PlayerDB m)"
    and "plain e" "plain n" "e \<noteq> ''nick''" "e \<noteq> ''passwordenc''" "n \<noteq> ''passwordenc''"
    and "length e \<le> 64" "length n \<le> 64" "3 \<le> length w" "length w \<le> 30"
    and "passdecode rfc4648_decode (passencode rfc4648_encode w) = Some w"
  shows "\<exists>t. let pl = PlayerData n e (utils_md5 w) ''??''\<lparr>pl_id := of_int (tbl_seq t)\<rparr> in
    insert_player (=) n (utils_md5 w) e ''??'' (lc_PlayerDB m) = Some t \<and>
    login_handle (table_env crc rng) (newuser_packet e n w) m =
      (Inr (), m\<lparr>lc_PlayerDB := t, lc_PlayerData := Some pl, lc_sent := lc_sent m @ [new_user_reply pl]\<rparr>)"
proof -
  let ?pl = "PlayerData n e (utils_md5 w) ''??''" and ?t = "lc_PlayerDB m"
  have free: "rows_named (=) n ?t = []"
    using assms(4) by (auto simp: rows_named_def name_taken_def filter_empty_conv)
  then obtain t where t: "insert_player (=) n (utils_md5 w) e ''??'' ?t = Some t"
    using assms(3) by (simp add: insert_player_def)
  have len: "length (tbl_rows ?t) < 2 ^ 63"
    using table_players.players.sound_length [of ?t] assms(2) by simp
  have has: "HasPlayer (PlayerDBSQLite table_sqlite) n ?t = (Inr False, ?t)"
    using table_sqlite_HasPlayer [OF short_args_sql(1) len, of n] assms(4,11)
    by (simp add: PlayerDBSQLite_def int_max_30)
  have create: "CreatePlayer (PlayerDBSQLite table_sqlite) ?pl ?t =
      (Inr (?pl\<lparr>pl_id := of_int (tbl_seq t)\<rparr>), t)"
    using table_sqlite_CreatePlayer [of ?pl ?t, OF short_args_sql(3)] t assms(10,11)
    by (simp add: PlayerDBSQLite_def PlayerData_def int_max_30 int_max_def)
  show ?thesis
    using HandleNewUser_run [of "table_env crc rng" m "newuser_packet e n w" e n
        "passencode rfc4648_encode w" w False ?t "?pl\<lparr>pl_id := of_int (tbl_seq t)\<rparr>" t]
      newuser_packet_fields [OF assms(5-9), of w] has create assms(1,12-14) t
    by (simp add: table_env_simps packet_commands Let_def)
qed


lemma login_run:
  assumes "lc_State m = AUTHENTICATING" "sound_table (=) (lc_PlayerDB m)"
    and "rows_named (=) n (lc_PlayerDB m) = [row]" "row_name row = n" "row_password row = w"
    and "plain c" "plain n" "n \<noteq> []" "plain w" "length n \<le> 64"
    and "c \<noteq> ''uniquenick''" "c \<noteq> ''response''" "n \<noteq> ''response''"
  shows "\<exists>pl. login_handle (table_env crc rng)
      (login_packet c n (generate_challenge n w c (lc_ServerChallenge m))) m =
    (Inr (), m\<lparr>lc_PlayerData := Some pl, lc_State := AUTHENTICATED, lc_sent := lc_sent m @
       [login_reply pl (lc_LoginTicket m) (generate_challenge n w (lc_ServerChallenge m) c)]\<rparr>) \<and>
    pl = (row_player c_string row)\<lparr>pl_session := crc n\<rparr>"
proof -
  let ?t = "lc_PlayerDB m" and ?r = "generate_challenge n w c (lc_ServerChallenge m)"
  let ?pl = "row_player c_string row"
  have pl: "pl_password ?pl = w" "pl_name ?pl = n" "?pl\<lparr>pl_name := n\<rparr> = ?pl"
    using assms(4,5,7,9) by (simp_all add: row_player_def PlayerData_of_def plain_c_string)
  have len: "length (tbl_rows ?t) < 2 ^ 63"
    using table_players.players.sound_length [of ?t] assms(2) by simp
  have "row \<in> set (rows_named (=) n ?t)" by (simp add: assms(3))
  then have "name_taken (=) n ?t" using assms(4) by (auto simp: rows_named_def name_taken_def)
  then have has: "HasPlayer (PlayerDBSQLite table_sqlite) n ?t = (Inr True, ?t)"
    using table_sqlite_HasPlayer [OF short_args_sql(1) len, of n] assms(10)
    by (simp add: PlayerDBSQLite_def int_max_30)
  have get: "GetPlayerByName (PlayerDBSQLite table_sqlite) n ?t = (Inr (Some ?pl), ?t)"
    using table_sqlite_GetPlayerByName [OF short_args_sql(2), of n ?t] assms(3,10)
    by (simp add: PlayerDBSQLite_def int_max_30 pl(3))
  show ?thesis
    using HandleLogin_run [of "table_env crc rng" m "login_packet c n ?r" n c ?r True ?t ?pl ?t]
      login_packet_fields [OF assms(6,7) plain_challenge assms(11-13)] has get assms(1,8) pl(1,2)
    by (simp add: table_env_simps packet_commands)
qed


lemma inserted_row:
  assumes "insert_player (=) n w e c t = Some t'"
  shows "rows_named (=) n t' = [\<lparr>row_id = tbl_seq t + 1, row_name = n, row_password = w, row_email = Some e,
    row_country = c\<rparr>]"
  using assms by (auto simp: insert_player_def rows_named_def split: if_splits)

section \<open>Properties\<close>

text \<open>
  C16. Whatever packets a connection has handled, and whatever other connections did to the
  database in between: when it is authenticated, one of its packets was a \<open>login\<close> whose response
  is the digest of the name, the stored password, the client's challenge and the challenge this connection was sent (127
  letters of the generator), for a player the database returned for that name; and the player of
  the session is still that account.
\<close>

theorem authenticated_by_response:
  assumes "login_session env m0 ps m" and "lc_State m = AUTHENTICATED"
  shows "lc_ServerChallenge m = random_string (le_rng env) ''ABCDEFGHIJKLMNOPQRSTUVWXYZ'' 127 \<and>
    (\<exists>p \<in> set ps. prefix (key ''login'') p \<and>
      (\<exists>n pl. login_name p = Some n \<and> n \<noteq> [] \<and> looked_up (le_db env) n pl \<and>
         right_response (lc_ServerChallenge m) p pl \<and> same_account pl (lc_PlayerData m)))"
proof -
  let ?goal = "\<lambda>ps m. \<exists>p \<in> set ps. prefix (key ''login'') p \<and>
      (\<exists>n pl. login_name p = Some n \<and> n \<noteq> [] \<and> looked_up (le_db env) n pl \<and>
         right_response (lc_ServerChallenge m) p pl \<and> same_account pl (lc_PlayerData m))"
  have "lc_ServerChallenge m = random_string (le_rng env) ''ABCDEFGHIJKLMNOPQRSTUVWXYZ'' 127 \<and>
      (lc_State m = AUTHENTICATED \<longrightarrow> ?goal ps m)"
    using assms(1)
  proof (induction rule: login_session.induct)
    case (session_start m)
    then have "lc_State m = AUTHENTICATING \<and>
        lc_ServerChallenge m = random_string (le_rng env) ''ABCDEFGHIJKLMNOPQRSTUVWXYZ'' 127"
      by (auto simp: SendChallenge_def Let_def then_io_def bind_io_def modify_def login_send_def lift_exn_def
          set_state_def split: sum.splits)
    then show ?case by simp
  next
    case (session_packet ps m p m')
    note eff = login_handle_effect [OF session_packet.hyps(3)]
    show ?case
    proof (cases "lc_State m = AUTHENTICATED")
      case True
      with session_packet.IH obtain q n pl where q: "q \<in> set ps" "prefix (key ''login'') q" "login_name q = Some n"
        "n \<noteq> []" "looked_up (le_db env) n pl" "right_response (lc_ServerChallenge m) q pl" "signed_in pl m"
        by (auto simp: signed_in_def)
      from preservesD [OF login_handle_signed_in q(7), of env p] session_packet.hyps(3)
      have in': "signed_in pl m'" by simp
      have c: "lc_ServerChallenge m' = lc_ServerChallenge m" using eff by simp
      have "?goal (ps @ [p]) m'"
        unfolding c using q in' by (intro bexI [of _ q]) (auto simp: signed_in_def)
      with c session_packet.IH show ?thesis by simp
    next
      case False
      with eff session_packet.IH show ?thesis by (auto simp: login_event_def)
    qed
  next
    case (session_database ps m q)
    have eqs: "lc_ServerChallenge (m\<lparr>lc_PlayerDB := q\<rparr>) = lc_ServerChallenge m" "lc_State (m\<lparr>lc_PlayerDB := q\<rparr>) = lc_State m"
      "lc_PlayerData (m\<lparr>lc_PlayerDB := q\<rparr>) = lc_PlayerData m" by simp_all
    show ?case unfolding eqs by (rule session_database.IH)
  qed
  with assms(2) show ?thesis by blast
qed



text \<open>
  What the players' database may not do: reach undefined behaviour itself, or say that it has a
  player and then not find it.
\<close>

definition sane_db :: "'p player_db \<Rightarrow> bool" where
  "sane_db db \<longleftrightarrow> (\<forall>n q. no_ub (HasPlayer db n) q \<and> no_ub (GetPlayerByName db n) q) \<and>
     (\<forall>pl q. no_ub (CreatePlayer db pl) q \<and> no_ub (UpdatePlayer db pl) q) \<and>
     (\<forall>n q q1. HasPlayer db n q = (Inr True, q1) \<longrightarrow> fst (GetPlayerByName db n q1) \<noteq> Inr None)"

lemma session_inv: "login_session env m0 ps m \<Longrightarrow> login_inv m"
proof (induction rule: login_session.induct)
  case (session_start m)
  then show ?case
    by (auto simp: SendChallenge_def Let_def then_io_def bind_io_def modify_def login_send_def lift_exn_def
        set_state_def login_inv_def split: sum.splits)
next
  case (session_packet ps m p m')
  show ?case
  proof (cases "lc_State m = AUTHENTICATED")
    case True
    with session_packet.IH obtain d where "signed_in d m" by (auto simp: login_inv_def signed_in_def same_account_def)
    from preservesD [OF login_handle_signed_in this, of env p] session_packet.hyps(3) show ?thesis
      by (auto simp: login_inv_def signed_in_def same_account_def split: option.splits)
  next
    case False
    with login_handle_effect [OF session_packet.hyps(3)] show ?thesis
      by (auto simp: login_inv_def login_event_def same_account_def split: option.splits)
  qed
qed (simp add: login_inv_def)

lemma no_ub_login_db: "no_ub op (lc_PlayerDB m) \<Longrightarrow> no_ub (login_db op) m"
  by (auto simp: no_ub_def login_db_def zoom_def split: prod.splits)

lemma login_db_result: "login_db op m = (Inr x, m') \<Longrightarrow> \<exists>q. op (lc_PlayerDB m) = (Inr x, q) \<and> lc_PlayerDB m' = q"
  by (auto simp: login_db_def zoom_def split: prod.splits)

lemma no_ub_send:
  assumes "\<forall>s. le_send env s \<noteq> Inl Undefined_behaviour"
  shows "no_ub (login_send env r) m" "no_ub (SendError env i e t f) m"
  unfolding login_send_def SendError_def using assms by (intro no_ub_intros; blast)+

lemma no_ub_the_player: "lc_PlayerData m \<noteq> None \<Longrightarrow> no_ub the_player m"
  by (auto simp: no_ub_def the_player_def)

lemma no_ub_login_player:
  assumes "\<forall>s. le_send env s \<noteq> Inl Undefined_behaviour"
  shows "no_ub (login_player env n c r pl) m"
  unfolding login_player_def set_player_def set_state_def Let_def
  by (intro no_ub_intros no_ub_send [OF assms])

lemma no_ub_requests:
  fixes env :: "'p login_env"
  assumes db: "sane_db (le_db env)" and send: "\<forall>s. le_send env s \<noteq> Inl Undefined_behaviour"
    and inv: "login_inv m"
  shows "no_ub (HandleLogin env p) m" "no_ub (HandleNewUser env p) m"
    "no_ub (HandleGetProfile env p) m" "no_ub (HandleUpdateProfile env p) m"
proof -
  note lookups = db [unfolded sane_db_def, THEN conjunct1, rule_format]
    and writes = db [unfolded sane_db_def, THEN conjunct2, THEN conjunct1, rule_format]
    and found = db [unfolded sane_db_def, THEN conjunct2, THEN conjunct2, rule_format]
  note rules = no_ub_intros no_ub_send [OF send] no_ub_login_db lookups [THEN conjunct1] writes [THEN conjunct1]
    writes [THEN conjunct2]
  show "no_ub (HandleNewUser env p) m"
    unfolding HandleNewUser_def Let_def prod.case set_player_def
    by (intro rules) simp_all
  have have_player: "lc_PlayerData m1 \<noteq> None"
    if "gets lc_State m = (Inr s, m1)" "\<not> s \<noteq> AUTHENTICATED" for s m1
    using inv that by (auto simp: gets_def login_inv_def)
  show "no_ub (HandleGetProfile env p) m"
    unfolding HandleGetProfile_def SendPlayerData_def
    by (intro rules no_ub_the_player have_player)
  show "no_ub (HandleUpdateProfile env p) m"
    unfolding HandleUpdateProfile_def Let_def set_player_def
    by (intro rules no_ub_the_player have_player)
  show "no_ub (HandleLogin env p) m"
    unfolding HandleLogin_def Let_def
    by (intro rules no_ub_login_player [OF send] lookups [THEN conjunct2])
      (auto dest!: login_db_result simp: gets_def intro: found [THEN notE])
qed

lemma no_ub_login_handle:
  assumes "sane_db (le_db env)" and "\<forall>s. le_send env s \<noteq> Inl Undefined_behaviour" and "login_inv m"
  shows "no_ub (login_handle env p) m"
proof -
  have "no_ub (HandleLogout p) m" by (simp add: HandleLogout_def no_ub_simps)
  with login_handle_cases [of env p] no_ub_requests [OF assms] no_ub_send(2) [OF assms(2)] show ?thesis
    by (metis insertE singletonD)
qed



lemma minus_one_u32: "(- 1 :: u32) = 4294967295"
  by simp

text \<open>
  Requests outside the state they need change nothing but what is sent: \<open>login\<close> is ignored,
  \<open>newuser\<close>, \<open>getprofile\<close> and \<open>updatepro\<close> are fatal errors with the ids 1, the packet's and 2^32 - 1.  Once
  authenticated, \<open>getprofile\<close> gives the profile of the session's player with the packet's id, and
  \<open>updatepro\<close> stores the country in upper case, in the session and in the database.
\<close>

theorem requests_by_state:
  assumes "\<forall>s. le_send env s = Inr ()"
  shows "(lc_State m \<noteq> AUTHENTICATING \<longrightarrow>
      HandleLogin env p m = (Inr (), m) \<and>
      HandleNewUser env p m = (Inr (), m\<lparr>lc_sent := lc_sent m @ [login_error 1 0 invalid_query True]\<rparr>)) \<and>
    (lc_State m \<noteq> AUTHENTICATED \<longrightarrow>
      HandleGetProfile env p m = (Inr (), m\<lparr>lc_sent := lc_sent m @
        [login_error (case value_for_key_u32 p (key ''id'') of None \<Rightarrow> 0 | Some i \<Rightarrow> i) 0 invalid_query True]\<rparr>) \<and>
      HandleUpdateProfile env p m = (Inr (), m\<lparr>lc_sent := lc_sent m @ [login_error 4294967295 0 invalid_query True]\<rparr>)) \<and>
    (\<forall>pl i. lc_State m = AUTHENTICATED \<and> lc_PlayerData m = Some pl \<and> value_for_key_u32 p (key ''id'') = Some i \<longrightarrow>
      HandleGetProfile env p m = (Inr (), m\<lparr>lc_sent := lc_sent m @ [player_info pl (lc_LoginTicket m) i]\<rparr>)) \<and>
    (\<forall>pl c u q. lc_State m = AUTHENTICATED \<and> lc_PlayerData m = Some pl \<and>
        value_for_key p (key ''countrycode'') = Some c \<and>
        UpdatePlayer (le_db env) (pl\<lparr>pl_country := map toupper c\<rparr>) (lc_PlayerDB m) = (Inr u, q) \<longrightarrow>
      HandleUpdateProfile env p m =
        (Inr u, m\<lparr>lc_PlayerData := Some (pl\<lparr>pl_country := map toupper c\<rparr>), lc_PlayerDB := q\<rparr>))"
proof (intro conjI impI allI)
  assume s: "lc_State m \<noteq> AUTHENTICATING"
  show "HandleLogin env p m = (Inr (), m)"
    using s by (simp add: HandleLogin_def bind_io_def gets_def ret_def)
  show "HandleNewUser env p m = (Inr (), m\<lparr>lc_sent := lc_sent m @ [login_error 1 0 invalid_query True]\<rparr>)"
    using s assms by (simp add: HandleNewUser_def bind_io_def gets_def SendError_def login_send_ok)
next
  assume s: "lc_State m \<noteq> AUTHENTICATED"
  show "HandleGetProfile env p m = (Inr (), m\<lparr>lc_sent := lc_sent m @
      [login_error (case value_for_key_u32 p (key ''id'') of None \<Rightarrow> 0 | Some i \<Rightarrow> i) 0 invalid_query True]\<rparr>)"
    using s assms
    by (simp add: HandleGetProfile_def bind_io_def gets_def SendError_def login_send_ok split: option.split)
  show "HandleUpdateProfile env p m = (Inr (), m\<lparr>lc_sent := lc_sent m @ [login_error 4294967295 0 invalid_query True]\<rparr>)"
    unfolding minus_one_u32 [symmetric]
    using s assms by (simp add: HandleUpdateProfile_def bind_io_def gets_def SendError_def login_send_ok)
next
  fix pl i
  assume "lc_State m = AUTHENTICATED \<and> lc_PlayerData m = Some pl \<and> value_for_key_u32 p (key ''id'') = Some i"
  then show "HandleGetProfile env p m = (Inr (), m\<lparr>lc_sent := lc_sent m @ [player_info pl (lc_LoginTicket m) i]\<rparr>)"
    using assms
    by (simp add: HandleGetProfile_def SendPlayerData_def bind_io_def gets_def the_player_def login_send_ok)
next
  fix pl c u q
  assume "lc_State m = AUTHENTICATED \<and> lc_PlayerData m = Some pl \<and> value_for_key p (key ''countrycode'') = Some c \<and>
    UpdatePlayer (le_db env) (pl\<lparr>pl_country := map toupper c\<rparr>) (lc_PlayerDB m) = (Inr u, q)"
  then show "HandleUpdateProfile env p m =
      (Inr u, m\<lparr>lc_PlayerData := Some (pl\<lparr>pl_country := map toupper c\<rparr>), lc_PlayerDB := q\<rparr>)"
    by (simp add: HandleUpdateProfile_def bind_io_def gets_def the_player_def then_io_def set_player_def
        modify_def Let_def login_db_simps)
qed

section \<open>Witnesses\<close>

abbreviation sample_env :: "player_table login_env" where
  "sample_env \<equiv> table_env (\<lambda>_. 7) (\<lambda>i. i)"

abbreviation sample_client :: "player_table login_client" where
  "sample_client \<equiv> snd (SendChallenge sample_env (login_client_of sample_registered))"

lemma sample_challenged:
  "SendChallenge sample_env (login_client_of sample_registered) = (Inr (), sample_client)"
  "lc_State sample_client = AUTHENTICATING" "lc_open sample_client"
  "lc_PlayerDB sample_client = sample_registered"
  by (simp_all add: SendChallenge_def login_client_of_def Let_def then_io_def bind_io_def modify_def login_send_def
      lift_exn_def set_state_def table_env_simps)

lemma sample_registered_sound: "sound_table (=) sample_registered"
  by (simp add: sound_table_def)

abbreviation sample_login_packet :: string where
  "sample_login_packet \<equiv>
     login_packet ''c'' ''bob'' (generate_challenge ''bob'' ''5f4dcc3b'' ''c'' (lc_ServerChallenge sample_client))"

lemma sample_login_run:
  "\<exists>m. login_handle sample_env sample_login_packet sample_client = (Inr (), m) \<and> lc_State m = AUTHENTICATED"
proof -
  have rows: "rows_named (=) ''bob'' (lc_PlayerDB sample_client) = [hd (tbl_rows sample_registered)]"
    by (simp add: sample_challenged(4) rows_named_def)
  have sound: "sound_table (=) (lc_PlayerDB sample_client)"
    using sample_registered_sound by (simp only: sample_challenged(4))
  have row: "row_name (hd (tbl_rows sample_registered)) = ''bob''"
    "row_password (hd (tbl_rows sample_registered)) = ''5f4dcc3b''" by simp_all
  have plain: "plain ''c''" "plain ''bob''" "''bob'' \<noteq> []" "plain ''5f4dcc3b''" "length ''bob'' \<le> 64"
    "''c'' \<noteq> ''uniquenick''" "''c'' \<noteq> ''response''" "''bob'' \<noteq> ''response''"
    by (simp_all add: plain_def)
  obtain pl where
    run: "login_handle sample_env sample_login_packet sample_client =
    (Inr (), sample_client\<lparr>lc_PlayerData := Some pl, lc_State := AUTHENTICATED, lc_sent := lc_sent sample_client @
       [login_reply pl (lc_LoginTicket sample_client)
          (generate_challenge ''bob'' ''5f4dcc3b'' (lc_ServerChallenge sample_client) ''c'')]\<rparr>)" (is "_ = (_, ?m)")
    using login_run [OF sample_challenged(2) sound rows row plain, of "\<lambda>_. 7" "\<lambda>i. i"] that
    by (elim exE conjE)
  then show ?thesis by (intro exI [of _ ?m]) simp
qed

lemma sample_login:
  "\<exists>m. login_session sample_env (login_client_of sample_registered) [sample_login_packet] m \<and> lc_State m = AUTHENTICATED"
proof -
  obtain m where m: "login_handle sample_env sample_login_packet sample_client = (Inr (), m)" "lc_State m = AUTHENTICATED"
    using sample_login_run by (elim exE conjE)
  from session_packet [OF session_start [OF sample_challenged(1)] sample_challenged(3) m(1)] m(2)
  show ?thesis by (auto simp only: append_Nil)
qed

theorem authenticated_by_response_witness:
  "\<exists>p ps m. login_session sample_env (login_client_of sample_registered) ps m \<and> lc_State m = AUTHENTICATED \<and>
     p \<in> set ps \<and> prefix (key ''login'') p"
  using sample_login authenticated_by_response [of sample_env "login_client_of sample_registered"] by blast


theorem requests_by_state_witness:
  "HandleLogin sample_env ''?'' (login_client_of sample_table) = (Inr (), login_client_of sample_table)"
proof -
  have "\<forall>s. le_send sample_env s = Inr ()" by (simp add: table_env_simps)
  from requests_by_state [OF this, of "login_client_of sample_table" "''?''"] show ?thesis
    by (simp add: login_client_of_def)
qed


lemma kept_password: "passdecode rfc4648_decode (passencode rfc4648_encode ''yesterda'') = Some ''yesterda''"
proof -
  have "last (gspassenc ''yesterda'') \<noteq> NUL"
    using last_gspassenc [of "''yesterda''"] rnd_byte_7 by blast
  then have "trim_right_nul (gspassenc ''yesterda'') = gspassenc ''yesterda''"
    by (intro trim_right_nul_id disjI2)
  then show ?thesis using rfc4648.passdecode_passencode [of "''yesterda''"] by simp
qed


end
