(* ===== verification/Search_Client.thy ===== *)
theory Search_Client
  imports Player_Db Text_Stream Crypt_Utils
begin

text \<open>
  A connection to the search server (\<open>emulator/gpsp.client.h\<close>, \<open>emulator/gpsp.client.cpp\<close>, port 29901):
  \<open>nicks\<close>, the players of a mail address and password, and \<open>check\<close>, whether a player exists.  The
  socket is never closed by a handler.  Shown: which rows of the table a \<open>nicks\<close> request lists, for
  either library, the answers of \<open>check\<close> on every branch, and how the search differs from what the
  login server stores.
\<close>

section \<open>State\<close>

record 'p search_client =
  sc_DB :: 'p
  sc_sent :: "string list"

record 'p search_env =
  se_db :: "'p player_db"
  se_dec64 :: "string \<Rightarrow> string option"
  se_send :: "string \<Rightarrow> exn + unit"

definition search_db :: "('p, 'a) io \<Rightarrow> ('p search_client, 'a) io" where
  "search_db = zoom sc_DB (\<lambda>p m. m\<lparr>sc_DB := p\<rparr>)"

definition search_send :: "'p search_env \<Rightarrow> string \<Rightarrow> ('p search_client, unit) io" where
  "search_send env response =
     then_io (lift_exn (se_send env response)) (modify (\<lambda>m. m\<lparr>sc_sent := sc_sent m @ [response]\<rparr>))"

section \<open>Requests\<close>

definition search_error :: "nat \<Rightarrow> string \<Rightarrow> bool \<Rightarrow> string" where
  "search_error errorCode errorMessage fatal =
     key ''error'' @ key ''err'' @ dec errorCode @ key ''errmsg'' @ errorMessage @
     (if fatal then key ''fatal'' else []) @ final_mark"

definition search_SendError :: "'p search_env \<Rightarrow> nat \<Rightarrow> string \<Rightarrow> bool \<Rightarrow> ('p search_client, unit) io" where
  "search_SendError env errorCode errorMessage fatal =
     search_send env (search_error errorCode errorMessage fatal)"

text \<open>
  The digest to search for.  The decoded password is computed, which may throw, and not used:
  the digest is that of the encoded text.
\<close>

definition search_digest :: "'p search_env \<Rightarrow> string \<Rightarrow> exn + string" where
  "search_digest env packet =
     (case value_for_key packet (key ''pass'') of
        Some pass \<Rightarrow> Inr (utils_md5 pass)
      | None \<Rightarrow>
          (case value_for_key packet (key ''passenc'') of
             None \<Rightarrow> Inr []
           | Some passEnc \<Rightarrow>
               if passEnc = [] then Inr []
               else (case passdecode (se_dec64 env) passEnc of
                 None \<Rightarrow> Inl (Runtime_error ''dataflow_exception'')
               | Some password \<Rightarrow> Inr (utils_md5 passEnc))))"

definition nicks_reply :: "player_data list \<Rightarrow> string" where
  "nicks_reply players =
     key ''nr'' @ ''0'' @
     concat (map (\<lambda>player. key ''nick'' @ pl_name player @ key ''uniquenick'' @ pl_name player) players) @
     key ''ndone'' @ final_mark"

definition HandleSearchNicks :: "'p search_env \<Rightarrow> string \<Rightarrow> ('p search_client, unit) io" where
  "HandleSearchNicks env packet =
     bind_io (lift_exn (search_digest env packet)) (\<lambda>passwordMD5.
     case value_for_key packet (key ''email'') of
       None \<Rightarrow> search_SendError env 0 ''Invalid Query!'' True
     | Some email \<Rightarrow>
         if passwordMD5 = [] then search_SendError env 0 ''Invalid Query!'' True
         else
           bind_io (search_db (GetPlayerByMailAndPassword (se_db env) (map tolower_char email) passwordMD5)) (\<lambda>players.
           if players = [] then search_SendError env 551 ''Unable to get any associated profiles.'' True
           else search_send env (nicks_reply players)))"

definition check_name :: "string \<Rightarrow> string" where
  "check_name packet =
     (case value_for_key packet (key ''nick'') of
        Some nick \<Rightarrow> nick
      | None \<Rightarrow> (case value_for_key packet (key ''uniquenick'') of Some nick \<Rightarrow> nick | None \<Rightarrow> []))"

definition check_reply :: "player_data \<Rightarrow> string" where
  "check_reply player = key ''cur'' @ ''0'' @ key ''pid'' @ dec (unat (GetProfileID player)) @ final_mark"

text \<open>The text for an unknown name is built and not sent.\<close>

definition HandleProfileExists :: "'p search_env \<Rightarrow> string \<Rightarrow> ('p search_client, unit) io" where
  "HandleProfileExists env packet =
     (if check_name packet = [] then search_SendError env 0 ''Invalid Query!'' True
      else
        bind_io (search_db (HasPlayer (se_db env) (check_name packet))) (\<lambda>exists.
        if exists then
          bind_io (search_db (GetPlayerByName (se_db env) (check_name packet))) (\<lambda>playerData.
          (case playerData of
             None \<Rightarrow> throw Undefined_behaviour
           | Some playerData \<Rightarrow> search_send env (check_reply playerData)))
        else search_SendError env 265 ''Invalid Query!'' True))"

definition search_dispatch :: "'p search_env \<Rightarrow> string \<Rightarrow> string \<Rightarrow> ('p search_client, unit) io" where
  "search_dispatch env buffer packet =
     (if prefix (key ''nicks'') buffer then HandleSearchNicks env packet
      else if prefix (key ''check'') buffer then HandleProfileExists env packet
      else search_SendError env 0 ''Invalid Query!'' False)"

definition search_Process :: "'p search_env \<Rightarrow> string list \<Rightarrow> ('p search_client, unit) io" where
  "search_Process env chunks = serve_packets 2048 (\<lambda>_. True) (search_dispatch env) [] chunks"

section \<open>Rules\<close>

lemma search_send_ok:
  "se_send env s = Inr () \<Longrightarrow> search_send env s m = (Inr (), m\<lparr>sc_sent := sc_sent m @ [s]\<rparr>)"
  by (simp add: search_send_def then_io_def bind_io_def lift_exn_def modify_def)

lemma search_db_simps:
  "op (sc_DB m) = (r, p) \<Longrightarrow> search_db op m = (r, m\<lparr>sc_DB := p\<rparr>)"
  by (simp add: search_db_def zoom_def)

text \<open>The command is found in the packet alone, so a connection sees the packets of its stream.\<close>

definition search_handle :: "'p search_env \<Rightarrow> string \<Rightarrow> ('p search_client, unit) io" where
  "search_handle env packet = search_dispatch env packet packet"

lemma search_dispatch_packet:
  assumes "read_until limit buf chunks = Some (n, buf', chunks')"
  shows "search_dispatch env buf' (take n buf') = search_handle env (take n buf')"
proof -
  have "prefix (key c) buf' = prefix (key c) (take n buf')" if "c \<in> {''nicks'', ''check''}" for c
    by (rule command_in_packet [OF assms]) (use that in \<open>auto simp: final_mark_eq key_def\<close>)
  then show ?thesis by (simp add: search_dispatch_def search_handle_def)
qed

lemma search_Process_packets:
  "search_Process env chunks = serve_list (\<lambda>_. True) (search_handle env) (packets 2048 [] chunks)"
  unfolding search_Process_def
  by (rule ext) (rule serve_packets_list, rule search_dispatch_packet)

text \<open>A digest is never empty: an empty one means that there was no password.\<close>

lemma search_digest_Nil:
  "search_digest env p = Inr [] \<longleftrightarrow>
     value_for_key p (key ''pass'') = None \<and>
     (value_for_key p (key ''passenc'') = None \<or> value_for_key p (key ''passenc'') = Some [])"
proof -
  have "utils_md5 s \<noteq> []" for s
    using length_utils_md5 [of s] by (metis list.size(3) zero_neq_numeral)
  then show ?thesis by (auto simp: search_digest_def split: option.splits)
qed

text \<open>Looking a player up does not change the directory.\<close>

context player_directory
begin

lemma nicks_lists:
  assumes "HandleSearchNicks env p m = (Inr (), m')" and "se_db env = db"
    and "\<forall>s. se_send env s = Inr ()"
    and "value_for_key p (key ''email'') = Some e" and "search_digest env p = Inr w" and "w \<noteq> []"
  shows "table (sc_DB m') = table (sc_DB m) \<and>
    (\<exists>rows. mset rows = mset (rows_mailed same (map tolower_char e) w (table (sc_DB m))) \<and>
      sc_sent m' = sc_sent m @ [if rows = [] then search_error 551 ''Unable to get any associated profiles.'' True
        else nicks_reply (map (row_player str) rows)])"
proof -
  obtain r q where run: "GetPlayerByMailAndPassword db (map tolower_char e) w (sc_DB m) = (r, q)"
    by fastforce
  show ?thesis
  proof (cases r)
    case (Inl x)
    with assms run show ?thesis by (simp add: HandleSearchNicks_def bind_io_def lift_exn_def search_db_simps)
  next
    case (Inr pls)
    let ?read = "\<lambda>r. (row_player str r)\<lparr>pl_email := map tolower_char e, pl_password := w\<rparr>"
    from by_mail [OF run [unfolded Inr]] have t: "table q = table (sc_DB m)"
      and pls: "mset pls = mset (map ?read (rows_mailed same (map tolower_char e) w (table (sc_DB m))))" by auto
    from mset_map_perm [OF pls] obtain rows where rows: "pls = map ?read rows"
      "mset rows = mset (rows_mailed same (map tolower_char e) w (table (sc_DB m)))" by blast
    have "nicks_reply pls = nicks_reply (map (row_player str) rows)"
      by (simp add: rows nicks_reply_def comp_def)
    with assms run Inr rows t show ?thesis
      by (intro conjI exI [of _ rows]; cases "rows = []")
        (auto simp: HandleSearchNicks_def bind_io_def lift_exn_def search_db_simps search_SendError_def search_send_ok)
  qed
qed

lemma check_answers:
  assumes "HandleProfileExists env p m = (Inr (), m')" and "se_db env = db"
    and "\<forall>s. se_send env s = Inr ()" and "sound_table same (table (sc_DB m))" and "check_name p \<noteq> []"
  shows "table (sc_DB m') = table (sc_DB m) \<and>
    (if name_taken same (check_name p) (table (sc_DB m))
     then \<exists>r \<in> set (tbl_rows (table (sc_DB m))). same (row_name r) (check_name p) \<and>
       sc_sent m' = sc_sent m @ [check_reply (row_player str r)]
     else sc_sent m' = sc_sent m @ [search_error 265 ''Invalid Query!'' True])"
proof -
  let ?n = "check_name p"
  obtain h q where has: "HasPlayer db ?n (sc_DB m) = (h, q)" by fastforce
  show ?thesis
  proof (cases h)
    case (Inl x)
    with assms has show ?thesis by (simp add: HandleProfileExists_def bind_io_def search_db_simps)
  next
    case (Inr b)
    have b: "table q = table (sc_DB m)" "b = name_taken same ?n (table (sc_DB m))"
      using has_sound [OF has [unfolded Inr] assms(4)] by auto
    show ?thesis
    proof (cases b)
      case False
      with assms has Inr b show ?thesis
        by (auto simp: HandleProfileExists_def bind_io_def search_db_simps search_SendError_def search_send_ok)
    next
      case True
      obtain g q2 where get: "GetPlayerByName db ?n q = (g, q2)" by fastforce
      show ?thesis
      proof (cases g)
        case (Inl x)
        with assms has Inr b True get show ?thesis
          by (simp add: HandleProfileExists_def bind_io_def search_db_simps)
      next
        case g: (Inr found)
        have "HasPlayer db ?n (sc_DB m) = (Inr True, q)" using has Inr True by simp
        from has_then_get [OF this assms(4) get [unfolded g]] obtain r where
          r: "r \<in> set (tbl_rows (table (sc_DB m)))" "same (row_name r) ?n"
            "found = Some ((row_player str r)\<lparr>pl_name := ?n\<rparr>)" by blast
        have t: "table q2 = table (sc_DB m)" using by_name [OF get [unfolded g]] b by simp
        have "check_reply ((row_player str r)\<lparr>pl_name := ?n\<rparr>) = check_reply (row_player str r)"
          by (simp add: check_reply_def GetProfileID_def)
        with assms(1-3,5) has Inr True get g r(3) have
          m': "m' = m\<lparr>sc_DB := q2, sc_sent := sc_sent m @ [check_reply (row_player str r)]\<rparr>"
          by (simp add: HandleProfileExists_def bind_io_def search_db_simps search_send_ok)
        have "name_taken same ?n (table (sc_DB m))" using True b by simp
        with m' t r show ?thesis by auto
      qed
    qed
  qed
qed

end


context sqlite_players
begin

lemmas contract_nicks_lists = players.nicks_lists
lemmas contract_check_answers = players.check_answers

end

context mysql_directory
begin

lemmas contract_nicks_lists = players.nicks_lists
lemmas contract_check_answers = players.check_answers

end

lemma rows_mailed_lower:
  "row \<in> set (rows_mailed (=) (map tolower_char e) w t) \<Longrightarrow> \<exists>m. row_email row = Some m \<and> map tolower_char m = m"
  by (auto simp: rows_mailed_def split: option.splits)

section \<open>Properties\<close>


text \<open>
  \<open>check\<close>, over both libraries and a sound table: a name that is not in the table is answered by
  error 265, a name that is by the id of a row with that name, without change to the table; the two differ only by
  the collation of the library.
\<close>

theorem check_answers_by_table:
  assumes "sqlite_players api table" and "mysql_directory my tbl same"
    and "se_db env = PlayerDBSQLite api" and "se_db env' = PlayerDBMySQL my"
    and "\<forall>s. se_send env s = Inr ()" and "\<forall>s. se_send env' s = Inr ()"
    and "sound_table (=) (table (sc_DB m))" and "sound_table same (tbl (sc_DB n))" and "check_name p \<noteq> []"
  shows "(HandleProfileExists env p m = (Inr (), m') \<longrightarrow> table (sc_DB m') = table (sc_DB m) \<and>
      (if name_taken (=) (check_name p) (table (sc_DB m))
       then \<exists>r \<in> set (tbl_rows (table (sc_DB m))). row_name r = check_name p \<and>
         sc_sent m' = sc_sent m @ [check_reply (row_player c_string r)]
       else sc_sent m' = sc_sent m @ [search_error 265 ''Invalid Query!'' True])) \<and>
    (HandleProfileExists env' p n = (Inr (), n') \<longrightarrow> tbl (sc_DB n') = tbl (sc_DB n) \<and>
      (if name_taken same (check_name p) (tbl (sc_DB n))
       then \<exists>r \<in> set (tbl_rows (tbl (sc_DB n))). same (row_name r) (check_name p) \<and>
         sc_sent n' = sc_sent n @ [check_reply (row_player id r)]
       else sc_sent n' = sc_sent n @ [search_error 265 ''Invalid Query!'' True]))"
  by (rule conjI; rule impI;
      (erule sqlite_players.contract_check_answers [OF assms(1) _ assms(3,5,7,9)] |
       erule mysql_directory.contract_check_answers [OF assms(2) _ assms(4,6,8,9)]))

abbreviation sample_search :: "player_table search_env" where
  "sample_search \<equiv> \<lparr>se_db = PlayerDBSQLite table_sqlite, se_dec64 = rfc4648_decode, se_send = \<lambda>_. Inr ()\<rparr>"

lemma table_nicks_run:
  assumes "se_db env = PlayerDBSQLite table_sqlite" "\<forall>s. se_send env s = Inr ()"
    and "value_for_key p (key ''email'') = Some e" "search_digest env p = Inr w" "w \<noteq> []"
    and "length e \<le> int_max" "length w \<le> int_max"
  shows "HandleSearchNicks env p m = (Inr (), m\<lparr>sc_sent := sc_sent m @
    [if rows_mailed (=) (map tolower_char e) w (sc_DB m) = []
     then search_error 551 ''Unable to get any associated profiles.'' True
     else nicks_reply (map (row_player c_string) (rows_mailed (=) (map tolower_char e) w (sc_DB m)))]\<rparr>)"
proof -
  let ?rows = "rows_mailed (=) (map tolower_char e) w (sc_DB m)"
  let ?pls = "map (\<lambda>r. (row_player c_string r)\<lparr>pl_email := map tolower_char e, pl_password := w\<rparr>) ?rows"
  have get: "GetPlayerByMailAndPassword (se_db env) (map tolower_char e) w (sc_DB m) = (Inr ?pls, sc_DB m)"
    using table_sqlite_GetPlayerByMailAndPassword [of "map tolower_char e" w "sc_DB m"] assms(1,6,7)
    by (simp add: PlayerDBSQLite_def)
  have "nicks_reply ?pls = nicks_reply (map (row_player c_string) ?rows)"
    by (simp add: nicks_reply_def comp_def)
  with get assms(2-5) show ?thesis
    by (cases "?rows = []")
      (simp_all add: HandleSearchNicks_def bind_io_def lift_exn_def search_db_simps search_SendError_def search_send_ok)
qed


theorem check_answers_by_table_witness:
  "\<exists>m'. HandleProfileExists sample_search (packet_of [''check'', [], ''nick'', ''bob'', ''final''])
     \<lparr>sc_DB = sample_registered, sc_sent = []\<rparr> = (Inr (), m') \<and>
     (\<exists>r \<in> set (tbl_rows sample_registered). row_name r = ''bob'' \<and> sc_sent m' = [check_reply (row_player c_string r)])"
proof -
  let ?p = "packet_of [''check'', [], ''nick'', ''bob'', ''final'']"
  let ?m = "\<lparr>sc_DB = sample_registered, sc_sent = []\<rparr>"
  let ?my = "\<lparr>se_db = PlayerDBMySQL table_mysql, se_dec64 = rfc4648_decode, se_send = \<lambda>_. Inr ()\<rparr>"
  have "value_for_key ?p (key ''nick'') = Some ''bob''"
    by (subst value_for_key_segments; simp add: plain_def)
  then have name: "check_name ?p = ''bob''" by (simp add: check_name_def)
  have has: "sqlite_HasPlayer table_sqlite ''bob'' sample_registered = (Inr True, sample_registered)"
    using table_sqlite_HasPlayer [of "''bob''" sample_registered] short_args_sql(1) [of "''bob''"]
    by (simp add: int_max_def name_taken_def)
  obtain m' where run: "HandleProfileExists sample_search ?p ?m = (Inr (), m')"
    by (simp add: HandleProfileExists_def name bind_io_def search_db_def zoom_def PlayerDBSQLite_def has sample_get search_send_ok)
  have sound: "sound_table (=) (id (sc_DB ?m))" by (simp add: sound_table_def)
  have s: "\<forall>s. se_send sample_search s = Inr ()" "\<forall>s. se_send ?my s = Inr ()" by simp_all
  have ne: "check_name ?p \<noteq> []" by (simp add: name)
  have "se_db sample_search = PlayerDBSQLite table_sqlite" "se_db ?my = PlayerDBMySQL table_mysql" by simp_all
  from check_answers_by_table [OF table_players.sqlite_players_axioms table_server.mysql_directory_axioms this s
      sound sound ne, of m', THEN conjunct1, rule_format, OF run] run
  show ?thesis by (simp add: name name_taken_def)
qed

end
