(* ===== verification/Stats_Client.thy ===== *)
theory Stats_Client
  imports Player_Db Game_Db Text_Stream Crypt_Utils
begin

text \<open>
  A connection to the statistics server (\<open>emulator/stats.client.h\<close>, \<open>emulator/stats.client.cpp\<close>, port
  29920): the encoded packets, the authentication of a game server, the authentication of a
  player (\<open>authp\<close>) and the snapshots, which are handed on by HTTP.  Signed arithmetic is modelled with wrap-around, as
  compilers execute it; where the C++ leaves it undefined this is shown.  Shown: a game
  server is accepted exactly with the digest that the game's secret key gives, player
  challenges are never ambiguous, every snapshot is handed on in order.
\<close>

section \<open>The functions of the GameSpy SDK\<close>

type_synonym i32 = "32 word"

definition CHALLENGEXOR :: i32 where
  "CHALLENGEXOR = 0x38F371E6"

text \<open>\<open>std::format("{:08x}", challenge)\<close> of a signed number: the sign counts in the width.\<close>

definition hex_08 :: "i32 \<Rightarrow> string" where
  "hex_08 challenge =
     (if sint challenge < 0 then CHR ''-'' # pad_left 7 (CHR ''0'') (hex_lower (nat (- sint challenge)))
      else pad_left 8 (CHR ''0'') (hex_lower (nat (sint challenge))))"

text \<open>\<open>c += ('A' - '0') + (i++)\<close>\<close>

definition create_challenge :: "i32 \<Rightarrow> string" where
  "create_challenge challenge =
     map (\<lambda>(i, c). char_of_byte (byte_of c + 17 + of_nat i)) (enumerate 0 (hex_08 challenge))"

definition MULTIPLIER :: i32 where
  "MULTIPLIER = of_int (-1664117991)"

definition g_crc32 :: "string \<Rightarrow> i32" where
  "g_crc32 str = fold (\<lambda>c hash. hash * MULTIPLIER + of_int (schar c)) str 0"

section \<open>State\<close>

text \<open>The request that hands a snapshot on: an HTTP POST.\<close>

record post_request =
  po_target :: string
  po_version :: nat
  po_fields :: "(string \<times> string) list"
  po_body :: string

record ('d, 'p) stats_client =
  st_GameDB :: "'d game_db"
  st_PlayerDB :: 'p
  st_ServerChallenge :: string
  st_SessionKey :: i32
  st_sent :: "string list"
  st_uploads :: "post_request list"

text \<open>
  \<open>te_time\<close> is \<open>std::time(nullptr)\<close>; \<open>te_snapshot\<close> tells whether a snapshot endpoint is configured, and
  \<open>te_post\<close> is the exchange with it (connecting, writing the request, reading the answer), which may
  throw.
\<close>

record 'p stats_env =
  te_db :: "'p player_db"
  te_rng :: "nat \<Rightarrow> nat"
  te_time :: int
  te_send :: "string \<Rightarrow> exn + unit"
  te_snapshot :: bool
  te_post :: "post_request \<Rightarrow> exn + unit"

definition stats_db :: "('p, 'a) io \<Rightarrow> (('d, 'p) stats_client, 'a) io" where
  "stats_db = zoom st_PlayerDB (\<lambda>p m. m\<lparr>st_PlayerDB := p\<rparr>)"

section \<open>Packets\<close>

definition max_snapshot_buffer_size :: nat where
  "max_snapshot_buffer_size = 512 * 1024"

text \<open>The part before the delimiter is decoded in place; the delimiter itself is not encoded.\<close>

definition decode_packet :: "string \<Rightarrow> string" where
  "decode_packet packet =
     gs_xor (take (length packet - 7) packet) xor_GameSpy3D @ drop (length packet - 7) packet"

text \<open>The packets that the coroutine \<open>packet_reader\<close> yields, one per resumption, until the stream ends.\<close>

definition stats_packet_reader :: "string list \<Rightarrow> string list" where
  "stats_packet_reader chunks = map decode_packet (packets max_snapshot_buffer_size [] chunks)"

definition encoded :: "string \<Rightarrow> string" where
  "encoded message = gs_xor message xor_GameSpy3D @ final_mark"

definition SendPacket :: "'p stats_env \<Rightarrow> string \<Rightarrow> (('d, 'p) stats_client, unit) io" where
  "SendPacket env message =
     then_io (lift_exn (te_send env (encoded message)))
       (modify (\<lambda>m. m\<lparr>st_sent := st_sent m @ [encoded message]\<rparr>))"

section \<open>Authentication of the game server\<close>

definition stats_error :: "string \<Rightarrow> string" where
  "stats_error msg = key ''error'' @ key ''err'' @ ''0'' @ key ''fatal'' @ key ''errmsg'' @ msg @ key ''id'' @ ''1''"

definition start_session :: "'p stats_env \<Rightarrow> (('d, 'p) stats_client, unit) io" where
  "start_session env =
     (let now = of_int (te_time env) :: i32 in
      if now = 0x80000000 then throw Undefined_behaviour
      else modify (\<lambda>m. m\<lparr>st_SessionKey := if sint now < 0 then - now else now\<rparr>))"

definition auth_response :: "string \<Rightarrow> string \<Rightarrow> string" where
  "auth_response serverChallenge secretKey = utils_md5 (dec_int (sint (g_crc32 serverChallenge)) @ secretKey)"

text \<open>
  \<open>reader\<close> holds the packets that are still to come; the answer tells whether to go on and what is left
  of them.
\<close>

definition Authenticate ::
  "'p stats_env \<Rightarrow> string list \<Rightarrow> (('d, 'p) stats_client, bool \<times> string list) io"
where
  "Authenticate env reader =
     (let challenge = random_string (te_rng env) ''ABCDEFGHIJKLMNOPQRSTUVWXYZ'' 10 in
      then_io (modify (\<lambda>m. m\<lparr>st_ServerChallenge := challenge\<rparr>))
      (then_io (SendPacket env (key ''lc'' @ ''1'' @ key ''challenge'' @ challenge @ key ''id'' @ ''1''))
      (case reader of
         [] \<Rightarrow> ret (False, [])
       | packet # reader \<Rightarrow>
           let gamename = value_for_key packet (key ''gamename'') in
           if packet = [] \<or> \<not> prefix (key ''auth'') packet \<or> gamename = None \<or> gamename = Some []
           then ret (False, reader)
           else
             bind_io (gets (\<lambda>m. HasGame (st_GameDB m) (the gamename))) (\<lambda>has.
             if \<not> has then
               then_io (SendPacket env (stats_error ''Unknown Game!'')) (ret (False, reader))
             else
               bind_io (gets (\<lambda>m. GetGame (st_GameDB m) (the gamename))) (\<lambda>game.
               bind_io (lift_exn game) (\<lambda>game.
               if value_for_key packet (key ''response'') \<noteq>
                   Some (auth_response challenge (gd_secretKey (m_Data (as_game game)))) then
                 then_io (SendPacket env (stats_error ''Invalid Response!'')) (ret (False, reader))
               else
                 then_io (start_session env)
                 (bind_io (gets st_SessionKey) (\<lambda>sesskey.
                 then_io (SendPacket env (key ''lc'' @ ''2'' @ key ''sesskey'' @ dec_int (sint sesskey) @
                     key ''proof'' @ ''0'' @ key ''id'' @ ''1''))
                   (ret (True, reader))))))))))"

section \<open>Requests of an authenticated server\<close>

definition player_response :: "string \<Rightarrow> i32 \<Rightarrow> string" where
  "player_response password sessionKey =
     utils_md5 (password @ create_challenge (sessionKey XOR CHALLENGEXOR))"

definition refused_reply :: "string \<Rightarrow> string" where
  "refused_reply lid = key ''pauthr'' @ ''-1'' @ key ''lid'' @ lid"

definition accepted_reply :: "player_data \<Rightarrow> string \<Rightarrow> string" where
  "accepted_reply player lid = key ''pauthr'' @ dec (unat (GetProfileID player)) @ key ''lid'' @ lid"

text \<open>The branch \<open>\authp\\<close>; a request with a token or with a nick only is not answered.\<close>

definition HandleAuthPlayer :: "'p stats_env \<Rightarrow> string \<Rightarrow> (('d, 'p) stats_client, unit) io" where
  "HandleAuthPlayer env packet =
     (let localID = value_for_key packet (key ''lid'') in
      if localID = None \<or> localID = Some [] then SendPacket env (stats_error ''missing lid parameter'')
      else
        let lid = the localID; resp = value_for_key packet (key ''resp'') in
        if value_for_key packet (key ''authtoken'') \<noteq> None then ret ()
        else (case value_for_key_u32 packet (key ''pid'') of
            None \<Rightarrow> ret ()
          | Some pid \<Rightarrow>
              bind_io (stats_db (GetPlayerByPID (te_db env) (ucast pid))) (\<lambda>player.
              bind_io (gets st_SessionKey) (\<lambda>sessionKey.
              (case (player, resp) of
                 (Some player, Some resp) \<Rightarrow>
                   if resp = player_response (pl_password player) sessionKey
                   then SendPacket env (accepted_reply player lid)
                   else SendPacket env (refused_reply lid)
               | _ \<Rightarrow> SendPacket env (refused_reply lid))))))"

text \<open>\<open>prepare_payload\<close> adds the length of the body.\<close>

definition snapshot_request :: "string \<Rightarrow> post_request" where
  "snapshot_request data =
     \<lparr>po_target = ''/ASP/bf2statistics.php'', po_version = 10,
      po_fields = [(''User-Agent'', ''GameSpyHTTP/1.0''), (''Content-Type'', ''application/json''),
        (''Connection'', ''close''), (''Content-Length'', dec (length data))],
      po_body = data\<rparr>"

text \<open>\<open>final\<close> is not looked at.\<close>

definition HandeSnapshot :: "'p stats_env \<Rightarrow> string \<Rightarrow> bool \<Rightarrow> (('d, 'p) stats_client, unit) io" where
  "HandeSnapshot env data final =
     (if \<not> te_snapshot env then ret ()
      else
        let req = snapshot_request data in
        then_io (lift_exn (te_post env req)) (modify (\<lambda>m. m\<lparr>st_uploads := st_uploads m @ [req]\<rparr>)))"

definition HandleUpdateGame :: "'p stats_env \<Rightarrow> string \<Rightarrow> (('d, 'p) stats_client, unit) io" where
  "HandleUpdateGame env packet =
     (case value_for_key packet (key ''gamedata'') of
        None \<Rightarrow> ret ()
      | Some gamedata \<Rightarrow>
          HandeSnapshot env (replace_char (CHR 0x01) BS gamedata)
            (value_for_key_u32 packet (key ''done'') = Some 1))"

definition stats_handle :: "'p stats_env \<Rightarrow> string \<Rightarrow> (('d, 'p) stats_client, unit) io" where
  "stats_handle env packet =
     (if prefix (key ''getpid'') packet then ret ()
      else if prefix (key ''getpd'') packet then ret ()
      else if prefix (key ''authp'') packet then HandleAuthPlayer env packet
      else if prefix (key ''setpd'') packet then ret ()
      else if prefix (key ''updgame'') packet then HandleUpdateGame env packet
      else ret ())"

definition stats_Process :: "'p stats_env \<Rightarrow> string list \<Rightarrow> (('d, 'p) stats_client, unit) io" where
  "stats_Process env chunks =
     bind_io (Authenticate env (stats_packet_reader chunks)) (\<lambda>(ok, reader).
     if \<not> ok then ret () else for_each reader (stats_handle env))"


section \<open>Rules\<close>

lemma SendPacket_ok:
  "te_send env (encoded s) = Inr () \<Longrightarrow> SendPacket env s m = (Inr (), m\<lparr>st_sent := st_sent m @ [encoded s]\<rparr>)"
  by (simp add: SendPacket_def then_io_def bind_io_def lift_exn_def modify_def)

lemma SendPacket_cases:
  "SendPacket env s m = (r, m') \<Longrightarrow> (\<exists>sent. m' = m\<lparr>st_sent := sent\<rparr>)"
  by (auto simp: SendPacket_def then_io_def bind_io_def lift_exn_def modify_def split: sum.splits
      intro: exI [of _ "st_sent m"])

lemma stats_db_simps:
  "op (st_PlayerDB m) = (r, p) \<Longrightarrow> stats_db op m = (r, m\<lparr>st_PlayerDB := p\<rparr>)"
  by (simp add: stats_db_def zoom_def)

section \<open>Challenges\<close>

definition hex_digit :: "char \<Rightarrow> nat" where
  "hex_digit c = (if is_digit c then digit_val c else of_char c - 87)"

definition hex_val :: "string \<Rightarrow> nat" where
  "hex_val s = foldl (\<lambda>a c. 16 * a + hex_digit c) 0 s"

lemma hex_digits:
  "d < 16 \<Longrightarrow> hex_digit (''0123456789abcdef'' ! d) = d \<and>
     (48 :: nat) \<le> of_char (''0123456789abcdef'' ! d) \<and> of_char (''0123456789abcdef'' ! d) \<le> (102 :: nat)"
proof -
  assume "d < 16"
  then have "d \<in> {0, 1, 2, 3, 4, 5, 6, 7, 8, 9, 10, 11, 12, 13, 14, 15}"
    unfolding insert_iff empty_iff by arith
  then show ?thesis by (auto simp: hex_digit_def is_digit_def digit_val_def)
qed

lemma hex_lower_rec: "hex_lower n = (if n < 16 then [''0123456789abcdef'' ! n]
    else hex_lower (n div 16) @ [''0123456789abcdef'' ! (n mod 16)])"
  unfolding hex_lower_def by (subst radix.simps) simp

lemma hex_lower_props: "hex_val (hex_lower n) = n \<and>
  (\<forall>c \<in> set (hex_lower n). (48 :: nat) \<le> of_char c \<and> of_char c \<le> (102 :: nat))"
proof (induction n rule: less_induct)
  case (less n)
  show ?case
  proof (cases "n < 16")
    case True
    then show ?thesis using hex_digits [OF True] by (subst (1 2) hex_lower_rec) (simp add: hex_val_def)
  next
    case False
    have d: "n mod 16 < 16" by simp
    from False less.IH [of "n div 16"] hex_digits [OF d] show ?thesis
      by (subst (1 2) hex_lower_rec) (auto simp: hex_val_def)
  qed
qed

lemma length_hex_lower: "n < 16 ^ k \<Longrightarrow> 0 < k \<Longrightarrow> length (hex_lower n) \<le> k"
proof -
  assume a: "n < 16 ^ k" "0 < k"
  have l: "length ''0123456789abcdef'' = 16" by simp
  show ?thesis unfolding hex_lower_def by (rule length_radix_le [of "''0123456789abcdef''", unfolded l, OF _ a]) simp
qed

lemma hex_val_zeros: "hex_val (replicate k (CHR ''0'') @ s) = hex_val s"
  by (induction k) (simp_all add: hex_val_def hex_digit_def is_digit_def digit_val_def)

text \<open>Eight digits, from which the number is read back.\<close>

lemma hex_08_props:
  assumes "0 \<le> sint w"
  shows "length (hex_08 w) = 8" "hex_val (hex_08 w) = nat (sint w)"
    "\<forall>c \<in> set (hex_08 w). (48 :: nat) \<le> of_char c \<and> of_char c \<le> (102 :: nat)"
proof -
  have "sint w < 2 ^ 31" using sint_less [of w] by simp
  then have "nat (sint w) < 16 ^ 8" by (simp add: nat_less_iff)
  then have "length (hex_lower (nat (sint w))) \<le> 8" by (rule length_hex_lower) simp
  then show "length (hex_08 w) = 8" using assms by (simp add: hex_08_def pad_left_def)
  show "hex_val (hex_08 w) = nat (sint w)"
    using assms hex_lower_props [of "nat (sint w)"] by (simp add: hex_08_def pad_left_def hex_val_zeros)
  show "\<forall>c \<in> set (hex_08 w). (48 :: nat) \<le> of_char c \<and> of_char c \<le> (102 :: nat)"
    using assms hex_lower_props [of "nat (sint w)"] by (auto simp: hex_08_def pad_left_def)
qed

lemma xor_nonneg:
  assumes "0 \<le> sint (k :: i32)"
  shows "0 \<le> sint (k XOR CHALLENGEXOR)"
proof -
  have "\<not> bit k 31" using assms bit_last_iff [of k] by simp
  then have "\<not> bit (k XOR CHALLENGEXOR) 31" by (simp add: bit_xor_iff CHALLENGEXOR_def)
  then show ?thesis using bit_last_iff [of "k XOR CHALLENGEXOR"] by simp
qed


lemma add_byte_code: "(of_char c :: nat) + k < 256 \<Longrightarrow>
  (of_char (char_of_byte (byte_of c + of_nat k)) :: nat) = of_char c + k"
proof -
  assume lt: "(of_char c :: nat) + k < 256"
  have e: "byte_of c + of_nat k = of_nat (of_char c + k)" by (simp add: byte_of_eq)
  have "unat (byte_of c + of_nat k) = of_char c + k" unfolding e unat_of_nat using lt by simp
  then show ?thesis using lt by (simp add: char_of_byte_def)
qed

lemma create_challenge_nth:
  assumes "0 \<le> sint w" "i < 8"
  shows "(of_char (create_challenge w ! i) :: nat) = of_char (hex_08 w ! i) + 17 + i"
proof -
  have c: "(of_char (hex_08 w ! i) :: nat) \<le> 102"
    using hex_08_props(1,3) [OF assms(1)] assms(2) nth_mem [of i "hex_08 w"] by simp
  have "create_challenge w ! i = char_of_byte (byte_of (hex_08 w ! i) + of_nat (17 + i))"
    using hex_08_props(1) [OF assms(1)] assms(2)
    by (simp add: create_challenge_def nth_enumerate_eq add.assoc)
  with add_byte_code [of "hex_08 w ! i" "17 + i"] c assms(2) show ?thesis by simp
qed

lemma length_create_challenge: "0 \<le> sint w \<Longrightarrow> length (create_challenge w) = 8"
  by (simp add: create_challenge_def hex_08_props)

lemma create_challenge_inj:
  assumes "0 \<le> sint v" "0 \<le> sint w" "create_challenge v = create_challenge w"
  shows "v = w"
proof -
  have "hex_08 v = hex_08 w"
  proof (rule nth_equalityI)
    fix i assume "i < length (hex_08 v)"
    then have i: "i < 8" using hex_08_props(1) [OF assms(1)] by simp
    from create_challenge_nth [OF assms(1) i] create_challenge_nth [OF assms(2) i] assms(3)
    have "(of_char (hex_08 v ! i) :: nat) = of_char (hex_08 w ! i)" by simp
    then show "hex_08 v ! i = hex_08 w ! i" by simp
  qed (use hex_08_props(1) assms(1,2) in simp)
  then have "nat (sint v) = nat (sint w)" using hex_08_props(2) assms(1,2) by metis
  then have "sint v = sint w" using assms(1,2) by linarith
  then show ?thesis by (rule signed_word_eqI)
qed

section \<open>The stream\<close>

lemma decode_encoded: "decode_packet (encoded m) = m @ final_mark"
  by (simp add: decode_packet_def encoded_def gs_xor_involution)

lemma reader_messages:
  assumes "concat chunks = concat (map encoded ms)"
    and "\<forall>m \<in> set ms. sendable max_snapshot_buffer_size (gs_xor m xor_GameSpy3D)"
  shows "stats_packet_reader chunks = map (\<lambda>m. m @ final_mark) ms"
proof -
  let ?xs = "map (\<lambda>m. gs_xor m xor_GameSpy3D) ms"
  have "concat chunks = concat (map (\<lambda>x. x @ final_mark) ?xs) @ []"
    using assms(1) by (simp add: encoded_def [abs_def] comp_def)
  moreover have "\<forall>x \<in> set ?xs. sendable max_snapshot_buffer_size x" using assms(2) by simp
  ultimately have "packets max_snapshot_buffer_size [] chunks = map encoded ms @ split_packets max_snapshot_buffer_size []"
    using split_packets_messages [of ?xs max_snapshot_buffer_size "[]"]
    by (simp add: packets_split encoded_def comp_def)
  moreover have "split_packets max_snapshot_buffer_size [] = []"
    by (subst split_packets.simps) (simp add: final_mark_eq)
  ultimately show ?thesis by (simp add: stats_packet_reader_def decode_encoded comp_def)
qed


section \<open>Who is accepted\<close>

definition auth_ok :: "'d game_db \<Rightarrow> string \<Rightarrow> string \<Rightarrow> bool" where
  "auth_ok db challenge p =
     (case value_for_key p (key ''gamename'') of
        None \<Rightarrow> False
      | Some n \<Rightarrow> prefix (key ''auth'') p \<and> n \<noteq> [] \<and> HasGame db n \<and>
          (case GetGame db n of
             Inl _ \<Rightarrow> False
           | Inr g \<Rightarrow> value_for_key p (key ''response'') =
               Some (auth_response challenge (gd_secretKey (m_Data (as_game g))))))"

abbreviation stats_challenge :: "'p stats_env \<Rightarrow> string" where
  "stats_challenge env \<equiv> random_string (te_rng env) ''ABCDEFGHIJKLMNOPQRSTUVWXYZ'' 10"

lemma neg_i32:
  fixes w :: i32
  assumes "sint w < 0" "w \<noteq> 0x80000000"
  shows "0 \<le> sint (- w)"
proof -
  have "sint w \<noteq> - (2 ^ 31)"
  proof
    assume "sint w = - (2 ^ 31)"
    moreover have "(of_int (sint w) :: i32) = w" by simp
    ultimately have "w = of_int (- (2 ^ 31))" by metis
    with assms(2) show False by simp
  qed
  moreover have "- (2 ^ 31) \<le> sint w" using sint_ge [of w] by simp
  ultimately have lt: "- sint w < 2 ^ 31" by simp
  have "- w = of_int (- sint w)" by simp
  then have "sint (- w) = signed_take_bit 31 (- sint w)" by (simp only: sint_sbintrunc') simp
  also have "\<dots> = - sint w" using assms(1) lt by (intro signed_take_bit_int_eq_self) simp_all
  finally show ?thesis using assms(1) by simp
qed

lemma start_session_run:
  assumes "(of_int (te_time env) :: i32) \<noteq> 0x80000000"
  shows "\<exists>k. (\<forall>m. start_session env m = (Inr (), m\<lparr>st_SessionKey := k\<rparr>)) \<and> 0 \<le> sint k"
proof -
  define now where "now = (of_int (te_time env) :: i32)"
  have "0 \<le> sint (if sint now < 0 then - now else now)"
    using assms neg_i32 [of now] by (simp add: now_def [symmetric])
  then show ?thesis using assms
    by (intro exI [of _ "if sint now < 0 then - now else now"])
      (simp add: start_session_def Let_def modify_def now_def [symmetric])
qed

lemma Authenticate_run:
  fixes m :: "('d, 'p) stats_client"
  assumes send: "\<forall>s. te_send env s = Inr ()" and time: "(of_int (te_time env) :: i32) \<noteq> 0x80000000"
  shows "\<exists>m' k sent. Authenticate env (p # ps) m =
      (Inr (auth_ok (st_GameDB m) (stats_challenge env) p, ps),
       m\<lparr>st_ServerChallenge := stats_challenge env, st_SessionKey := k, st_sent := sent\<rparr>) \<and>
    (auth_ok (st_GameDB m) (stats_challenge env) p \<longrightarrow> 0 \<le> sint k)"
proof -
  let ?n = "value_for_key p (key ''gamename'')"
  note run = Authenticate_def Let_def then_io_def bind_io_def modify_def gets_def ret_def lift_exn_def
  note sent = SendPacket_ok [OF send [rule_format]]
  show ?thesis
  proof (cases "p = [] \<or> \<not> prefix (key ''auth'') p \<or> ?n = None \<or> ?n = Some []")
    case True
    then have "\<not> auth_ok (st_GameDB m) (stats_challenge env) p"
      by (auto simp: auth_ok_def key_def split: option.splits)
    with True show ?thesis by (auto simp: run sent intro!: exI [of _ "st_SessionKey m"])
  next
    case False
    then obtain n where n: "?n = Some n" "n \<noteq> []" "prefix (key ''auth'') p" "p \<noteq> []" by auto
    show ?thesis
    proof (cases "HasGame (st_GameDB m) n")
      case False
      with n have "\<not> auth_ok (st_GameDB m) (stats_challenge env) p" by (simp add: auth_ok_def)
      with n False show ?thesis by (auto simp: run sent intro!: exI [of _ "st_SessionKey m"])
    next
      case True
      then obtain g where g: "GetGame (st_GameDB m) n = Inr g" using gdb.get_has by blast
      have ok: "auth_ok (st_GameDB m) (stats_challenge env) p \<longleftrightarrow> value_for_key p (key ''response'') =
          Some (auth_response (stats_challenge env) (gd_secretKey (m_Data (as_game g))))"
        using n True g by (simp add: auth_ok_def)
      show ?thesis
      proof (cases "auth_ok (st_GameDB m) (stats_challenge env) p")
        case False
        with ok n True g show ?thesis by (auto simp: run sent intro!: exI [of _ "st_SessionKey m"])
      next
        case a: True
        obtain k where k: "\<forall>m :: ('d, 'p) stats_client. start_session env m = (Inr (), m\<lparr>st_SessionKey := k\<rparr>)" "0 \<le> sint k"
          using start_session_run [OF time] by blast
        from a ok n True g k show ?thesis by (auto simp: run sent intro!: exI [of _ k])
      qed
    qed
  qed
qed

section \<open>What is handed on\<close>

definition snapshots :: "string \<Rightarrow> post_request list" where
  "snapshots p =
     (if prefix (key ''updgame'') p then
        (case value_for_key p (key ''gamedata'') of None \<Rightarrow> [] | Some g \<Rightarrow> [snapshot_request (replace_char (CHR 0x01) BS g)])
      else [])"

lemma uploads_fixed:
  "preserves (\<lambda>m. st_uploads m = u) (SendPacket env s)"
  "preserves (\<lambda>m. st_uploads m = u) (HandleAuthPlayer env p)"
proof -
  show send: "preserves (\<lambda>m. st_uploads m = u) (SendPacket env s)" for s
    unfolding SendPacket_def by (intro preserves_intros preserves_modify) simp
  have db: "preserves (\<lambda>m. st_uploads m = u) (stats_db op)" for op
    unfolding stats_db_def by (rule preserves_zoom) simp
  show "preserves (\<lambda>m. st_uploads m = u) (HandleAuthPlayer env p)"
    unfolding HandleAuthPlayer_def Let_def prod.case by (intro preserves_intros send db)
qed

lemma stats_handle_uploads:
  fixes m :: "('d, 'p) stats_client"
  assumes "stats_handle env p m = (Inr (), m')"
  shows "st_uploads m' = st_uploads m @ (if te_snapshot env then snapshots p else [])"
proof (cases "prefix (key ''updgame'') p")
  case True
  then obtain r where r: "p = key ''updgame'' @ r" by (auto simp: prefix_def)
  have cmd: "stats_handle env p = HandleUpdateGame env p" by (simp add: stats_handle_def r key_def)
  from assms have "HandleUpdateGame env p m = (Inr (), m')" unfolding cmd .
  with True show ?thesis
    by (auto simp: HandleUpdateGame_def HandeSnapshot_def snapshots_def ret_def then_io_def bind_io_def lift_exn_def
        modify_def Let_def split: option.splits if_splits sum.splits)
next
  case False
  then have "stats_handle env p m = HandleAuthPlayer env p m \<or> stats_handle env p m = ret () m"
    by (auto simp: stats_handle_def)
  then have "st_uploads m' = st_uploads m"
  proof
    assume e: "stats_handle env p m = HandleAuthPlayer env p m"
    from preservesD [OF uploads_fixed(2) refl, of env p m] show ?thesis using assms unfolding e by simp
  next
    assume e: "stats_handle env p m = ret () m"
    show ?thesis using assms unfolding e by (simp add: ret_def)
  qed
  with False show ?thesis by (simp add: snapshots_def)
qed

lemma stats_loop_uploads:
  "for_each ps (stats_handle env) m = (Inr (), m') \<Longrightarrow>
   st_uploads m' = st_uploads m @ (if te_snapshot env then concat (map snapshots ps) else [])"
proof (induction ps arbitrary: m)
  case (Cons p ps)
  then obtain m1 where "stats_handle env p m = (Inr (), m1)" "for_each ps (stats_handle env) m1 = (Inr (), m')"
    by (auto simp: then_io_def bind_io_Inr)
  from stats_handle_uploads [OF this(1)] Cons.IH [OF this(2)] show ?case by simp
qed (simp add: ret_def)


section \<open>The encoding keeps the framing\<close>

text \<open>The characters of a message: printable ones, and the byte 1 that stands for a backslash in a snapshot.\<close>

definition message_char :: "char \<Rightarrow> bool" where
  "message_char c \<longleftrightarrow> (of_char c :: nat) = 1 \<or> (32 :: nat) \<le> of_char c"

lemma message_char_xor:
  "message_char (xor_char c d) \<longleftrightarrow> byte_of c XOR byte_of d = 1 \<or> 32 \<le> byte_of c XOR byte_of d"
proof -
  have "(of_char (char_of_byte b) :: nat) = unat b" for b
    using unsigned_less [of b, where 'a = nat] by (simp add: char_of_byte_def)
  moreover have "unat b = 1 \<longleftrightarrow> b = 1" for b :: u8 by (simp add: word_unat_eq_iff)
  moreover have "32 \<le> unat b \<longleftrightarrow> 32 \<le> b" for b :: u8 by (simp add: word_le_nat_alt)
  ultimately show ?thesis by (simp only: message_char_def xor_char_def)
qed

text \<open>Wherever the delimiter begins in the encoded text, one of its first five characters is a control character.\<close>

lemma delimiter_control:
  "list_all (\<lambda>r. list_ex (\<lambda>k. \<not> message_char (xor_char (final_mark ! k) (xor_GameSpy3D ! ((r + k) mod 9)))) [0..<5]) [0..<9]"
proof -
  have "[0..<5 :: nat] = [0, 1, 2, 3, 4]" "[0..<9 :: nat] = [0, 1, 2, 3, 4, 5, 6, 7, 8]"
    by (simp_all add: upt_conv_Cons)
  then show ?thesis
    unfolding message_char_xor by (simp add: final_mark_eq xor_GameSpy3D_def byte_of_def)
qed

lemma xor_char_eq: "xor_char c d = e \<Longrightarrow> c = xor_char e d"
  by (auto simp: xor_char_def xor.assoc)

lemma final_mark_BS: "k < 7 \<Longrightarrow> final_mark ! k = BS \<longleftrightarrow> k = 0 \<or> k = 6"
proof -
  assume "k < 7"
  then have "k \<in> {0, 1, 2, 3, 4, 5, 6}" unfolding insert_iff empty_iff by arith
  then show ?thesis by (auto simp: final_mark_eq)
qed

lemma encoded_sendable:
  assumes "\<forall>c \<in> set m. message_char c" and "length m + 7 \<le> limit"
  shows "sendable limit (gs_xor m xor_GameSpy3D)"
proof -
  let ?e = "gs_xor m xor_GameSpy3D"
  have "\<not> prefix final_mark (drop j (?e @ final_mark))" if j: "j < length ?e" for j
  proof
    assume p: "prefix final_mark (drop j (?e @ final_mark))"
    have at: "(?e @ final_mark) ! (j + k) = final_mark ! k" if "k < 7" for k
    proof -
      obtain r where r: "drop j (?e @ final_mark) = final_mark @ r" using p by (auto simp: prefix_def)
      have "drop j (?e @ final_mark) ! k = final_mark ! k" unfolding r using that by (simp add: nth_append)
      moreover have "drop j (?e @ final_mark) ! k = (?e @ final_mark) ! (j + k)"
        using j by (intro nth_drop) simp
      ultimately show ?thesis by simp
    qed
    have far: "j + 6 \<le> length ?e"
    proof (rule ccontr)
      assume "\<not> j + 6 \<le> length ?e"
      then have k: "length ?e - j < 6" "0 < length ?e - j" using j by auto
      then have "(?e @ final_mark) ! (j + (length ?e - j)) = final_mark ! (length ?e - j)" by (intro at) simp
      moreover have "(?e @ final_mark) ! (j + (length ?e - j)) = BS"
        using j by (simp add: nth_append final_mark_eq)
      ultimately show False using final_mark_BS [of "length ?e - j"] k by auto
    qed
    have "j mod 9 < 9" by simp
    with delimiter_control [unfolded list_all_iff list_ex_iff, rule_format, of "j mod 9"] obtain k where k: "k < 5"
      "\<not> message_char (xor_char (final_mark ! k) (xor_GameSpy3D ! ((j mod 9 + k) mod 9)))"
      by (auto simp: list_all_iff list_ex_iff)
    have "length xor_GameSpy3D = 9" by (simp add: xor_GameSpy3D_def)
    then have "?e ! (j + k) = xor_char (m ! (j + k)) (xor_GameSpy3D ! ((j + k) mod 9))"
      using far k(1) nth_gs_xor_from [of "j + k" m 0 xor_GameSpy3D] by (simp add: gs_xor_def length_gs_xor_from)
    moreover have "?e ! (j + k) = final_mark ! k"
      using at [of k] k(1) far by (simp add: nth_append)
    ultimately have "m ! (j + k) = xor_char (final_mark ! k) (xor_GameSpy3D ! ((j + k) mod 9))"
      using xor_char_eq by metis
    moreover have "message_char (m ! (j + k))" using assms(1) far k(1) by simp
    ultimately show False using k(2) by (simp add: mod_add_left_eq)
  qed
  then have "sv_find final_mark (?e @ final_mark) = Some (length ?e)"
    by (intro sv_find_eq) simp_all
  with assms(2) show ?thesis by (simp add: sendable_def)
qed

text \<open>The ids of a sound table are unsigned 64-bit numbers as they are.\<close>

lemma sound_id:
  assumes "sound_table same t" "r \<in> set (tbl_rows t)"
  shows "(of_int (row_id r) = (ucast i :: u64)) \<longleftrightarrow> row_id r = int (unat (i :: u32))"
proof -
  have id: "0 < row_id r" "row_id r < 2 ^ 63" using assms by (force simp: sound_table_def)+
  have "uint (of_int (row_id r) :: u64) = row_id r" using id by (simp add: uint_word_of_int_eq take_bit_int_eq_self)
  moreover have "uint (ucast i :: u64) = int (unat i)"
    using unsigned_less [of i, where 'a = int] by (simp add: unsigned_ucast_eq take_bit_int_eq_self)
  ultimately show ?thesis by (metis word_uint_eq_iff)
qed

lemma unat_up: "unat (ucast (i :: u32) :: u64) = unat i"
  using unsigned_less [of i, where 'a = nat] by (simp add: unsigned_ucast_eq take_bit_nat_eq_self)

context player_directory
begin

lemma authp_answers:
  assumes "HandleAuthPlayer env p m = (Inr (), m')" and "te_db env = db"
    and "\<forall>s. te_send env s = Inr ()" and "sound_table same (table (st_PlayerDB m))"
    and "value_for_key p (key ''lid'') = Some l" and "l \<noteq> []" and "value_for_key p (key ''authtoken'') = None"
    and "value_for_key_u32 p (key ''pid'') = Some i"
  shows "table (st_PlayerDB m') = table (st_PlayerDB m) \<and>
    st_sent m' = st_sent m @
      [encoded (if \<exists>r \<in> set (tbl_rows (table (st_PlayerDB m))). row_id r = int (unat i) \<and>
          value_for_key p (key ''resp'') = Some (player_response (str (row_password r)) (st_SessionKey m))
        then key ''pauthr'' @ dec (unat i) @ key ''lid'' @ l else refused_reply l)]"
proof -
  let ?t = "table (st_PlayerDB m)" and ?resp = "value_for_key p (key ''resp'')"
  let ?good = "\<lambda>r. ?resp = Some (player_response (str (row_password r)) (st_SessionKey m))"
  obtain g q where get: "GetPlayerByPID db (ucast i) (st_PlayerDB m) = (g, q)" by fastforce
  note run = HandleAuthPlayer_def Let_def bind_io_def gets_def
  note sent = SendPacket_ok [OF assms(3) [rule_format]]
  consider (fails) e where "g = Inl e" | (none) "g = Inr None" | (found) pl where "g = Inr (Some pl)"
    by (metis obj_sumE option.exhaust)
  then show ?thesis
  proof cases
    case fails
    with assms get show ?thesis by (simp add: run stats_db_simps)
  next
    case none
    from by_pid_none [OF get [unfolded none]] assms(4) have n: "table q = ?t"
      "\<forall>r \<in> set (tbl_rows ?t). row_id r \<noteq> int (unat i)"
      using sound_id [OF assms(4)] by (auto simp: sound_table_def)
    with assms get none show ?thesis by (auto simp: run stats_db_simps sent)
  next
    case found
    from by_pid [OF get [unfolded found]] obtain r where r: "table q = ?t" "r \<in> set (tbl_rows ?t)"
      "of_int (row_id r) = (ucast i :: u64)" "pl = row_player str r" by blast
    have id: "row_id r = int (unat i)" by (rule iffD1 [OF sound_id [OF assms(4) r(2)] r(3)])
    have only: "s = r" if "s \<in> set (tbl_rows ?t)" "row_id s = int (unat i)" for s
      using assms(4) that r(2) id by (auto simp: sound_table_def distinct_map inj_on_def)
    have reply: "accepted_reply pl l = key ''pauthr'' @ dec (unat i) @ key ''lid'' @ l"
      using r(3) by (simp add: accepted_reply_def r(4) row_player_def PlayerData_of_def GetProfileID_def unat_up)
    have pw: "pl_password pl = str (row_password r)" by (simp add: r(4) row_player_def PlayerData_of_def)
    have ex: "(\<exists>s \<in> set (tbl_rows ?t). row_id s = int (unat i) \<and> ?good s) \<longleftrightarrow> ?good r"
      using only r(2) id by blast
    show ?thesis
    proof (cases "?good r")
      case True
      with assms get found r(1) pw reply ex show ?thesis by (auto simp: run stats_db_simps sent)
    next
      case False
      with assms get found r(1) pw ex show ?thesis
        by (cases ?resp) (auto simp: run stats_db_simps sent)
    qed
  qed
qed

end

context sqlite_players
begin

lemmas contract_authp_answers = players.authp_answers

end

section \<open>Properties\<close>

text \<open>
  C32. The stream of the statistics protocol: messages of printable characters (and the byte 1), encoded
  as \<open>SendPacket\<close> does and followed by the delimiter, are read back exactly, in order, however the
  network divides the bytes: the encoding never produces the delimiter within a message.
\<close>

theorem stats_framing:
  assumes "concat chunks = concat (map encoded ms)"
    and "\<forall>m \<in> set ms. (\<forall>c \<in> set m. message_char c) \<and> length m + 7 \<le> max_snapshot_buffer_size"
  shows "stats_packet_reader chunks = map (\<lambda>m. m @ final_mark) ms"
  using reader_messages [OF assms(1)] encoded_sendable assms(2) by blast

text \<open>
  C31. A game server that sends an authentication packet and then further ones: it is accepted exactly when
  it names a game of the directory and its response is the digest of the challenge's checksum and this
  game's secret key; when \<open>Process\<close> then runs to the end of the stream without an exception, the
  snapshot of each \<open>updgame\<close> packet has been handed on as one request, in order and with nothing else, if the server
  was accepted and an endpoint is configured, and nothing otherwise.
\<close>

theorem snapshots_of_accepted_servers:
  assumes "\<forall>s. te_send env s = Inr ()" and "(of_int (te_time env) :: i32) \<noteq> 0x80000000"
    and "stats_packet_reader chunks = p # ps" and "stats_Process env chunks m = (Inr (), m')"
  shows "st_uploads m' = st_uploads m @
    (if te_snapshot env \<and> auth_ok (st_GameDB m) (stats_challenge env) p then concat (map snapshots ps) else [])"
proof -
  obtain m1 where a: "Authenticate env (p # ps) m = (Inr (auth_ok (st_GameDB m) (stats_challenge env) p, ps), m1)"
    and u: "st_uploads m1 = st_uploads m"
    using Authenticate_run [OF assms(1,2), of p ps m] by fastforce
  show ?thesis
  proof (cases "auth_ok (st_GameDB m) (stats_challenge env) p")
    case True
    with assms(3,4) a have "for_each ps (stats_handle env) m1 = (Inr (), m')"
      by (simp add: stats_Process_def bind_io_def)
    from stats_loop_uploads [OF this] u True show ?thesis by simp
  next
    case False
    with assms(3,4) a u show ?thesis by (simp add: stats_Process_def bind_io_def ret_def)
  qed
qed

text \<open>
  C34. The challenge of a player is unambiguous: for every session key that \<open>start_session\<close> can store
  (not negative) it is a text of eight characters with codes 65 to 126, so that no addition of a
  \<open>char\<close> overflows, and two session keys never share one.
\<close>

theorem player_challenge_unambiguous:
  assumes "0 \<le> sint k"
  shows "length (create_challenge (k XOR CHALLENGEXOR)) = 8 \<and>
    (\<forall>i < 8. (65 :: nat) \<le> of_char (create_challenge (k XOR CHALLENGEXOR) ! i) \<and>
       of_char (create_challenge (k XOR CHALLENGEXOR) ! i) \<le> (126 :: nat)) \<and>
    (\<forall>l. 0 \<le> sint l \<and> create_challenge (l XOR CHALLENGEXOR) = create_challenge (k XOR CHALLENGEXOR) \<longrightarrow> l = k)"
proof (intro conjI allI impI)
  note k = xor_nonneg [OF assms]
  show "length (create_challenge (k XOR CHALLENGEXOR)) = 8" by (rule length_create_challenge [OF k])
  fix i :: nat assume i: "i < 8"
  have "hex_08 (k XOR CHALLENGEXOR) ! i \<in> set (hex_08 (k XOR CHALLENGEXOR))"
    using hex_08_props(1) [OF k] i by simp
  with hex_08_props(3) [OF k] have "48 \<le> (of_char (hex_08 (k XOR CHALLENGEXOR) ! i) :: nat)"
    "(of_char (hex_08 (k XOR CHALLENGEXOR) ! i) :: nat) \<le> 102" by auto
  with create_challenge_nth [OF k i] i
  show "(65 :: nat) \<le> of_char (create_challenge (k XOR CHALLENGEXOR) ! i)"
    "of_char (create_challenge (k XOR CHALLENGEXOR) ! i) \<le> (126 :: nat)" by simp_all
next
  fix l assume "0 \<le> sint l \<and> create_challenge (l XOR CHALLENGEXOR) = create_challenge (k XOR CHALLENGEXOR)"
  then have "l XOR CHALLENGEXOR = k XOR CHALLENGEXOR"
    using create_challenge_inj [OF xor_nonneg xor_nonneg [OF assms]] by blast
  then have "(l XOR CHALLENGEXOR) XOR CHALLENGEXOR = (k XOR CHALLENGEXOR) XOR CHALLENGEXOR" by simp
  then show "l = k" by (simp add: xor.assoc)
qed



text \<open>
  The checksum of a challenge is computed in a signed type that cannot hold it: for every
  challenge the server generates, the exact second step of \<open>g_crc32\<close> lies below the range of
  \<open>std::int32_t\<close>, which is a signed overflow in each authentication.
\<close>

theorem checksum_overflows:
  "sint (g_crc32 (take 1 (stats_challenge env))) * -1664117991 + schar (stats_challenge env ! 1) < - (2 ^ 31)"
proof -
  let ?s = "stats_challenge env"
  have mem: "?s ! i \<in> set ''ABCDEFGHIJKLMNOPQRSTUVWXYZ''" if "i < 10" for i
    using set_random_string [of "''ABCDEFGHIJKLMNOPQRSTUVWXYZ''" "te_rng env" 10] nth_mem [of i ?s] that
    by (auto simp del: nth_mem)
  have range: "65 \<le> schar c \<and> schar c \<le> 90" if "c \<in> set ''ABCDEFGHIJKLMNOPQRSTUVWXYZ''" for c
    using that by (auto simp: schar_def byte_of_def)
  have "take 1 ?s = [?s ! 0]" by (simp add: take_Suc_conv_app_nth)
  then have "g_crc32 (take 1 ?s) = of_int (schar (?s ! 0))" by (simp add: g_crc32_def)
  moreover have "sint (of_int (schar (?s ! 0)) :: i32) = schar (?s ! 0)"
    using range [OF mem [of 0]] by (simp add: sint_sbintrunc' signed_take_bit_int_eq_self)
  ultimately show ?thesis using range [OF mem [of 0]] range [OF mem [of 1]] by simp
qed

section \<open>Witnesses\<close>

theorem player_challenge_unambiguous_witness:
  "length (create_challenge (7 XOR CHALLENGEXOR)) = 8"
  using player_challenge_unambiguous [of 7] by simp

theorem stats_framing_witness:
  "stats_packet_reader [encoded (key ''auth''), [], encoded (key ''updgame'')] =
     [key ''auth'' @ final_mark, key ''updgame'' @ final_mark]"
proof -
  have "\<forall>m \<in> set [key ''auth'', key ''updgame'']. (\<forall>c \<in> set m. message_char c) \<and>
      length m + 7 \<le> max_snapshot_buffer_size"
    by (simp add: key_def message_char_def max_snapshot_buffer_size_def)
  then show ?thesis
    using stats_framing [of "[encoded (key ''auth''), [], encoded (key ''updgame'')]" "[key ''auth'', key ''updgame'']"]
    by simp
qed


text \<open>A connection that serves \<open>gmtest\<close>, a game server that knows its key, and one snapshot.\<close>

abbreviation sample_stats_env :: "player_table stats_env" where
  "sample_stats_env \<equiv> \<lparr>te_db = PlayerDBSQLite table_sqlite, te_rng = \<lambda>i. i, te_time = 1700000000,
     te_send = \<lambda>_. Inr (), te_snapshot = True, te_post = \<lambda>_. Inr ()\<rparr>"

abbreviation sample_stats :: "(string, player_table) stats_client" where
  "sample_stats \<equiv> \<lparr>st_GameDB = \<lparr>m_Config = [], m_Games = [(''gmtest'', Base_game gmtest_game)]\<rparr>,
     st_PlayerDB = sample_registered, st_ServerChallenge = [], st_SessionKey = 7, st_sent = [], st_uploads = []\<rparr>"

definition sample_auth :: string where
  "sample_auth = packet_of [''auth'', [], ''gamename'', ''gmtest'', ''response'',
     auth_response (stats_challenge sample_stats_env) ''HA6zkS'', ''final'']"

definition sample_snapshot :: string where
  "sample_snapshot = packet_of [''updgame'', [], ''gamedata'', ''k'' @ [CHR 0x01] @ ''v'', ''final'']"

lemma packet_of_text: "packet_of (ss @ [''final'']) = concat (map ((#) BS) ss) @ final_mark"
  by (induction ss) (simp_all add: packet_of.simps(2) final_mark_eq)

lemma auth_response_hex: "set (auth_response c k) \<subseteq> set hex_chars" "length (auth_response c k) = 32"
  by (simp_all add: auth_response_def set_utils_md5)

lemma sample_stream:
  "\<exists>chunks. stats_packet_reader chunks = [sample_auth, sample_snapshot]"
proof -
  let ?r = "auth_response (stats_challenge sample_stats_env) ''HA6zkS''"
  let ?a = "concat (map ((#) BS) [''auth'', [], ''gamename'', ''gmtest'', ''response'', ?r])"
  let ?u = "concat (map ((#) BS) [''updgame'', [], ''gamedata'', ''k'' @ [CHR 0x01] @ ''v''])"
  have hex: "\<forall>c \<in> set hex_chars. message_char c" by (simp add: hex_chars_def message_char_def)
  have chars: "\<forall>c \<in> set ?a. message_char c" "\<forall>c \<in> set ?u. message_char c"
    using auth_response_hex(1) [of "stats_challenge sample_stats_env" "''HA6zkS''"] hex
    by (auto simp: message_char_def)
  have "\<forall>m \<in> set [?a, ?u]. sendable max_snapshot_buffer_size (gs_xor m xor_GameSpy3D)"
    using encoded_sendable [OF chars(1), of max_snapshot_buffer_size]
      encoded_sendable [OF chars(2), of max_snapshot_buffer_size] auth_response_hex(2)
    by (simp add: max_snapshot_buffer_size_def)
  then have "stats_packet_reader [encoded ?a, encoded ?u] = [?a @ final_mark, ?u @ final_mark]"
    using reader_messages [of "[encoded ?a, encoded ?u]" "[?a, ?u]"] by simp
  moreover have "?a @ final_mark = sample_auth" "?u @ final_mark = sample_snapshot"
    unfolding sample_auth_def sample_snapshot_def
    using packet_of_text [of "[''auth'', [], ''gamename'', ''gmtest'', ''response'', ?r]"]
      packet_of_text [of "[''updgame'', [], ''gamedata'', ''k'' @ [CHR 0x01] @ ''v'']"] by simp_all
  ultimately show ?thesis by metis
qed

lemma sample_auth_ok: "auth_ok (st_GameDB sample_stats) (stats_challenge sample_stats_env) sample_auth"
proof -
  have plain: "plain (auth_response c k)" for c k
    using auth_response_hex(1) [of c k] by (auto simp: plain_def hex_chars_def)
  have "value_for_key sample_auth (key ''gamename'') = Some ''gmtest''"
    "value_for_key sample_auth (key ''response'') = Some (auth_response (stats_challenge sample_stats_env) ''HA6zkS'')"
    unfolding sample_auth_def using plain by (subst value_for_key_segments; simp add: plain_def)+
  moreover have "prefix (key ''auth'') sample_auth"
    by (simp add: sample_auth_def key_def packet_of.simps(2))
  ultimately show ?thesis
    by (simp add: auth_ok_def HasGame_def GetGame_def smap_contains_def gmtest_game_def gmtest_data_def)
qed

lemma sample_snapshot_fields:
  "value_for_key sample_snapshot (key ''gamedata'') = Some (''k'' @ [CHR 0x01] @ ''v'')"
  "prefix (key ''updgame'') sample_snapshot"
  "snapshots sample_snapshot = [snapshot_request (''k'' @ [BS] @ ''v'')]"
proof -
  show v: "value_for_key sample_snapshot (key ''gamedata'') = Some (''k'' @ [CHR 0x01] @ ''v'')"
    unfolding sample_snapshot_def by (subst value_for_key_segments; simp add: plain_def)
  show p: "prefix (key ''updgame'') sample_snapshot"
    by (simp add: sample_snapshot_def key_def packet_of.simps(2))
  show "snapshots sample_snapshot = [snapshot_request (''k'' @ [BS] @ ''v'')]"
    using v p by (simp add: snapshots_def replace_char_def)
qed

theorem snapshots_of_accepted_servers_witness:
  "\<exists>chunks m'. stats_Process sample_stats_env chunks sample_stats = (Inr (), m') \<and>
     st_uploads m' = [snapshot_request (''k'' @ [BS] @ ''v'')]"
proof -
  obtain chunks where chunks: "stats_packet_reader chunks = [sample_auth, sample_snapshot]"
    using sample_stream by blast
  have send: "\<forall>s. te_send sample_stats_env s = Inr ()" by simp
  have time: "(of_int (te_time sample_stats_env) :: i32) \<noteq> 0x80000000" by simp
  obtain m1 where "Authenticate sample_stats_env [sample_auth, sample_snapshot] sample_stats =
      (Inr (True, [sample_snapshot]), m1)"
    using Authenticate_run [OF send time, of sample_auth "[sample_snapshot]" sample_stats] sample_auth_ok by auto
  moreover have "\<exists>m2. stats_handle sample_stats_env sample_snapshot m1 = (Inr (), m2)"
  proof -
    have "stats_handle sample_stats_env sample_snapshot m1 = HandleUpdateGame sample_stats_env sample_snapshot m1"
      by (simp add: stats_handle_def sample_snapshot_def key_def packet_of.simps(2))
    then show ?thesis
      by (simp add: HandleUpdateGame_def sample_snapshot_fields(1) HandeSnapshot_def then_io_def bind_io_def
          lift_exn_def modify_def Let_def)
  qed
  ultimately obtain m' where run: "stats_Process sample_stats_env chunks sample_stats = (Inr (), m')"
    by (auto simp: stats_Process_def bind_io_def chunks then_io_def ret_def)
  from snapshots_of_accepted_servers [OF send time chunks run] run show ?thesis
    using sample_auth_ok sample_snapshot_fields(3) by auto
qed

lemma authp_unknown:
  assumes "value_for_key p (key ''lid'') = Some l" "l \<noteq> []" "value_for_key p (key ''authtoken'') = None"
    and "value_for_key_u32 p (key ''pid'') = Some i" "\<forall>s. te_send env s = Inr ()"
    and "GetPlayerByPID (te_db env) (ucast i) (st_PlayerDB m) = (Inr None, q)"
  shows "HandleAuthPlayer env p m =
    (Inr (), m\<lparr>st_PlayerDB := q, st_sent := st_sent m @ [encoded (refused_reply l)]\<rparr>)"
  using assms by (simp add: HandleAuthPlayer_def bind_io_def gets_def stats_db_simps SendPacket_ok)


end
