(* ===== verification/Cdkey_Server.thy ===== *)
theory Cdkey_Server
  imports Exn_State Crypt_Utils
begin

text \<open>
  The CD key server (\<open>emulator/key.h\<close>, \<open>emulator/key.cpp\<close>, UDP port 29910): every key is accepted.
  Shown: which datagram is answered, with what and to whom, and that the loop answers each of a
  sequence of datagrams independently of the others.
\<close>

section \<open>One datagram\<close>

definition uok_reply :: "string \<Rightarrow> string \<Rightarrow> string" where
  "uok_reply challenge cdKey = key ''uok'' @ key ''cd'' @ take 32 challenge @ key ''skey'' @ cdKey"

text \<open>The answer to a datagram, before it is encoded; an empty datagram is skipped.\<close>

definition key_answer :: "string \<Rightarrow> string option" where
  "key_answer message =
     (if message = [] then None
      else
        let packet = gs_xor message xor_gamespy in
        if prefix (key ''ka'') packet then None
        else if prefix (key ''disc'') packet then None
        else if prefix (key ''auth'') packet then
          (case (value_for_key packet (key ''skey''), value_for_key packet (key ''resp'')) of
             (Some cdKey, Some challenge) \<Rightarrow> Some (gs_xor (uok_reply challenge cdKey) xor_gamespy)
           | _ \<Rightarrow> None)
        else None)"

section \<open>The loop\<close>

text \<open>
  The datagrams \<open>async_receive_from\<close> delivers, each with its sender \<open>'e\<close> and cut to the 1400 bytes of the
  buffer; the list ends with the first error.  \<open>async_send_to\<close> may throw.
\<close>

record 'e key_server =
  ks_sent :: "('e \<times> string) list"

definition reply_to :: "('e \<Rightarrow> string \<Rightarrow> exn + unit) \<Rightarrow> 'e \<Rightarrow> string \<Rightarrow> ('e key_server, unit) io" where
  "reply_to net client response =
     then_io (lift_exn (net client response)) (modify (\<lambda>m. m\<lparr>ks_sent := ks_sent m @ [(client, response)]\<rparr>))"

definition AcceptConnections ::
  "('e \<Rightarrow> string \<Rightarrow> exn + unit) \<Rightarrow> ('e \<times> string) list \<Rightarrow> ('e key_server, unit) io"
where
  "AcceptConnections net datagrams =
     for_each datagrams (\<lambda>(client, message).
       (case key_answer (take 1400 message) of
          None \<Rightarrow> ret ()
        | Some response \<Rightarrow> reply_to net client response))"

section \<open>Properties\<close>

lemma reply_run:
  "net client response = Inr () \<Longrightarrow>
   reply_to net client response m = (Inr (), m\<lparr>ks_sent := ks_sent m @ [(client, response)]\<rparr>)"
  by (simp add: reply_to_def then_io_def bind_io_def lift_exn_def modify_def)

lemma accept_run:
  assumes "\<forall>client response. net client response = Inr ()"
  shows "AcceptConnections net ds m = (Inr (), m\<lparr>ks_sent := ks_sent m @
    List.map_filter (\<lambda>(client, message). map_option (Pair client) (key_answer (take 1400 message))) ds\<rparr>)"
proof (induction ds arbitrary: m)
  case Nil
  then show ?case by (simp add: AcceptConnections_def ret_def map_filter_simps)
next
  have sent: "reply_to net client response m = (Inr (), m\<lparr>ks_sent := ks_sent m @ [(client, response)]\<rparr>)"
    for client response m using assms by (intro reply_run) blast
  case (Cons d ds)
  obtain client message where d: "d = (client, message)" by (cases d)
  from Cons [unfolded AcceptConnections_def] show ?case
    by (cases "key_answer (take 1400 message)")
      (simp_all add: AcceptConnections_def d then_io_def bind_io_def ret_def sent map_filter_simps)
qed

text \<open>
  While sending succeeds, the server answers exactly the datagrams that \<open>key_answer\<close> accepts, in order,
  each to its sender; a key request of plain fields that fits the buffer is answered, in the same encoding, by
  \<open>uok\<close> with the first 32 characters of its response and its session key, whatever the CD key.
\<close>

theorem key_requests_answered:
  assumes "\<forall>client response. net client response = Inr ()"
    and "\<forall>s \<in> set (k # r # rest). plain s" and "r \<noteq> ''skey''"
    and "length (packet_of ([''auth'', [], ''resp'', r, ''skey'', k] @ rest)) \<le> 1400"
  shows "AcceptConnections net ds m = (Inr (), m\<lparr>ks_sent := ks_sent m @
      List.map_filter (\<lambda>(client, message). map_option (Pair client) (key_answer (take 1400 message))) ds\<rparr>) \<and>
    key_answer (take 1400 (gs_xor (packet_of ([''auth'', [], ''resp'', r, ''skey'', k] @ rest)) xor_gamespy)) =
      Some (gs_xor (uok_reply r k) xor_gamespy)"
proof -
  let ?p = "packet_of ([''auth'', [], ''resp'', r, ''skey'', k] @ rest)"
  have p: "?p \<noteq> []" "prefix (key ''auth'') ?p" "\<not> prefix (key ''ka'') ?p" "\<not> prefix (key ''disc'') ?p"
    by (simp_all add: key_def packet_of.simps(2))
  have "value_for_key ?p (key ''skey'') = Some k" "value_for_key ?p (key ''resp'') = Some r"
    using assms(2,3) by (subst value_for_key_segments; auto simp: plain_def)+
  moreover have "length (gs_xor ?p xor_gamespy) \<le> 1400" using assms(4) by (simp only: length_gs_xor)
  moreover have "gs_xor ?p xor_gamespy \<noteq> []" using p(1) length_gs_xor [of ?p xor_gamespy] by (metis length_0_conv)
  ultimately have "key_answer (take 1400 (gs_xor ?p xor_gamespy)) = Some (gs_xor (uok_reply r k) xor_gamespy)"
    using p(2-4) by (simp add: key_answer_def gs_xor_involution)
  with accept_run [OF assms(1)] show ?thesis by blast
qed

theorem key_requests_answered_witness:
  "key_answer (take 1400 (gs_xor (packet_of ([''auth'', [], ''resp'', ''abc'', ''skey'', ''7''] @ [''reqproof'', ''0''])) xor_gamespy)) =
     Some (gs_xor (uok_reply ''abc'' ''7'') xor_gamespy)"
proof -
  have a: "\<forall>s \<in> set (''7'' # ''abc'' # [''reqproof'', ''0'']). plain s" by (simp add: plain_def)
  have b: "''abc'' \<noteq> ''skey''" by simp
  have c: "length (packet_of ([''auth'', [], ''resp'', ''abc'', ''skey'', ''7''] @ [''reqproof'', ''0''])) \<le> 1400"
    by (simp add: packet_of.simps(2))
  have net: "\<forall>client response. (\<lambda>_ _. Inr ()) (client :: nat) (response :: string) = (Inr () :: exn + unit)" by simp
  show ?thesis by (rule key_requests_answered [OF net a b c, THEN conjunct2])
qed

end
