(* ===== verification/Web_Server.thy ===== *)
theory Web_Server
  imports Player_Db Text_Format
begin

text \<open>
  The web server of Battlefield 2 (\<open>emulator/bf2web.h\<close>, \<open>emulator/bf2web.cpp\<close>, \<open>emulator/http.client.cpp\<close>,
  port 80): the response format, the pages under \<open>/asp/\<close> and the dispatch on the host name.  Parsing HTTP and
  URLs is boost's: a request arrives as the record \<open>http_request\<close>.  Shown: the length field
  that ends every response counts what a client counts, a player's id is found exactly when the
  player exists, every unlock is reported as unlocked once, and which requests are answered at all.
\<close>

section \<open>\<open>bf2web::response\<close>\<close>

datatype rtype = HEADER | DATA

datatype elem = Elem_int int | Elem_text string

record response =
  rs_error :: bool
  rs_error_code :: nat
  rs_str :: string
  rs_length :: nat

definition new_response :: response where
  "new_response = \<lparr>rs_error = False, rs_error_code = 0, rs_str = [], rs_length = 0\<rparr>"

definition SetError :: "bool \<Rightarrow> nat \<Rightarrow> response \<Rightarrow> response" where
  "SetError error code r = r\<lparr>rs_error := error, rs_error_code := code\<rparr>"

definition ToString :: "response \<Rightarrow> string" where
  "ToString r =
     (let code = dec (rs_error_code r);
          (res, errlen) =
            (if \<not> rs_error r then (''O'' @ NL, 0)
             else if rs_error_code r \<noteq> 0 then (''E'' @ TAB 1 @ code @ NL, length code)
             else (''E'' @ NL, 0))
      in res @ rs_str r @ ''$'' @ TAB 1 @ dec (1 + rs_length r + errlen) @ TAB 1 @ ''$'')"

definition elem_text :: "elem \<Rightarrow> string" where
  "elem_text e = (case e of Elem_int n \<Rightarrow> dec_int n | Elem_text s \<Rightarrow> s)"

definition AppendElement :: "elem \<Rightarrow> response \<Rightarrow> response" where
  "AppendElement e r =
     r\<lparr>rs_length := rs_length r + length (elem_text e), rs_str := rs_str r @ elem_text e @ TAB 1\<rparr>"

definition Append :: "rtype \<Rightarrow> elem list \<Rightarrow> response \<Rightarrow> response" where
  "Append t args r =
     (let r = r\<lparr>rs_length := rs_length r + 1,
            rs_str := rs_str r @ (case t of HEADER \<Rightarrow> ''H'' @ TAB 1 | DATA \<Rightarrow> ''D'' @ TAB 1)\<rparr>;
          r = fold AppendElement args r
      in r\<lparr>rs_str := rs_str r @ NL\<rparr>)"

section \<open>The pages\<close>

record unlock_info =
  ui_id :: u16
  ui_kid_id :: u8
  ui_name :: string
  ui_desc :: string

definition unlock :: "nat \<Rightarrow> nat \<Rightarrow> string \<Rightarrow> string \<Rightarrow> unlock_info" where
  "unlock i kid name desc = \<lparr>ui_id = of_nat i, ui_kid_id = of_nat kid, ui_name = name, ui_desc = desc\<rparr>"

definition g_Unlocks :: "unlock_info list" where
  "g_Unlocks = [
     unlock 11 0 ''Chsht_protecta'' ''Protecta shotgun with slugs'',
     unlock 22 1 ''Usrif_g3a3'' ''H&K G3'',
     unlock 33 2 ''USSHT_Jackhammer'' ''Jackhammer shotgun'',
     unlock 44 3 ''Usrif_sa80'' ''SA-80'',
     unlock 55 4 ''Usrif_g36c'' ''G36C'',
     unlock 66 5 ''RULMG_PKM'' ''PKM'',
     unlock 77 6 ''USSNI_M95_Barret'' ''Barret M82A2 (.50 cal rifle)'',
     unlock 88 1 ''sasrif_fn2000'' ''FN2000'',
     unlock 99 2 ''sasrif_mp7'' ''MP-7'',
     unlock 111 3 ''sasrif_g36e'' ''G36E'',
     unlock 222 4 ''usrif_fnscarl'' ''FN SCAR - L'',
     unlock 333 5 ''sasrif_mg36'' ''MG36'',
     unlock 444 0 ''eurif_fnp90'' ''P90'',
     unlock 555 6 ''gbrif_l96a1'' ''L96A1'']"

text \<open>\<open>boost::urls::url_view\<close>: the encoded path and the decoded parameters; \<open>params.find\<close> is the first of a name.\<close>

record uri =
  uri_encoded_path :: string
  uri_params :: "(string \<times> string) list"

abbreviation texts :: "string list \<Rightarrow> elem list" where
  "texts \<equiv> map Elem_text"

definition error_page :: "nat \<Rightarrow> string list \<Rightarrow> elem list \<Rightarrow> string" where
  "error_page code header data =
     ToString (Append DATA data (Append HEADER (texts header) (SetError True code new_response)))"

text \<open>The branch \<open>getplayerid\<close>; \<open>time\<close> is \<open>std::time(nullptr)\<close>.\<close>

definition getplayerid :: "'p player_db \<Rightarrow> int \<Rightarrow> uri \<Rightarrow> ('p, string) io" where
  "getplayerid db time uri =
     (case map_of (uri_params uri) ''nick'' of
        None \<Rightarrow> ret (error_page 0 [''error''] (texts [''No nick provided!'']))
      | Some nick \<Rightarrow>
          if length nick > 32 then
            ret (error_page 0 [''error''] (texts [''Nick Specified is larger than 32 characters!'']))
          else
            bind_io (HasPlayer db nick) (\<lambda>exists.
            if \<not> exists then
              ret (error_page 0 [''asof'', ''error''] [Elem_int time, Elem_text ''Player Not Found!''])
            else
              bind_io (GetPlayerByName db nick) (\<lambda>player.
              (case player of
                 None \<Rightarrow> throw Undefined_behaviour
               | Some player \<Rightarrow>
                   ret (ToString (Append DATA [Elem_int (uint (GetProfileID player))]
                     (Append HEADER (texts [''pid'']) new_response)))))))"

definition getplayerinfo :: "int \<Rightarrow> u32 \<Rightarrow> uri \<Rightarrow> string" where
  "getplayerinfo time pid uri =
     (if pid = 0 then error_page 107 [''asof'', ''error''] [Elem_int time, Elem_text ''Invalid Syntax!'']
      else (case map_of (uri_params uri) ''info'' of
          None \<Rightarrow> error_page 0 [''asof'', ''error''] [Elem_int time, Elem_text ''Parameter Error!'']
        | Some info \<Rightarrow>
            if info = ''overview'' then
              ToString (Append DATA [Elem_int (uint pid), Elem_text ''PlayerName'', Elem_text ''US'', Elem_int time]
                (Append HEADER (texts [''pid'', ''nick'', ''country'', ''asof'']) new_response))
            else error_page 0 [''asof'', ''error''] [Elem_int time, Elem_text ''Invalid Syntax!'']))"

definition getbackendinfo :: "int \<Rightarrow> string" where
  "getbackendinfo time =
     ToString (fold (\<lambda>unlock. Append DATA [Elem_int (uint (ui_id unlock)), Elem_int (uint (ui_kid_id unlock)),
          Elem_text (ui_name unlock), Elem_text (ui_desc unlock)]) g_Unlocks
       (Append HEADER (texts [''id'', ''kit'', ''name'', ''descr''])
         (Append DATA [Elem_text ''0.1'', Elem_int time]
           (Append HEADER (texts [''ver'', ''now'']) new_response))))"

definition getunlocksinfo :: "int \<Rightarrow> u32 \<Rightarrow> string" where
  "getunlocksinfo time pid =
     ToString (fold (\<lambda>unlock. Append DATA [Elem_int (uint (ui_id unlock)), Elem_text ''s'']) g_Unlocks
       (Append HEADER (texts [''id'', ''state''])
         (Append DATA [Elem_int 0, Elem_int 0]
           (Append HEADER (texts [''enlisted'', ''officer''])
             (Append DATA [Elem_int (uint pid), Elem_text ''All_Unlocks'', Elem_int time]
               (Append HEADER (texts [''pid'', ''nick'', ''asof'']) new_response))))))"

definition HandleBF2Web :: "'p player_db \<Rightarrow> int \<Rightarrow> uri \<Rightarrow> ('p, string) io" where
  "HandleBF2Web db time uri =
     (case (case map_of (uri_params uri) ''pid'' of None \<Rightarrow> Some 0 | Some v \<Rightarrow> parse_uint32 v) of
        None \<Rightarrow> ret []
      | Some pid \<Rightarrow>
          let path = map tolower_char (uri_encoded_path uri) in
          if path = ''/asp/createplayer.aspx'' then ret ''OK''
          else if path = ''/asp/getawardsinfo.aspx'' then
            ret (ToString (Append HEADER (texts [''award'', ''level'', ''when'', ''first''])
              (Append DATA [Elem_int (uint pid), Elem_int time] (Append HEADER (texts [''pid'', ''asof'']) new_response))))
          else if path = ''/asp/getbackendinfo.aspx'' then ret (getbackendinfo time)
          else if path = ''/asp/getleaderboard.aspx'' then
            ret (ToString (Append DATA [Elem_int 0, Elem_int time] (Append HEADER (texts [''size'', ''asof'']) new_response)))
          else if path = ''/asp/getmapinfo.aspx'' then
            ret (error_page 0 [''error''] (texts [''Map Data Not Found!'']))
          else if path = ''/asp/getplayerid.aspx'' then getplayerid db time uri
          else if path = ''/asp/getplayerinfo.aspx'' then ret (getplayerinfo time pid uri)
          else if path = ''/asp/getrankinfo.aspx'' then
            ret (ToString (Append DATA [Elem_int 0, Elem_int 0, Elem_int 0]
              (Append HEADER (texts [''rank'', ''chng'', ''decr'']) new_response)))
          else if path = ''/asp/getunlocksinfo.aspx'' then ret (getunlocksinfo time pid)
          else ret [])"

section \<open>A connection\<close>

text \<open>
  What \<open>http::async_read\<close> and \<open>urls::parse_origin_form\<close> make of the first request; \<open>None\<close> for a
  target that is not one.
\<close>

record http_request =
  rq_get :: bool
  rq_uri :: "uri option"
  rq_host :: string
  rq_version :: nat

datatype http_answer =
    File_answer nat string
  | Text_answer nat string

text \<open>
  \<open>request\<close> is \<open>None\<close> when the read failed or timed out; \<open>picture\<close> tells whether the picture can be opened.
  An answer that cannot be written is not noticed.
\<close>

definition http_Run ::
  "'p player_db \<Rightarrow> int \<Rightarrow> bool \<Rightarrow> http_request option \<Rightarrow> ('p, http_answer option) io"
where
  "http_Run db time picture request =
     (case request of
        None \<Rightarrow> ret None
      | Some request \<Rightarrow>
          if \<not> rq_get request then ret None
          else (case rq_uri request of
            None \<Rightarrow> ret None
          | Some uri \<Rightarrow>
              let host = map tolower_char (rq_host request) in
              if host = ''eapusher.dice.se'' then
                (if uri_encoded_path uri = ''/image_english.png'' \<and> picture
                 then ret (Some (File_answer (rq_version request) ''http/image_english.png''))
                 else ret None)
              else if host = ''bf2web.gamespy.com'' then
                bind_io (HandleBF2Web db time uri) (\<lambda>body. ret (Some (Text_answer (rq_version request) body)))
              else ret None))"


section \<open>What a client counts\<close>

text \<open>A client counts the characters that are neither tabs nor line ends.\<close>

definition counted :: "string \<Rightarrow> nat" where
  "counted s = length (filter (\<lambda>c. c \<noteq> CHR 0x09 \<and> c \<noteq> CHR 0x0A) s)"

lemma counted_append [simp]: "counted (a @ b) = counted a + counted b"
  by (simp add: counted_def)

lemma counted_Cons [simp]:
  "counted (c # s) = (if c \<noteq> CHR 0x09 \<and> c \<noteq> CHR 0x0A then 1 else 0) + counted s"
  by (simp add: counted_def)

lemma counted_marks [simp]: "counted (TAB n) = 0" "counted NL = 0" "counted [] = 0"
  by (simp_all add: counted_def TAB_def NL_def)

definition clean :: "string \<Rightarrow> bool" where
  "clean s \<longleftrightarrow> CHR 0x09 \<notin> set s \<and> CHR 0x0A \<notin> set s"

lemma counted_clean: "clean s \<Longrightarrow> counted s = length s"
  by (auto simp: counted_def clean_def intro!: arg_cong [where f = length] filter_True)

lemma digits_clean: "set s \<subseteq> set ''-0123456789'' \<Longrightarrow> clean s"
  by (auto simp: clean_def)

lemma dec_clean: "clean (dec n)"
proof -
  have "set (dec n) \<subseteq> set ''0123456789''" unfolding dec_def by (rule set_radix) simp
  then show ?thesis by (auto simp: clean_def)
qed

lemma elem_clean: "clean (elem_text (Elem_int n))"
  using dec_clean [of "nat n"] dec_clean [of "nat (- n)"] by (auto simp: elem_text_def dec_int_def clean_def)

text \<open>A response whose length counts its text.\<close>

definition counts :: "response \<Rightarrow> bool" where
  "counts r \<longleftrightarrow> rs_length r = counted (rs_str r)"

definition clean_elem :: "elem \<Rightarrow> bool" where
  "clean_elem e = clean (elem_text e)"

lemma clean_elem_simps [simp]: "clean_elem (Elem_int n)" "clean_elem (Elem_text s) = clean s"
  using elem_clean [of n] by (simp_all add: clean_elem_def elem_text_def)

lemma AppendElement_counts: "clean_elem e \<Longrightarrow> counts r \<Longrightarrow> counts (AppendElement e r)"
  by (simp add: counts_def AppendElement_def clean_elem_def counted_clean)

lemma fold_counts: "\<forall>e \<in> set es. clean_elem e \<Longrightarrow> counts r \<Longrightarrow> counts (fold AppendElement es r)"
  by (induction es arbitrary: r) (simp_all add: AppendElement_counts)

lemma Append_counts:
  assumes "\<forall>e \<in> set es. clean_elem e" "counts r"
  shows "counts (Append t es r)"
proof -
  have "counted ''H'' = 1" "counted ''D'' = 1" by (simp_all add: counted_def)
  then have "counts (r\<lparr>rs_length := rs_length r + 1,
      rs_str := rs_str r @ (case t of HEADER \<Rightarrow> ''H'' @ TAB 1 | DATA \<Rightarrow> ''D'' @ TAB 1)\<rparr>)"
    using assms(2) by (cases t) (simp_all add: counts_def)
  from fold_counts [OF assms(1) this] show ?thesis by (simp add: Append_def Let_def counts_def)
qed

lemma Append_keeps: "rs_error (Append t es r) = rs_error r \<and> rs_error_code (Append t es r) = rs_error_code r"
proof -
  have "rs_error (fold AppendElement es r) = rs_error r \<and> rs_error_code (fold AppendElement es r) = rs_error_code r" for r
    by (induction es arbitrary: r) (simp_all add: AppendElement_def)
  then show ?thesis by (simp add: Append_def Let_def)
qed

text \<open>A page as a client accepts it: the trailer counts what precedes it.\<close>

definition well_formed :: "string \<Rightarrow> bool" where
  "well_formed s \<longleftrightarrow> (\<exists>page. s = page @ ''$'' @ TAB 1 @ dec (counted page) @ TAB 1 @ ''$'' \<and>
     (prefix (''O'' @ NL) page \<or> prefix ''E'' page))"

named_theorems page_intros

lemma ToString_well_formed [page_intros]:
  assumes "counts r"
  shows "well_formed (ToString r)"
proof (cases "rs_error r \<and> rs_error_code r \<noteq> 0")
  case True
  then show ?thesis
    using assms counted_clean [OF dec_clean [of "rs_error_code r"]] unfolding well_formed_def
    by (intro exI [of _ "''E'' @ TAB 1 @ dec (rs_error_code r) @ NL @ rs_str r"])
      (simp add: ToString_def Let_def counts_def ac_simps)
next
  case False
  then show ?thesis
    using assms unfolding well_formed_def
    by (intro exI [of _ "(if rs_error r then ''E'' else ''O'') @ NL @ rs_str r"])
      (auto simp: ToString_def Let_def counts_def)
qed

lemma counts_new [page_intros]: "counts new_response" "counts (SetError error code new_response)"
  by (simp_all add: counts_def new_response_def SetError_def)

lemma counts_Append [page_intros]:
  "counts r \<Longrightarrow> list_all clean_elem es \<Longrightarrow> counts (Append t es r)"
  by (rule Append_counts) (simp_all add: list_all_iff)

lemma counts_fold [page_intros]:
  "counts r \<Longrightarrow> \<forall>x \<in> set xs. list_all clean_elem (f x) \<Longrightarrow> counts (fold (\<lambda>x. Append t (f x)) xs r)"
  by (induction xs arbitrary: r) (simp_all add: counts_Append)

lemma unlocks_clean: "\<forall>u \<in> set g_Unlocks. clean (ui_name u) \<and> clean (ui_desc u)"
  by (simp add: g_Unlocks_def unlock_def clean_def)

lemma error_page_well_formed [page_intros]:
  "list_all clean header \<Longrightarrow> list_all clean_elem es \<Longrightarrow> well_formed (error_page code header es)"
  unfolding error_page_def by (intro page_intros) (simp_all add: list_all_iff)

lemma clean_literals: "clean s \<longleftrightarrow> list_all (\<lambda>c. c \<noteq> CHR 0x09 \<and> c \<noteq> CHR 0x0A) s"
  by (auto simp: clean_def list_all_iff)

definition page_ok :: "string \<Rightarrow> bool" where
  "page_ok body \<longleftrightarrow> body = [] \<or> body = ''OK'' \<or> well_formed body"

lemma getplayerid_page: "yields page_ok (getplayerid db time uri)"
proof -
  have e: "page_ok (error_page 0 [''error''] (texts [''No nick provided!'']))"
    "page_ok (error_page 0 [''error''] (texts [''Nick Specified is larger than 32 characters!'']))"
    "page_ok (error_page 0 [''asof'', ''error''] [Elem_int time, Elem_text ''Player Not Found!''])"
    "page_ok (ToString (Append DATA [Elem_int n] (Append HEADER (texts [''pid'']) new_response)))" for n
    unfolding page_ok_def by (intro disjI2 page_intros; simp add: clean_literals)+
  show ?thesis unfolding getplayerid_def by (intro yields_intros e)
qed

lemma HandleBF2Web_page: "yields page_ok (HandleBF2Web db time uri)"
proof -
  have pages: "page_ok (getbackendinfo time)" "page_ok (getunlocksinfo time pid)" "page_ok (getplayerinfo time pid uri)"
    "page_ok (ToString (Append HEADER (texts [''award'', ''level'', ''when'', ''first''])
       (Append DATA [Elem_int (uint pid), Elem_int time] (Append HEADER (texts [''pid'', ''asof'']) new_response))))"
    "page_ok (ToString (Append DATA [Elem_int 0, Elem_int time] (Append HEADER (texts [''size'', ''asof'']) new_response)))"
    "page_ok (error_page 0 [''error''] (texts [''Map Data Not Found!'']))"
    "page_ok (ToString (Append DATA [Elem_int 0, Elem_int 0, Elem_int 0]
       (Append HEADER (texts [''rank'', ''chng'', ''decr'']) new_response)))" for pid
    unfolding page_ok_def getbackendinfo_def getunlocksinfo_def getplayerinfo_def
    using unlocks_clean
    by (auto intro!: page_intros simp: clean_literals split: option.split)
  have plain: "page_ok []" "page_ok ''OK''" by (simp_all add: page_ok_def)
  show ?thesis unfolding HandleBF2Web_def Let_def by (intro yields_intros pages plain getplayerid_page)
qed

definition player_id_page :: "player_data \<Rightarrow> string" where
  "player_id_page player =
     ToString (Append DATA [Elem_int (uint (GetProfileID player))] (Append HEADER (texts [''pid'']) new_response))"

context player_directory
begin

lemma player_id_answers:
  assumes "getplayerid db time u p = (Inr body, p')" and "sound_table same (table p)"
    and "map_of (uri_params u) ''nick'' = Some n" and "length n \<le> 32"
  shows "table p' = table p \<and>
    (if name_taken same n (table p)
     then \<exists>r \<in> set (tbl_rows (table p)). same (row_name r) n \<and> body = player_id_page (row_player str r)
     else body = error_page 0 [''asof'', ''error''] [Elem_int time, Elem_text ''Player Not Found!''])"
proof -
  from assms(1,3,4) obtain b q where has: "HasPlayer db n p = (Inr b, q)"
    by (auto simp: getplayerid_def bind_io_Inr)
  note b = has_sound [OF has assms(2)]
  show ?thesis
  proof (cases b)
    case False
    with assms(1,3,4) has b show ?thesis by (auto simp: getplayerid_def bind_io_def ret_def)
  next
    case True
    obtain g q2 where get: "GetPlayerByName db n q = (g, q2)" by fastforce
    from assms(1,3,4) has True get obtain found where found: "g = Inr found"
      by (cases g) (auto simp: getplayerid_def bind_io_def)
    have "HasPlayer db n p = (Inr True, q)" using has True by simp
    from has_then_get [OF this assms(2) get [unfolded found]] obtain r where r: "r \<in> set (tbl_rows (table p))"
      "same (row_name r) n" "found = Some ((row_player str r)\<lparr>pl_name := n\<rparr>)" by blast
    have t: "table q2 = table p" using by_name [OF get [unfolded found]] b by simp
    from assms(1,3,4) has True get found r(3) have "body = player_id_page ((row_player str r)\<lparr>pl_name := n\<rparr>)" "p' = q2"
      by (simp_all add: getplayerid_def bind_io_def ret_def player_id_page_def)
    moreover have "player_id_page ((row_player str r)\<lparr>pl_name := n\<rparr>) = player_id_page (row_player str r)"
      by (simp add: player_id_page_def GetProfileID_def)
    ultimately show ?thesis using True b t r by auto
  qed
qed

end

context sqlite_players
begin

lemmas contract_player_id_answers = players.player_id_answers

end

lemma getplayerid_path:
  assumes "map tolower_char (uri_encoded_path u) = ''/asp/getplayerid.aspx''" and "map_of (uri_params u) ''pid'' = None"
  shows "HandleBF2Web db time u = getplayerid db time u"
  using assms by (simp add: HandleBF2Web_def)

section \<open>Properties\<close>

text \<open>
  C36. Every text the web server sends to a game is empty, \<open>OK\<close>, or a page whose trailer holds the
  number of its characters that a client counts, tabs and line ends left out; a text is sent only for
  a GET request to \<open>bf2web.gamespy.com\<close>, in any letter case, and carries the request's version.
\<close>

theorem web_pages_well_formed:
  assumes "http_Run db time picture request p = (Inr (Some (Text_answer version body)), p')"
  shows "(body = [] \<or> body = ''OK'' \<or> well_formed body) \<and>
    (\<exists>r uri. request = Some r \<and> rq_get r \<and> rq_uri r = Some uri \<and> rq_version r = version \<and>
       map tolower_char (rq_host r) = ''bf2web.gamespy.com'')"
proof -
  from assms obtain r uri where "request = Some r" "rq_get r" "rq_uri r = Some uri" "rq_version r = version"
    "map tolower_char (rq_host r) = ''bf2web.gamespy.com''" "HandleBF2Web db time uri p = (Inr body, p')"
    by (auto simp: http_Run_def ret_def Let_def bind_io_Inr split: option.splits if_splits)
  with yieldsD [OF HandleBF2Web_page, of db time uri p body p'] show ?thesis by (simp add: page_ok_def)
qed


text \<open>
  The page \<open>getplayerid\<close>, over SQLite and a sound table: for a nick of at most 32 characters it holds
  the id of the player with exactly this name, or says that there is none, and changes nothing.
\<close>

theorem web_player_id:
  assumes "sqlite_players api table" and "HandleBF2Web (PlayerDBSQLite api) time u d = (Inr body, d')"
    and "sound_table (=) (table d)"
    and "map tolower_char (uri_encoded_path u) = ''/asp/getplayerid.aspx''" and "map_of (uri_params u) ''pid'' = None"
    and "map_of (uri_params u) ''nick'' = Some n" and "length n \<le> 32"
  shows "table d' = table d \<and>
    (if name_taken (=) n (table d)
     then \<exists>r \<in> set (tbl_rows (table d)). row_name r = n \<and> body = player_id_page (row_player c_string r)
     else body = error_page 0 [''asof'', ''error''] [Elem_int time, Elem_text ''Player Not Found!''])"
  by (rule sqlite_players.contract_player_id_answers
      [OF assms(1) assms(2) [unfolded getplayerid_path [OF assms(4,5)]] assms(3,6,7)])

definition sample_uri :: uri where
  "sample_uri = \<lparr>uri_encoded_path = ''/ASP/getplayerid.aspx'', uri_params = [(''nick'', ''bob'')]\<rparr>"

lemma sample_uri_path: "map tolower_char (uri_encoded_path sample_uri) = ''/asp/getplayerid.aspx''"
  "map_of (uri_params sample_uri) ''pid'' = None" "map_of (uri_params sample_uri) ''nick'' = Some ''bob''"
  by (code_simp, code_simp, code_simp)

lemma sample_page:
  "HandleBF2Web (PlayerDBSQLite table_sqlite) 7 sample_uri sample_registered =
     (Inr (player_id_page (PlayerData_of 2900001 ''bob'' ''bob@ea.com'' ''5f4dcc3b'' ''DE'')), sample_registered)"
proof -
  have has: "HasPlayer (PlayerDBSQLite table_sqlite) ''bob'' sample_registered = (Inr True, sample_registered)"
    using table_sqlite_HasPlayer [of "''bob''" sample_registered] short_args_sql(1) [of "''bob''"]
    by (simp add: int_max_def name_taken_def PlayerDBSQLite_def)
  have get: "GetPlayerByName (PlayerDBSQLite table_sqlite) ''bob'' sample_registered =
      (Inr (Some (PlayerData_of 2900001 ''bob'' ''bob@ea.com'' ''5f4dcc3b'' ''DE'')), sample_registered)"
    using sample_get by (simp add: PlayerDBSQLite_def)
  show ?thesis
    unfolding getplayerid_path [OF sample_uri_path(1,2)] getplayerid_def sample_uri_path(3)
    by (simp add: bind_io_def has get ret_def player_id_page_def)
qed

theorem web_player_id_witness:
  "\<exists>body. HandleBF2Web (PlayerDBSQLite table_sqlite) 7 sample_uri sample_registered = (Inr body, sample_registered) \<and>
     (\<exists>r \<in> set (tbl_rows sample_registered). row_name r = ''bob'' \<and> body = player_id_page (row_player c_string r))"
proof -
  have "length ''bob'' \<le> 32" "sound_table (=) (id sample_registered)" by (simp_all add: sound_table_def)
  note r = web_player_id [where table = id and d = sample_registered and n = "''bob''" and u = sample_uri, OF table_players.sqlite_players_axioms sample_page this(2) sample_uri_path this(1)]
  have "name_taken (=) ''bob'' (id sample_registered)" by (simp add: name_taken_def)
  with r have "\<exists>r \<in> set (tbl_rows sample_registered). row_name r = ''bob'' \<and>
      player_id_page (PlayerData_of 2900001 ''bob'' ''bob@ea.com'' ''5f4dcc3b'' ''DE'') = player_id_page (row_player c_string r)"
    by (simp only: if_True id_apply)
  with sample_page show ?thesis by blast
qed

theorem web_pages_well_formed_witness:
  "\<exists>body. fst (http_Run (PlayerDBSQLite table_sqlite) 7 False (Some \<lparr>rq_get = True, rq_uri = Some sample_uri,
     rq_host = ''BF2web.gamespy.com'', rq_version = 11\<rparr>) sample_registered) = Inr (Some (Text_answer 11 body)) \<and>
     (body = [] \<or> body = ''OK'' \<or> well_formed body)"
proof -
  let ?r = "\<lparr>rq_get = True, rq_uri = Some sample_uri, rq_host = ''BF2web.gamespy.com'', rq_version = 11\<rparr>"
  let ?body = "player_id_page (PlayerData_of 2900001 ''bob'' ''bob@ea.com'' ''5f4dcc3b'' ''DE'')"
  have "map tolower_char ''BF2web.gamespy.com'' = ''bf2web.gamespy.com''" by code_simp
  then have run: "http_Run (PlayerDBSQLite table_sqlite) 7 False (Some ?r) sample_registered =
      (Inr (Some (Text_answer 11 ?body)), sample_registered)"
    by (simp add: http_Run_def Let_def bind_io_def ret_def sample_page del: list.map)
  from web_pages_well_formed [OF this] run show ?thesis by simp
qed

end
