(* ===== verification/Admin_Server.thy ===== *)
theory Admin_Server
  imports Game_Db Crypt_Utils
begin

text \<open>
  The administration page (\<open>emulator/admin.h\<close>, \<open>emulator/admin.cpp\<close>, an HTTP server): the check of the
  credentials, the API that lists games and servers and adds or removes a server, and the files
  below the directory \<open>http\<close>.  Parsing HTTP and URLs is boost's, the file system is the standard
  library's; a JSON value is built by the rule of nlohmann's brace initialisation.  Shown: who can
  change a game, that requests keep every game sound, what a request changes, which files can be
  read, and what happens on numbers and game names that do not exist.
\<close>

section \<open>Numbers\<close>

text \<open>
  \<open>parseInt\<close> looks at the end position of \<open>from_chars\<close> and not at its error code, so the result
  variable may be returned uninitialised.
\<close>

definition parseInt :: "string \<Rightarrow> exn + u32 option" where
  "parseInt str =
     (let (ptr, ec, result) = from_chars 32 str 0
      in if ptr \<noteq> [] then Inr None
         else if ec \<noteq> Errc_Ok then Inl Undefined_behaviour
         else Inr (Some (of_nat result)))"

text \<open>\<open>*parseInt(str)\<close>\<close>

definition the_int :: "string \<Rightarrow> exn + u32" where
  "the_int str =
     and_then (parseInt str) (\<lambda>v. case v of None \<Rightarrow> Inl Undefined_behaviour | Some n \<Rightarrow> Inr n)"

section \<open>Files\<close>

text \<open>\<open>path.rfind(".")\<close> over the whole path.\<close>

definition extension :: "string \<Rightarrow> string" where
  "extension path =
     (let rest = takeWhile (\<lambda>c. c \<noteq> CHR ''.'') (rev path)
      in if length rest = length path then [] else CHR ''.'' # rev rest)"

definition mime_table :: "(string \<times> string) list" where
  "mime_table = [
     (''.htm'', ''text/html''), (''.html'', ''text/html''), (''.php'', ''text/html''), (''.css'', ''text/css''),
     (''.txt'', ''text/plain''), (''.js'', ''application/javascript''), (''.json'', ''application/json''),
     (''.xml'', ''application/xml''), (''.swf'', ''application/x-shockwave-flash''), (''.flv'', ''video/x-flv''),
     (''.png'', ''image/png''), (''.jpe'', ''image/jpeg''), (''.jpeg'', ''image/jpeg''), (''.jpg'', ''image/jpeg''),
     (''.gif'', ''image/gif''), (''.bmp'', ''image/bmp''), (''.ico'', ''image/vnd.microsoft.icon''),
     (''.tiff'', ''image/tiff''), (''.tif'', ''image/tiff''), (''.svg'', ''image/svg+xml''), (''.svgz'', ''image/svg+xml'')]"

definition mimeType :: "string \<Rightarrow> string" where
  "mimeType path =
     (case map_of mime_table (map tolower_char (extension path)) of
        Some t \<Rightarrow> t
      | None \<Rightarrow> ''application/text'')"

section \<open>JSON\<close>

datatype json =
    Json_text string
  | Json_num nat
  | Json_array "json list"
  | Json_object "(string, json) std_map"

text \<open>
  Braces: a list whose elements all are pairs with a text in front is an object (the first of equal
  names counts), any other list is an array.
\<close>

definition json_pair :: "json \<Rightarrow> (string \<times> json) option" where
  "json_pair j = (case j of Json_array [Json_text k, v] \<Rightarrow> Some (k, v) | _ \<Rightarrow> None)"

definition braces :: "json list \<Rightarrow> json" where
  "braces js =
     (if list_all (\<lambda>j. json_pair j \<noteq> None) js
      then Json_object (fold (\<lambda>j m. case json_pair j of Some (k, v) \<Rightarrow> smap_emplace k v m | None \<Rightarrow> m) js [])
      else Json_array js)"

section \<open>Requests and answers\<close>

datatype verb = Verb_get | Verb_post | Verb_delete | Verb_other

text \<open>A query parameter: its decoded key and value, and whether it has a value at all.\<close>

record url_param =
  prm_key :: string
  prm_value :: string
  prm_has_value :: bool

record admin_request =
  adm_method :: verb
  adm_authorization :: "string option"
  adm_target :: "(string \<times> url_param list) option"

text \<open>\<open>params.find(name)\<close>: the first parameter of this name.\<close>

definition find_param :: "url_param list \<Rightarrow> string \<Rightarrow> url_param option" where
  "find_param params name = List.find (\<lambda>p. prm_key p = name) params"

datatype admin_answer =
    Api_answer nat "string option"
  | File_contents "string list" string string
  | Unauthorized

definition error_body :: "string \<Rightarrow> json option" where
  "error_body msg = Some (braces [Json_text ''error'', Json_text msg])"

definition success_body :: "string \<Rightarrow> json option" where
  "success_body msg =
     Some (braces [braces [Json_text ''status'', Json_text ''success''], braces [Json_text ''message'', Json_text msg]])"

section \<open>The API\<close>

text \<open>
  \<open>ad_dump\<close> is \<open>json::dump\<close>, which throws on text that is not UTF-8.  The root directory is the canonical
  path of \<open>http\<close>, empty when that fails; \<open>ad_resolve\<close> is \<open>weakly_canonical(root / relative)\<close> and \<open>ad_native\<close>
  is \<open>path::string()\<close>; a path is the list of its elements.
\<close>

record ('d, 's) admin_env =
  ad_api :: "('d, 's) sqlite3"
  ad_dump :: "json \<Rightarrow> exn + string"
  ad_root :: "string list"
  ad_resolve :: "string list \<Rightarrow> string \<Rightarrow> string list option"
  ad_exists :: "string list \<Rightarrow> exn + bool"
  ad_open :: "string list \<Rightarrow> string option"
  ad_native :: "string list \<Rightarrow> string"

text \<open>An answer of the API is the last thing a request does; the Boolean is the result of the handler.\<close>

definition SendResponse ::
  "('d, 's) admin_env \<Rightarrow> nat \<Rightarrow> json option \<Rightarrow> bool \<Rightarrow> ('d game_db, admin_answer \<times> bool) io"
where
  "SendResponse env status body ok =
     (case body of
        None \<Rightarrow> ret (Api_answer status None, ok)
      | Some j \<Rightarrow> bind_io (lift_exn (ad_dump env j)) (\<lambda>s. ret (Api_answer status (Some s), ok)))"

definition text_pair :: "string \<Rightarrow> string \<Rightarrow> json" where
  "text_pair k v = braces [Json_text k, Json_text v]"

definition game_json :: "'d any_game \<Rightarrow> json" where
  "game_json g =
     (let params = map (\<lambda>param. braces [text_pair ''name'' (key_name param), text_pair ''type'' (key_type param),
            text_pair ''label'' (key_label param), text_pair ''description'' (key_description param)])
          (gd_keys (m_Data (as_game g)))
      in braces [text_pair ''name'' (gd_name (m_Data (as_game g))), braces [Json_text ''keys'', Json_array params]])"

definition server_json :: "server_data \<Rightarrow> json" where
  "server_json server =
     (let data = fold (\<lambda>(name, v) m. smap_assign name (Json_text v) m) (sv_data server) []
      in Json_object (smap_assign ''port'' (Json_num (unat (public_port server)))
           (smap_assign ''ip'' (Json_text (public_ip server)) data)))"

text \<open>\<open>std::views::split\<close> of an empty text has no parts.\<close>

fun split_at_char :: "char \<Rightarrow> string \<Rightarrow> string list" where
  "split_at_char d [] = [[]]"
| "split_at_char d (c # s) =
     (if c = d then [] # split_at_char d s
      else (case split_at_char d s of [] \<Rightarrow> [[c]] | w # ws \<Rightarrow> (c # w) # ws))"

definition split_view :: "char \<Rightarrow> string \<Rightarrow> string list" where
  "split_view d s = (if s = [] then [] else split_at_char d s)"

definition int_param :: "url_param list \<Rightarrow> string \<Rightarrow> u32 \<Rightarrow> exn + u32" where
  "int_param params name other =
     (case find_param params name of None \<Rightarrow> Inr other | Some p \<Rightarrow> the_int (prm_value p))"

definition api_servers ::
  "('d, 's) admin_env \<Rightarrow> string \<Rightarrow> verb \<Rightarrow> url_param list \<Rightarrow> ('d game_db, admin_answer \<times> bool) io"
where
  "api_servers env game method params =
     (if method \<noteq> Verb_get then SendResponse env 400 (error_body ''invalid http method'') False
      else
        let query = (case find_param params ''query'' of None \<Rightarrow> [] | Some p \<Rightarrow> prm_value p);
            fields = (case find_param params ''fields'' of
                None \<Rightarrow> []
              | Some p \<Rightarrow> if prm_has_value p then split_view (CHR '','') (prm_value p) else [])
        in bind_io (lift_exn (int_param params ''limit'' 100)) (\<lambda>limit.
           bind_io (lift_exn (int_param params ''skip'' 0)) (\<lambda>skip.
           bind_io (gdb.call game (game_GetServers (ad_api env) query fields (unat limit) (unat skip))) (\<lambda>servers.
           case servers of
             None \<Rightarrow> throw Undefined_behaviour
           | Some servers \<Rightarrow> SendResponse env 200 (Some (Json_array (map server_json servers))) True))))"

text \<open>The parameters of a server: the first value of each key.\<close>

definition server_values :: "url_param list \<Rightarrow> (string, string) std_map" where
  "server_values params =
     fold (\<lambda>p m. if prm_key p \<in> {'''', ''game'', ''ip'', ''port''} \<or> \<not> prm_has_value p then m
         else smap_emplace (prm_key p) (prm_value p) m) params []"

definition posted_server :: "string \<Rightarrow> u32 \<Rightarrow> url_param list \<Rightarrow> server_data" where
  "posted_server ip port params =
     \<lparr>last_update = 0, public_ip = ip, public_port = ucast port, private_ip = [], private_port = 0,
      icmp_ip = [], sv_data = server_values params, rules = []\<rparr>"

definition api_server ::
  "('d, 's) admin_env \<Rightarrow> string \<Rightarrow> verb \<Rightarrow> url_param list \<Rightarrow> ('d game_db, admin_answer \<times> bool) io"
where
  "api_server env game method params =
     (case (find_param params ''ip'', find_param params ''port'') of
        (Some ip, Some port) \<Rightarrow>
          bind_io (lift_exn (parseInt (prm_value port))) (\<lambda>port.
          (case port of
             None \<Rightarrow> SendResponse env 400 (error_body ''invalid port parameter'') False
           | Some port \<Rightarrow>
               if method = Verb_post then
                 bind_io (gdb.call game (game_AddOrUpdateServer (ad_api env) (posted_server (prm_value ip) port params)))
                   (\<lambda>_. SendResponse env 200 (success_body ''added server'') True)
               else if method = Verb_delete then
                 bind_io (gdb.call game (game_RemoveServers (ad_api env) [(prm_value ip, ucast port)]))
                   (\<lambda>_. SendResponse env 200 (success_body ''removed server'') True)
               else SendResponse env 400 (error_body ''invalid http method'') False))
      | _ \<Rightarrow> SendResponse env 400 (error_body ''missing ip or port parameter'') False)"

text \<open>\<open>GetGame\<close> of an unknown name throws, so the branch \<open>unknown game\<close> is never taken.\<close>

definition HandleAPI ::
  "('d, 's) admin_env \<Rightarrow> verb \<Rightarrow> string \<Rightarrow> url_param list \<Rightarrow> ('d game_db, admin_answer \<times> bool) io"
where
  "HandleAPI env method path params =
     (if path = ''/api/games'' then
        (if method \<noteq> Verb_get then SendResponse env 400 (error_body ''invalid http method'') False
         else bind_io (gets GetGames) (\<lambda>games. SendResponse env 200 (Some (Json_array (map game_json games))) True))
      else (case find_param params ''game'' of
          None \<Rightarrow> SendResponse env 400 (error_body ''missing game parameter'') False
        | Some p \<Rightarrow>
            bind_io (\<lambda>db. (GetGame db (prm_value p), db)) (\<lambda>_.
            if path = ''/api/servers'' then api_servers env (prm_value p) method params
            else if path = ''/api/server'' then api_server env (prm_value p) method params
            else SendResponse env 404 None False)))"

section \<open>Files\<close>

text \<open>\<open>path.substr(1)\<close> of an empty path throws.\<close>

definition HandleFileLookup ::
  "('d, 's) admin_env \<Rightarrow> string \<Rightarrow> ('d game_db, admin_answer \<times> bool) io"
where
  "HandleFileLookup env path =
     (if path = [] then throw Out_of_range
      else
        (case ad_resolve env (ad_root env) (if path = ''/'' then ''index.html'' else tl path) of
           None \<Rightarrow> SendResponse env 404 None False
         | Some filePath \<Rightarrow>
             if ad_root env = [] \<or> \<not> prefix (ad_root env) filePath then SendResponse env 404 None False
             else
               bind_io (lift_exn (ad_exists env filePath)) (\<lambda>exists.
               if \<not> exists then SendResponse env 404 None False
               else (case ad_open env filePath of
                   None \<Rightarrow> SendResponse env 500 (error_body ''failed to open file'') False
                 | Some contents \<Rightarrow>
                     ret (File_contents filePath (mimeType (ad_native env filePath)) contents, True)))))"

section \<open>A connection\<close>

record admin_peer =
  peer_loopback :: bool
  peer_is_host :: bool

definition authorized :: "string \<Rightarrow> admin_peer \<Rightarrow> admin_request \<Rightarrow> bool" where
  "authorized auth peer request \<longleftrightarrow>
     peer_loopback peer \<or> peer_is_host peer \<or> adm_authorization request = Some auth"

text \<open>
  \<open>request\<close> is \<open>None\<close> when the read failed.  A target that is not an origin form makes \<open>uri\<close> an error, whose
  \<open>uri->path()\<close> is undefined.
\<close>

definition admin_Run ::
  "('d, 's) admin_env \<Rightarrow> string \<Rightarrow> admin_peer \<Rightarrow> admin_request option \<Rightarrow> ('d game_db, admin_answer option) io"
where
  "admin_Run env auth peer request =
     (case request of
        None \<Rightarrow> ret None
      | Some request \<Rightarrow>
          if \<not> authorized auth peer request then ret (Some Unauthorized)
          else (case adm_target request of
              None \<Rightarrow> throw Undefined_behaviour
            | Some (path, params) \<Rightarrow>
                bind_io
                  (if prefix ''/api/'' path then HandleAPI env (adm_method request) path params
                   else HandleFileLookup env path)
                  (\<lambda>(a, ok). ret (Some a))))"

record admin_server =
  am_Auth :: string
  am_loopback_only :: bool

definition new_admin_server :: "(string \<Rightarrow> string) \<Rightarrow> string \<Rightarrow> string \<Rightarrow> admin_server" where
  "new_admin_server enc username password =
     (if username = [] \<or> password = [] then \<lparr>am_Auth = [], am_loopback_only = True\<rparr>
      else \<lparr>am_Auth = ''Basic '' @ base64_encode enc (username @ '':'' @ password), am_loopback_only = False\<rparr>)"

text \<open>\<open>HandleIncoming\<close>: what \<open>Run\<close> throws is logged, and there is no answer.\<close>

definition admin_HandleIncoming ::
  "('d, 's) admin_env \<Rightarrow> admin_server \<Rightarrow> admin_peer \<Rightarrow> admin_request option \<Rightarrow> ('d game_db, unit) io"
where
  "admin_HandleIncoming env server peer request =
     try_log (bind_io (admin_Run env (am_Auth server) peer request) (\<lambda>_. ret ()))"

section \<open>Rules\<close>

named_theorems api_simps

lemmas [api_simps] = SendResponse_def bind_io_def ret_def throw_def lift_exn_def gets_def

lemma SendResponse_db: "snd (SendResponse env status body ok db) = db"
  by (auto simp: api_simps split: option.splits sum.splits)

lemma SendResponse_preserves [preserves_intros]: "preserves I (SendResponse env status body ok)"
  by (simp add: preserves_def SendResponse_db)

lemma HandleFileLookup_db: "snd (HandleFileLookup env path db) = db"
  by (simp add: HandleFileLookup_def bind_io_def lift_exn_def throw_def ret_def SendResponse_db
      split: option.splits sum.splits)

text \<open>What a request does to the games: nothing, or one operation of the game it names.\<close>

lemma get_game_db: "preserves I (\<lambda>db. (GetGame db n, db))"
  by (simp add: preserves_def)

lemma call_names: "preserves (\<lambda>db. games_ok db \<and> (\<forall>n. HasGame db n = H n)) (gdb.call n op)"
  if "preserves (any_game_ok n) op"
  using preservesD [OF gdb.call_preserves [OF that]] gdb.call_has unfolding preserves_def by metis

lemma HandleAPI_games:
  "preserves (\<lambda>db. games_ok db \<and> (\<forall>n. HasGame db n = H n)) (HandleAPI env method path params)"
  unfolding HandleAPI_def api_servers_def api_server_def Let_def
  by (intro preserves_intros get_game_db)
    (auto split: option.splits intro!: preserves_intros call_names game_GetServers_ok
      game_AddOrUpdateServer_ok game_RemoveServers_ok)

lemma admin_Run_games:
  "preserves (\<lambda>db. games_ok db \<and> (\<forall>n. HasGame db n = H n)) (admin_Run env auth peer request)"
proof -
  have lookup: "preserves (\<lambda>db. games_ok db \<and> (\<forall>n. HasGame db n = H n)) (HandleFileLookup env path)" for path
    by (simp add: preserves_def HandleFileLookup_db)
  show ?thesis unfolding admin_Run_def
    by (auto split: option.splits intro!: preserves_intros HandleAPI_games lookup)
qed

lemma admin_Run_unauthorized:
  "\<not> authorized auth peer rq \<Longrightarrow> admin_Run env auth peer (Some rq) db = (Inr (Some Unauthorized), db)"
  by (simp add: admin_Run_def ret_def)

text \<open>The header that a client with the right name and password sends, read back.\<close>

context base64_codec
begin

lemma credentials_decode:
  "last p \<noteq> NUL \<Longrightarrow> p \<noteq> [] \<Longrightarrow> base64_decode dec64 (base64_encode enc (u @ CHR '':'' # p)) = Some (u @ CHR '':'' # p)"
  using decode_encode [of "u @ CHR '':'' # p"] trim_right_nul_append [of "u @ CHR '':'' # p" 0]
  by (cases p rule: rev_cases) (simp_all add: trim_right_nul_def)

end

section \<open>Properties\<close>

lemma remote_needs_credentials:
  assumes "base64_codec enc dec64" and "p \<noteq> []" and "last p \<noteq> NUL"
    and "\<not> peer_loopback peer" and "\<not> peer_is_host peer" and "u \<noteq> []"
    and "admin_Run env (am_Auth (new_admin_server enc u p)) peer (Some rq) db = (r, db')"
  shows "(r = Inr (Some Unauthorized) \<and> db' = db) \<or>
    (\<exists>h. adm_authorization rq = Some (''Basic '' @ h) \<and> base64_decode dec64 h = Some (u @ '':'' @ p))"
proof (cases "authorized (am_Auth (new_admin_server enc u p)) peer rq")
  case True
  with assms(2,4,5,6) have "adm_authorization rq = Some (''Basic '' @ base64_encode enc (u @ '':'' @ p))"
    by (simp add: authorized_def new_admin_server_def)
  with base64_codec.credentials_decode [OF assms(1,3,2)] show ?thesis by auto
next
  case False
  from admin_Run_unauthorized [OF this, of env db] assms(7) show ?thesis by simp
qed

text \<open>
  Who can use the administration page: of a server with a name and a password, a request from another
  host than the server's own is answered with \<open>401\<close> and changes nothing, unless its header is \<open>Basic\<close>
  with a text that decodes to exactly this name and password; a server without them listens on the
  loopback address only.
\<close>

theorem admin_credentials:
  assumes "base64_codec enc dec64" and "p \<noteq> []" and "last p \<noteq> NUL"
    and "\<not> peer_loopback peer" and "\<not> peer_is_host peer"
    and "admin_Run env (am_Auth (new_admin_server enc u p)) peer (Some rq) db = (r, db')"
  shows "if u = [] then am_loopback_only (new_admin_server enc u p)
    else (r = Inr (Some Unauthorized) \<and> db' = db) \<or>
      (\<exists>h. adm_authorization rq = Some (''Basic '' @ h) \<and> base64_decode dec64 h = Some (u @ '':'' @ p))"
  using remote_needs_credentials [OF assms(1-5) _ assms(6)] by (simp add: new_admin_server_def)

text \<open>
  Whatever requests arrive at the administration page, authorised or not and whether the handler
  throws or not: every game keeps its invariant, and no game is added, removed or renamed.
\<close>

theorem admin_keeps_games:
  assumes "games_ok db"
  shows "games_ok (snd (admin_HandleIncoming env server peer request db)) \<and>
    (\<forall>n. HasGame (snd (admin_HandleIncoming env server peer request db)) n = HasGame db n)"
proof -
  have "preserves (\<lambda>d. games_ok d \<and> (\<forall>n. HasGame d n = HasGame db n))
      (admin_HandleIncoming env server peer request)"
    unfolding admin_HandleIncoming_def by (intro preserves_intros admin_Run_games)
  from preservesD [OF this, of db] assms show ?thesis by simp
qed

text \<open>
  C38. Files: what is sent is the content of a file below the root directory, the one the path of the
  request resolves to, with the type of its extension; a path that resolves to a place outside the root
  is answered with \<open>404\<close>, and the games are not touched.
\<close>

theorem admin_files_below_root:
  assumes "HandleFileLookup env path db = (Inr (a, ok), db')"
  shows "db' = db \<and>
    (\<forall>f m c. a = File_contents f m c \<longrightarrow>
       (\<exists>q. f = ad_root env @ q \<and> ad_root env \<noteq> []) \<and> ad_open env f = Some c \<and> m = mimeType (ad_native env f) \<and>
       ad_resolve env (ad_root env) (if path = ''/'' then ''index.html'' else tl path) = Some f) \<and>
    (\<forall>f. ad_resolve env (ad_root env) (if path = ''/'' then ''index.html'' else tl path) = Some f \<and>
       \<not> prefix (ad_root env) f \<longrightarrow> a = Api_answer 404 None \<and> \<not> ok)"
  using assms
  by (auto simp: HandleFileLookup_def api_simps prefix_def split: option.splits if_splits sum.splits)

lemma the_int_eq: "the_int s = (case parse_uint32 s of None \<Rightarrow> Inl Undefined_behaviour | Some n \<Rightarrow> Inr n)"
  by (cases "from_chars 32 s 0") (auto simp: the_int_def parseInt_def parse_uint32_def)

lemma parseInt_Some: "parseInt s = Inr (Some n) \<longleftrightarrow> parse_uint32 s = Some n"
  by (cases "from_chars 32 s 0") (auto simp: parseInt_def parse_uint32_def)

text \<open>
  C39. Input that is not checked: a request for a game that does not exist ends with an exception, before
  its path is looked at, and so has no answer at all; a list of servers whose limit is not a number of 32 bits, or
  is empty, is undefined behaviour.
\<close>

theorem admin_unchecked_input:
  assumes "find_param params ''game'' = Some g" and "path \<noteq> ''/api/games''"
  shows "if HasGame db (prm_value g)
    then \<forall>l. find_param params ''limit'' = Some l \<and> parse_uint32 (prm_value l) = None \<and> path = ''/api/servers'' \<longrightarrow>
      HandleAPI env Verb_get path params db = (Inl Undefined_behaviour, db)
    else HandleAPI env method path params db = (Inl Out_of_range, db)"
proof (cases "HasGame db (prm_value g)")
  case True
  then obtain o' where "GetGame db (prm_value g) = Inr o'" using gdb.get_has by blast
  with True assms show ?thesis
    by (auto simp: HandleAPI_def api_servers_def api_simps int_param_def the_int_eq Let_def)
next
  case False
  with assms gdb.get_missing [OF False] show ?thesis by (simp add: HandleAPI_def bind_io_def)
qed

text \<open>The values of a posted server, as the first parameter of each name with a value gives them.\<close>

lemma server_values_find:
  "smap_find (server_values params) k =
     (if k \<in> {'''', ''game'', ''ip'', ''port''} then None
      else map_option prm_value (List.find (\<lambda>p. prm_key p = k \<and> prm_has_value p) params))"
proof -
  let ?f = "\<lambda>p m. if prm_key p \<in> {'''', ''game'', ''ip'', ''port''} \<or> \<not> prm_has_value p then m
         else smap_emplace (prm_key p) (prm_value p) m"
  have "smap_ok m \<Longrightarrow> smap_find (fold ?f params m) k = (case smap_find m k of Some v \<Rightarrow> Some v
      | None \<Rightarrow> if k \<in> {'''', ''game'', ''ip'', ''port''} then None
          else map_option prm_value (List.find (\<lambda>p. prm_key p = k \<and> prm_has_value p) params))" for m
  proof (induction params arbitrary: m)
    case (Cons p ps)
    show ?case
    proof (cases "prm_key p \<in> {'''', ''game'', ''ip'', ''port''} \<or> \<not> prm_has_value p")
      case True
      with Cons.IH [OF Cons.prems] show ?thesis by (auto split: option.splits)
    next
      case False
      with Cons.IH [OF smap.invar_emplace [OF Cons.prems]] Cons.prems show ?thesis
        by (auto simp: smap.lookup_emplace split: option.splits)
    qed
  qed (simp split: option.splits)
  from this [of "[]"] show ?thesis by (simp add: server_values_def)
qed

lemma gdb_call_Inr:
  assumes "gdb.call n op db = (Inr x, db')"
  obtains g g' where "GetGame db n = Inr g" "op g = (Inr x, g')" "db' = put_game n g' db"
  using assms by (auto simp: gdb.call_def split: sum.splits prod.splits)

text \<open>
  C37. Adding a server: a POST that is answered with success has announced to the game it names exactly one server,
  with the posted address, the port cut to 16 bits and the first value of each further
  parameter, and has left every other game alone.
\<close>

theorem posted_server_announced:
  assumes "games_ok db" and "find_param params ''game'' = Some pg" and "GetGame db (prm_value pg) = Inr g"
    and "find_param params ''ip'' = Some pip" and "find_param params ''port'' = Some pport"
    and "HandleAPI env Verb_post ''/api/server'' params db = (Inr (a, True), db')"
  shows "\<exists>port g'. parse_uint32 (prm_value pport) = Some port \<and> GetGame db' (prm_value pg) = Inr g' \<and>
    fired (as_game g') = fired (as_game g) @ [Server_added (posted_server (prm_value pip) port params)] \<and>
    (\<forall>k. smap_find (sv_data (posted_server (prm_value pip) port params)) k =
       (if k \<in> {'''', ''game'', ''ip'', ''port''} then None
        else map_option prm_value (List.find (\<lambda>p. prm_key p = k \<and> prm_has_value p) params))) \<and>
    (\<forall>n. n \<noteq> prm_value pg \<longrightarrow> GetGame db' n = GetGame db n)"
proof -
  from assms(2,3,6) have "api_server env (prm_value pg) Verb_post params db = (Inr (a, True), db')"
    by (simp add: HandleAPI_def bind_io_def)
  with assms(4,5) obtain port db1 where port: "parseInt (prm_value pport) = Inr (Some port)"
    and add: "gdb.call (prm_value pg) (game_AddOrUpdateServer (ad_api env) (posted_server (prm_value pip) port params)) db =
      (Inr (), db1)"
    and resp: "SendResponse env 200 (success_body ''added server'') True db1 = (Inr (a, True), db')"
    by (auto simp: api_server_def bind_io_Inr lift_exn_def SendResponse_def ret_def split: option.splits)
  from resp SendResponse_db [of env 200 "success_body ''added server''" True db1] have d: "db' = db1" by simp
  from add obtain g1 g' where g: "GetGame db (prm_value pg) = Inr g1"
    "game_AddOrUpdateServer (ad_api env) (posted_server (prm_value pip) port params) g1 = (Inr (), g')"
    "db1 = put_game (prm_value pg) g' db" by (rule gdb_call_Inr)
  have has: "HasGame db (prm_value pg)" using assms(3) gdb.get_missing by fastforce
  have "GetGame db' n = (if n = prm_value pg then Inr g' else GetGame db n)" for n
    unfolding d g(3) by (rule gdb.put_get [OF assms(1) has])
  with g assms(3) game_AddOrUpdateServer_fires [OF g(2)] port show ?thesis
    by (auto simp: parseInt_Some server_values_find posted_server_def)
qed

section \<open>A concrete page\<close>

definition sample_games :: "string game_db" where
  "sample_games = \<lparr>m_Config = [], m_Games = [(''gmtest'', Base_game sample_game)]\<rparr>"

text \<open>A file system without links: \<open>.\<close> and empty parts are skipped, \<open>..\<close> leaves the last element.\<close>

definition lexical :: "string list \<Rightarrow> string \<Rightarrow> string list option" where
  "lexical root relative =
     Some (fold (\<lambda>part p. if part = [] \<or> part = ''.'' then p else if part = ''..'' then butlast p else p @ [part])
       (split_at_char (CHR ''/'') relative) root)"

definition sample_admin :: "(string, unit) admin_env" where
  "sample_admin =
     \<lparr>ad_api = quiet_sqlite, ad_dump = \<lambda>j. Inr ''{}'', ad_root = [''srv'', ''http''], ad_resolve = lexical,
      ad_exists = \<lambda>p. Inr True, ad_open = \<lambda>p. Some ''text'', ad_native = \<lambda>p. concat (map ((#) (CHR ''/'')) p)\<rparr>"

definition param :: "string \<Rightarrow> string \<Rightarrow> url_param" where
  "param k v = \<lparr>prm_key = k, prm_value = v, prm_has_value = True\<rparr>"

definition sample_params :: "url_param list" where
  "sample_params = [param ''game'' ''gmtest'', param ''ip'' ''10.0.0.1'', param ''port'' ''6500'', param ''hostname'' ''x'',
     param ''limit'' ''many'']"

definition remote_peer :: admin_peer where
  "remote_peer = \<lparr>peer_loopback = False, peer_is_host = False\<rparr>"

lemma sample_games_ok: "games_ok sample_games"
  using sample_game_ok by (simp add: games_ok_def sample_games_def any_game_ok_def)

lemma sample_param_simps:
  "find_param sample_params ''game'' = Some (param ''game'' ''gmtest'')"
  "find_param sample_params ''ip'' = Some (param ''ip'' ''10.0.0.1'')"
  "find_param sample_params ''port'' = Some (param ''port'' ''6500'')"
  "find_param sample_params ''limit'' = Some (param ''limit'' ''many'')"
  "GetGame sample_games ''gmtest'' = Inr (Base_game sample_game)"
  "prm_value (param k v) = v"
  by (simp_all add: find_param_def sample_params_def param_def GetGame_def sample_games_def)

theorem admin_credentials_witness:
  "fst (admin_Run sample_admin (am_Auth (new_admin_server rfc4648_encode ''admin'' ''secret'')) remote_peer
     (Some \<lparr>adm_method = Verb_get, adm_authorization = None, adm_target = Some (''/'', [])\<rparr>) sample_games) =
   Inr (Some Unauthorized)"
proof -
  let ?rq = "\<lparr>adm_method = Verb_get, adm_authorization = None, adm_target = Some (''/'', [])\<rparr>"
  obtain r db' where run: "admin_Run sample_admin (am_Auth (new_admin_server rfc4648_encode ''admin'' ''secret'')) remote_peer
     (Some ?rq) sample_games = (r, db')" by fastforce
  have f: "''secret'' \<noteq> []" "last ''secret'' \<noteq> NUL" "\<not> peer_loopback remote_peer" "\<not> peer_is_host remote_peer"
    by (simp_all add: remote_peer_def)
  from admin_credentials [OF rfc4648.base64_codec_axioms f run] run show ?thesis by simp
qed

theorem admin_keeps_games_witness:
  "games_ok (snd (admin_HandleIncoming sample_admin (new_admin_server rfc4648_encode [] []) remote_peer
     (Some \<lparr>adm_method = Verb_post, adm_authorization = Some [], adm_target = Some (''/api/server'', sample_params)\<rparr>)
     sample_games))"
  using admin_keeps_games [OF sample_games_ok] by blast

theorem admin_files_below_root_witness:
  "fst (HandleFileLookup sample_admin ''/a/../b.png'' sample_games) = Inr (File_contents [''srv'', ''http'', ''b.png''] ''image/png'' ''text'', True) \<and>
   fst (HandleFileLookup sample_admin ''/../../etc/passwd'' sample_games) = Inr (Api_answer 404 None, False)"
proof -
  have s: "split_at_char (CHR ''/'') ''a/../b.png'' = [''a'', ''..'', ''b.png'']"
    "split_at_char (CHR ''/'') ''../../etc/passwd'' = [''..'', ''..'', ''etc'', ''passwd'']" by simp_all
  have m: "mimeType (ad_native sample_admin [''srv'', ''http'', ''b.png'']) = ''image/png''"
    by (simp add: sample_admin_def) code_simp
  have a: "HandleFileLookup sample_admin ''/a/../b.png'' sample_games =
      (Inr (File_contents [''srv'', ''http'', ''b.png''] ''image/png'' ''text'', True), sample_games)"
    using m s(1) by (simp add: HandleFileLookup_def sample_admin_def lexical_def api_simps)
  have b: "HandleFileLookup sample_admin ''/../../etc/passwd'' sample_games = (Inr (Api_answer 404 None, False), sample_games)"
    using s(2) by (simp add: HandleFileLookup_def sample_admin_def lexical_def api_simps)
  have r: "ad_resolve sample_admin (ad_root sample_admin) (tl ''/../../etc/passwd'') = Some [''etc'', ''passwd'']"
    using s(2) by (simp add: sample_admin_def lexical_def)
  from admin_files_below_root [OF a] admin_files_below_root [OF b] r a b show ?thesis by simp
qed

theorem admin_unchecked_input_witness:
  "HandleAPI sample_admin Verb_get ''/api/servers'' sample_params sample_games = (Inl Undefined_behaviour, sample_games)"
proof -
  have p: "''/api/servers'' \<noteq> ''/api/games''" by simp
  have "parse_uint32 ''many'' = None" by code_simp
  moreover have "HasGame sample_games ''gmtest''" by (simp add: HasGame_def sample_games_def smap_contains_def)
  ultimately show ?thesis
    using admin_unchecked_input [OF sample_param_simps(1) p, of sample_games] by (simp add: sample_param_simps)
qed

theorem posted_server_announced_witness:
  "\<exists>db' g'. HandleAPI sample_admin Verb_post ''/api/server'' sample_params sample_games = (Inr (Api_answer 200 (Some ''{}''), True), db') \<and>
     GetGame db' ''gmtest'' = Inr g' \<and>
     fired (as_game g') = [Server_added (posted_server ''10.0.0.1'' 6500 sample_params)]"
proof -
  have "from_chars 32 ''6500'' 0 = ([], Errc_Ok, 6500)"
    by (subst from_chars_digits) (simp_all add: is_digit_def digits_val_def digit_val_def)
  then have port: "parse_uint32 ''6500'' = Some 6500" by (simp add: parse_uint32_def)
  then have port': "parseInt ''6500'' = Inr (Some 6500)" by (simp add: parseInt_Some)
  let ?s = "posted_server ''10.0.0.1'' 6500 sample_params"
  have data: "sv_data ?s = [(''hostname'', ''x''), (''limit'', ''many'')]"
    by (simp add: posted_server_def server_values_def sample_params_def param_def smap_emplace_def smap_contains_def)
  have limit: "IsValidParamName ''limit''" by code_simp
  have cols: "collect_columns sample_game (sv_data ?s) = Inr ([''hostname''], [''limit''], [''x''])"
    using data limit by (simp add: sample_game_def gmtest_data_def smap_contains_def)
  have exec: "db_exec quiet_sqlite sql d = (Inr (), snd (db_exec quiet_sqlite sql d))" for sql d
    by (simp add: db_exec_def quiet_sqlite_def)
  have set_auth: "set_authorizer quiet_sqlite a d = (Inr (), d)" for a d
    by (simp add: set_authorizer_def quiet_sqlite_def)
  have add: "\<exists>g'. add_missing_columns quiet_sqlite [c] g = (Inr (), g')" for c g
    using exec [of "add_columns_sql [c]" "m_DB g"]
    by (cases "db_exec quiet_sqlite (add_columns_sql [c]) (m_DB g)")
      (simp add: add_missing_columns_def then_io_def bind_io_def on_db_def zoom_def scoped_authorizer_def
        set_auth modify_def)
  have prep: "stmt_prepare quiet_sqlite (insert_sql [''hostname''] (length [''x''])) d = (Inr (), d)" for d
    by (simp add: stmt_prepare_def insert_sql_def int_max_def quiet_sqlite_def)
  have bound: "bind_all quiet_sqlite 0 (insert_args ?s [''x'']) () = Inr ()"
    by (simp add: insert_args_def posted_server_def bind_at_def quiet_sqlite_def int_max_def)
  have insert: "\<exists>g. on_db (bind_io (stmt_prepare quiet_sqlite (insert_sql [''hostname''] (length [''x'']))) (\<lambda>st.
           bind_io (lift_exn (bind_all quiet_sqlite 0 (insert_args ?s [''x'']) st)) (\<lambda>st.
           stmt_insert quiet_sqlite st))) g0 = (Inr (), g)" for g0
    using prep bound by (simp add: on_db_def zoom_def bind_io_def lift_exn_def stmt_insert_def quiet_sqlite_def del: bind_all.simps)
  have "fst (AddOrUpdateServer quiet_sqlite ?s sample_game) = Inr ()"
  proof -
    obtain g1 g2 where "add_missing_columns quiet_sqlite [''limit''] sample_game = (Inr (), g1)"
      "on_db (bind_io (stmt_prepare quiet_sqlite (insert_sql [''hostname''] (length [''x'']))) (\<lambda>st.
           bind_io (lift_exn (bind_all quiet_sqlite 0 (insert_args ?s [''x'']) st)) (\<lambda>st.
           stmt_insert quiet_sqlite st))) g1 = (Inr (), g2)"
      using add insert by blast
    moreover have "public_ip ?s \<noteq> []" "public_port ?s \<noteq> 0" by (simp_all add: posted_server_def)
    ultimately show ?thesis using cols by (simp add: AddOrUpdateServer_def then_io_def bind_io_def modify_def)
  qed
  then have call: "fst (gdb.call ''gmtest'' (game_AddOrUpdateServer quiet_sqlite ?s) sample_games) = Inr ()"
    by (auto simp: gdb.call_def sample_param_simps game_AddOrUpdateServer_def on_game_def zoom_def split: prod.splits)
  then obtain db' where "gdb.call ''gmtest'' (game_AddOrUpdateServer quiet_sqlite ?s) sample_games = (Inr (), db')"
    by (metis prod.collapse)
  then have run: "HandleAPI sample_admin Verb_post ''/api/server'' sample_params sample_games =
      (Inr (Api_answer 200 (Some ''{}''), True), db')"
    using port' by (simp add: HandleAPI_def api_server_def sample_param_simps bind_io_def lift_exn_def SendResponse_def
        success_body_def sample_admin_def ret_def)
  have g: "GetGame sample_games (prm_value (param ''game'' ''gmtest'')) = Inr (Base_game sample_game)"
    by (simp add: sample_param_simps)
  from posted_server_announced [OF sample_games_ok sample_param_simps(1) g sample_param_simps(2,3) run] run port
  show ?thesis by (auto simp: sample_param_simps sample_game_def)
qed

end
