(* ===== verification/Player_Service.thy ===== *)
theory Player_Service
  imports Login_Client Search_Client Stats_Client Web_Server
begin

text \<open>
  The servers that share the database of players, side by side: any number of connections to the login server
  (\<open>emulator/gpcm.cpp\<close>) with requests to the search, statistics and web servers between their packets, in every
  order.  One step is one packet; between two suspension points no other coroutine runs, and with SQLite the
  operations of the database do not suspend.  Shown: accounts are for ever, and every session belongs to one.
\<close>

section \<open>The shared state\<close>

record ('d, 'p) service =
  sv_players :: 'p
  sv_games :: "'d game_db"
  sv_logins :: "nat \<Rightarrow> 'p login_client option"

text \<open>
  The steps.  A packet that makes its handler throw ends the connection; what it did to the database stays.
\<close>

inductive service_step :: "'p player_db \<Rightarrow> ('d, 'p) service \<Rightarrow> ('d, 'p) service \<Rightarrow> bool" for db where
  login_connects: "sv_logins w c = None \<Longrightarrow> le_db env = db \<Longrightarrow>
    SendChallenge env (login_client_of (sv_players w)) = (Inr (), m) \<Longrightarrow>
    service_step db w (w\<lparr>sv_logins := (sv_logins w)(c \<mapsto> m)\<rparr>)"
| login_packet: "sv_logins w c = Some m \<Longrightarrow> lc_open m \<Longrightarrow> le_db env = db \<Longrightarrow>
    login_handle env packet (m\<lparr>lc_PlayerDB := sv_players w\<rparr>) = (Inr (), m') \<Longrightarrow>
    service_step db w (w\<lparr>sv_players := lc_PlayerDB m', sv_logins := (sv_logins w)(c \<mapsto> m')\<rparr>)"
| login_throws: "sv_logins w c = Some m \<Longrightarrow> lc_open m \<Longrightarrow> le_db env = db \<Longrightarrow>
    login_handle env packet (m\<lparr>lc_PlayerDB := sv_players w\<rparr>) = (Inl e, m') \<Longrightarrow>
    service_step db w (w\<lparr>sv_players := lc_PlayerDB m', sv_logins := (sv_logins w)(c := None)\<rparr>)"
| login_leaves: "service_step db w (w\<lparr>sv_logins := (sv_logins w)(c := None)\<rparr>)"
| search_packet: "se_db senv = db \<Longrightarrow> search_handle senv packet (s\<lparr>sc_DB := sv_players w\<rparr>) = (r, s') \<Longrightarrow>
    service_step db w (w\<lparr>sv_players := sc_DB s'\<rparr>)"
| stats_packet: "te_db tenv = db \<Longrightarrow>
    stats_handle tenv packet (t\<lparr>st_GameDB := sv_games w, st_PlayerDB := sv_players w\<rparr>) = (r, t') \<Longrightarrow>
    service_step db w (w\<lparr>sv_players := st_PlayerDB t'\<rparr>)"
| web_request: "HandleBF2Web db now uri (sv_players w) = (r, p') \<Longrightarrow>
    service_step db w (w\<lparr>sv_players := p'\<rparr>)"

inductive_cases service_step_cases: "service_step db w w'"

section \<open>Accounts\<close>

text \<open>
  The part of a row that no request changes: the id, the name, and the password and the address as the library
  reads them.  A session belongs to an account when its player has these values.
\<close>

definition account :: "(string \<Rightarrow> string) \<Rightarrow> player_row \<Rightarrow> int \<times> string \<times> string \<times> string" where
  "account str r = (row_id r, row_name r, str (row_password r), case row_email r of None \<Rightarrow> [] | Some e \<Rightarrow> str e)"

definition accounts :: "(string \<Rightarrow> string) \<Rightarrow> player_table \<Rightarrow> (int \<times> string \<times> string \<times> string) set" where
  "accounts str t = account str ` set (tbl_rows t)"

definition has_account :: "(string \<Rightarrow> string \<Rightarrow> bool) \<Rightarrow> (int \<times> string \<times> string \<times> string) set \<Rightarrow> player_data \<Rightarrow> bool" where
  "has_account same accs pl \<longleftrightarrow> (\<exists>(i, n, w, e) \<in> accs.
     pl_id pl = of_int i \<and> same n (pl_name pl) \<and> pl_password pl = w \<and> pl_email pl = e)"

definition session_ok :: "(string \<Rightarrow> string \<Rightarrow> bool) \<Rightarrow> (int \<times> string \<times> string \<times> string) set \<Rightarrow> 'p login_client \<Rightarrow> bool" where
  "session_ok same accs m \<longleftrightarrow>
     (lc_State m = AUTHENTICATED \<longrightarrow> (\<exists>pl. lc_PlayerData m = Some pl \<and> has_account same accs pl))"

lemma has_account_mono: "accs \<subseteq> accs' \<Longrightarrow> has_account same accs pl \<Longrightarrow> has_account same accs' pl"
  unfolding has_account_def by blast

lemma session_ok_mono: "accs \<subseteq> accs' \<Longrightarrow> session_ok same accs m \<Longrightarrow> session_ok same accs' m"
  unfolding session_ok_def using has_account_mono by blast

lemma has_account_simps [simp]:
  "has_account same accs (pl\<lparr>pl_session := s\<rparr>) = has_account same accs pl"
  "has_account same accs (pl\<lparr>pl_country := c\<rparr>) = has_account same accs pl"
  by (simp_all add: has_account_def)

lemma session_ok_simps [simp]:
  "session_ok same accs (m\<lparr>lc_sent := x\<rparr>) = session_ok same accs m"
  "session_ok same accs (m\<lparr>lc_PlayerDB := p\<rparr>) = session_ok same accs m"
  "session_ok same accs (m\<lparr>lc_open := b\<rparr>) = session_ok same accs m"
  by (simp_all add: session_ok_def)

context player_directory
begin

lemma insert_accounts:
  "insert_player same n w m c t = Some t' \<Longrightarrow> accounts str t \<subseteq> accounts str t'"
  by (auto simp: insert_player_def accounts_def split: if_splits)

text \<open>An update by a player that has an account writes what is already there.\<close>

lemma update_accounts:
  assumes "sound t" and "has_account same (accounts str t) pl" and idem: "\<And>x. str (str x) = str x" "str [] = []"
  shows "accounts str (update_player same (pl_name pl) (pl_password pl) (pl_email pl) c t) = accounts str t"
proof -
  from assms(2) obtain r where r: "r \<in> set (tbl_rows t)" "same (row_name r) (pl_name pl)"
    "pl_password pl = str (row_password r)" "pl_email pl = (case row_email r of None \<Rightarrow> [] | Some e \<Rightarrow> str e)"
    by (auto simp: has_account_def accounts_def account_def)
  have only: "s = r" if "s \<in> set (tbl_rows t)" "same (row_name s) (pl_name pl)" for s
  proof (rule ccontr)
    assume "s \<noteq> r"
    with assms(1) that(1) r(1) have "\<not> same (row_name s) (row_name r)" by (simp add: sound_def pairwise_def)
    with that(2) r(2) same_equiv show False by (meson equivp_symp equivp_transp)
  qed
  let ?u = "\<lambda>s. if same (row_name s) (pl_name pl)
    then s\<lparr>row_password := pl_password pl, row_email := Some (pl_email pl), row_country := c\<rparr> else s"
  have "account str (?u s) = account str s" if "s \<in> set (tbl_rows t)" for s
    using only [OF that] r(3,4) idem by (auto simp: account_def split: option.splits)
  then have "account str ` ?u ` set (tbl_rows t) = account str ` set (tbl_rows t)"
    unfolding image_image by (intro image_cong refl)
  moreover have "tbl_rows (update_player same (pl_name pl) (pl_password pl) (pl_email pl) c t) = map ?u (tbl_rows t)"
    by (simp add: update_player_def)
  ultimately show ?thesis by (simp only: accounts_def list.set_map)
qed

lemma found_has_account:
  "r \<in> set (tbl_rows t) \<Longrightarrow> same (row_name r) n \<Longrightarrow> has_account same (accounts str t) ((row_player str r)\<lparr>pl_name := n\<rparr>)"
  by (auto simp: has_account_def accounts_def account_def row_player_def PlayerData_of_def)

section \<open>What a request keeps\<close>

text \<open>The table is sound and still has the accounts \<open>A\<close>; and the session, if there is one, belongs to an account.\<close>

definition table_keeps :: "(int \<times> string \<times> string \<times> string) set \<Rightarrow> 'p \<Rightarrow> bool" where
  "table_keeps A p \<longleftrightarrow> sound (table p) \<and> A \<subseteq> accounts str (table p)"

definition login_keeps :: "(int \<times> string \<times> string \<times> string) set \<Rightarrow> 'p login_client \<Rightarrow> bool" where
  "login_keeps A m \<longleftrightarrow> table_keeps A (lc_PlayerDB m) \<and> session_ok same (accounts str (table (lc_PlayerDB m))) m"

lemma lookups_keep:
  "preserves (table_keeps A) (HasPlayer db n)" "preserves (table_keeps A) (GetPlayerByName db n)"
  "preserves (table_keeps A) (GetPlayerByPID db i)" "preserves (table_keeps A) (GetPlayerByMailAndPassword db e w)"
  unfolding table_keeps_def by (rule lookups_sound)+

lemma lookups_same_table:
  "table (snd (HasPlayer db n p)) = table p" "table (snd (GetPlayerByName db n p)) = table p"
  using preservesD [OF lookups_sound(1), of "\<lambda>t. t = table p" p n] preservesD [OF lookups_sound(2), of "\<lambda>t. t = table p" p n]
  by simp_all

lemma create_keeps: "preserves (table_keeps A) (CreatePlayer db pl)"
  unfolding preserves_def
proof (intro allI impI)
  fix p
  assume p: "table_keeps A p"
  show "table_keeps A (snd (CreatePlayer db pl p))"
  proof (cases "fst (CreatePlayer db pl p)")
    case (Inl e)
    with create_fails [of pl p e] p show ?thesis by (cases "CreatePlayer db pl p") (simp add: table_keeps_def)
  next
    case (Inr pl')
    with create [of pl p pl'] have "insert_player same (pl_name pl) (pl_password pl) (pl_email pl) (pl_country pl) (table p) =
        Some (table (snd (CreatePlayer db pl p)))"
      by (cases "CreatePlayer db pl p") simp
    from insert_sound [OF _ this] insert_accounts [OF this] p show ?thesis by (auto simp: table_keeps_def)
  qed
qed

lemma send_keeps:
  "preserves (login_keeps A) (login_send env r)" "preserves (login_keeps A) (SendError env i e t f)"
  by (auto intro!: preserves_login_send simp: login_keeps_def SendError_def)

end

context player_directory
begin

lemma keeps_login_db:
  assumes "preserves (table_keeps A) op" and "\<And>p. table (snd (op p)) = table p"
  shows "preserves (login_keeps A) (login_db op)"
  using assms by (simp add: preserves_def login_keeps_def snd_login_db)

text \<open>The state of a connection that is being authenticated, with any table.\<close>

definition waiting :: "(int \<times> string \<times> string \<times> string) set \<Rightarrow> 'p login_client \<Rightarrow> bool" where
  "waiting A m \<longleftrightarrow> table_keeps A (lc_PlayerDB m) \<and> lc_State m = AUTHENTICATING"

lemma waiting_keeps: "waiting A m \<Longrightarrow> login_keeps A m"
  by (simp add: waiting_def login_keeps_def session_ok_def)

lemma waiting_db: "preserves (table_keeps A) op \<Longrightarrow> hoare (waiting A) (login_db op) (\<lambda>_. waiting A) (login_keeps A)"
  by (rule hoare_keep) (auto simp: preserves_def waiting_def snd_login_db waiting_keeps)

lemma waiting_send: "hoare (waiting A) (SendError env i e t f) (\<lambda>_. login_keeps A) (login_keeps A)"
  by (rule hoare_pre [OF hoare_keep [OF send_keeps(2)]]) (simp_all add: waiting_keeps)

lemma login_player_keeps:
  "hoare (\<lambda>m. waiting A m \<and> has_account same (accounts str (table (lc_PlayerDB m))) pl)
     (login_player env n c r pl) (\<lambda>_. login_keeps A) (login_keeps A)"
proof (rule hoareI)
  fix m x m'
  assume m: "waiting A m \<and> has_account same (accounts str (table (lc_PlayerDB m))) pl"
    and run: "login_player env n c r pl m = (Inr x, m')"
  then show "login_keeps A m'"
    by (auto simp: login_player_def bind_io_def gets_def then_io_def set_player_def set_state_def modify_def
        login_send_def lift_exn_def Let_def SendError_def login_keeps_def waiting_def session_ok_def split: sum.splits if_splits)
next
  fix m e m'
  assume m: "waiting A m \<and> has_account same (accounts str (table (lc_PlayerDB m))) pl"
    and run: "login_player env n c r pl m = (Inl e, m')"
  then show "login_keeps A m'"
    by (auto simp: login_player_def bind_io_def gets_def then_io_def set_player_def set_state_def modify_def
        login_send_def lift_exn_def Let_def SendError_def login_keeps_def waiting_def session_ok_def split: sum.splits if_splits)
qed

lemma get_by_name_account:
  assumes "le_db env = db"
  shows "hoare (waiting A) (login_db (GetPlayerByName (le_db env) n))
    (\<lambda>found m. waiting A m \<and> (\<forall>pl. found = Some pl \<longrightarrow> has_account same (accounts str (table (lc_PlayerDB m))) pl))
    (login_keeps A)"
proof (rule hoareI)
  fix m found m'
  assume m: "waiting A m" and run: "login_db (GetPlayerByName (le_db env) n) m = (Inr found, m')"
  from login_db_result [OF run] assms have g: "GetPlayerByName db n (lc_PlayerDB m) = (Inr found, lc_PlayerDB m')" by auto
  from run have m': "m' = m\<lparr>lc_PlayerDB := lc_PlayerDB m'\<rparr>"
    by (auto simp: login_db_def zoom_def split: prod.splits)
  have state: "lc_State m' = lc_State m" by (subst m') simp
  from by_name [OF g] found_has_account m state
  show "waiting A m' \<and> (\<forall>pl. found = Some pl \<longrightarrow> has_account same (accounts str (table (lc_PlayerDB m'))) pl)"
    by (auto simp: waiting_def table_keeps_def split: option.splits)
next
  fix m e m'
  assume m: "waiting A m" and run: "login_db (GetPlayerByName (le_db env) n) m = (Inl e, m')"
  from preservesD [OF lookups_keep(2)] m run assms show "login_keeps A m'"
    by (auto simp: waiting_def login_keeps_def session_ok_def login_db_def zoom_def split: prod.splits) (metis snd_conv)+
qed

text \<open>A handler that acts only in the state \<open>AUTHENTICATING\<close>.\<close>

lemma only_waiting:
  assumes "hoare (waiting A) f (\<lambda>_. login_keeps A) (login_keeps A)"
    and "hoare (login_keeps A) g (\<lambda>_. login_keeps A) (login_keeps A)"
  shows "hoare (login_keeps A) (bind_io (gets lc_State) (\<lambda>state. if state \<noteq> AUTHENTICATING then g else f))
    (\<lambda>_. login_keeps A) (login_keeps A)"
proof (rule hoare_bind)
  show "hoare (login_keeps A) (gets lc_State) (\<lambda>state m. login_keeps A m \<and> state = lc_State m) (login_keeps A)"
    by (rule hoare_gets) simp
  show "hoare (\<lambda>m. login_keeps A m \<and> state = lc_State m) (if state \<noteq> AUTHENTICATING then g else f)
    (\<lambda>_. login_keeps A) (login_keeps A)" for state
    by (rule hoare_if, rule hoare_pre [OF assms(2)], simp, rule hoare_pre [OF assms(1)])
      (auto simp: waiting_def login_keeps_def)
qed

lemma error_keeps: "hoare (login_keeps A) (SendError env i e t f) (\<lambda>_. login_keeps A) (login_keeps A)"
  by (rule hoare_keep [OF send_keeps(2)])

lemma HandleLogin_keeps:
  assumes "le_db env = db"
  shows "hoare (login_keeps A) (HandleLogin env p) (\<lambda>_. login_keeps A) (login_keeps A)"
  unfolding HandleLogin_def Let_def assms
  apply (rule only_waiting)
   apply (rule hoare_if, rule waiting_send)+
   apply (rule hoare_bind [OF waiting_db [OF lookups_keep(1)]], rule hoare_if, rule waiting_send)
   apply (rule hoare_bind [OF get_by_name_account [OF assms, unfolded assms]])
   apply (rule hoare_option)
    apply (rule hoare_throw, simp add: waiting_keeps)
   apply (rule hoare_pre [OF login_player_keeps], blast)
  apply (rule hoare_ret, assumption)
  done

lemma HandleNewUser_keeps:
  assumes "le_db env = db"
  shows "hoare (login_keeps A) (HandleNewUser env p) (\<lambda>_. login_keeps A) (login_keeps A)"
proof -
  have set_player: "hoare (waiting A) (set_player pl) (\<lambda>_. waiting A) (login_keeps A)" for pl
    unfolding set_player_def by (rule hoare_modify) (simp add: waiting_def)
  have send: "hoare (waiting A) (login_send env r) (\<lambda>_. login_keeps A) (login_keeps A)" for r
    by (rule hoare_pre [OF hoare_keep [OF send_keeps(1)]]) (simp_all add: waiting_keeps)
  have throw: "hoare (waiting A) (throw e) Q (login_keeps A)" for e and Q :: "unit \<Rightarrow> 'p login_client \<Rightarrow> bool"
    by (rule hoare_throw) (simp add: waiting_keeps)
  show ?thesis
    unfolding HandleNewUser_def Let_def assms prod.case
    by (rule only_waiting)
      (intro hoare_option hoare_if waiting_send throw send hoare_bind [OF waiting_db] hoare_then [OF set_player]
        lookups_keep create_keeps error_keeps)+
qed

lemma HandleGetProfile_keeps: "hoare (login_keeps A) (HandleGetProfile env p) (\<lambda>_. login_keeps A) (login_keeps A)"
proof (rule hoare_keep)
  show "preserves (login_keeps A) (HandleGetProfile env p)"
    unfolding HandleGetProfile_def SendPlayerData_def
    by (intro preserves_intros send_keeps preserves_the_player)
qed

end

context player_directory
begin

text \<open>A profile update by a session, whose player has an account.\<close>

definition updating :: "(int \<times> string \<times> string \<times> string) set \<Rightarrow> player_data \<Rightarrow> 'p login_client \<Rightarrow> bool" where
  "updating A pl m \<longleftrightarrow> table_keeps A (lc_PlayerDB m) \<and> lc_PlayerData m = Some pl \<and>
     has_account same (accounts str (table (lc_PlayerDB m))) pl"

lemma updating_keeps: "updating A pl m \<Longrightarrow> login_keeps A m"
  by (auto simp: updating_def login_keeps_def session_ok_def)

lemma update_keeps:
  assumes "le_db env = db" and idem: "\<And>x. str (str x) = str x" "str [] = []"
  shows "hoare (updating A pl) (login_db (UpdatePlayer (le_db env) pl)) (\<lambda>_. login_keeps A) (login_keeps A)"
proof -
  have step: "login_keeps A m'" if m: "updating A pl m" and run: "login_db (UpdatePlayer (le_db env) pl) m = (r, m')" for m r m'
  proof -
    let ?q = "snd (UpdatePlayer db pl (lc_PlayerDB m))"
    have m': "m' = m\<lparr>lc_PlayerDB := ?q\<rparr>" using run assms(1) by (auto simp: login_db_def zoom_def split: prod.splits)
    from m have s: "sound (table (lc_PlayerDB m))" "has_account same (accounts str (table (lc_PlayerDB m))) pl"
      by (auto simp: updating_def table_keeps_def)
    have "accounts str (table ?q) = accounts str (table (lc_PlayerDB m))"
      using update [of pl "lc_PlayerDB m" _ ?q] update_fails [of pl "lc_PlayerDB m" _ ?q] update_accounts [OF s idem]
      by (cases "UpdatePlayer db pl (lc_PlayerDB m)"; cases "fst (UpdatePlayer db pl (lc_PlayerDB m))") auto
    moreover have "sound (table ?q)" using preservesD [OF update_sound_op, of "lc_PlayerDB m" pl] s(1) by simp
    ultimately show ?thesis using m unfolding m' by (auto simp: updating_def table_keeps_def login_keeps_def session_ok_def)
  qed
  show ?thesis by (rule hoareI) (use step in blast)+
qed

lemma HandleUpdateProfile_keeps:
  assumes "le_db env = db" and "\<And>x. str (str x) = str x" "str [] = []"
  shows "hoare (login_keeps A) (HandleUpdateProfile env p) (\<lambda>_. login_keeps A) (login_keeps A)"
proof -
  have set: "hoare (updating A pl) (set_player (Some (pl\<lparr>pl_country := c\<rparr>))) (\<lambda>_. updating A (pl\<lparr>pl_country := c\<rparr>)) (login_keeps A)"
    for pl c unfolding set_player_def by (rule hoare_modify) (simp add: updating_def)
  have get: "hoare (\<lambda>m. login_keeps A m \<and> state = lc_State m \<and> state = AUTHENTICATED) the_player (updating A) (login_keeps A)" for state
    by (rule hoareI) (auto simp: the_player_def login_keeps_def session_ok_def updating_def split: option.splits)
  show ?thesis
    unfolding HandleUpdateProfile_def Let_def
    apply (rule hoare_bind [where R = "\<lambda>state m. login_keeps A m \<and> state = lc_State m", OF hoare_gets], simp)
    apply (rule hoare_if, rule hoare_pre [OF error_keeps], simp)
    apply (rule hoare_option, rule hoare_ret, simp)
    apply (rule hoare_bind [OF hoare_pre [OF get]], simp)
    apply (rule hoare_then [OF set], rule update_keeps [OF assms])
    done
qed

lemma login_handle_keeps:
  assumes "le_db env = db" and "\<And>x. str (str x) = str x" "str [] = []"
  shows "hoare (login_keeps A) (login_handle env p) (\<lambda>_. login_keeps A) (login_keeps A)"
proof -
  have "hoare (login_keeps A) (HandleLogout p) (\<lambda>_. login_keeps A) (login_keeps A)"
    unfolding HandleLogout_def by (rule hoare_modify) (simp add: login_keeps_def)
  with HandleLogin_keeps [OF assms(1)] HandleNewUser_keeps [OF assms(1)] HandleGetProfile_keeps
    HandleUpdateProfile_keeps [OF assms] error_keeps
  show ?thesis using login_handle_cases [of env p] by (metis insertE singletonD)
qed

lemma search_keeps:
  assumes "se_db env = db"
  shows "preserves (\<lambda>m. table_keeps A (sc_DB m)) (search_handle env p)"
proof -
  have db: "preserves (\<lambda>m. table_keeps A (sc_DB m)) (search_db op)" if "preserves (table_keeps A) op"
    for op :: "('p, 'x) io"
    using that by (auto simp: preserves_def search_db_def zoom_def split: prod.splits)
  have send: "preserves (\<lambda>m. table_keeps A (sc_DB m)) (search_send env r)" for r
    unfolding search_send_def by (intro preserves_intros preserves_modify) simp
  show ?thesis
    unfolding search_handle_def search_dispatch_def HandleSearchNicks_def HandleProfileExists_def search_SendError_def assms
    by (intro preserves_intros db send lookups_keep)
qed

lemma stats_keeps:
  assumes "te_db env = db"
  shows "preserves (\<lambda>m. table_keeps A (st_PlayerDB m)) (stats_handle env p)"
proof -
  have db: "preserves (\<lambda>m. table_keeps A (st_PlayerDB m)) (stats_db op)" if "preserves (table_keeps A) op"
    for op :: "('p, 'x) io"
    using that by (auto simp: preserves_def stats_db_def zoom_def split: prod.splits)
  have send: "preserves (\<lambda>m. table_keeps A (st_PlayerDB m)) (SendPacket env r)" for r
    unfolding SendPacket_def by (intro preserves_intros preserves_modify) simp
  show ?thesis
    unfolding stats_handle_def HandleAuthPlayer_def HandleUpdateGame_def HandeSnapshot_def Let_def prod.case assms
    by (intro preserves_intros db send lookups_keep preserves_modify) simp_all
qed

lemma web_keeps: "preserves (table_keeps A) (HandleBF2Web db now uri)"
  unfolding HandleBF2Web_def getplayerid_def Let_def by (intro preserves_intros lookups_keep)

section \<open>What a step keeps\<close>

definition service_ok :: "('d, 'p) service \<Rightarrow> bool" where
  "service_ok w \<longleftrightarrow> sound (table (sv_players w)) \<and>
     (\<forall>c m. sv_logins w c = Some m \<longrightarrow> session_ok same (accounts str (table (sv_players w))) m)"

lemma players_change:
  assumes "service_ok w" and "table_keeps (accounts str (table (sv_players w))) p"
  shows "service_ok (w\<lparr>sv_players := p\<rparr>) \<and> accounts str (table (sv_players w)) \<subseteq> accounts str (table p)"
  using assms by (auto simp: service_ok_def table_keeps_def intro: session_ok_mono [of "accounts str (table (sv_players w))"])

lemma step_keeps:
  assumes "service_step db w w'" and "service_ok w" and "\<And>x. str (str x) = str x" "str [] = []"
  shows "service_ok w' \<and> accounts str (table (sv_players w)) \<subseteq> accounts str (table (sv_players w'))"
  using assms(1)
proof (cases rule: service_step.cases)
  case (login_connects c env m)
  have "lc_State m = AUTHENTICATING"
    using login_connects(4) by (auto simp: SendChallenge_def Let_def then_io_def bind_io_def modify_def login_send_def
        lift_exn_def set_state_def split: sum.splits)
  with login_connects(1) assms(2) show ?thesis by (auto simp: service_ok_def session_ok_def)
next
  case (login_packet c m env packet m')
  let ?A = "accounts str (table (sv_players w))"
  have "login_keeps ?A (m\<lparr>lc_PlayerDB := sv_players w\<rparr>)"
    using login_packet(2) assms(2) by (auto simp: login_keeps_def table_keeps_def service_ok_def)
  from hoareD [OF login_handle_keeps [OF login_packet(4) assms(3,4)] this, of packet] login_packet(5)
  have k: "table_keeps ?A (lc_PlayerDB m')" "session_ok same (accounts str (table (lc_PlayerDB m'))) m'"
    by (simp_all add: login_keeps_def)
  from players_change [OF assms(2) k(1)] k(2) login_packet(1) show ?thesis by (auto simp: service_ok_def)
next
  case (login_throws c m env packet e m')
  let ?A = "accounts str (table (sv_players w))"
  have "login_keeps ?A (m\<lparr>lc_PlayerDB := sv_players w\<rparr>)"
    using login_throws(2) assms(2) by (auto simp: login_keeps_def table_keeps_def service_ok_def)
  from hoareD [OF login_handle_keeps [OF login_throws(4) assms(3,4)] this, of packet] login_throws(5)
  have k: "table_keeps ?A (lc_PlayerDB m')" by (simp add: login_keeps_def)
  from players_change [OF assms(2) this] login_throws(1) show ?thesis by (auto simp: service_ok_def)
next
  case (login_leaves c)
  with assms(2) show ?thesis by (auto simp: service_ok_def)
next
  case (search_packet senv packet s r s')
  from preservesD [OF search_keeps [OF search_packet(2)], of "accounts str (table (sv_players w))" "s\<lparr>sc_DB := sv_players w\<rparr>" packet]
    search_packet(3) assms(2)
  have "table_keeps (accounts str (table (sv_players w))) (sc_DB s')" by (simp add: service_ok_def table_keeps_def)
  from players_change [OF assms(2) this] search_packet(1) show ?thesis by simp
next
  case (stats_packet tenv packet t r t')
  from preservesD [OF stats_keeps [OF stats_packet(2)], of "accounts str (table (sv_players w))"
      "t\<lparr>st_GameDB := sv_games w, st_PlayerDB := sv_players w\<rparr>" packet] stats_packet(3) assms(2)
  have "table_keeps (accounts str (table (sv_players w))) (st_PlayerDB t')" by (simp add: service_ok_def table_keeps_def)
  from players_change [OF assms(2) this] stats_packet(1) show ?thesis by simp
next
  case (web_request now uri r p')
  from preservesD [OF web_keeps, of "accounts str (table (sv_players w))" "sv_players w" now uri] web_request(2) assms(2)
  have "table_keeps (accounts str (table (sv_players w))) p'" by (simp add: service_ok_def table_keeps_def)
  from players_change [OF assms(2) this] web_request(1) show ?thesis by simp
qed

lemma steps_keep:
  assumes "(service_step db)\<^sup>*\<^sup>* w w'" and "service_ok w" and "\<And>x. str (str x) = str x" "str [] = []"
  shows "service_ok w' \<and> accounts str (table (sv_players w)) \<subseteq> accounts str (table (sv_players w'))"
  using assms(1)
proof (induction rule: rtranclp_induct)
  case (step w1 w2)
  with step_keeps [OF step.hyps(2) _ assms(3,4)] show ?case by blast
qed (use assms(2) in simp)

lemma start_ok: "sound (table (sv_players w)) \<Longrightarrow> sv_logins w = (\<lambda>_. None) \<Longrightarrow> service_ok w"
  by (simp add: service_ok_def)

end

section \<open>Properties\<close>

context sqlite_players
begin

lemma c_string_idem: "c_string (c_string s) = c_string s" "c_string [] = []"
  by (simp_all add: c_string_def)

lemma service_keeps:
  assumes "sound_table (=) (table (sv_players w0))" and "sv_logins w0 = (\<lambda>_. None)"
    and "(service_step (PlayerDBSQLite api))\<^sup>*\<^sup>* w0 w" and "(service_step (PlayerDBSQLite api))\<^sup>*\<^sup>* w w'"
  shows "players.service_ok w' \<and> accounts c_string (table (sv_players w)) \<subseteq> accounts c_string (table (sv_players w'))"
  using players.steps_keep [OF assms(3) players.start_ok [OF assms(1,2)] c_string_idem]
    players.steps_keep [OF assms(4) _ c_string_idem] by blast

lemmas contract_service_keeps = service_keeps [unfolded players.service_ok_def]

end


definition sample_service :: "(string, player_table) service" where
  "sample_service = \<lparr>sv_players = sample_registered, sv_games = \<lparr>m_Config = [], m_Games = []\<rparr>, sv_logins = \<lambda>_. None\<rparr>"


end
