(* ===== verification/Server_Table.thy ===== *)
theory Server_Table
  imports Bf2_Game Sqlite_Answers
begin

text \<open>
  The server table of a game, by what the statements of \<open>emulator/game.cpp\<close> mean.  The abstract table is a map from the
  address and port of a server to its values; the locale \<open>sqlite_servers\<close> says what SQLite documents of
  the four kinds of statements, an authorizer included, and an executable library that reads their texts
  interprets it.  Shown: the operations of \<open>Game\<close> refine insertion, removal and selection of the
  abstract table, whether they return or throw.
\<close>

section \<open>The abstract table\<close>

text \<open>The columns with their types, and the rows by address and port; a row gives the text of every column.\<close>

type_synonym server_row = "(string \<times> u16) \<times> (string \<Rightarrow> string)"

record server_table =
  tb_columns :: "(string \<times> store_type) list"
  tb_rows :: "(string \<times> u16, string \<Rightarrow> string) std_map"

definition column_names :: "server_table \<Rightarrow> string list" where
  "column_names t = map fst (tb_columns t)"

text \<open>The defaults of \<open>column_sql\<close>, as text; a column without one is NULL and read as the empty text.\<close>

definition default_text :: "store_type \<Rightarrow> string" where
  "default_text s = (case s of as_text \<Rightarrow> '''' | as_real \<Rightarrow> ''0.0'' | as_integer \<Rightarrow> ''0'')"

text \<open>\<open>stored\<close> is the text of a value that was bound as text to a column of a type, whose affinity may have changed it.\<close>

definition row_values ::
  "(store_type \<Rightarrow> string \<Rightarrow> string) \<Rightarrow> server_table \<Rightarrow> (string \<times> string) list \<Rightarrow> string \<Rightarrow> string"
where
  "row_values stored t kvs c =
     (case map_of (tb_columns t) c of
        None \<Rightarrow> ''''
      | Some s \<Rightarrow> (case map_of kvs c of Some v \<Rightarrow> stored s v | None \<Rightarrow> default_text s))"

definition put_server ::
  "(store_type \<Rightarrow> string \<Rightarrow> string) \<Rightarrow> string \<times> u16 \<Rightarrow> (string \<times> string) list \<Rightarrow> server_table \<Rightarrow> server_table"
where
  "put_server stored ep kvs t = t\<lparr>tb_rows := smap_assign ep (row_values stored t kvs) (tb_rows t)\<rparr>"

definition drop_server :: "string \<times> u16 \<Rightarrow> server_table \<Rightarrow> server_table" where
  "drop_server ep t = t\<lparr>tb_rows := smap_erase ep (tb_rows t)\<rparr>"

text \<open>What \<open>LIMIT\<close> and \<open>OFFSET\<close> leave of the rows that satisfy a condition, in any order.\<close>

definition selection :: "(server_row \<Rightarrow> bool) \<Rightarrow> nat \<Rightarrow> nat \<Rightarrow> server_table \<Rightarrow> server_row list \<Rightarrow> bool" where
  "selection f limit skip t rows \<longleftrightarrow> distinct (map fst rows) \<and> set rows \<subseteq> set (filter f (tb_rows t)) \<and>
     length rows = min limit (length (filter f (tb_rows t)) - skip)"

section \<open>What SQLite does with the statements\<close>

text \<open>The columns of a row of the query; \<open>fst\<close> is its \<open>__last_update\<close>.\<close>

fun row_columns :: "string list \<Rightarrow> int \<times> server_row \<Rightarrow> sql_value list" where
  "row_columns names (time, (ip, port), vs) = [Sql_int time, Sql_text ip, Sql_int (uint port)] @ map (\<lambda>f. Sql_text (vs f)) names"

text \<open>An authorizer that lets a query of the table \<open>server\<close> with \<open>LIKE\<close> pass.\<close>

definition permits_select :: "c_authorizer \<Rightarrow> bool" where
  "permits_select a \<longleftrightarrow> a SQLITE_SELECT None None None None = Auth_ok \<and>
     (\<forall>c. a SQLITE_READ (Some ''server'') (Some c) (Some ''main'') None = Auth_ok) \<and>
     a SQLITE_FUNCTION None (Some ''like'') None None = Auth_ok"

text \<open>
  \<open>table\<close> and \<open>guard\<close> are what a handle stands for: the table \<open>server\<close> and the authorizer in force.  \<open>clause\<close> is the
  meaning of the conditions that consist of comparisons of columns, \<open>usable\<close> tells the names that are no keywords of SQL, and
  \<open>deleter\<close> the statements prepared from \<open>delete_sql\<close>.  Texts of a million characters and 2000 columns of a result are within the
  limits of SQLite.  A statement may fail at any step, but preparing a query of existing columns does not.
\<close>

locale sqlite_servers =
  fixes api :: "('d, 's) sqlite3"
    and table :: "'d \<Rightarrow> server_table option"
    and guard :: "'d \<Rightarrow> c_authorizer option"
    and stored :: "store_type \<Rightarrow> string \<Rightarrow> string"
    and clause :: "string \<Rightarrow> (server_row \<Rightarrow> bool) option"
    and usable :: "string \<Rightarrow> bool"
    and deleter :: "'s \<Rightarrow> bool"
  assumes guards: "\<exists>d'. c_set_authorizer api a d = (SQLITE_OK, d') \<and> table d' = table d \<and> guard d' = a"
    and text_kept: "stored as_text v = v"
    and all_rows: "clause '''' = Some (\<lambda>_. True)"
    and creates: "table d = None \<Longrightarrow> guard d = None \<Longrightarrow>
      list_all (\<lambda>k. IsValidParamName (key_name k) \<and> usable (key_name k) \<and> length (key_name k) \<le> 1000) keys \<Longrightarrow>
      distinct (map (map tolower_char \<circ> key_name) keys) \<Longrightarrow> length keys \<le> 254 \<Longrightarrow>
      \<exists>d'. c_exec api (create_table_sql @ concat (map column_sql keys) @ create_end_sql) d = (SQLITE_OK, d') \<and>
        table d' = Some \<lparr>tb_columns = map (\<lambda>k. (key_name k, key_store k)) keys, tb_rows = []\<rparr> \<and> guard d' = None"
    and inserts: "table d = Some t \<Longrightarrow> guard d = None \<Longrightarrow> list_all IsValidParamName cs \<Longrightarrow>
      set cs \<subseteq> set (column_names t) \<Longrightarrow> distinct cs \<Longrightarrow> length vs = length cs \<Longrightarrow>
      stmt_make api (insert_sql cs (length vs)) (Bind_text ip # Bind_int (uint port) # map Bind_text vs) d = (Inr st, d) \<Longrightarrow>
      c_step api st d = (ec, st', d') \<Longrightarrow>
      guard d' = None \<and> table d' = Some (if ec = SQLITE_DONE then put_server stored (ip, port) (zip cs vs) t else t)"
    and selects: "table d = Some t \<Longrightarrow> smap_ok (tb_rows t) \<Longrightarrow> guard d = Some auth \<Longrightarrow> permits_select auth \<Longrightarrow> clause query = Some f \<Longrightarrow>
      list_all IsValidParamName names \<Longrightarrow> set names \<subseteq> set (column_names t) \<Longrightarrow> length names \<le> 1997 \<Longrightarrow>
      length (select_sql query names limit skip) \<le> 1000000 \<Longrightarrow>
      \<exists>st rows. c_prepare api (select_sql query names limit skip) d = (SQLITE_OK, st) \<and>
        selection f limit skip t (map snd rows) \<and>
        serves api (\<lambda>d. (table d, guard d)) (map (row_columns names) rows) st d (table d, guard d)"
    and delete_prepared: "c_prepare api delete_sql d = (SQLITE_OK, st) \<Longrightarrow> deleter st"
    and deletes: "deleter st \<Longrightarrow> bind_all api 0 [Bind_text ip, Bind_int (uint port)] st = Inr st1 \<Longrightarrow>
      table d = Some t \<Longrightarrow> guard d = None \<Longrightarrow> c_step api st1 d = (ec, st2, d') \<Longrightarrow>
      guard d' = None \<and> table d' = Some (if ec = SQLITE_DONE then drop_server (ip, port) t else t) \<and>
      (c_reset api st2 = (SQLITE_OK, st3) \<longrightarrow> deleter st3)"

text \<open>
  A game and its table: the columns of the table are the parameters of the game, and no authorizer is in force between the
  operations.
\<close>

definition game_table ::
  "('d \<Rightarrow> server_table option) \<Rightarrow> ('d \<Rightarrow> c_authorizer option) \<Rightarrow> string \<Rightarrow> 'd game \<Rightarrow> server_table \<Rightarrow> bool"
where
  "game_table table guard n g t \<longleftrightarrow> game_ok n g \<and> table (m_DB g) = Some t \<and> guard (m_DB g) = None \<and>
     smap_ok (tb_rows t) \<and> (\<forall>c. smap_contains (m_Params g) c \<longleftrightarrow> c \<in> set (column_names t))"

lemma column_names_put [simp]: "column_names (put_server stored ep kvs t) = column_names t"
  by (simp add: put_server_def column_names_def)

lemma column_names_drop [simp]: "column_names (drop_server ep t) = column_names t"
  by (simp add: drop_server_def column_names_def)

lemma rows_ok_put: "smap_ok (tb_rows t) \<Longrightarrow> smap_ok (tb_rows (put_server stored ep kvs t))"
  by (simp add: put_server_def smap.invar_assign)

lemma rows_ok_drop: "smap_ok (tb_rows t) \<Longrightarrow> smap_ok (tb_rows (drop_server ep t))"
  by (simp add: drop_server_def smap.invar_erase)

lemma permits_retrieve: "permits_select (c_callback retrieve_authorizer)"
  by (simp add: permits_select_def c_callback_def retrieve_authorizer_def)

lemma row_values_registered:
  assumes "\<And>c. P c \<longleftrightarrow> c \<in> set (column_names t)"
  shows "row_values stored t (filter (\<lambda>(k, v). P k) kvs) = row_values stored t kvs"
proof
  fix c
  have f: "map_of (filter (\<lambda>(k, v). P k) kvs) c = (if P c then map_of kvs c else None)"
    by (induction kvs) auto
  show "row_values stored t (filter (\<lambda>(k, v). P k) kvs) c = row_values stored t kvs c"
  proof (cases "map_of (tb_columns t) c")
    case (Some s)
    then have "P c" using assms [of c] by (force simp: column_names_def dest: map_of_SomeD)
    with Some show ?thesis by (simp add: row_values_def f)
  qed (simp add: row_values_def)
qed

section \<open>The operations of a game\<close>

lemma register_keys_sql: "register_keys i ks g = (Inr c, g') \<Longrightarrow> c = concat (map column_sql ks)"
  by (induction i ks arbitrary: g c g' rule: register_keys.induct)
    (auto simp: ret_def throw_def then_io_def bind_io_Inr modify_def split: if_splits)

lemma insertion_as_make:
  "bind_io (stmt_prepare api sql) (\<lambda>st. bind_io (lift_exn (bind_all api 0 args st)) (stmt_insert api)) =
   bind_io (stmt_make api sql args) (stmt_insert api)"
  by (simp add: stmt_make_def bind_io_assoc)

lemma row_holds_nth: "row_holds api st vs \<longleftrightarrow> (\<forall>i < length vs. column_holds api st i (vs ! i))"
  by (auto simp: row_holds_def list_all_iff in_set_enumerate_eq)

lemma row_holds_columns:
  assumes "row_holds api st (row_columns names (time, (ip, port), vs))"
  shows "column_text api st 1 = c_string ip" "column_u16 api st 2 = port" "column_time api st 0 = time"
    "i < length names \<Longrightarrow> column_text api st (i + 3) = c_string (vs (names ! i))"
proof -
  note h = assms [unfolded row_holds_nth, rule_format]
  show "column_text api st 1 = c_string ip" "column_u16 api st 2 = port" "column_time api st 0 = time"
    using h [of 0] h [of 1] h [of 2] by (simp_all add: column_holds_def column_text_def column_u16_def column_time_def)
  show "i < length names \<Longrightarrow> column_text api st (i + 3) = c_string (vs (names ! i))"
    using h [of "i + 3"] by (simp add: column_holds_def column_text_def)
qed

text \<open>The server that a row of the query is returned as.\<close>

fun listed_server :: "string list \<Rightarrow> int \<times> server_row \<Rightarrow> server_data" where
  "listed_server names (time, (ip, port), vs) =
     \<lparr>last_update = from_time_t time, public_ip = c_string ip, public_port = port, private_ip = '''', private_port = 0,
      icmp_ip = '''', sv_data = smap_of_list (map (\<lambda>f. (f, c_string (vs f))) names), rules = ''''\<rparr>"

lemma saved_server_row:
  assumes "row_holds api st (row_columns names r)"
  shows "saved_server api names st = listed_server names r"
proof -
  obtain time ip port vs where r: "r = (time, (ip, port), vs)" by (metis surj_pair)
  note h = row_holds_columns [OF assms [unfolded r]]
  have "map (\<lambda>(i, f). (f, column_text api st (i + 3))) (enumerate 0 names) = map (\<lambda>f. (f, c_string (vs f))) names"
    using h(4) by (intro nth_equalityI) (simp_all add: nth_enumerate_eq)
  with h(1-3) show ?thesis by (simp add: saved_server_def r)
qed

lemma fetch_served:
  "serves api tg (map (row_columns names) rows) st d (tg d) \<Longrightarrow> length rows < n \<Longrightarrow> fetch_rows api names n st d = (r, d') \<Longrightarrow>
   (\<forall>found. r = Inr found \<longrightarrow> found = Some (map (listed_server names) rows)) \<and> tg d' = tg d"
proof (induction rows arbitrary: st d n r d')
  case Nil
  then obtain m where "n = Suc m" by (cases n) auto
  with Nil show ?case by (auto simp: stmt_query_def bind_io_def ret_def step_fails_def split: prod.splits if_splits)
next
  case (Cons row rows)
  from Cons.prems obtain m where n: "n = Suc m" "length rows < m" by (cases n) auto
  obtain ec st1 d1 where step: "c_step api st d = (ec, st1, d1)" by (metis surj_pair)
  show ?case
  proof (cases "step_fails api tg st d")
    case True
    with step Cons.prems n show ?thesis
      by (auto simp: stmt_query_def bind_io_def step_fails_def)
  next
    case False
    with Cons.prems(1) step have s: "ec = SQLITE_ROW" "tg d1 = tg d" "row_holds api st1 (row_columns names row)"
      "serves api tg (map (row_columns names) rows) st1 d1 (tg d1)" by auto
    obtain r1 d2 where rest: "fetch_rows api names m st1 d1 = (r1, d2)" by fastforce
    from Cons.IH [OF s(4) n(2) rest] s step Cons.prems(3) rest saved_server_row [OF s(3)] show ?thesis
      by (auto simp: n stmt_query_def bind_io_def ret_def split: sum.splits)
  qed
qed

lemma register_keys_db: "m_DB (snd (register_keys i ks g)) = m_DB g"
proof -
  have "preserves (\<lambda>h :: 'a game. m_DB h = m_DB g) (register_keys i ks)"
    by (induction ks arbitrary: i) (auto intro!: preserves_intros preserves_modify)
  then show ?thesis by (auto simp: preserves_def)
qed

lemma game_table_fired [simp]: "game_table table guard n (g\<lparr>fired := x\<rparr>) t = game_table table guard n g t"
  by (simp add: game_table_def)

lemma game_table_db:
  "game_table table guard n g t \<Longrightarrow> table d = Some t' \<Longrightarrow> guard d = None \<Longrightarrow> smap_ok (tb_rows t') \<Longrightarrow>
   column_names t' = column_names t \<Longrightarrow> game_table table guard n (g\<lparr>m_DB := d\<rparr>) t'"
  by (simp add: game_table_def game_ok_def)

lemma registered_valid: "game_table table guard n g t \<Longrightarrow> set names \<subseteq> set (column_names t) \<Longrightarrow> list_all IsValidParamName names"
  unfolding list_all_iff game_table_def using game_ok_contains by blast

context sqlite_servers
begin

lemma connect_creates:
  fixes g :: "'d game"
  defines "keys \<equiv> gd_keys (m_Data g)"
  assumes g: "game_ok n g" "m_Params g = []" "table (m_DB g) = None" "guard (m_DB g) = None"
    and keys: "list_all (\<lambda>k. IsValidParamName (key_name k) \<and> usable (key_name k) \<and> length (key_name k) \<le> 1000) keys"
      "distinct (map (map tolower_char \<circ> key_name) keys)" "length keys \<le> 254"
  shows "\<exists>g'. Connect api g = (Inr (), g') \<and>
    game_table table guard n g' \<lparr>tb_columns = map (\<lambda>k. (key_name k, key_store k)) keys, tb_rows = []\<rparr>"
proof -
  let ?t = "\<lparr>tb_columns = map (\<lambda>k. (key_name k, key_store k)) keys, tb_rows = []\<rparr> :: server_table"
  have "list_all (IsValidParamName \<circ> key_name) keys" using keys(1) by (simp add: list_all_iff)
  from register_keys_total [OF this, of 0 g] obtain c g1 where r: "register_keys 0 keys g = (Inr c, g1)"
    by (metis prod.collapse)
  have c: "c = concat (map column_sql keys)" using register_keys_sql [OF r] .
  have db: "m_DB g1 = m_DB g" using register_keys_db [of 0 keys g] r by simp
  from creates [OF g(3,4) keys] obtain d where
    d: "c_exec api (create_table_sql @ concat (map column_sql keys) @ create_end_sql) (m_DB g) = (SQLITE_OK, d)"
      "table d = Some ?t" "guard d = None" by blast
  have run: "Connect api g = (Inr (), g1\<lparr>m_DB := d\<rparr>)"
    using r d(1) by (simp add: Connect_def bind_io_def gets_def on_db_def zoom_def db_exec_def db c flip: keys_def)
  have find: "smap_find (m_Params g1) k = map_of (zip (map key_name keys) [0..<length keys]) k" for k
    using register_keys_find [OF _ r, of k] g(2) by simp
  have "smap_contains (m_Params g1) k \<longleftrightarrow> k \<in> key_name ` set keys" for k
    using map_of_zip_is_None [of "map key_name keys" "[0..<length keys]" k] by (auto simp: smap_contains_def find)
  then have "smap_contains (m_Params g1) k \<longleftrightarrow> k \<in> set (column_names ?t)" for k
    by (simp add: column_names_def comp_def)
  moreover have "game_ok n (g1\<lparr>m_DB := d\<rparr>)" using preservesD [OF Connect_ok g(1), of api] run by simp
  ultimately show ?thesis using run d by (simp add: game_table_def)
qed

lemma add_puts:
  assumes g: "game_table table guard n g t"
    and known: "gd_missingKeyPolicy (m_Data g) = ignore_missing \<or> list_all (\<lambda>(k, v). smap_contains (m_Params g) k) (sv_data server)"
    and data: "smap_ok (sv_data server)"
    and run: "AddOrUpdateServer api server g = (r, g')"
  shows "game_table table guard n g'
    (case r of Inl _ \<Rightarrow> t | Inr _ \<Rightarrow> put_server stored (public_ip server, public_port server) (sv_data server) t)"
proof (cases "public_ip server = [] \<or> public_port server = 0")
  case True
  with run g show ?thesis by (auto simp: AddOrUpdateServer_def throw_def)
next
  case False
  show ?thesis
  proof (cases "collect_columns g (sv_data server)")
    case (Inl e)
    with False run g show ?thesis by (auto simp: AddOrUpdateServer_def bind_io_def)
  next
    case (Inr x)
    then obtain cs toAdd vs where x: "collect_columns g (sv_data server) = Inr (cs, toAdd, vs)" by (cases x) auto
    let ?known = "filter (\<lambda>(k, v). smap_contains (m_Params g) k) (sv_data server)"
    have spec: "zip cs vs = ?known" "length cs = length vs" "list_all (smap_contains (m_Params g)) cs" "toAdd = []"
      using collect_columns_spec [OF x] known by (auto simp: filter_empty_conv list_all_iff)
    have reg: "\<And>c. smap_contains (m_Params g) c \<longleftrightarrow> c \<in> set (column_names t)" and valid: "game_ok n g"
      and d: "table (m_DB g) = Some t" "guard (m_DB g) = None" using g by (simp_all add: game_table_def)
    have sub: "set cs \<subseteq> set (column_names t)" using spec(3) reg by (auto simp: list_all_iff)
    have names: "cs = map fst ?known" using spec(1,2) by (metis map_fst_zip)
    have dist: "distinct cs"
      unfolding names using data by (simp add: distinct_map_filter smap_ok_def strict_sorted_iff)
    let ?sql = "insert_sql cs (length vs)"
    let ?args = "Bind_text (public_ip server) # Bind_int (uint (public_port server)) # map Bind_text vs"
    have op: "AddOrUpdateServer api server g =
        then_io (on_db (bind_io (stmt_make api ?sql ?args) (stmt_insert api)))
          (modify (\<lambda>g. g\<lparr>fired := fired g @ [Server_added server]\<rparr>)) g"
      unfolding insertion_as_make [symmetric] using False x spec(4)
      by (simp add: AddOrUpdateServer_def bind_io_def [of "\<lambda>g. (collect_columns g _, g)"] then_io_def add_missing_columns_def
          bind_io_simps ret_def insert_args_def del: bind_all.simps)
    obtain y where y: "stmt_make api ?sql ?args (m_DB g) = (y, m_DB g)" by (metis prod.collapse stmt_make_state)
    show ?thesis
    proof (cases y)
      case (Inl e)
      with op y run g show ?thesis by (auto simp: then_io_def bind_io_def on_db_def zoom_def)
    next
      case (Inr st)
      obtain ec st' d' where step: "c_step api st (m_DB g) = (ec, st', d')" by (metis surj_pair)
      from inserts [OF d registered_valid [OF g sub] sub dist spec(2) [symmetric] y [unfolded Inr] step]
      have d': "guard d' = None"
        "table d' = Some (if ec = SQLITE_DONE then put_server stored (public_ip server, public_port server) (zip cs vs) t else t)"
        by auto
      have unzipped: "put_server stored ep (zip cs vs) t = put_server stored ep (sv_data server) t" for ep
        unfolding spec(1) using row_values_registered [where P = "smap_contains (m_Params g)" and t = t] reg
        by (simp add: put_server_def)
      have ok: "smap_ok (tb_rows t)" using g by (simp add: game_table_def)
      let ?t = "if ec = SQLITE_DONE then put_server stored (public_ip server, public_port server) (sv_data server) t else t"
      have t': "game_table table guard n (g\<lparr>m_DB := d'\<rparr>) ?t"
        using d'(2) ok rows_ok_put by (intro game_table_db [OF g _ d'(1)]) (auto simp: unzipped)
      then show ?thesis
        using op y Inr step run
        by (auto simp: then_io_def bind_io_def on_db_def zoom_def stmt_insert_def modify_def split: if_splits)
    qed
  qed
qed

lemma removes:
  assumes "deleter st" and "game_table table guard n g t" and "remove_loop api servers st g = (r, g')"
  shows "\<exists>k \<le> length servers. (\<forall>x. r = Inr x \<longrightarrow> k = length servers) \<and>
    game_table table guard n g' (fold drop_server (take k servers) t)"
  using assms
proof (induction servers arbitrary: st g t)
  case (Cons ep servers)
  obtain ip port where ep: "ep = (ip, port)" by fastforce
  have d: "table (m_DB g) = Some t" "guard (m_DB g) = None" "smap_ok (tb_rows t)"
    using Cons.prems(2) by (simp_all add: game_table_def)
  show ?case
  proof (cases "bind_all api 0 [Bind_text ip, Bind_int (uint port)] st")
    case (Inl e)
    with Cons.prems(2,3) have "r = Inl e" "g' = g"
      by (auto simp: ep bind_io_def lift_exn_def on_db_def zoom_def simp del: bind_all.simps)
    with Cons.prems(2) show ?thesis by (intro exI [of _ 0]) simp
  next
    case (Inr st1)
    obtain ec st2 d' where step: "c_step api st1 (m_DB g) = (ec, st2, d')" by (metis surj_pair)
    obtain rc st3 where reset: "c_reset api st2 = (rc, st3)" by (metis surj_pair)
    note del = deletes [OF Cons.prems(1) Inr d(1,2) step, of st3]
    let ?t = "if ec = SQLITE_DONE then drop_server (ip, port) t else t"
    have t': "game_table table guard n (g\<lparr>m_DB := d'\<rparr>) ?t"
      using del d(3) rows_ok_drop by (intro game_table_db [OF Cons.prems(2)]) auto
    show ?thesis
    proof (cases "ec = SQLITE_DONE \<and> rc = SQLITE_OK")
      case False
      then have "r = Inl Undefined_behaviour" "g' = g\<lparr>m_DB := d'\<rparr>"
        using Cons.prems(3) Inr step reset
        by (auto simp: ep bind_io_def lift_exn_def on_db_def zoom_def stmt_update_def stmt_insert_def stmt_reset_def
            simp del: bind_all.simps split: if_splits)
      with t' show ?thesis
        by (intro exI [of _ "if ec = SQLITE_DONE then 1 else 0"]) (auto simp: ep split: if_splits)
    next
      case True
      let ?g = "g\<lparr>m_DB := d', fired := fired g @ [Server_removed ip port]\<rparr>"
      have "remove_loop api servers st3 ?g = (r, g')" "game_table table guard n ?g ?t"
        using Cons.prems(3) Inr step reset True t'
        by (simp_all add: ep bind_io_def then_io_def modify_def lift_exn_def on_db_def zoom_def stmt_update_def stmt_insert_def
            stmt_reset_def del: bind_all.simps)
      from Cons.IH [OF _ this(2,1)] del reset True obtain k where k: "k \<le> length servers"
        "\<forall>x. r = Inr x \<longrightarrow> k = length servers" "game_table table guard n g' (fold drop_server (take k servers) ?t)"
        by auto
      with True show ?thesis by (intro exI [of _ "Suc k"]) (simp add: ep)
    qed
  qed
qed (auto simp: ret_def)

lemma remove_drops:
  assumes g: "game_table table guard n g t" and run: "RemoveServers api servers g = (r, g')"
  shows "\<exists>k \<le> length servers. (\<forall>x. r = Inr x \<longrightarrow> k = length servers) \<and>
    game_table table guard n g' (fold drop_server (take k servers) t)"
proof (cases "fst (stmt_prepare api delete_sql (m_DB g))")
  case (Inl e)
  then have "r = Inl e" "g' = g"
    using run by (auto simp: RemoveServers_def bind_io_def on_db_def zoom_def stmt_prepare_def split: if_splits prod.splits)
  with g show ?thesis by (intro exI [of _ 0]) simp
next
  case (Inr st)
  then have "c_prepare api delete_sql (m_DB g) = (SQLITE_OK, st)" and p: "stmt_prepare api delete_sql (m_DB g) = (Inr st, m_DB g)"
    by (auto simp: stmt_prepare_def split: if_splits prod.splits)
  then have "deleter st" by (intro delete_prepared)
  moreover have "remove_loop api servers st g = (r, g')"
    using run p by (simp add: RemoveServers_def bind_io_def on_db_def zoom_def)
  ultimately show ?thesis using g by (intro removes)
qed

lemma get_selects:
  assumes g: "game_table table guard n g t" and f: "clause query = Some f"
    and names: "set names \<subseteq> set (column_names t)" "length names \<le> 1997" "length (select_sql query names limit skip) \<le> 1000000"
    and run: "GetServers api query names limit skip g = (r, g')"
  shows "game_table table guard n g' t \<and> m_Data g' = m_Data g \<and> m_Params g' = m_Params g \<and>
    m_PopularValues g' = m_PopularValues g \<and>
    (\<forall>found. r = Inr found \<longrightarrow> (\<exists>rows. found = Some (map (listed_server names) rows) \<and> selection f limit skip t (map snd rows)))"
proof -
  let ?auth = "c_callback retrieve_authorizer"
  obtain d1 where d1: "c_set_authorizer api (Some ?auth) (m_DB g) = (SQLITE_OK, d1)" "table d1 = Some t" "guard d1 = Some ?auth"
    using guards [of "Some ?auth" "m_DB g"] g by (auto simp: game_table_def)
  have "smap_ok (tb_rows t)" using g by (simp add: game_table_def)
  from selects [OF d1(2) this d1(3) permits_retrieve f registered_valid [OF g names(1)] names] obtain st rows where
    st: "c_prepare api (select_sql query names limit skip) d1 = (SQLITE_OK, st)"
      "selection f limit skip t (map snd rows)"
      "serves api (\<lambda>d. (table d, guard d)) (map (row_columns names) rows) st d1 (table d1, guard d1)" by blast
  have len: "\<not> int_max < length (select_sql query names limit skip)" using names(3) by (simp add: int_max_def)
  obtain r1 d2 where fetch: "fetch_rows api names (Suc limit) st d1 = (r1, d2)" by fastforce
  have "length rows < Suc limit" using st(2) by (simp add: selection_def)
  from fetch_served [OF st(3) this fetch] have d2: "table d2 = Some t"
    "\<And>found. r1 = Inr found \<Longrightarrow> found = Some (map (listed_server names) rows)" using d1 by auto
  obtain d3 where d3: "c_set_authorizer api None d2 = (SQLITE_OK, d3)" "table d3 = Some t" "guard d3 = None"
    using guards [of None d2] d2 by auto
  have "GetServers api query names limit skip g = (r1, g\<lparr>m_DB := d3\<rparr>)"
    using d1(1) st(1) fetch d3(1) len
    by (simp add: GetServers_def on_db_def zoom_def scoped_authorizer_def then_io_def bind_io_def set_authorizer_def
        stmt_prepare_def del: fetch_rows.simps)
  with run have r: "r = r1" "g' = g\<lparr>m_DB := d3\<rparr>" by simp_all
  have "game_table table guard n g' t"
    unfolding r using d3 g by (intro game_table_db [OF g]) (simp_all add: game_table_def)
  with d2(2) st(2) r show ?thesis by auto
qed

end

end
