(* ===== verification/Server_Library.thy ===== *)
theory Server_Library
  imports Server_Table
begin

text \<open>
  An executable library that satisfies \<open>sqlite_servers\<close>: a handle is the table with the authorizer in force, and the texts of the statements of
  \<open>emulator/game.cpp\<close> are read back into what they ask for.  Preparing a query asks the authorizer, as SQLite does.
\<close>

section \<open>Reading the statements\<close>

function comma_names :: "string \<Rightarrow> string list" where
  "comma_names [] = []"
| "comma_names (c # s) = takeWhile (\<lambda>c. c \<noteq> CHR '','') s # comma_names (dropWhile (\<lambda>c. c \<noteq> CHR '','') s)"
  by pat_completeness auto
termination by (relation "measure length") (auto simp: length_dropWhile_le le_imp_less_Suc)

definition insert_head :: string where
  "insert_head = ''INSERT OR REPLACE INTO server (__public_ip, __public_port''"

definition read_insert :: "string \<Rightarrow> string list option" where
  "read_insert sql =
     (if prefix insert_head sql
      then Some (comma_names (takeWhile (\<lambda>c. c \<noteq> CHR '')'') (drop (length insert_head) sql))) else None)"

definition select_head :: string where
  "select_head = ''SELECT __last_update,__public_ip,__public_port''"

definition limit_head :: string where
  "limit_head = '' FROM server LIMIT ''"

text \<open>The names, the limit and the offset.\<close>

definition read_select :: "string \<Rightarrow> (string list \<times> nat \<times> nat) option" where
  "read_select sql =
     (let rest = drop (length select_head) sql;
          tail = dropWhile (\<lambda>c. c \<noteq> CHR '' '') rest;
          limit = drop (length limit_head) tail;
          offset = dropWhile is_digit limit
      in if prefix select_head sql \<and> prefix limit_head tail
         then Some (comma_names (takeWhile (\<lambda>c. c \<noteq> CHR '' '') rest), digits_val (takeWhile is_digit limit),
           if offset = [] then 0 else digits_val (drop (length '' OFFSET '') offset))
         else None)"

definition read_column :: "string \<Rightarrow> string \<times> store_type" where
  "read_column s =
     (takeWhile (\<lambda>c. c \<noteq> CHR '' '') s,
      let kind = dropWhile (\<lambda>c. c \<noteq> CHR '' '') s
      in if kind = '' TEXT'' then as_text else if kind = '' REAL DEFAULT 0.00'' then as_real else as_integer)"

definition read_create :: "string \<Rightarrow> (string \<times> store_type) list option" where
  "read_create sql =
     (if prefix create_table_sql sql
      then Some (map read_column (comma_names (takeWhile (\<lambda>c. c \<noteq> CHR 0x0A) (drop (length create_table_sql) sql)))) else None)"

section \<open>The library\<close>

record server_db =
  sdb_table :: "server_table option"
  sdb_guard :: "c_authorizer option"

text \<open>A column of integers makes a number of digits canonical.\<close>

definition affinity :: "store_type \<Rightarrow> string \<Rightarrow> string" where
  "affinity s v = (if s = as_integer \<and> v \<noteq> [] \<and> list_all is_digit v then dec (digits_val v) else v)"

definition arg_text :: "sql_arg \<Rightarrow> string" where
  "arg_text a = (case a of Bind_text s \<Rightarrow> s | Bind_int n \<Rightarrow> [])"

definition server_exec :: "string \<Rightarrow> server_db \<Rightarrow> nat \<times> server_db" where
  "server_exec sql d =
     (case (sdb_table d, read_create sql) of
        (None, Some columns) \<Rightarrow> (0, d\<lparr>sdb_table := Some \<lparr>tb_columns = columns, tb_rows = []\<rparr>\<rparr>)
      | _ \<Rightarrow> (1, d))"

text \<open>The authorizer is asked for the query and every column that is read: 23 is \<open>SQLITE_AUTH\<close>, 1 \<open>SQLITE_ERROR\<close>.\<close>

definition server_prepare :: "string \<Rightarrow> server_db \<Rightarrow> nat" where
  "server_prepare sql d =
     (case (sdb_table d, read_select sql) of
        (None, _) \<Rightarrow> 1
      | (Some t, None) \<Rightarrow> if sql = delete_sql \<or> read_insert sql \<noteq> None then 0 else 1
      | (Some t, Some (names, _)) \<Rightarrow>
          if \<not> list_all (\<lambda>n. n \<in> set (column_names t)) names then 1
          else if sdb_guard d = None \<or>
            the (sdb_guard d) SQLITE_SELECT None None None None = Auth_ok \<and>
            list_all (\<lambda>n. the (sdb_guard d) SQLITE_READ (Some ''server'') (Some n) (Some ''main'') None = Auth_ok)
              ([''__last_update'', ''__public_ip'', ''__public_port''] @ names) then 0 else 23)"

definition run_rows :: "sql_value list list \<Rightarrow> string \<Rightarrow> sql_arg list \<Rightarrow> server_db \<Rightarrow> nat \<times> table_stmt \<times> server_db" where
  "run_rows rows sql args d = (if rows = [] then 101 else 100, Table_stmt sql args (Some rows), d)"

definition server_run :: "string \<Rightarrow> sql_arg list \<Rightarrow> server_table \<Rightarrow> server_db \<Rightarrow> nat \<times> table_stmt \<times> server_db" where
  "server_run sql args t d =
     (if sql = delete_sql then
        (case args of
           [Bind_text ip, Bind_int port] \<Rightarrow> run_rows [] sql args (d\<lparr>sdb_table := Some (drop_server (ip, of_int port) t)\<rparr>)
         | _ \<Rightarrow> (1, Table_stmt sql args None, d))
      else case (read_insert sql, read_select sql) of
        (Some cs, _) \<Rightarrow>
          (case args of
             Bind_text ip # Bind_int port # vs \<Rightarrow>
               run_rows [] sql args (d\<lparr>sdb_table := Some (put_server affinity (ip, of_int port) (zip cs (map arg_text vs)) t)\<rparr>)
           | _ \<Rightarrow> (1, Table_stmt sql args None, d))
      | (None, Some (names, limit, skip)) \<Rightarrow>
          run_rows (map (row_columns names \<circ> Pair 0) (take limit (drop skip (tb_rows t)))) sql args d
      | (None, None) \<Rightarrow> (1, Table_stmt sql args None, d))"

fun server_step :: "table_stmt \<Rightarrow> server_db \<Rightarrow> nat \<times> table_stmt \<times> server_db" where
  "server_step (Table_stmt sql args None) d =
     (case sdb_table d of None \<Rightarrow> (1, Table_stmt sql args None, d) | Some t \<Rightarrow> server_run sql args t d)"
| "server_step (Table_stmt sql args (Some rows)) d = run_rows (tl rows) sql args d"

definition server_sqlite :: "(server_db, table_stmt) sqlite3" where
  "server_sqlite = \<lparr>
     c_exec = server_exec, c_set_authorizer = \<lambda>a d. (0, d\<lparr>sdb_guard := a\<rparr>), c_errmsg = \<lambda>d. ''SQL logic error'',
     c_last_insert_rowid = \<lambda>d. 0,
     c_prepare = \<lambda>sql d. (server_prepare sql d, Table_stmt sql [] None),
     c_bind_text = \<lambda>pos s. table_bind pos (Bind_text s), c_bind_int = \<lambda>pos n. table_bind pos (Bind_int n),
     c_step = server_step, c_reset = \<lambda>st. (case st of Table_stmt sql _ _ \<Rightarrow> (0, Table_stmt sql [] None)),
     c_column_text = \<lambda>i st. (case table_column i st of Sql_text s \<Rightarrow> Some (c_string s) | _ \<Rightarrow> None),
     c_column_int64 = \<lambda>i st. (case table_column i st of Sql_int n \<Rightarrow> n | Sql_uint n \<Rightarrow> int n | _ \<Rightarrow> 0)\<rparr>"

definition every_row :: "string \<Rightarrow> (server_row \<Rightarrow> bool) option" where
  "every_row query = (if query = '''' then Some (\<lambda>_. True) else None)"

definition prepared_delete :: "table_stmt \<Rightarrow> bool" where
  "prepared_delete st \<longleftrightarrow> st = Table_stmt delete_sql [] None"

section \<open>The readers undo the writers\<close>

lemma append_single [simp]: "(@) [c] = (#) c"
  by (rule ext) simp

lemma comma_names_of: "list_all (\<lambda>k. CHR '','' \<notin> set k) ks \<Longrightarrow> comma_names (concat (map (\<lambda>k. '','' @ k) ks)) = ks"
proof (induction ks)
  case (Cons k ks)
  have "takeWhile (\<lambda>c. c \<noteq> CHR '','') (k @ concat (map (\<lambda>k. '','' @ k) ks)) = k"
    "dropWhile (\<lambda>c. c \<noteq> CHR '','') (k @ concat (map (\<lambda>k. '','' @ k) ks)) = concat (map (\<lambda>k. '','' @ k) ks)"
    using Cons.prems by (cases ks; auto simp: takeWhile_append dropWhile_append)+
  with Cons show ?case by simp
qed simp

lemma valid_name_excludes:
  assumes "IsValidParamName k"
  shows "CHR '','' \<notin> set k" "CHR '' '' \<notin> set k" "CHR '')'' \<notin> set k" "CHR 0x0A \<notin> set k"
proof -
  have "\<not> is_alnum c \<and> c \<noteq> CHR ''_''" if "c \<in> {CHR '','', CHR '' '', CHR '')'', CHR 0x0A}" for c
    using that by (auto simp: is_alnum_def is_alpha_def is_digit_def less_eq_char_def)
  then show "CHR '','' \<notin> set k" "CHR '' '' \<notin> set k" "CHR '')'' \<notin> set k" "CHR 0x0A \<notin> set k"
    using valid_name_chars [OF assms] by blast+
qed

lemma read_insert_sql: "list_all IsValidParamName cs \<Longrightarrow> read_insert (insert_sql cs n) = Some cs"
proof -
  assume v: "list_all IsValidParamName cs"
  let ?names = "concat (map (\<lambda>k. '','' @ k) cs)" and ?rest = "'') VALUES(?,?'' @ concat (replicate n '',?'') @ '')''"
  have sql: "insert_sql cs n = insert_head @ ?names @ ?rest" by (simp add: insert_sql_def insert_head_def)
  have "\<forall>c \<in> set ?names. c \<noteq> CHR '')''" using v valid_name_excludes by (auto simp: list_all_iff)
  then have "takeWhile (\<lambda>c. c \<noteq> CHR '')'') (?names @ ?rest) = ?names" by (subst takeWhile_append2) simp_all
  moreover have "comma_names ?names = cs" using v valid_name_excludes by (intro comma_names_of) (auto simp: list_all_iff)
  ultimately show ?thesis unfolding read_insert_def sql by simp
qed

lemma read_insert_select: "read_insert (select_sql q names l s) = None"
  by (simp add: read_insert_def insert_head_def select_sql_def prefix_def)

lemma read_select_sql: "list_all IsValidParamName names \<Longrightarrow> read_select (select_sql '''' names limit skip) = Some (names, limit, skip)"
proof -
  assume v: "list_all IsValidParamName names"
  let ?names = "concat (map (\<lambda>k. '','' @ k) names)"
  let ?offset = "if skip \<noteq> 0 then '' OFFSET '' @ dec skip else []"
  have sql: "select_sql '''' names limit skip = select_head @ ?names @ limit_head @ dec limit @ ?offset"
    by (simp add: select_sql_def select_head_def limit_head_def)
  have n: "\<forall>c \<in> set ?names. c \<noteq> CHR '' ''" using v valid_name_excludes by (auto simp: list_all_iff)
  have "takeWhile (\<lambda>c. c \<noteq> CHR '' '') (?names @ limit_head @ dec limit @ ?offset) = ?names"
    "dropWhile (\<lambda>c. c \<noteq> CHR '' '') (?names @ limit_head @ dec limit @ ?offset) = limit_head @ dec limit @ ?offset"
    using n by (subst takeWhile_append2 dropWhile_append2; simp add: limit_head_def)+
  moreover have d: "\<forall>c \<in> set (dec limit). is_digit c" using list_all_digit_dec [of limit] by (simp add: list_all_iff)
  have "takeWhile is_digit (dec limit @ ?offset) = dec limit" "dropWhile is_digit (dec limit @ ?offset) = ?offset"
    using d by (subst takeWhile_append2 dropWhile_append2; simp add: is_digit_def)+
  moreover have "comma_names ?names = names" using v valid_name_excludes by (intro comma_names_of) (auto simp: list_all_iff)
  ultimately show ?thesis unfolding read_select_def sql by (simp add: Let_def digits_val_dec)
qed

definition column_kind :: "store_type \<Rightarrow> string" where
  "column_kind s = (case s of as_text \<Rightarrow> '' TEXT'' | as_real \<Rightarrow> '' REAL DEFAULT 0.00'' | as_integer \<Rightarrow> '' INTEGER DEFAULT 0'')"

lemma column_sql_kind: "column_sql k = '','' @ (key_name k @ column_kind (key_store k))"
  by (simp add: column_sql_def column_kind_def)

lemma read_column_kind: "CHR '' '' \<notin> set n \<Longrightarrow> read_column (n @ column_kind s) = (n, s)"
proof -
  assume n: "CHR '' '' \<notin> set n"
  have "takeWhile (\<lambda>c. c \<noteq> CHR '' '') (n @ column_kind s) = n" "dropWhile (\<lambda>c. c \<noteq> CHR '' '') (n @ column_kind s) = column_kind s"
    using n by (subst takeWhile_append2 dropWhile_append2; auto simp: column_kind_def split: store_type.splits)+
  then show ?thesis by (simp add: read_column_def Let_def) (simp add: column_kind_def split: store_type.splits)
qed

lemma read_create_sql:
  assumes "list_all (\<lambda>k. IsValidParamName (key_name k)) keys"
  shows "read_create (create_table_sql @ concat (map column_sql keys) @ create_end_sql) =
    Some (map (\<lambda>k. (key_name k, key_store k)) keys)"
proof -
  have kind: "CHR '','' \<notin> set (column_kind s)" "CHR 0x0A \<notin> set (column_kind s)" for s
    by (simp_all add: column_kind_def split: store_type.splits)
  let ?names = "map (\<lambda>k. key_name k @ column_kind (key_store k)) keys"
  have cols: "concat (map column_sql keys) = concat (map (\<lambda>n. '','' @ n) ?names)"
    by (induction keys) (simp_all add: column_sql_kind)
  have "CHR 0x0A \<notin> set (key_name k)" if "k \<in> set keys" for k
    using that assms valid_name_excludes(4) by (simp add: list_all_iff)
  then have "\<forall>c \<in> set (concat (map column_sql keys)). c \<noteq> CHR 0x0A"
    using kind(2) unfolding cols by auto
  then have "takeWhile (\<lambda>c. c \<noteq> CHR 0x0A) (concat (map column_sql keys) @ create_end_sql) = concat (map column_sql keys)"
    by (subst takeWhile_append2) (auto simp: create_end_sql_def NL_def)
  moreover have "comma_names (concat (map column_sql keys)) = ?names"
    unfolding cols using assms valid_name_excludes kind(1) by (intro comma_names_of) (auto simp: list_all_iff)
  moreover have "map read_column ?names = map (\<lambda>k. (key_name k, key_store k)) keys"
    using assms valid_name_excludes read_column_kind by (auto simp: list_all_iff)
  ultimately show ?thesis unfolding read_create_def by simp
qed

lemma read_delete: "read_insert delete_sql = None" "read_select delete_sql = None"
  by (simp_all add: read_insert_def insert_head_def read_select_def select_head_def delete_sql_def Let_def prefix_def)

lemma delete_differs: "insert_sql cs n \<noteq> delete_sql" "select_sql q names l s \<noteq> delete_sql"
  by (simp_all add: insert_sql_def delete_sql_def select_sql_def)

section \<open>It satisfies the contract\<close>

lemma table_statements_server: "table_statements server_sqlite"
  by (simp add: table_statements_def server_sqlite_def)

lemma server_make: "stmt_make server_sqlite sql args d = (Inr st, d') \<Longrightarrow> st = Table_stmt sql args None"
  by (rule table_statements_make [OF table_statements_server]) (simp_all add: server_sqlite_def)

lemma server_serves_rest:
  "serves server_sqlite tg rows (Table_stmt sql args (Some (row # rows))) d (tg d)"
  using table_statements_row [OF table_statements_server]
  by (induction rows arbitrary: row) (simp_all add: server_sqlite_def run_rows_def)

lemma server_serves:
  assumes "c_step server_sqlite st d = run_rows rows sql args d"
  shows "serves server_sqlite tg rows st d (tg d)"
  using assms server_serves_rest [of tg "tl rows" sql args "hd rows" d] table_statements_row [OF table_statements_server]
  by (cases rows) (simp_all add: run_rows_def)

lemma selection_take:
  assumes "smap_ok (tb_rows t)"
  shows "selection (\<lambda>_. True) limit skip t (take limit (drop skip (tb_rows t)))"
proof -
  have "distinct (map fst (tb_rows t))" using assms by (simp add: smap_ok_def strict_sorted_iff)
  then have "distinct (map fst (take limit (drop skip (tb_rows t))))" by (simp flip: take_map drop_map)
  moreover have "set (take limit (drop skip (tb_rows t))) \<subseteq> set (tb_rows t)" by (meson in_set_dropD in_set_takeD subsetI)
  ultimately show ?thesis by (simp add: selection_def min.commute)
qed

interpretation table_servers: sqlite_servers server_sqlite sdb_table sdb_guard affinity every_row "\<lambda>_. True" prepared_delete
proof unfold_locales
  show "\<exists>d'. c_set_authorizer server_sqlite a d = (SQLITE_OK, d') \<and> sdb_table d' = sdb_table d \<and> sdb_guard d' = a" for a d
    by (simp add: server_sqlite_def)
  show "affinity as_text v = v" for v by (simp add: affinity_def)
  show "every_row '''' = Some (\<lambda>_. True)" by (simp add: every_row_def)
  show "\<exists>d'. c_exec server_sqlite (create_table_sql @ concat (map column_sql keys) @ create_end_sql) d = (SQLITE_OK, d') \<and>
      sdb_table d' = Some \<lparr>tb_columns = map (\<lambda>k. (key_name k, key_store k)) keys, tb_rows = []\<rparr> \<and> sdb_guard d' = None"
    if "sdb_table d = None" "sdb_guard d = None"
      "list_all (\<lambda>k. IsValidParamName (key_name k) \<and> True \<and> length (key_name k) \<le> 1000) keys" for d and keys
    using that read_create_sql [of keys] by (simp add: server_sqlite_def server_exec_def list_all_iff)
  show "sdb_guard d' = None \<and>
      sdb_table d' = Some (if ec = SQLITE_DONE then put_server affinity (ip, port) (zip cs vs) t else t)"
    if "sdb_table d = Some t" "sdb_guard d = None" "list_all IsValidParamName cs"
      "stmt_make server_sqlite (insert_sql cs (length vs)) (Bind_text ip # Bind_int (uint port) # map Bind_text vs) d = (Inr st, d)"
      "c_step server_sqlite st d = (ec, st', d')" for d t cs vs ip port st ec st' d'
    using that server_make [OF that(4)]
    by (auto simp: server_sqlite_def server_run_def delete_differs read_insert_sql run_rows_def arg_text_def comp_def)
  show "\<exists>st rows. c_prepare server_sqlite (select_sql query names limit skip) d = (SQLITE_OK, st) \<and>
      selection f limit skip t (map snd rows) \<and>
      serves server_sqlite (\<lambda>d. (sdb_table d, sdb_guard d)) (map (row_columns names) rows) st d (sdb_table d, sdb_guard d)"
    if "sdb_table d = Some t" "smap_ok (tb_rows t)" "sdb_guard d = Some auth" "permits_select auth" "every_row query = Some f"
      "list_all IsValidParamName names" "set names \<subseteq> set (column_names t)" for d t auth query f names limit skip
  proof -
    from that(5) have q: "query = ''''" "f = (\<lambda>_. True)" by (auto simp: every_row_def split: if_splits)
    let ?sql = "select_sql query names limit skip"
    let ?rows = "map (Pair (0 :: int)) (take limit (drop skip (tb_rows t)))"
    have read: "read_select ?sql = Some (names, limit, skip)" unfolding q by (rule read_select_sql [OF that(6)])
    have "server_prepare ?sql d = 0"
      using that(1,3,4,7) read by (auto simp: server_prepare_def permits_select_def list_all_iff)
    then have "c_prepare server_sqlite ?sql d = (SQLITE_OK, Table_stmt ?sql [] None)" by (simp add: server_sqlite_def)
    moreover have "c_step server_sqlite (Table_stmt ?sql [] None) d = run_rows (map (row_columns names) ?rows) ?sql [] d"
      using that(1) read by (simp add: server_sqlite_def server_run_def delete_differs read_insert_select comp_def)
    from server_serves [OF this, of "\<lambda>d. (sdb_table d, sdb_guard d)"]
    have "serves server_sqlite (\<lambda>d. (sdb_table d, sdb_guard d)) (map (row_columns names) ?rows) (Table_stmt ?sql [] None) d
        (sdb_table d, sdb_guard d)" .
    moreover have "selection f limit skip t (map snd ?rows)"
      using selection_take [OF that(2), of limit skip] by (simp add: q comp_def)
    ultimately show ?thesis by blast
  qed
  show "prepared_delete st" if "c_prepare server_sqlite delete_sql d = (SQLITE_OK, st)" for d st
    using that by (simp add: server_sqlite_def prepared_delete_def)
  show "sdb_guard d' = None \<and> sdb_table d' = Some (if ec = SQLITE_DONE then drop_server (ip, port) t else t) \<and>
      (c_reset server_sqlite st2 = (SQLITE_OK, st3) \<longrightarrow> prepared_delete st3)"
    if "prepared_delete st" "bind_all server_sqlite 0 [Bind_text ip, Bind_int (uint port)] st = Inr st1"
      "sdb_table d = Some t" "sdb_guard d = None" "c_step server_sqlite st1 d = (ec, st2, d')"
    for st ip port st1 d t ec st2 d' st3
  proof -
    have "st1 = Table_stmt delete_sql [Bind_text ip, Bind_int (uint port)] None"
      using table_statements_bind [OF table_statements_server, of "[]" "[Bind_text ip, Bind_int (uint port)]" delete_sql st1] that(1,2)
      unfolding prepared_delete_def by (simp del: bind_all.simps)
    with that(3-5) show ?thesis
      by (auto simp: server_sqlite_def server_run_def run_rows_def prepared_delete_def)
  qed
qed

text \<open>This library answers every query of a table.\<close>

lemma server_fetch_returns:
  "c_step server_sqlite st d = run_rows found sql args d \<Longrightarrow> length found < n \<Longrightarrow> \<exists>x. fetch_rows server_sqlite names n st d = (Inr x, d)"
proof (induction found arbitrary: st n)
  case Nil
  then obtain m where "n = Suc m" by (cases n) auto
  with Nil show ?case by (simp add: run_rows_def stmt_query_def bind_io_def ret_def)
next
  case (Cons row found)
  then obtain m where n: "n = Suc m" "length found < m" by (cases n) auto
  have "c_step server_sqlite (Table_stmt sql args (Some (row # found))) d = run_rows found sql args d"
    by (simp add: server_sqlite_def)
  from Cons.IH [OF this n(2)] Cons.prems(1) show ?case
    by (auto simp: n run_rows_def stmt_query_def bind_io_def ret_def)
qed

lemma server_get_returns:
  assumes g: "game_table sdb_table sdb_guard n g t" and names: "set names \<subseteq> set (column_names t)"
    and len: "length (select_sql '''' names limit skip) \<le> 1000000"
  shows "\<exists>found. fst (GetServers server_sqlite '''' names limit skip g) = Inr found"
proof -
  let ?sql = "select_sql '''' names limit skip" and ?auth = "c_callback retrieve_authorizer"
  let ?d = "m_DB g\<lparr>sdb_guard := Some ?auth\<rparr>"
  let ?rows = "map (row_columns names \<circ> Pair 0) (take limit (drop skip (tb_rows t)))"
  have d: "sdb_table (m_DB g) = Some t" using g by (simp add: game_table_def)
  have read: "read_select ?sql = Some (names, limit, skip)" by (rule read_select_sql [OF registered_valid [OF g names]])
  have "server_prepare ?sql ?d = 0"
    using d names read permits_retrieve by (auto simp: server_prepare_def permits_select_def list_all_iff)
  then have prep: "stmt_prepare server_sqlite ?sql ?d = (Inr (Table_stmt ?sql [] None), ?d)"
    using len by (simp add: stmt_prepare_def int_max_def) (simp add: server_sqlite_def)
  have "c_step server_sqlite (Table_stmt ?sql [] None) ?d = run_rows ?rows ?sql [] ?d"
    using d read by (simp add: server_sqlite_def server_run_def delete_differs read_insert_select)
  moreover have "length ?rows < limit + 1" by simp
  ultimately obtain x where "fetch_rows server_sqlite names (limit + 1) (Table_stmt ?sql [] None) ?d = (Inr x, ?d)"
    using server_fetch_returns by blast
  moreover have "set_authorizer server_sqlite a d = (Inr (), d\<lparr>sdb_guard := map_option c_callback a\<rparr>)" for a d
    by (simp add: set_authorizer_def server_sqlite_def)
  ultimately show ?thesis
    using prep by (simp add: GetServers_def on_db_def zoom_def scoped_authorizer_def then_io_def bind_io_def)
qed

lemma server_bind_all:
  assumes "length acc + length args \<le> int_max" and "list_all (\<lambda>a. length (arg_text a) \<le> int_max) args"
  shows "bind_all server_sqlite (length acc) args (Table_stmt sql acc None) = Inr (Table_stmt sql (acc @ args) None)"
  using assms
proof (induction args arbitrary: acc)
  case (Cons arg args)
  have "bind_at server_sqlite (length acc + 1) arg (Table_stmt sql acc None) = Inr (Table_stmt sql (acc @ [arg]) None)"
    using Cons.prems by (cases arg) (simp_all add: bind_at_def server_sqlite_def arg_text_def)
  with Cons.prems Cons.IH [of "acc @ [arg]"] show ?case by (simp add: and_then_def)
qed simp

lemma server_add_returns:
  assumes d: "sdb_table (m_DB g) = Some t" and server: "public_ip server \<noteq> []" "public_port server \<noteq> 0"
    and columns: "collect_columns g (sv_data server) = Inr (cs, [], vs)" "list_all IsValidParamName cs"
    and bounds: "length (insert_sql cs (length vs)) \<le> int_max" "length vs + 2 \<le> int_max"
      "list_all (\<lambda>v. length v \<le> int_max) (public_ip server # vs)"
  shows "fst (AddOrUpdateServer server_sqlite server g) = Inr ()"
proof -
  let ?sql = "insert_sql cs (length vs)" and ?args = "insert_args server vs"
  have "read_select ?sql = None" by (simp add: read_select_def select_head_def insert_sql_def Let_def prefix_def)
  then have "stmt_prepare server_sqlite ?sql (m_DB g) = (Inr (Table_stmt ?sql [] None), m_DB g)"
    using d bounds(1) columns(2) by (simp add: stmt_prepare_def read_insert_sql) (simp add: server_sqlite_def server_prepare_def read_insert_sql)
  moreover have "bind_all server_sqlite 0 ?args (Table_stmt ?sql [] None) = Inr (Table_stmt ?sql ?args None)"
    using server_bind_all [of "[]" ?args ?sql] bounds(2,3)
    by (simp add: insert_args_def arg_text_def list_all_iff del: bind_all.simps)
  moreover have "\<exists>d'. stmt_insert server_sqlite (Table_stmt ?sql ?args None) (m_DB g) = (Inr (Table_stmt ?sql ?args (Some [])), d')"
    using d columns(2) by (simp add: stmt_insert_def server_sqlite_def server_run_def delete_differs read_insert_sql run_rows_def insert_args_def)
  ultimately show ?thesis
    using server columns(1)
    by (auto simp: AddOrUpdateServer_def bind_io_def then_io_def add_missing_columns_def ret_def on_db_def zoom_def lift_exn_def
        modify_def simp del: bind_all.simps)
qed

lemma server_remove_returns:
  assumes d: "sdb_table (m_DB g) = Some t" and ip: "length ip \<le> int_max"
  shows "\<exists>g'. RemoveServers server_sqlite [(ip, port)] g = (Inr (), g')"
proof -
  let ?args = "[Bind_text ip, Bind_int (uint port)]"
  have "\<not> int_max < length delete_sql" by (simp add: delete_sql_def int_max_def)
  then have "stmt_prepare server_sqlite delete_sql (m_DB g) = (Inr (Table_stmt delete_sql [] None), m_DB g)"
    using d by (simp add: stmt_prepare_def) (simp add: server_sqlite_def server_prepare_def read_delete)
  moreover have "bind_all server_sqlite 0 ?args (Table_stmt delete_sql [] None) = Inr (Table_stmt delete_sql ?args None)"
    using server_bind_all [of "[]" ?args delete_sql] ip by (simp add: arg_text_def int_max_def del: bind_all.simps)
  moreover have "c_step server_sqlite (Table_stmt delete_sql ?args None) (m_DB g) =
      (101, Table_stmt delete_sql ?args (Some []), (m_DB g)\<lparr>sdb_table := Some (drop_server (ip, port) t)\<rparr>)"
    using d by (simp add: server_sqlite_def server_run_def run_rows_def)
  moreover have "c_reset server_sqlite (Table_stmt delete_sql ?args (Some [])) = (0, Table_stmt delete_sql [] None)"
    by (simp add: server_sqlite_def)
  ultimately show ?thesis
    by (simp add: RemoveServers_def bind_io_def on_db_def zoom_def lift_exn_def stmt_update_def stmt_insert_def stmt_reset_def then_io_def
        modify_def ret_def del: bind_all.simps)
qed

section \<open>Properties\<close>


definition home_game :: "server_db game" where
  "home_game = \<lparr>
     m_DB = \<lparr>sdb_table = Some \<lparr>tb_columns = [(''hostname'', as_text)], tb_rows = []\<rparr>, sdb_guard = None\<rparr>,
     m_Data = gmtest_data\<lparr>gd_keys := [default_key ''hostname'']\<rparr>, m_Params = [(''hostname'', 0)], m_PopularValues = [], fired = []\<rparr>"

lemma home_table: "game_table sdb_table sdb_guard ''gmtest'' home_game \<lparr>tb_columns = [(''hostname'', as_text)], tb_rows = []\<rparr>"
proof -
  have "IsValidParamName ''hostname''" by code_simp
  then have "game_ok ''gmtest'' home_game"
    by (auto simp: game_ok_def home_game_def gmtest_data_def smap_ok_def default_key_def split: if_splits)
  moreover have "smap_contains [(''hostname'', 0 :: nat)] c \<longleftrightarrow> c = ''hostname''" for c
    by (simp add: smap_contains_def)
  ultimately show ?thesis by (simp add: game_table_def home_game_def column_names_def smap_ok_def)
qed

lemma home_add:
  assumes "public_ip server \<noteq> []" "public_port server \<noteq> 0" "length (public_ip server) \<le> 100"
    and "filter (\<lambda>(k, v). k = ''hostname'') (sv_data server) = [(''hostname'', ''Home'')]"
  shows "fst (AddOrUpdateServer server_sqlite server home_game) = Inr ()"
proof (rule server_add_returns)
  have "\<exists>cs. collect_columns home_game kvs = Inr (map fst (filter (\<lambda>(k, v). k = ''hostname'') kvs), [],
      map snd (filter (\<lambda>(k, v). k = ''hostname'') kvs))" for kvs
    by (induction kvs) (auto simp: home_game_def gmtest_data_def smap_contains_def and_then_def)
  with assms(4) show "collect_columns home_game (sv_data server) = Inr ([''hostname''], [], [''Home''])" by simp
  have "IsValidParamName ''hostname''" by code_simp
  then show "list_all IsValidParamName [''hostname'']" by simp
qed (use assms in \<open>simp_all add: home_game_def insert_sql_def int_max_def\<close>)


end
