(* ===== verification/Game_Service.thy ===== *)
theory Game_Service
  imports Master_Server Browser_Client Server_Library
begin

text \<open>
  The composition of the master server, the games and the browser connections over one directory of games and its SQLite tables:
  a game server that knows the secret key announces itself, answers the challenge, and is then read
  by every client that asks for the list.
\<close>

section \<open>Rows on the wire\<close>

lemma c_string_NUL: "NUL \<notin> set (c_string s)"
  by (auto simp: c_string_def dest: set_takeWhileD)

lemma c_string_id: "NUL \<notin> set s \<Longrightarrow> c_string s = s"
  by (auto simp: c_string_def takeWhile_eq_all_conv)

text \<open>A value that the send type of its field can carry.\<close>

definition number_fits :: "nat \<Rightarrow> string \<Rightarrow> bool" where
  "number_fits bits v \<longleftrightarrow> v = [] \<or> list_all is_digit v \<and> digits_val v < 2 ^ bits"

definition field_fits :: "'d game \<Rightarrow> string \<Rightarrow> string \<Rightarrow> bool" where
  "field_fits g f v = (case GetParamSendType g f of
     as_string \<Rightarrow> True | as_byte \<Rightarrow> number_fits 8 v | as_short \<Rightarrow> number_fits 16 v)"

definition row_fits :: "'d game \<Rightarrow> string list \<Rightarrow> server_row \<Rightarrow> bool" where
  "row_fits g names row \<longleftrightarrow> list_all (\<lambda>f. field_fits g f (c_string (snd row f))) names"

definition read_field :: "'d game \<Rightarrow> string \<Rightarrow> string \<Rightarrow> field_value" where
  "read_field g f v = (if GetParamSendType g f = as_string then Text_value v else Number_value (digits_val v))"

lemma number_fits_value: "number_fits bits v \<Longrightarrow> v \<noteq> [] \<Longrightarrow> number_value bits msg v = Inr (digits_val v)"
  by (simp add: number_fits_def number_value_Inr)

lemma value_bytes_fits:
  assumes "field_fits g k (stored_value data k)"
  shows "\<exists>bs. value_bytes g data usePopularList k = Inr bs"
proof (cases "GetParamSendType g k")
  case as_string
  then show ?thesis by (auto simp: value_bytes_def Let_def split: option.split)
next
  case as_byte
  with assms number_fits_value show ?thesis
    by (cases "stored_value data k = []")
      (auto simp: value_bytes_def Let_def field_fits_def and_then_def simp flip: stored_value_def)
next
  case as_short
  with assms number_fits_value show ?thesis
    by (cases "stored_value data k = []")
      (auto simp: value_bytes_def Let_def field_fits_def and_then_def simp flip: stored_value_def)
qed

lemma values_bytes_fit:
  "list_all (\<lambda>k. field_fits g k (stored_value data k)) ks \<Longrightarrow> \<exists>bs. values_bytes g data usePopularList ks = Inr bs"
proof (induction ks)
  case (Cons k ks)
  then obtain b1 b2 where "value_bytes g data usePopularList k = Inr b1" "values_bytes g data usePopularList ks = Inr b2"
    using value_bytes_fits [of g k data usePopularList] by auto
  then show ?case by (simp add: and_then_def)
qed simp

lemma listed_value: "f \<in> set names \<Longrightarrow> smap_find (sv_data (listed_server names (time, ep, vs))) f = Some (c_string (vs f))"
  by (cases ep) (simp add: map_of_map_restrict restrict_map_def)

lemma listed_stored: "f \<in> set names \<Longrightarrow> stored_value (sv_data (listed_server names (time, ep, vs))) f = c_string (vs f)"
  by (simp add: stored_value_def listed_value del: listed_server.simps)

lemma listed_nonempty: "names \<noteq> [] \<Longrightarrow> sv_data (listed_server names r) \<noteq> []"
proof -
  assume "names \<noteq> []"
  then have "smap_find (sv_data (listed_server names r)) (hd names) \<noteq> None"
    by (cases r) (auto simp: listed_value simp del: listed_server.simps)
  then show ?thesis by auto
qed

lemma listed_bytes:
  assumes "make_address (c_string (fst (fst row))) = Inr a" and "row_fits g names row"
  shows "\<exists>bs. GetServerBytes make_address g (listed_server names (time, row)) names True = Inr bs"
proof -
  obtain ip port vs where row: "row = ((ip, port), vs)" by (metis surj_pair)
  let ?s = "listed_server names (time, row)"
  have "list_all (\<lambda>k. field_fits g k (stored_value (sv_data ?s) k)) names"
    using assms(2) unfolding row row_fits_def list_all_iff by (simp add: listed_stored del: listed_server.simps)
  then obtain bs where "values_bytes g (sv_data ?s) True names = Inr bs" using values_bytes_fit by blast
  with assms(1) show ?thesis
    by (simp add: GetServerBytes_def PrepareServer_def row optional_ip_def and_then_def Let_def split: prod.splits)
qed

lemma listed_meaning:
  assumes "make_address (c_string ip) = Inr a"
  shows "re_ip (entry_meaning make_address g (listed_server names (time, (ip, port), vs)) names) = a \<and>
    re_port (entry_meaning make_address g (listed_server names (time, (ip, port), vs)) names) = port \<and>
    re_values (entry_meaning make_address g (listed_server names (time, (ip, port), vs)) names) =
      map (\<lambda>f. read_field g f (c_string (vs f))) names"
proof -
  have "field_meaning g (sv_data (listed_server names (time, (ip, port), vs))) f = read_field g f (c_string (vs f))"
    if "f \<in> set names" for f
    using listed_value [OF that, of time "(ip, port)" vs]
    by (simp add: field_meaning_def read_field_def Let_def del: listed_server.simps)
  with assms show ?thesis by (simp add: entry_meaning_def Let_def)
qed

text \<open>A limit that is no smaller than the table leaves every row.\<close>

lemma selection_all:
  assumes "selection (\<lambda>_. True) limit 0 t found" and "length (tb_rows t) \<le> limit" and "smap_ok (tb_rows t)"
  shows "set found = set (tb_rows t) \<and> length found = length (tb_rows t)"
proof -
  have s: "distinct (map fst found)" "set found \<subseteq> set (tb_rows t)" "length found = length (tb_rows t)"
    using assms(1,2) by (auto simp: selection_def)
  have "distinct found" using s(1) by (simp add: distinct_map)
  moreover have "distinct (tb_rows t)" using assms(3) by (simp add: smap_ok_def strict_sorted_iff distinct_map)
  ultimately have "card (set found) = card (set (tb_rows t))" using s(3) by (simp add: distinct_card)
  with s(2,3) show ?thesis by (simp add: card_subset_eq)
qed

section \<open>Virtual calls\<close>

text \<open>A game whose queries ask no second database.\<close>

definition plain_game :: "'d any_game \<Rightarrow> bool" where
  "plain_game ob = (case ob of Base_game _ \<Rightarrow> True | Bf2_game _ m \<Rightarrow> \<not> mysql_configured m)"

lemma virtual_add:
  "game_AddOrUpdateServer api server ob = (r, ob') \<Longrightarrow>
   AddOrUpdateServer api server (as_game ob) = (r, as_game ob') \<and> plain_game ob' = plain_game ob"
  by (cases ob) (auto simp: game_AddOrUpdateServer_def on_game_def zoom_def bf2_AddOrUpdateServer_def plain_game_def split: prod.splits)

lemma repair_empty: "repair_query '''' = ''''"
  by (simp add: repair_query_def escape_hostname_def insert_missing_and_def hostnameQuery_def)

lemma virtual_get:
  "plain_game ob \<Longrightarrow> game_GetServers api '''' names limit skip ob = (r, ob') \<Longrightarrow>
   GetServers api '''' names limit skip (as_game ob) = (r, as_game ob')"
  by (cases ob) (auto simp: game_GetServers_def on_game_def zoom_def plain_game_def bf2_GetServers_def when_configured_def
      repair_empty bind_io_def ret_def split: prod.splits sum.splits)

lemma GetGame_has: "GetGame db n = Inr ob \<Longrightarrow> HasGame db n"
  using gdb.get_missing by fastforce

lemma valid_name_NUL: "IsValidParamName f \<Longrightarrow> NUL \<notin> set f"
proof -
  have "\<not> is_alnum NUL \<and> NUL \<noteq> CHR ''_''" by (simp add: is_alnum_def is_alpha_def is_digit_def less_eq_char_def)
  then show "IsValidParamName f \<Longrightarrow> NUL \<notin> set f" using valid_name_chars by blast
qed

section \<open>Storing and listing\<close>

text \<open>What an update through the directory makes of the game and its table.\<close>

lemma update_stores:
  assumes S: "sqlite_servers api table guard stored clause usable deleter"
    and db: "games_ok db" "GetGame db n = Inr ob" and g: "game_table table guard n (as_game ob) t"
    and policy: "gd_missingKeyPolicy (m_Data (as_game ob)) = ignore_missing" and data: "smap_ok (sv_data server)"
    and run: "gdb.call n (game_AddOrUpdateServer api server) db = (Inr (), db')"
  shows "\<exists>ob'. GetGame db' n = Inr ob' \<and> plain_game ob' = plain_game ob \<and> m_Data (as_game ob') = m_Data (as_game ob) \<and>
    m_PopularValues (as_game ob') = m_PopularValues (as_game ob) \<and> m_Params (as_game ob') = m_Params (as_game ob) \<and>
    game_table table guard n (as_game ob') (put_server stored (public_ip server, public_port server) (sv_data server) t)"
proof -
  obtain ob' where ob': "game_AddOrUpdateServer api server ob = (Inr (), ob')" "db' = put_game n ob' db"
    using run db(2) by (auto simp: gdb.call_def split: prod.splits)
  note add = virtual_add [OF ob'(1)]
  have "GetGame db' n = Inr ob'" unfolding ob'(2) using gdb.put_get [OF db(1) GetGame_has [OF db(2)]] by simp
  moreover from sqlite_servers.add_puts [OF S g disjI1 [OF policy] data, of "Inr ()" "as_game ob'"] add
  have "game_table table guard n (as_game ob') (put_server stored (public_ip server, public_port server) (sv_data server) t)" by simp
  moreover have "m_Data (as_game ob') = m_Data (as_game ob) \<and> m_Params (as_game ob') = m_Params (as_game ob) \<and>
      m_PopularValues (as_game ob') = m_PopularValues (as_game ob)"
    using add policy by (intro update_keeps_keys) auto
  ultimately show ?thesis using add by blast
qed

text \<open>A request for the whole list of a game, without a filter and without the options that leave the list out.\<close>

definition plain_request :: "string \<Rightarrow> server_list_request \<Rightarrow> bool" where
  "plain_request n request \<longleftrightarrow> toGame request = n \<and> serverFilter request = '''' \<and> fieldList request \<noteq> [] \<and>
     \<not> has_option (sb_options request) no_server_list \<and> \<not> has_option (sb_options request) send_groups \<and>
     length (sb_challenge request) = 8"

text \<open>A new connection with the random texts of their lengths, over a socket that sends.\<close>

definition fresh_browser :: "('d, 's) br_env \<Rightarrow> 'd browser \<Rightarrow> bool" where
  "fresh_browser env b \<longleftrightarrow> m_Cypher b = None \<and> br_sent b = [] \<and> length (br_cryptKey env) = 8 \<and>
     length (br_serverChallenge env) = 25 \<and> (\<forall>bs. br_send env bs = Inr ())"

text \<open>A game whose rows can all be written for a list of fields, within the limit of the request.\<close>

definition listable :: "('d, 's) br_env \<Rightarrow> 'd game \<Rightarrow> server_list_request \<Rightarrow> server_table \<Rightarrow> bool" where
  "listable env g request t \<longleftrightarrow> gd_queryPort (m_Data g) \<noteq> 0xFFFF \<and> m_PopularValues g = [] \<and>
     set (fieldList request) \<subseteq> set (column_names t) \<and> length (fieldList request) < 256 \<and>
     length (select_sql '''' (fieldList request) (list_limit request) 0) \<le> 1000000 \<and>
     length (tb_rows t) \<le> list_limit request \<and>
     list_all (\<lambda>row. \<not> isl (br_make_address env (c_string (fst (fst row)))) \<and> row_fits g (fieldList request) row) (tb_rows t)"

text \<open>What a client reads of a row: its address, its port and its values.\<close>

definition row_read :: "('d, 's) br_env \<Rightarrow> 'd game \<Rightarrow> string list \<Rightarrow> server_row \<Rightarrow> u32 \<times> u16 \<times> field_value list" where
  "row_read env g names row =
     (projr (br_make_address env (c_string (fst (fst row)))), snd (fst row), map (\<lambda>f. read_field g f (c_string (snd row f))) names)"

definition entry_read :: "read_entry \<Rightarrow> u32 \<times> u16 \<times> field_value list" where
  "entry_read e = (re_ip e, re_port e, re_values e)"

lemma entry_read_listed:
  assumes "\<not> isl (br_make_address env (c_string (fst (fst row))))"
  shows "entry_read (entry_meaning (br_make_address env) g (listed_server names (time, row)) names) = row_read env g names row"
proof -
  obtain ip port vs where row: "row = ((ip, port), vs)" by (metis surj_pair)
  from assms obtain a where "br_make_address env (c_string ip) = Inr a" unfolding row by (cases "br_make_address env (c_string ip)") auto
  from listed_meaning [where make_address = "br_make_address env", OF this] this show ?thesis by (simp add: entry_read_def row_read_def row del: listed_server.simps)
qed

lemma list_shows_table:
  assumes S: "sqlite_servers api table guard stored clause usable deleter" and api: "br_api env = api"
    and game: "GetGame (br_games b) n = Inr ob" "plain_game ob" "game_table table guard n (as_game ob) t"
    and b: "fresh_browser env b" and request: "sb_parse payload = Inr request" "plain_request n request"
    and t: "listable env (as_game ob) request t"
    and answered: "fst (gdb.call n (game_GetServers api '''' (fieldList request) (list_limit request) 0) (br_games b)) = Inr found"
  shows "\<exists>b' hdr entries. HandleServerListRequest env payload b = (Inr (), b') \<and>
    client_view (gd_secretKey (m_Data (as_game ob))) (sb_challenge request) (Suc (length (tb_rows t))) (concat (br_sent b')) =
      Some (hdr, entries) \<and>
    length entries = length (tb_rows t) \<and>
    entry_read ` set entries = row_read env (as_game ob) (fieldList request) ` set (tb_rows t)"
proof -
  let ?names = "fieldList request" and ?g = "as_game ob"
  note req = request(2) [unfolded plain_request_def] and new = b [unfolded fresh_browser_def] and l = t [unfolded listable_def]
  obtain r ob' where call: "game_GetServers api '''' ?names (list_limit request) 0 ob = (r, ob')" by fastforce
  with answered game(1) have r: "r = Inr found" by (auto simp: gdb.call_def split: prod.splits)
  from sqlite_servers.get_selects [OF S game(3) sqlite_servers.all_rows [OF S] _ _ _ virtual_get [OF game(2) call]] l r
  obtain sel where sel: "found = Some (map (listed_server ?names) sel)" "selection (\<lambda>_. True) (list_limit request) 0 t (map snd sel)"
    by auto
  let ?ss = "map (listed_server ?names) sel"
  have rows: "set (map snd sel) = set (tb_rows t)" "length sel = length (tb_rows t)"
    using selection_all [OF sel(2)] l game(3) by (simp_all add: game_table_def)
  have good: "\<not> isl (br_make_address env (c_string (fst (fst row))))" "row_fits ?g ?names row" if "row \<in> snd ` set sel" for row
    using l that rows(1) by (simp_all add: list_all_iff)
  have bytes: "list_all (\<lambda>s. \<exists>bs. GetServerBytes (br_make_address env) ?g s ?names True = Inr bs) ?ss"
    unfolding list_all_iff
  proof
    fix s assume "s \<in> set ?ss"
    then obtain time row where s: "s = listed_server ?names (time, row)" "row \<in> snd ` set sel" by force
    from good [OF s(2)] obtain a where "br_make_address env (c_string (fst (fst row))) = Inr a" by (cases "br_make_address env (c_string (fst (fst row)))") auto
    from listed_bytes [where make_address = "br_make_address env", OF this good(2) [OF s(2)]] show "\<exists>bs. GetServerBytes (br_make_address env) ?g s ?names True = Inr bs"
      unfolding s(1) .
  qed
  have shape: "(sv_data s \<noteq> [] \<or> ?names = []) \<and> list_all (\<lambda>k. NUL \<notin> set (stored_value (sv_data s) k)) ?names \<and> NUL \<notin> set (rules s)"
    if s: "s \<in> set ?ss" for s
  proof -
    from s obtain time ep vs where s: "s = listed_server ?names (time, ep, vs)" by force
    have "list_all (\<lambda>k. NUL \<notin> set (stored_value (sv_data s) k)) ?names"
      by (simp add: list_all_iff s listed_stored c_string_NUL del: listed_server.simps)
    moreover have "rules s = ''''" by (cases ep) (simp add: s)
    ultimately show ?thesis using req listed_nonempty by (simp add: s del: listed_server.simps)
  qed
  have valid: "list_all (\<lambda>f. NUL \<notin> set f) ?names"
    using registered_valid [OF game(3)] l valid_name_NUL by (auto simp: list_all_iff)
  obtain db' where db': "gdb.call n (game_GetServers api '''' ?names (list_limit request) 0) (br_games b) = (Inr (Some ?ss), db')"
    using answered sel(1) by (metis prod.collapse)
  have "\<exists>b'. HandleServerListRequest env payload b = (Inr (), b') \<and>
    client_view (gd_secretKey (m_Data ?g)) (sb_challenge request) (Suc (length ?ss)) (concat (br_sent b')) =
      Some (\<lparr>rh_ip = br_peer env, rh_port = gd_queryPort (m_Data ?g),
              rh_fields = map (\<lambda>f. (send_code (GetParamSendType ?g f), f)) ?names, rh_popular = []\<rparr>,
            map (\<lambda>s. entry_meaning (br_make_address env) ?g s ?names) ?ss)"
    by (rule list_request_read [OF request(1)]) (use req new l game GetGame_has api db' bytes shape valid in auto)
  then obtain b' hdr where run: "HandleServerListRequest env payload b = (Inr (), b')"
    "client_view (gd_secretKey (m_Data ?g)) (sb_challenge request) (Suc (length (tb_rows t))) (concat (br_sent b')) =
      Some (hdr, map (\<lambda>s. entry_meaning (br_make_address env) ?g s ?names) ?ss)" using rows(2) by auto
  have "entry_read ` set (map (\<lambda>s. entry_meaning (br_make_address env) ?g s ?names) ?ss) = row_read env ?g ?names ` (snd ` set sel)"
    using good(1) by (force simp: image_image entry_read_listed simp del: listed_server.simps intro!: image_cong)
  with run rows show ?thesis by auto
qed

section \<open>From the announcement to the list\<close>

lemma heartbeat_parse_wire:
  assumes "list_all (\<lambda>(k, v). wire_cell k \<and> no_nul v) kvs"
  shows "\<exists>hb. heartbeat_parse \<lparr>type_of_packet = heartbeat, instance_key = inst, qr_data = qr_map_wire kvs\<rparr> = Inr hb \<and>
    serverData hb = smap_of_list kvs"
  using qr_map_parse_wire [OF assms, of "[]"] by (simp add: heartbeat_parse_def qr_table_parse_def)

lemma row_values_of_list: "row_values stored t (smap_of_list kvs) = row_values stored t kvs"
  using smap_find_of_list [of kvs] by (intro ext) (simp add: row_values_def smap_find_def cong: option.case_cong)

text \<open>The first datagram of an unknown end point, from the wire to the state.\<close>

lemma announcement:
  fixes env :: "('d, 's) ms_env" and kvs :: "(string \<times> string) list" and inst :: bytes
  defines "datagram \<equiv> qr_type_code heartbeat # inst @ qr_map_wire kvs"
  assumes codec: "base64_codec (ms_enc env) dec64"
    and m: "ms_accepting m" "smap_find (m_Validated m) client = None" "smap_find (m_AwaitingValidation m) client = None"
      "smap_ok (m_AwaitingValidation m)"
    and sends: "\<And>c bs. ms_send env c bs = Inr ()"
    and game: "GetGame (ms_games m) n = Inr ob" "gd_backend (m_Data (as_game ob)) < 256" "gd_secretKey (m_Data (as_game ob)) \<noteq> []"
    and wire: "list_all (\<lambda>(k, v). wire_cell k \<and> no_nul v) kvs" "map_of kvs ''gamename'' = Some n" "length inst = 4"
      "length datagram \<le> receive_size"
    and rnd: "length rnd = 7"
  shows "\<exists>answer m1. encode (ms_enc env) (gd_secretKey (m_Data (as_game ob)))
        (response_data rnd (gd_backend (m_Data (as_game ob))) client) = Some answer \<and>
    length answer = 28 \<and> set answer \<subseteq> set base64_alphabet \<and>
    exec_io (AcceptOne env now rnd client datagram) m = m1 \<and>
    ms_sent m1 = ms_sent m @ [(client, challenge_packet inst (response_data rnd (gd_backend (m_Data (as_game ob))) client))] \<and>
    ms_games m1 = ms_games m \<and> ms_accepting m1 \<and> m_Validated m1 = m_Validated m \<and>
    smap_find (m_AwaitingValidation m1) client = Some \<lparr>srv_last_update = now, proof_text = answer, srv_instance = inst,
      gamename = n, srv_values = smap_of_list kvs\<rparr>"
proof -
  let ?p = "\<lparr>type_of_packet = heartbeat, instance_key = inst, qr_data = qr_map_wire kvs\<rparr>"
  let ?m = "m\<lparr>ms_buff := datagram @ drop (length datagram) (ms_buff m)\<rparr>"
  obtain hb where hb: "heartbeat_parse ?p = Inr hb" "serverData hb = smap_of_list kvs" using heartbeat_parse_wire [OF wire(1)] by blast
  have parse: "qr_parse datagram = Inr ?p"
    unfolding datagram_def using wire(3) by (subst qr_parse_Inr) (auto simp: qr_map_wire_def)
  have eq: "AcceptOne env now rnd client datagram m = try_log (HandleHeartbeat env now rnd client ?p) ?m"
    using m(1) wire(4) by (subst AcceptOne_dispatch) (auto simp: datagram_def dispatch_def parse [unfolded datagram_def])
  from heartbeat_issues_challenge [OF hb(1), of n ?m ob client env dec64 rnd now] obtain pr where pr:
    "encode (ms_enc env) (gd_secretKey (m_Data (as_game ob))) (response_data rnd (gd_backend (m_Data (as_game ob))) client) = Some pr"
    "length pr = 28" "set pr \<subseteq> set base64_alphabet"
    "HandleHeartbeat env now rnd client ?p ?m = (Inr (), ?m\<lparr>
      m_AwaitingValidation := smap_emplace client \<lparr>srv_last_update = now, proof_text = pr,
        srv_instance = inst, gamename = n, srv_values = smap_of_list kvs\<rparr> (m_AwaitingValidation ?m),
      ms_sent := ms_sent ?m @ [(client, challenge_packet inst (response_data rnd (gd_backend (m_Data (as_game ob))) client))]\<rparr>)"
    using hb(2) wire(2) codec m game GetGame_has [OF game(1)] sends rnd by auto
  let ?m1 = "?m\<lparr>
      m_AwaitingValidation := smap_emplace client \<lparr>srv_last_update = now, proof_text = pr,
        srv_instance = inst, gamename = n, srv_values = smap_of_list kvs\<rparr> (m_AwaitingValidation ?m),
      ms_sent := ms_sent ?m @ [(client, challenge_packet inst (response_data rnd (gd_backend (m_Data (as_game ob))) client))]\<rparr>"
  have "exec_io (AcceptOne env now rnd client datagram) m = ?m1"
    unfolding exec_io_def eq try_log_def by (simp add: pr(4))
  moreover have "smap_find (m_AwaitingValidation ?m1) client = Some \<lparr>srv_last_update = now, proof_text = pr, srv_instance = inst,
      gamename = n, srv_values = smap_of_list kvs\<rparr>"
    using m(3,4) by (simp add: smap.lookup_emplace)
  ultimately show ?thesis using pr(1-3) m(1) by (intro exI [of _ pr] exI [of _ ?m1]) simp
qed

lemma challenge_packet_inj: "challenge_packet inst a = challenge_packet inst b \<Longrightarrow> a = b"
proof -
  assume "challenge_packet inst a = challenge_packet inst b"
  then have "bytes_of a = bytes_of b" by (simp add: challenge_packet_def)
  then have "string_of (bytes_of a) = string_of (bytes_of b)" by (rule arg_cong)
  then show "a = b" by (simp only: string_of_bytes_of)
qed

lemma alphabet_NUL: "NUL \<notin> set base64_alphabet"
  by (simp add: base64_alphabet_def)

text \<open>The two datagrams of a server that knows the key: it is validated, and its values are handed to the game.\<close>

lemma proven_server:
  assumes codec: "base64_codec (ms_enc env) dec64"
    and m: "master_ok m" "ms_accepting m" "\<not> smap_contains (m_Validated m) client" "\<not> smap_contains (m_AwaitingValidation m) client"
    and sends: "\<forall>c bs. ms_send env c bs = Inr ()"
    and game: "GetGame (ms_games m) n = Inr ob" "gd_backend (m_Data (as_game ob)) < 256"
    and wire: "list_all (\<lambda>(k, v). wire_cell k \<and> no_nul v) kvs" "map_of kvs ''gamename'' = Some n" "length inst = 4"
      "length (qr_type_code heartbeat # inst @ qr_map_wire kvs) \<le> receive_size"
    and rnd: "length rnd = 7"
    and m1: "m1 = exec_io (AcceptOne env now rnd client (qr_type_code heartbeat # inst @ qr_map_wire kvs)) m"
    and answer: "last (ms_sent m1) = (client, challenge_packet inst responseData)"
      "encode (ms_enc env) (gd_secretKey (m_Data (as_game ob))) responseData = Some answer"
    and m2: "m2 = exec_io (AcceptOne env now' rnd' client (qr_type_code challenge # inst @ bytes_of answer @ [0])) m1"
    and added: "fst (gdb.call n (game_AddOrUpdateServer (ms_api env) (incoming_server env client now (smap_of_list kvs))) (ms_games m)) = Inr ()"
  shows "smap_contains (m_Validated m2) client \<and>
    ms_games m2 = snd (gdb.call n (game_AddOrUpdateServer (ms_api env) (incoming_server env client now (smap_of_list kvs))) (ms_games m))"
proof -
  let ?srv = "\<lparr>srv_last_update = now, proof_text = answer, srv_instance = inst, gamename = n, srv_values = smap_of_list kvs\<rparr>"
  let ?rd = "response_data rnd (gd_backend (m_Data (as_game ob))) client"
  have ok: "games_ok (ms_games m)" "smap_ok (m_AwaitingValidation m)" "smap_ok (m_Validated m)"
    using m(1) by (simp_all add: master_ok_def servers_named_def)
  have key: "gd_secretKey (m_Data (as_game ob)) \<noteq> []"
    using gdb.get_sound [OF ok(1) game(1)] by (simp add: any_game_ok_def game_ok_def)
  have none: "smap_find (m_Validated m) client = None" "smap_find (m_AwaitingValidation m) client = None"
    using m(3,4) by (simp_all add: smap_contains_def)
  from announcement [OF codec m(2) none ok(2) sends [rule_format] game key wire rnd, of now, folded m1] obtain pr where pr:
    "encode (ms_enc env) (gd_secretKey (m_Data (as_game ob))) ?rd = Some pr" "length pr = 28" "set pr \<subseteq> set base64_alphabet"
    "ms_sent m1 = ms_sent m @ [(client, challenge_packet inst ?rd)]" "ms_games m1 = ms_games m" "ms_accepting m1"
    "m_Validated m1 = m_Validated m" "smap_find (m_AwaitingValidation m1) client =
      Some \<lparr>srv_last_update = now, proof_text = pr, srv_instance = inst, gamename = n, srv_values = smap_of_list kvs\<rparr>"
    by blast
  have "responseData = ?rd" using pr(4) answer(1) by (auto dest!: challenge_packet_inj)
  with pr(1) answer(2) have "pr = answer" by simp
  with pr have s1: "length answer = 28" "set answer \<subseteq> set base64_alphabet" "ms_games m1 = ms_games m" "ms_accepting m1"
    "m_Validated m1 = m_Validated m" "smap_find (m_AwaitingValidation m1) client = Some ?srv" by simp_all
  from challenge_decides [OF s1(6,4) wire(3), of answer env now' rnd'] s1 sends added alphabet_NUL
  have "m_Validated m2 = smap_emplace client ?srv (m_Validated m)"
    "ms_games m2 = snd (gdb.call n (game_AddOrUpdateServer (ms_api env) (incoming_server env client now (smap_of_list kvs))) (ms_games m))"
    by (auto simp: m2 Let_def)
  with ok(3) show ?thesis by (simp add: smap_contains_def smap.lookup_emplace split: option.split)
qed

section \<open>Properties\<close>

text \<open>
  C2. From the announcement to the list: a game server that nobody knows sends its values in a heartbeat, receives a challenge, and answers it
  with the secret key of its game.  When its row could be stored, it is validated, and a client that asks for the whole list of the game, over a new
  connection and with a limit that is large enough, decrypts and reads exactly the rows of the server table, and the announced
  server is among them, with the address and port that the datagrams came from and the values that it has announced.
\<close>

theorem announced_server_listed:
  assumes S: "sqlite_servers (ms_api env) table guard stored clause usable deleter" and api: "br_api benv = ms_api env"
    and codec: "base64_codec (ms_enc env) dec64"
    and m: "master_ok m" "ms_accepting m" "\<not> smap_contains (m_Validated m) client" "\<not> smap_contains (m_AwaitingValidation m) client"
    and sends: "\<forall>c bs. ms_send env c bs = Inr ()"
    and game: "GetGame (ms_games m) n = Inr ob" "plain_game ob" "game_table table guard n (as_game ob) t"
      "gd_missingKeyPolicy (m_Data (as_game ob)) = ignore_missing" "gd_backend (m_Data (as_game ob)) < 256"
    and wire: "list_all (\<lambda>(k, v). wire_cell k \<and> no_nul v) kvs" "map_of kvs ''gamename'' = Some n" "length inst = 4"
      "length (qr_type_code heartbeat # inst @ qr_map_wire kvs) \<le> receive_size"
    and rnd: "length rnd = 7"
    and m1: "m1 = exec_io (AcceptOne env now rnd client (qr_type_code heartbeat # inst @ qr_map_wire kvs)) m"
    and answer: "last (ms_sent m1) = (client, challenge_packet inst responseData)"
      "encode (ms_enc env) (gd_secretKey (m_Data (as_game ob))) responseData = Some answer"
    and m2: "m2 = exec_io (AcceptOne env now' rnd' client (qr_type_code challenge # inst @ bytes_of answer @ [0])) m1"
    and added: "fst (gdb.call n (game_AddOrUpdateServer (ms_api env) (incoming_server env client now (smap_of_list kvs))) (ms_games m)) = Inr ()"
    and b: "br_games b = ms_games m2" "fresh_browser benv b" "sb_parse payload = Inr request" "plain_request n request"
    and t2: "t2 = put_server stored (ms_addr env (fst client), snd client) kvs t" "listable benv (as_game ob) request t2"
    and address: "br_make_address benv (c_string (ms_addr env (fst client))) = Inr (fst client)"
    and found: "fst (gdb.call n (game_GetServers (ms_api env) '''' (fieldList request) (list_limit request) 0) (ms_games m2)) = Inr found"
  shows "smap_contains (m_Validated m2) client \<and>
    (\<exists>b' hdr entries. HandleServerListRequest benv payload b = (Inr (), b') \<and>
      client_view (gd_secretKey (m_Data (as_game ob))) (sb_challenge request) (Suc (length (tb_rows t2))) (concat (br_sent b')) =
        Some (hdr, entries) \<and>
      entry_read ` set entries = row_read benv (as_game ob) (fieldList request) ` set (tb_rows t2) \<and>
      (fst client, snd client, map (\<lambda>f. read_field (as_game ob) f (c_string (row_values stored t kvs f))) (fieldList request))
        \<in> entry_read ` set entries)"
proof -
  let ?in = "incoming_server env client now (smap_of_list kvs)"
  note s2 = proven_server [OF codec m sends game(1,5) wire rnd m1 answer m2 added]
  have ok: "games_ok (ms_games m)" using m(1) by (simp add: master_ok_def)
  have run: "gdb.call n (game_AddOrUpdateServer (ms_api env) ?in) (ms_games m) = (Inr (), ms_games m2)"
    using added s2 by (metis prod.collapse)
  have data: "smap_ok (sv_data ?in)" by (simp add: incoming_server_def)
  from update_stores [OF S ok game(1,3,4) data run] obtain ob' where ob':
    "GetGame (ms_games m2) n = Inr ob'" "plain_game ob'" "m_Data (as_game ob') = m_Data (as_game ob)"
    "m_PopularValues (as_game ob') = m_PopularValues (as_game ob)" "m_Params (as_game ob') = m_Params (as_game ob)"
    "game_table table guard n (as_game ob') t2"
    using game(2) by (auto simp: t2(1) incoming_server_def put_server_def row_values_of_list)
  have same: "GetParamSendType (as_game ob') = GetParamSendType (as_game ob)"
    using ob' by (intro ext) (simp add: GetParamSendType_def param_key_def)
  have read: "row_read benv (as_game ob') names row = row_read benv (as_game ob) names row"
    "row_fits (as_game ob') names row = row_fits (as_game ob) names row" for names row
    by (simp_all add: row_read_def read_field_def row_fits_def field_fits_def same)
  have "listable benv (as_game ob') request t2" using t2(2) ob' by (simp add: listable_def read)
  from list_shows_table [OF S api _ ob'(2,6) b(2,3,4) this] ob'(1,3) b(1) found obtain b' hdr entries where r:
    "HandleServerListRequest benv payload b = (Inr (), b')"
    "client_view (gd_secretKey (m_Data (as_game ob))) (sb_challenge request) (Suc (length (tb_rows t2))) (concat (br_sent b')) = Some (hdr, entries)"
    "entry_read ` set entries = row_read benv (as_game ob) (fieldList request) ` set (tb_rows t2)"
    by (auto simp: read)
  have rows: "smap_ok (tb_rows t)" "smap_ok (tb_rows t2)" using game(3) ob'(6) by (simp_all add: game_table_def)
  have "((ms_addr env (fst client), snd client), row_values stored t kvs) \<in> set (tb_rows t2)"
    unfolding smap_find_in_set [OF rows(2), symmetric] using rows(1) by (simp add: t2(1) put_server_def smap.lookup_assign)
  then have "row_read benv (as_game ob) (fieldList request) ((ms_addr env (fst client), snd client), row_values stored t kvs) \<in> entry_read ` set entries"
    unfolding r(3) by (rule imageI)
  with r s2 address show ?thesis by (auto simp: row_read_def)
qed

section \<open>A concrete service, for the witness\<close>

definition home_env :: "(server_db, table_stmt) ms_env" where
  "home_env = \<lparr>ms_api = server_sqlite, ms_enc = rfc4648_encode, ms_addr = (\<lambda>_. ''10.0.0.1''), ms_send = (\<lambda>_ _. Inr ())\<rparr>"

definition home_master :: "server_db master" where
  "home_master = \<lparr>ms_games = \<lparr>m_Config = [], m_Games = [(''gmtest'', Base_game home_game)]\<rparr>,
     m_AwaitingValidation = [], m_Validated = [], ms_sent = [], ms_buff = [], ms_accepting = True\<rparr>"

definition home_br_env :: "(server_db, table_stmt) br_env" where
  "home_br_env = \<lparr>br_api = server_sqlite, br_make_address = (\<lambda>_. Inr 0x0A000001), br_peer = 0x7F000001,
     br_send = (\<lambda>_. Inr ()), br_cryptKey = ''ABCDEFGH'', br_serverChallenge = ''abcdefghjklmnopqrstuvwxyz'',
     br_junk = (\<lambda>_. 0)\<rparr>"

definition home_browser :: "server_db game_db \<Rightarrow> server_db browser" where
  "home_browser games = \<lparr>br_games = games, m_Cypher = None, m_Game = None, m_KeyList = [], br_subscribed = False,
     m_SignalChannel = [], br_sent = [], br_open = True\<rparr>"

definition home_request :: server_list_request where
  "home_request = sample_request\<lparr>fieldList := [''hostname'']\<rparr>"

definition home_values :: "(string \<times> string) list" where
  "home_values = [(''gamename'', ''gmtest''), (''hostname'', ''Home'')]"

lemma home_parse: "sb_parse (sb_wire home_request) = Inr home_request"
  by (rule sb_parse_wire)
    (simp add: home_request_def request_ok_def sample_request_def field_string_def sb_wire_def optional_u32_def has_option_def)

lemma home_master_ok: "master_ok home_master"
  using home_table by (auto simp: home_master_def master_ok_def servers_named_def games_ok_def any_game_ok_def game_table_def smap_ok_def
      split: if_splits)

lemma home_wire: "list_all (\<lambda>(k, v). wire_cell k \<and> no_nul v) home_values"
  "length (qr_type_code heartbeat # [1, 2, 3, 4] @ qr_map_wire home_values) \<le> receive_size"
  by (simp_all add: home_values_def wire_cell_def no_nul_def qr_map_wire_def zstr_def receive_size_def)

lemma home_secret: "GetGame (ms_games home_master) ''gmtest'' = Inr (Base_game home_game)"
  "gd_secretKey (m_Data home_game) = ''HA6zkS''" "gd_backend (m_Data home_game) = 128"
  "gd_missingKeyPolicy (m_Data home_game) = ignore_missing" "gd_queryPort (m_Data home_game) = 6500" "m_PopularValues home_game = []"
  by (simp_all add: home_master_def home_game_def gmtest_data_def GetGame_def)

lemma home_values_map: "smap_of_list home_values = home_values"
  by (simp add: home_values_def smap_of_list_def smap_emplace_def smap_contains_def)

lemma home_announced:
  "fst (gdb.call ''gmtest'' (game_AddOrUpdateServer server_sqlite (incoming_server home_env sample_client 0 (smap_of_list home_values)))
     (ms_games home_master)) = Inr ()"
proof -
  let ?in = "incoming_server home_env sample_client 0 home_values"
  have "fst (AddOrUpdateServer server_sqlite ?in home_game) = Inr ()"
    by (rule home_add) (simp_all add: incoming_server_def home_env_def sample_client_def home_values_def)
  then show ?thesis unfolding home_values_map
    by (auto simp: gdb.call_def home_secret game_AddOrUpdateServer_def on_game_def zoom_def split: prod.splits)
qed

lemma server_found:
  assumes "GetGame db n = Inr ob" "plain_game ob" "game_table sdb_table sdb_guard n (as_game ob) t" "set names \<subseteq> set (column_names t)"
    and "length (select_sql '''' names limit skip) \<le> 1000000"
  shows "\<exists>found. fst (gdb.call n (game_GetServers server_sqlite '''' names limit skip) db) = Inr found"
proof -
  obtain r ob' where r: "game_GetServers server_sqlite '''' names limit skip ob = (r, ob')" by fastforce
  from virtual_get [OF assms(2) r] server_get_returns [OF assms(3-5)] have "\<exists>found. r = Inr found" by auto
  with r assms(1) show ?thesis by (auto simp: gdb.call_def)
qed

definition home_beat :: bytes where
  "home_beat = qr_type_code heartbeat # [1, 2, 3, 4] @ qr_map_wire home_values"

definition home_response :: string where
  "home_response = response_data ''ABCDEFG'' 128 sample_client"

definition home_announced_master :: "server_db master" where
  "home_announced_master = exec_io (AcceptOne home_env 0 ''ABCDEFG'' sample_client home_beat) home_master"

definition home_answer :: "string \<Rightarrow> bytes" where
  "home_answer answer = qr_type_code challenge # [1, 2, 3, 4] @ bytes_of answer @ [0]"

definition home_proven_master :: "string \<Rightarrow> server_db master" where
  "home_proven_master answer = exec_io (AcceptOne home_env 0 ''ABCDEFG'' sample_client (home_answer answer)) home_announced_master"

definition home_empty :: server_table where
  "home_empty = \<lparr>tb_columns = [(''hostname'', as_text)], tb_rows = []\<rparr>"

definition home_full :: server_table where
  "home_full = put_server affinity (''10.0.0.1'', 6500) home_values home_empty"

lemma home_rows:
  "listable home_br_env home_game home_request home_full"
  "tb_rows home_full = [((''10.0.0.1'', 6500), row_values affinity home_empty home_values)]" "column_names home_full = [''hostname'']"
  "row_values affinity home_empty home_values ''hostname'' = ''Home''"
proof -
  have "length (dec 500) \<le> 3" by (rule length_dec) simp_all
  moreover have send: "GetParamSendType home_game f = as_string" for f
    by (simp add: GetParamSendType_def param_key_def home_game_def gmtest_data_def default_key_def)
  moreover show t: "tb_rows home_full = [((''10.0.0.1'', 6500), row_values affinity home_empty home_values)]"
    by (simp add: home_full_def home_empty_def put_server_def smap_assign_def)
  moreover show c: "column_names home_full = [''hostname'']"
    by (simp add: home_full_def home_empty_def column_names_def put_server_def)
  ultimately show "listable home_br_env home_game home_request home_full"
    by (simp add: listable_def home_secret home_request_def sample_request_def list_limit_def select_sql_def row_fits_def field_fits_def
        home_br_env_def)
  show "row_values affinity home_empty home_values ''hostname'' = ''Home''"
    by (simp add: row_values_def home_empty_def home_values_def affinity_def)
qed

lemma home_start:
  "base64_codec (ms_enc home_env) rfc4648_decode"
  "ms_accepting home_master" "\<not> smap_contains (m_Validated home_master) sample_client"
  "\<not> smap_contains (m_AwaitingValidation home_master) sample_client" "ms_sent home_master = []"
  "smap_ok (m_AwaitingValidation home_master)" "smap_find (m_Validated home_master) sample_client = None"
  "smap_find (m_AwaitingValidation home_master) sample_client = None" "\<And>c bs. ms_send home_env c bs = Inr ()"
  "ms_api home_env = server_sqlite" "br_api home_br_env = ms_api home_env"
  "plain_game (Base_game home_game)" "game_table sdb_table sdb_guard ''gmtest'' home_game home_empty"
  "map_of home_values ''gamename'' = Some ''gmtest''"
  using rfc4648.base64_codec_axioms home_table
  by (simp_all add: home_env_def home_br_env_def home_master_def smap_contains_def smap_ok_def home_values_def plain_game_def home_empty_def)

lemma home_challenged:
  "\<exists>answer. encode rfc4648_encode ''HA6zkS'' home_response = Some answer \<and>
     ms_sent home_announced_master = [(sample_client, challenge_packet [1, 2, 3, 4] home_response)]"
proof -
  have "gd_backend (m_Data (as_game (Base_game home_game))) < 256" "gd_secretKey (m_Data (as_game (Base_game home_game))) \<noteq> []"
    by (simp_all add: home_secret)
  from announcement [OF home_start(1,2,7,8,6,9) home_secret(1) this home_wire(1) home_start(14) _ home_wire(2), of "''ABCDEFG''" 0] home_start(5)
  show ?thesis
    by (auto simp: home_secret home_beat_def home_announced_master_def home_response_def) (simp_all add: home_env_def)
qed

lemma home_proven:
  assumes "encode rfc4648_encode ''HA6zkS'' home_response = Some answer"
  shows "last (ms_sent home_announced_master) = (sample_client, challenge_packet [1, 2, 3, 4] home_response) \<and>
    smap_contains (m_Validated (home_proven_master answer)) sample_client \<and>
    (\<exists>ob. GetGame (ms_games (home_proven_master answer)) ''gmtest'' = Inr ob \<and> plain_game ob \<and>
      game_table sdb_table sdb_guard ''gmtest'' (as_game ob) home_full)"
proof -
  let ?in = "incoming_server home_env sample_client 0 (smap_of_list home_values)"
  let ?m2 = "home_proven_master answer"
  have challenged: "last (ms_sent home_announced_master) = (sample_client, challenge_packet [1, 2, 3, 4] home_response)"
    "encode (ms_enc home_env) (gd_secretKey (m_Data (as_game (Base_game home_game)))) home_response = Some answer"
    using home_challenged assms by (auto simp: home_secret) (simp add: home_env_def)
  have key: "gd_backend (m_Data (as_game (Base_game home_game))) < 256" "length ([1, 2, 3, 4] :: bytes) = 4" "length ''ABCDEFG'' = 7"
    by (simp_all add: home_secret)
  have sends: "\<forall>c bs. ms_send home_env c bs = Inr ()" by (simp add: home_start(9))
  note added = home_announced [folded home_start(10)]
  note proven = proven_server [OF home_start(1) home_master_ok home_start(2-4) sends home_secret(1) key(1) home_wire(1) home_start(14) key(2)
      home_wire(2) key(3) home_announced_master_def [unfolded home_beat_def] challenged home_proven_master_def [unfolded home_answer_def] added]
  have run: "gdb.call ''gmtest'' (game_AddOrUpdateServer server_sqlite ?in) (ms_games home_master) = (Inr (), ms_games ?m2)"
    using added proven unfolding home_start(10) by (metis prod.collapse)
  have ok: "games_ok (ms_games home_master)" "game_table sdb_table sdb_guard ''gmtest'' (as_game (Base_game home_game)) home_empty"
    "gd_missingKeyPolicy (m_Data (as_game (Base_game home_game))) = ignore_missing" "smap_ok (sv_data ?in)"
    using home_master_ok by (simp_all add: master_ok_def home_start(13) home_secret incoming_server_def)
  from update_stores [OF table_servers.sqlite_servers_axioms ok(1) home_secret(1) ok(2-4) run] home_start(12) challenged proven
  show ?thesis by (auto simp: incoming_server_def home_values_map home_env_def sample_client_def home_full_def)
qed

theorem announced_server_listed_witness:
  "\<exists>answer b' hdr entries.
     last (ms_sent home_announced_master) = (sample_client, challenge_packet [1, 2, 3, 4] home_response) \<and>
     encode rfc4648_encode ''HA6zkS'' home_response = Some answer \<and>
     smap_contains (m_Validated (home_proven_master answer)) sample_client \<and>
     HandleServerListRequest home_br_env (sb_wire home_request) (home_browser (ms_games (home_proven_master answer))) = (Inr (), b') \<and>
     client_view ''HA6zkS'' [1, 2, 3, 4, 5, 6, 7, 8] 2 (concat (br_sent b')) = Some (hdr, entries) \<and>
     (0x0A000001, 6500, [Text_value ''Home'']) \<in> entry_read ` set entries"
proof -
  obtain answer where answer: "encode rfc4648_encode ''HA6zkS'' home_response = Some answer" using home_challenged by blast
  let ?m2 = "home_proven_master answer"
  obtain ob where ob: "GetGame (ms_games ?m2) ''gmtest'' = Inr ob" "plain_game ob" "game_table sdb_table sdb_guard ''gmtest'' (as_game ob) home_full"
    and challenged: "last (ms_sent home_announced_master) = (sample_client, challenge_packet [1, 2, 3, 4] home_response)"
    using home_proven [OF answer] by blast
  have key: "gd_backend (m_Data (as_game (Base_game home_game))) < 256" "length ([1, 2, 3, 4] :: bytes) = 4" "length ''ABCDEFG'' = 7"
    "encode (ms_enc home_env) (gd_secretKey (m_Data (as_game (Base_game home_game)))) home_response = Some answer"
    using answer by (simp_all add: home_secret) (simp add: home_env_def)
  have sends: "\<forall>c bs. ms_send home_env c bs = Inr ()" by (simp add: home_start(9))
  have game: "plain_game (Base_game home_game)" "game_table sdb_table sdb_guard ''gmtest'' (as_game (Base_game home_game)) home_empty"
    "gd_missingKeyPolicy (m_Data (as_game (Base_game home_game))) = ignore_missing"
    by (simp_all add: home_start(12,13) home_secret)
  have "length (dec 500) \<le> 3" by (rule length_dec) simp_all
  then obtain found where found: "fst (gdb.call ''gmtest'' (game_GetServers (ms_api home_env) '''' (fieldList home_request)
      (list_limit home_request) 0) (ms_games ?m2)) = Inr found"
    using server_found [OF ob, of "fieldList home_request" "list_limit home_request" 0] home_rows(3)
    by (auto simp: home_start(10) home_request_def sample_request_def list_limit_def select_sql_def)
  have b: "br_games (home_browser (ms_games ?m2)) = ms_games ?m2" "fresh_browser home_br_env (home_browser (ms_games ?m2))"
    "plain_request ''gmtest'' home_request"
    by (simp_all add: home_browser_def fresh_browser_def home_br_env_def plain_request_def home_request_def sample_request_def
        has_option_def no_server_list_def send_groups_def)
  have t2: "home_full = put_server affinity (ms_addr home_env (fst sample_client), snd sample_client) home_values home_empty"
    "br_make_address home_br_env (c_string (ms_addr home_env (fst sample_client))) = Inr (fst sample_client)"
    "listable home_br_env (as_game (Base_game home_game)) home_request home_full"
    using home_rows(1) by (simp_all add: home_env_def sample_client_def home_br_env_def home_full_def)
  have "read_field home_game ''hostname'' v = Text_value v" for v
    by (simp add: read_field_def GetParamSendType_def param_key_def home_game_def gmtest_data_def default_key_def)
  then have entry: "(fst sample_client, snd sample_client, map (\<lambda>f. read_field (as_game (Base_game home_game)) f
      (c_string (row_values affinity home_empty home_values f))) (fieldList home_request)) = (0x0A000001, 6500, [Text_value ''Home''])"
    "sb_challenge home_request = [1, 2, 3, 4, 5, 6, 7, 8]"
    using home_rows(4) by (simp_all add: sample_client_def home_request_def sample_request_def c_string_def)
  from announced_server_listed [OF table_servers.sqlite_servers_axioms [folded home_start(10)] home_start(11,1) home_master_ok home_start(2-4) sends
      home_secret(1) game key(1) home_wire(1) home_start(14) key(2) home_wire(2) key(3) home_announced_master_def [unfolded home_beat_def]
      challenged key(4) home_proven_master_def [unfolded home_answer_def] home_announced [folded home_start(10)] b(1,2) home_parse b(3)
      t2(1,3,2) found, unfolded entry]
  show ?thesis using challenged answer home_rows(2) by (fastforce simp: home_secret numeral_2_eq_2 simp del: image_iff)
qed

end
