(* ===== verification/Listed_Servers.thy ===== *)
theory Listed_Servers
  imports Game_Service
begin

text \<open>
  The server tables over the life of the master server (\<open>emulator/master.cpp\<close> with \<open>emulator/game.cpp\<close>): which rows there can be in any
  state it reaches, and which rows the clean-up of expired servers leaves.
\<close>

section \<open>Games whose rows belong to known end points\<close>

text \<open>The key of the row of an end point.\<close>

definition row_key :: "('d, 's) ms_env \<Rightarrow> endpoint \<Rightarrow> string \<times> u16" where
  "row_key env c = (ms_addr env (fst c), snd c)"

definition game_served ::
  "('d \<Rightarrow> server_table option) \<Rightarrow> ('d \<Rightarrow> c_authorizer option) \<Rightarrow> (string \<times> u16) set \<Rightarrow> string \<Rightarrow> 'd any_game \<Rightarrow> bool"
where
  "game_served table guard Q n ob \<longleftrightarrow> gd_missingKeyPolicy (m_Data (as_game ob)) = ignore_missing \<and>
     (\<exists>t. game_table table guard n (as_game ob) t \<and> fst ` set (tb_rows t) \<subseteq> Q)"

definition served ::
  "('d \<Rightarrow> server_table option) \<Rightarrow> ('d \<Rightarrow> c_authorizer option) \<Rightarrow> (string \<times> u16) set \<Rightarrow> 'd game_db \<Rightarrow> bool"
where
  "served table guard Q db \<longleftrightarrow> games_ok db \<and> (\<forall>n ob. GetGame db n = Inr ob \<longrightarrow> game_served table guard Q n ob)"

interpretation served: game_directory HasGame GetGame put_game "served table guard Q" "game_served table guard Q"
  for table :: "'d \<Rightarrow> server_table option" and guard :: "'d \<Rightarrow> c_authorizer option" and Q :: "(string \<times> u16) set"
proof unfold_locales
  fix db :: "'d game_db" and n m and g :: "'d any_game"
  show "HasGame db n \<Longrightarrow> \<exists>g. GetGame db n = Inr g" by (rule gdb.get_has)
  show "\<not> HasGame db n \<Longrightarrow> GetGame db n = Inl Out_of_range" by (rule gdb.get_missing)
  show "served table guard Q db \<Longrightarrow> GetGame db n = Inr g \<Longrightarrow> game_served table guard Q n g" by (simp add: served_def)
  show "served table guard Q db \<Longrightarrow> HasGame db n \<Longrightarrow> HasGame (put_game n g db) m = HasGame db m"
    by (simp add: served_def gdb.put_has)
  show "served table guard Q db \<Longrightarrow> HasGame db n \<Longrightarrow>
      GetGame (put_game n g db) m = (if m = n then Inr g else GetGame db m)" by (simp add: served_def gdb.put_get)
  show "served table guard Q (put_game n g db)" if "served table guard Q db" "HasGame db n" "game_served table guard Q n g"
  proof -
    have "any_game_ok n g" using that(3) by (auto simp: game_served_def game_table_def any_game_ok_def)
    with that show ?thesis by (auto simp: served_def gdb.put_invar gdb.put_get split: if_splits)
  qed
qed

lemma game_servedI:
  "gd_missingKeyPolicy (m_Data (as_game ob)) = ignore_missing \<Longrightarrow> game_table table guard n (as_game ob) t \<Longrightarrow>
   fst ` set (tb_rows t) \<subseteq> Q \<Longrightarrow> game_served table guard Q n ob"
  unfolding game_served_def by blast

lemma game_servedE:
  assumes "game_served table guard Q n ob"
  obtains t where "gd_missingKeyPolicy (m_Data (as_game ob)) = ignore_missing" "game_table table guard n (as_game ob) t"
    "fst ` set (tb_rows t) \<subseteq> Q"
  using assms unfolding game_served_def by blast

lemma game_served_mono: "Q \<subseteq> Q' \<Longrightarrow> game_served table guard Q n ob \<Longrightarrow> game_served table guard Q' n ob"
  by (elim game_servedE) (rule game_servedI; blast)

lemma served_mono: "Q \<subseteq> Q' \<Longrightarrow> served table guard Q db \<Longrightarrow> served table guard Q' db"
  unfolding served_def by (simp add: game_served_mono)

lemma rows_put: "fst ` set (tb_rows (put_server stored ep kvs t)) = insert ep (fst ` set (tb_rows t))"
  by (simp add: put_server_def smap_assign_def keys_smap_insert)

lemma rows_drop: "fst ` set (tb_rows (drop_server ep t)) \<subseteq> fst ` set (tb_rows t)"
  by (auto simp: drop_server_def smap_erase_def)

lemma rows_drops: "fst ` set (tb_rows (fold drop_server eps t)) \<subseteq> fst ` set (tb_rows t)"
proof (induction eps arbitrary: t)
  case (Cons ep eps)
  from Cons.IH [of "drop_server ep t"] rows_drop [of ep t] show ?case by simp
qed simp

lemma virtual_remove:
  "game_RemoveServers api servers ob = (r, ob') \<Longrightarrow> RemoveServers api servers (as_game ob) = (r, as_game ob')"
  by (cases ob) (auto simp: game_RemoveServers_def on_game_def zoom_def split: prod.splits)

lemma add_served:
  assumes S: "sqlite_servers api table guard stored clause usable deleter"
    and data: "smap_ok (sv_data server)" and key: "(public_ip server, public_port server) \<in> Q"
  shows "preserves (game_served table guard Q n) (game_AddOrUpdateServer api server)"
  unfolding preserves_def
proof (intro allI impI)
  fix ob :: "'a any_game" assume "game_served table guard Q n ob"
  then obtain t where t: "gd_missingKeyPolicy (m_Data (as_game ob)) = ignore_missing" "game_table table guard n (as_game ob) t"
    "fst ` set (tb_rows t) \<subseteq> Q" by (rule game_servedE)
  obtain r ob' where run: "game_AddOrUpdateServer api server ob = (r, ob')" by fastforce
  note add = virtual_add [OF run, THEN conjunct1]
  let ?t = "case r of Inl _ \<Rightarrow> t | Inr _ \<Rightarrow> put_server stored (public_ip server, public_port server) (sv_data server) t"
  have "game_served table guard Q n ob'"
  proof (rule game_servedI)
    show "gd_missingKeyPolicy (m_Data (as_game ob')) = ignore_missing" using update_keeps_keys [OF add t(1)] t(1) by simp
    show "game_table table guard n (as_game ob') ?t" by (rule sqlite_servers.add_puts [OF S t(2) disjI1 [OF t(1)] data add])
    show "fst ` set (tb_rows ?t) \<subseteq> Q" using t(3) key by (cases r) (simp_all add: rows_put)
  qed
  then show "game_served table guard Q n (snd (game_AddOrUpdateServer api server ob))" by (simp add: run)
qed

lemma remove_keeps_data: "m_Data (snd (RemoveServers api servers g)) = m_Data g"
proof -
  have "preserves (\<lambda>h :: 'a game. m_Data h = m_Data g) (remove_loop api servers st)" for st
    by (induction servers arbitrary: st)
      (auto intro!: preserves_intros preserves_modify preserves_zoom simp: on_db_def simp del: bind_all.simps)
  then have "preserves (\<lambda>h :: 'a game. m_Data h = m_Data g) (RemoveServers api servers)"
    unfolding RemoveServers_def on_db_def by (intro preserves_bind preserves_zoom) simp_all
  then show ?thesis by (simp add: preserves_def)
qed

lemma remove_served:
  assumes S: "sqlite_servers api table guard stored clause usable deleter"
  shows "preserves (game_served table guard Q n) (game_RemoveServers api servers)"
  unfolding preserves_def
proof (intro allI impI)
  fix ob :: "'a any_game" assume "game_served table guard Q n ob"
  then obtain t where t: "gd_missingKeyPolicy (m_Data (as_game ob)) = ignore_missing" "game_table table guard n (as_game ob) t"
    "fst ` set (tb_rows t) \<subseteq> Q" by (rule game_servedE)
  obtain r ob' where run: "game_RemoveServers api servers ob = (r, ob')" by fastforce
  note rem = virtual_remove [OF run]
  from sqlite_servers.remove_drops [OF S t(2) rem] obtain k where
    k: "game_table table guard n (as_game ob') (fold drop_server (take k servers) t)" by blast
  have "gd_missingKeyPolicy (m_Data (as_game ob')) = ignore_missing"
    using remove_keeps_data [of api servers "as_game ob"] rem t(1) by simp
  from game_servedI [OF this k order_trans [OF rows_drops t(3)]]
  show "game_served table guard Q n (snd (game_RemoveServers api servers ob))" by (simp add: run)
qed

section \<open>The master server over its games\<close>

text \<open>The values that wait for a validation are maps.\<close>

definition waiting_maps :: "'d master \<Rightarrow> bool" where
  "waiting_maps m \<longleftrightarrow> list_all (\<lambda>(c, s). smap_ok (srv_values s)) (m_AwaitingValidation m)"

lemma qr_map_loop_ok: "smap_ok data \<Longrightarrow> qr_map_loop pos k data = Inr (kvs, r) \<Longrightarrow> smap_ok kvs"
proof (induction pos k data rule: qr_map_loop.induct)
  case (1 pos k data)
  from 1(4) [unfolded qr_map_loop.simps [of pos k data]] 1(1,2) 1(3) show ?case
    by (cases "split_nul pos") (auto simp: smap.invar_emplace split: if_splits)
qed

lemma heartbeat_map_ok: "heartbeat_parse packet = Inr hb \<Longrightarrow> smap_ok (serverData hb)"
proof -
  have "smap_ok kvs" if "qr_map_loop pos [] [] = Inr (kvs, r)" for pos kvs r
    using qr_map_loop_ok [OF _ that] by (simp add: smap_ok_def)
  then show "heartbeat_parse packet = Inr hb \<Longrightarrow> smap_ok (serverData hb)"
    by (auto simp: heartbeat_parse_def Let_def qr_map_parse_def split: sum.splits if_splits)
qed

lemma set_insert_subset: "set (smap_insert k v m) \<subseteq> insert (k, v) (set m)"
  by (induction k v m rule: smap_insert.induct) (auto split: if_splits)

lemma all_inserted:
  "list_all P m \<Longrightarrow> P (k, v) \<Longrightarrow> list_all P (smap_assign k v m)"
  "list_all P m \<Longrightarrow> P (k, v) \<Longrightarrow> list_all P (smap_emplace k v m)"
  "list_all P m \<Longrightarrow> list_all P (smap_erase k m)"
  using set_insert_subset [of k v m] by (auto simp: list_all_iff smap_assign_def smap_emplace_def smap_erase_def)

lemma waiting_found: "waiting_maps m \<Longrightarrow> smap_find (m_AwaitingValidation m) c = Some s \<Longrightarrow> smap_ok (srv_values s)"
  by (fastforce simp: waiting_maps_def list_all_iff smap_find_def dest: map_of_SomeD)

lemma waiting_ignores: "ignores_games waiting_maps" "ignores_sent waiting_maps"
  by (simp_all add: ignores_games_def ignores_sent_def waiting_maps_def)

lemma waiting_updates:
  "waiting_maps m \<Longrightarrow> waiting_maps (m\<lparr>m_Validated := v\<rparr>)"
  "waiting_maps m \<Longrightarrow> waiting_maps (m\<lparr>ms_accepting := a\<rparr>)"
  "waiting_maps m \<Longrightarrow> waiting_maps (m\<lparr>ms_buff := b\<rparr>)"
  "waiting_maps m \<Longrightarrow> waiting_maps (m\<lparr>m_AwaitingValidation := smap_erase c (m_AwaitingValidation m)\<rparr>)"
  "waiting_maps m \<Longrightarrow> smap_ok (srv_values s) \<Longrightarrow>
   waiting_maps (m\<lparr>m_AwaitingValidation := smap_assign c s (m_AwaitingValidation m)\<rparr>)"
  "waiting_maps m \<Longrightarrow> smap_ok (srv_values s) \<Longrightarrow>
   waiting_maps (m\<lparr>m_AwaitingValidation := smap_emplace c s (m_AwaitingValidation m)\<rparr>)"
  by (simp_all add: waiting_maps_def all_inserted)

lemma waiting_erase: "waiting_maps m \<Longrightarrow> waiting_maps (erase_server w c m)"
  by (cases w) (simp_all add: erase_server_def waiting_updates)

lemmas waiting_intros = preserves_intros preserves_modify with_game_ignores send_to_ignores waiting_ignores waiting_updates
  HandleAvailable_ignores waiting_erase

lemma heartbeat_waiting: "preserves waiting_maps (HandleHeartbeat env now rnd client packet)"
  unfolding HandleHeartbeat_def Let_def
  by (auto split: sum.splits option.splits prod.splits intro!: waiting_intros simp: heartbeat_map_ok)

lemma dispatch_waiting: "preserves waiting_maps (dispatch env now rnd client datagram)"
proof -
  have "preserves waiting_maps (HandleKeepAlive now client)"
    unfolding HandleKeepAlive_def by (auto intro!: waiting_intros split: option.splits simp: waiting_found)
  moreover have "preserves waiting_maps (HandleChallenge env client)"
    unfolding HandleChallenge_def by (auto intro!: waiting_intros split: option.splits prod.splits)
  ultimately show ?thesis
    unfolding dispatch_def
    by (auto split: sum.splits qr_type.splits intro!: preserves_ret heartbeat_waiting HandleAvailable_ignores waiting_ignores)
qed

lemma step_waiting: "waiting_maps m \<Longrightarrow> waiting_maps (ms_step env ev m)"
proof -
  have "preserves waiting_maps (AcceptOne env now rnd client datagram)" for now rnd client datagram
    unfolding AcceptOne_def Let_def by (intro waiting_intros dispatch_waiting) (simp_all add: waiting_updates)
  moreover have "preserves waiting_maps (Cleanup env now)" for now
    unfolding Cleanup_def cleanup_map_def cleanup_entry_def by (auto intro!: waiting_intros)
  ultimately show "waiting_maps m \<Longrightarrow> waiting_maps (ms_step env ev m)"
    by (cases ev) (simp_all add: ms_step_def exec_io_def preserves_def)
qed

text \<open>Only end points that have proven themselves reach the tables.\<close>

lemma with_game_served:
  "preserves (game_served table guard Q n) op \<Longrightarrow> preserves (\<lambda>m. served table guard Q (ms_games m)) (with_game n op)"
  using served.call_preserves [of table guard Q n op] unfolding preserves_def [of "served table guard Q"]
  by (simp add: preserves_def [of "\<lambda>m. served table guard Q (ms_games m)"] with_game_eq)

lemma send_served: "preserves (\<lambda>m. served table guard Q (ms_games m)) (send_to env client bs)"
  by (rule send_to_ignores) (simp add: ignores_sent_def)

lemma dispatch_served:
  assumes S: "sqlite_servers (ms_api env) table guard stored clause usable deleter"
    and m: "served table guard Q (ms_games m)" "waiting_maps m"
    and known: "smap_contains (m_Validated m) client \<Longrightarrow> row_key env client \<in> Q"
      "\<exists>packet server. qr_parse datagram = Inr packet \<and> type_of_packet packet = challenge \<and>
        smap_find (m_AwaitingValidation m) client = Some server \<and> proof_text server = challenge_text m \<Longrightarrow> row_key env client \<in> Q"
  shows "served table guard Q (ms_games (snd (dispatch env now rnd client datagram m)))"
proof (cases "row_key env client \<in> Q")
  case False
  with known have "\<not> smap_contains (m_Validated m) client"
    "\<not> (\<exists>packet server. qr_parse datagram = Inr packet \<and> type_of_packet packet = challenge \<and>
        smap_find (m_AwaitingValidation m) client = Some server \<and> proof_text server = challenge_text m)" by blast+
  then show ?thesis using m(1) by (simp add: dispatch_games)
next
  case True
  have add: "preserves (\<lambda>m. served table guard Q (ms_games m)) (with_game n (game_AddOrUpdateServer (ms_api env)
      (incoming_server env client t kvs)))" if "smap_ok kvs" for n t kvs
    using that True by (intro with_game_served add_served [OF S]) (simp_all add: incoming_server_def row_key_def)
  have beat: "preserves (\<lambda>m. served table guard Q (ms_games m)) (HandleHeartbeat env now rnd client packet)" for packet
    unfolding HandleHeartbeat_def Let_def
    by (auto split: sum.splits option.splits prod.splits intro!: preserves_intros preserves_modify add send_served heartbeat_map_ok)
  have avail: "preserves (\<lambda>m. served table guard Q (ms_games m)) (HandleAvailable env client packet)" for packet
    by (rule HandleAvailable_ignores) (simp add: ignores_sent_def)
  have alive: "preserves (\<lambda>m. served table guard Q (ms_games m)) (HandleKeepAlive now client)"
    unfolding HandleKeepAlive_def by (rule preserves_modify) (simp split: option.splits)
  have proven: "served table guard Q (ms_games (snd (HandleChallenge env client m)))"
  proof (cases "smap_find (m_AwaitingValidation m) client")
    case (Some server)
    have "preserves (\<lambda>m. served table guard Q (ms_games m)) (then_io (then_io (send_to env client (proven_packet (srv_instance server)))
        (with_game (gamename server) (game_AddOrUpdateServer (ms_api env)
          (incoming_server env client (srv_last_update server) (srv_values server)))))
        (modify (\<lambda>m. m\<lparr>m_AwaitingValidation := smap_erase client (m_AwaitingValidation m)\<rparr>)))"
      by (intro preserves_intros preserves_modify send_served add waiting_found [OF m(2) Some]) simp
    from preservesD [OF this, of "m\<lparr>m_Validated := smap_emplace client server (m_Validated m)\<rparr>"] m(1) Some show ?thesis
      by (simp add: challenge_cases Let_def modify_def)
  qed (use m(1) in \<open>simp add: challenge_cases\<close>)
  show ?thesis
    using m(1) preservesD [OF beat] preservesD [OF avail] preservesD [OF alive] proven
    by (auto simp: dispatch_def ret_def split: sum.splits qr_type.splits)
qed

lemma cleanup_served:
  assumes "sqlite_servers (ms_api env) table guard stored clause usable deleter"
  shows "preserves (\<lambda>m. served table guard Q (ms_games m)) (Cleanup env now)"
proof -
  have "ms_games (erase_server w c m) = ms_games m" for w c and m :: "'a master"
    by (cases w) (simp_all add: erase_server_def)
  then show ?thesis
    unfolding Cleanup_def cleanup_map_def cleanup_entry_def
    by (auto intro!: preserves_intros preserves_modify with_game_served remove_served [OF assms])
qed

definition listing_ok ::
  "('d \<Rightarrow> server_table option) \<Rightarrow> ('d \<Rightarrow> c_authorizer option) \<Rightarrow> ('d, 's) ms_env \<Rightarrow> endpoint set \<Rightarrow> 'd master \<Rightarrow> bool"
where
  "listing_ok table guard env P m \<longleftrightarrow> master_ok m \<and> val_dom m \<subseteq> P \<and> waiting_maps m \<and> served table guard (row_key env ` P) (ms_games m)"

lemma step_val_dom: "master_ok m \<Longrightarrow> val_dom (ms_step env ev m) \<subseteq> val_dom m \<union> newly_proven m ev"
proof (cases ev)
  case (Datagram now rnd client datagram)
  assume "master_ok m"
  then have "smap_ok (m_Validated m)" by (simp add: master_ok_def servers_named_def)
  from AcceptOne_val_dom [OF this, of env now rnd client datagram] show ?thesis
    by (cases "answers m client datagram") (simp_all add: Datagram ms_step_def)
qed (use Cleanup_val_dom [of env _ m] in \<open>simp add: ms_step_def\<close>)

lemma step_served:
  assumes S: "sqlite_servers (ms_api env) table guard stored clause usable deleter" and m: "listing_ok table guard env P m"
  shows "served table guard (row_key env ` (P \<union> newly_proven m ev)) (ms_games (ms_step env ev m))"
proof -
  let ?Q = "row_key env ` (P \<union> newly_proven m ev)"
  have served: "served table guard ?Q (ms_games m)" "waiting_maps m" "val_dom m \<subseteq> P"
    using m served_mono [of "row_key env ` P" ?Q] by (auto simp: listing_ok_def)
  show ?thesis
  proof (cases ev)
    case (Tick now)
    with preservesD [OF cleanup_served [OF S] served(1)] show ?thesis by (simp add: ms_step_def exec_io_def)
  next
    case (Datagram now rnd client datagram)
    let ?d = "take receive_size datagram"
    let ?m = "m\<lparr>ms_buff := ?d @ drop (length ?d) (ms_buff m)\<rparr>"
    show ?thesis
    proof (cases "ms_accepting m \<and> ?d \<noteq> []")
      case True
      have "served table guard ?Q (ms_games (snd (dispatch env now rnd client ?d ?m)))"
      proof (rule dispatch_served [OF S])
        show "row_key env client \<in> ?Q" if "smap_contains (m_Validated ?m) client"
          using that served(3) by (auto simp: val_dom_def smap_contains_def)
        show "row_key env client \<in> ?Q" if "\<exists>packet server. qr_parse ?d = Inr packet \<and> type_of_packet packet = challenge \<and>
            smap_find (m_AwaitingValidation ?m) client = Some server \<and> proof_text server = challenge_text ?m"
          using that True by (auto simp: Datagram answers_def Let_def)
      qed (use served in \<open>simp_all add: waiting_updates\<close>)
      moreover have "ms_step env ev m = snd (dispatch env now rnd client ?d ?m)"
        using True by (auto simp: Datagram ms_step_def AcceptOne_def exec_io_def bind_io_def then_io_def gets_def modify_def
            Let_def try_log_def split: prod.splits sum.splits)
      ultimately show ?thesis by simp
    next
      case False
      then have "ms_games (ms_step env ev m) = ms_games m"
        by (auto simp: Datagram ms_step_def AcceptOne_def exec_io_def bind_io_def gets_def ret_def modify_def Let_def)
      with served(1) show ?thesis by simp
    qed
  qed
qed

lemma step_listing:
  "sqlite_servers (ms_api env) table guard stored clause usable deleter \<Longrightarrow> listing_ok table guard env P m \<Longrightarrow>
   listing_ok table guard env (P \<union> newly_proven m ev) (ms_step env ev m)"
  using step_served [of env table guard stored clause usable deleter P m ev] step_val_dom [of m env ev]
  by (auto simp: listing_ok_def ms_step_ok step_waiting)

section \<open>What the clean-up removes\<close>

text \<open>The keys of the entries that have expired and name a game.\<close>

definition expired :: "('d, 's) ms_env \<Rightarrow> int \<Rightarrow> string \<Rightarrow> (endpoint \<times> ms_server) list \<Rightarrow> (string \<times> u16) list" where
  "expired env now n es = map (row_key env \<circ> fst) (filter (\<lambda>(c, s). timed_out now s \<and> gamename s = n) es)"

lemma cleanup_entry_table:
  assumes S: "sqlite_servers (ms_api env) table guard stored clause usable deleter" and ok: "games_ok (ms_games m)"
    and game: "GetGame (ms_games m) n = Inr ob" "game_table table guard n (as_game ob) t"
    and run: "cleanup_entry env now w e m = (Inr (), m')"
  shows "games_ok (ms_games m') \<and>
    (\<exists>ob'. GetGame (ms_games m') n = Inr ob' \<and> game_table table guard n (as_game ob') (fold drop_server (expired env now n [e]) t))"
proof -
  obtain c s where e [simp]: "e = (c, s)" by fastforce
  let ?op = "game_RemoveServers (ms_api env) [row_key env c]"
  have erased: "ms_games (erase_server w c m) = ms_games m" for m :: "'a master"
    by (cases w) (simp_all add: erase_server_def)
  show ?thesis
  proof (cases "timed_out now s")
    case False
    with run ok game show ?thesis by (simp add: cleanup_entry_def ret_def expired_def)
  next
    case True
    with run have call: "fst (gdb.call (gamename s) ?op (ms_games m)) = Inr ()"
      "ms_games m' = snd (gdb.call (gamename s) ?op (ms_games m))"
      by (auto simp: cleanup_entry_def then_io_def bind_io_def with_game_eq modify_def erased row_key_def split: sum.splits)
    have ok': "games_ok (ms_games m')"
      unfolding call(2) by (rule preservesD [OF gdb.call_preserves [OF game_RemoveServers_ok] ok])
    show ?thesis
    proof (cases "gamename s = n")
      case False
      with gdb.call_other [OF ok, of n "gamename s" ?op] game ok' show ?thesis by (simp add: call(2) expired_def)
    next
      case n: True
      obtain r ob' where op: "?op ob = (r, ob')" by fastforce
      with call game(1) n have r: "r = Inr ()" "ms_games m' = put_game n ob' (ms_games m)" by (simp_all add: gdb.call_def)
      from sqlite_servers.remove_drops [OF S game(2) virtual_remove [OF op]] r(1)
      have "game_table table guard n (as_game ob') (drop_server (row_key env c) t)" by auto
      moreover have "GetGame (ms_games m') n = Inr ob'"
        unfolding r(2) using gdb.put_get [OF ok GetGame_has [OF game(1)]] by simp
      ultimately show ?thesis using ok' n True by (simp add: expired_def)
    qed
  qed
qed

lemma cleanup_entries_table:
  assumes S: "sqlite_servers (ms_api env) table guard stored clause usable deleter"
  shows "for_each es (cleanup_entry env now w) m = (Inr (), m') \<Longrightarrow> games_ok (ms_games m) \<Longrightarrow> GetGame (ms_games m) n = Inr ob \<Longrightarrow>
    game_table table guard n (as_game ob) t \<Longrightarrow> games_ok (ms_games m') \<and>
    (\<exists>ob'. GetGame (ms_games m') n = Inr ob' \<and> game_table table guard n (as_game ob') (fold drop_server (expired env now n es) t))"
proof (induction es arbitrary: m ob t)
  case (Cons e es)
  from Cons.prems(1) obtain m1 where m1: "cleanup_entry env now w e m = (Inr (), m1)"
    and rest: "for_each es (cleanup_entry env now w) m1 = (Inr (), m')"
    by (auto simp: then_io_def bind_io_Inr)
  from cleanup_entry_table [OF S Cons.prems(2-4) m1] obtain ob1 where ob1: "games_ok (ms_games m1)" "GetGame (ms_games m1) n = Inr ob1"
    "game_table table guard n (as_game ob1) (fold drop_server (expired env now n [e]) t)" by blast
  have "expired env now n (e # es) = expired env now n [e] @ expired env now n es" by (simp add: expired_def)
  with Cons.IH [OF rest ob1] show ?case by simp
qed (auto simp: ret_def expired_def)

lemma cleanup_map_table:
  assumes "sqlite_servers (ms_api env) table guard stored clause usable deleter" and "cleanup_map env now w m = (Inr (), m')"
    and "games_ok (ms_games m)" and "GetGame (ms_games m) n = Inr ob" and "game_table table guard n (as_game ob) t"
  shows "games_ok (ms_games m') \<and> (\<exists>ob'. GetGame (ms_games m') n = Inr ob' \<and>
    game_table table guard n (as_game ob') (fold drop_server (expired env now n (servers_of w m)) t))"
  using assms(2) by (intro cleanup_entries_table [OF assms(1) _ assms(3-5)]) (simp add: cleanup_map_def bind_io_def gets_def)

section \<open>Properties\<close>

text \<open>The end points that answer a challenge in the course of some events.\<close>

fun proven_in :: "('d, 's) ms_env \<Rightarrow> ms_event list \<Rightarrow> 'd master \<Rightarrow> endpoint set" where
  "proven_in env [] m = {}"
| "proven_in env (ev # evs) m = newly_proven m ev \<union> proven_in env evs (ms_step env ev m)"

lemma run_listing:
  assumes "sqlite_servers (ms_api env) table guard stored clause usable deleter"
  shows "listing_ok table guard env P m \<Longrightarrow> listing_ok table guard env (P \<union> proven_in env evs m) (fold (ms_step env) evs m)"
proof (induction evs arbitrary: P m)
  case (Cons ev evs)
  from Cons.IH [OF step_listing [OF assms Cons.prems, of ev]] show ?case by (simp add: Un_assoc)
qed simp

text \<open>
  C3. Who can be listed: a master server starts over games whose tables are empty.  After any datagrams and clean-up passes, whatever
  was sent, lost, forged or failed, every row of every table, and every server that a query with a meaning returns to a browser, belongs to an end point that
  has answered a challenge.
\<close>

theorem listed_only_proven:
  assumes S: "sqlite_servers (ms_api env) table guard stored clause usable deleter"
    and start: "games_ok (ms_games m)" "m_AwaitingValidation m = []" "m_Validated m = []"
      "\<forall>n ob. GetGame (ms_games m) n = Inr ob \<longrightarrow> gd_missingKeyPolicy (m_Data (as_game ob)) = ignore_missing \<and>
         (\<exists>columns. game_table table guard n (as_game ob) \<lparr>tb_columns = columns, tb_rows = []\<rparr>)"
    and game: "GetGame (ms_games (fold (ms_step env) evs m)) n = Inr ob"
  shows "\<exists>t. game_table table guard n (as_game ob) t \<and> fst ` set (tb_rows t) \<subseteq> row_key env ` proven_in env evs m \<and>
    (\<forall>query f names limit skip found s. clause query = Some f \<and> set names \<subseteq> set (column_names t) \<and> length names \<le> 1997 \<and>
       length (select_sql query names limit skip) \<le> 1000000 \<and>
       fst (GetServers (ms_api env) query names limit skip (as_game ob)) = Inr (Some found) \<and> s \<in> set found \<longrightarrow>
       (\<exists>c \<in> proven_in env evs m. public_ip s = c_string (ms_addr env (fst c)) \<and> public_port s = snd c))"
proof -
  have "game_served table guard {} n ob" if "GetGame (ms_games m) n = Inr ob" for n ob
    using start(4) [rule_format, OF that] by (auto intro: game_servedI)
  then have "listing_ok table guard env {} m"
    using start by (auto simp: listing_ok_def master_ok_def servers_named_def val_dom_def waiting_maps_def served_def smap_ok_def)
  from run_listing [OF S this, of evs] have "game_served table guard (row_key env ` proven_in env evs m) n ob"
    using game by (simp add: listing_ok_def served_def)
  then obtain t where t: "game_table table guard n (as_game ob) t" "fst ` set (tb_rows t) \<subseteq> row_key env ` proven_in env evs m"
    by (rule game_servedE)
  have "\<exists>c \<in> proven_in env evs m. public_ip s = c_string (ms_addr env (fst c)) \<and> public_port s = snd c"
    if q: "clause query = Some f" "set names \<subseteq> set (column_names t)" "length names \<le> 1997"
      "length (select_sql query names limit skip) \<le> 1000000"
      "fst (GetServers (ms_api env) query names limit skip (as_game ob)) = Inr (Some found)" "s \<in> set found"
    for query f names limit skip found s
  proof -
    obtain g' where g': "GetServers (ms_api env) query names limit skip (as_game ob) = (Inr (Some found), g')"
      using q(5) by (metis prod.collapse)
    from sqlite_servers.get_selects [OF S t(1) q(1-4) this] obtain sel where
      sel: "found = map (listed_server names) sel" "selection f limit skip t (map snd sel)" by auto
    obtain x where x: "x \<in> set sel" "s = listed_server names x" using q(6) sel(1) by auto
    obtain time ip port vs where r: "x = (time, (ip, port), vs)" by (metis surj_pair)
    have "snd x \<in> set (tb_rows t)" using x(1) sel(2) by (auto simp: selection_def)
    then have "(ip, port) \<in> row_key env ` proven_in env evs m" using t(2) by (force simp: r)
    then show ?thesis by (auto simp: x(2) r row_key_def)
  qed
  then show ?thesis by (intro exI [of _ t] conjI t allI impI) (elim conjE, blast)
qed

theorem listed_only_proven_witness:
  "\<exists>answer ob t. let evs = [Datagram 0 ''ABCDEFG'' sample_client home_beat, Datagram 0 ''ABCDEFG'' sample_client (home_answer answer)] in
     encode rfc4648_encode ''HA6zkS'' home_response = Some answer \<and>
     GetGame (ms_games (fold (ms_step home_env) evs home_master)) ''gmtest'' = Inr ob \<and>
     game_table sdb_table sdb_guard ''gmtest'' (as_game ob) t \<and> tb_rows t \<noteq> [] \<and>
     fst ` set (tb_rows t) \<subseteq> row_key home_env ` proven_in home_env evs home_master"
proof -
  obtain answer where answer: "encode rfc4648_encode ''HA6zkS'' home_response = Some answer" using home_challenged by blast
  let ?evs = "[Datagram 0 ''ABCDEFG'' sample_client home_beat, Datagram 0 ''ABCDEFG'' sample_client (home_answer answer)]"
  have m2: "fold (ms_step home_env) ?evs home_master = home_proven_master answer"
    by (simp add: ms_step_def home_proven_master_def home_announced_master_def)
  obtain ob where ob: "GetGame (ms_games (home_proven_master answer)) ''gmtest'' = Inr ob"
    "game_table sdb_table sdb_guard ''gmtest'' (as_game ob) home_full" using home_proven [OF answer] by blast
  have start: "games_ok (ms_games home_master)" "m_AwaitingValidation home_master = []" "m_Validated home_master = []"
    using home_master_ok by (simp_all add: master_ok_def) (simp_all add: home_master_def)
  have empty: "\<forall>n ob. GetGame (ms_games home_master) n = Inr ob \<longrightarrow> gd_missingKeyPolicy (m_Data (as_game ob)) = ignore_missing \<and>
      (\<exists>columns. game_table sdb_table sdb_guard n (as_game ob) \<lparr>tb_columns = columns, tb_rows = []\<rparr>)"
    using home_start(13)
    by (auto simp: home_master_def GetGame_def home_secret home_empty_def split: if_splits)
  note run = listed_only_proven [OF table_servers.sqlite_servers_axioms [folded home_start(10)] start empty ob(1) [folded m2]]
  obtain t where t: "game_table sdb_table sdb_guard ''gmtest'' (as_game ob) t"
    "fst ` set (tb_rows t) \<subseteq> row_key home_env ` proven_in home_env ?evs home_master" using run by (elim exE conjE) (rule that)
  have "t = home_full" using t(1) ob(2) by (simp add: game_table_def)
  then have "tb_rows t \<noteq> []" by (simp add: home_rows)
  then show ?thesis unfolding Let_def by (intro exI [of _ answer] exI [of _ ob] exI [of _ t] conjI answer t ob(1) [folded m2])
qed

text \<open>
  C11. What a pass of the clean-up removes: the entries whose last update is more than 60 whole seconds old leave both maps, and of the table of a game exactly
  the rows of those expired end points are dropped that name this game.  Rows that the same end points have in other games stay.
\<close>

theorem cleanup_unlists:
  assumes S: "sqlite_servers (ms_api env) table guard stored clause usable deleter" and m: "master_ok m"
    and game: "GetGame (ms_games m) n = Inr ob" "game_table table guard n (as_game ob) t"
    and run: "Cleanup env now m = (Inr (), m')"
  shows "m_AwaitingValidation m' = filter (\<lambda>(c, s). \<not> timed_out now s) (m_AwaitingValidation m) \<and>
    m_Validated m' = filter (\<lambda>(c, s). \<not> timed_out now s) (m_Validated m) \<and>
    (\<exists>ob'. GetGame (ms_games m') n = Inr ob' \<and> game_table table guard n (as_game ob')
      (fold drop_server (expired env now n (m_AwaitingValidation m @ m_Validated m)) t))"
proof -
  have ok: "games_ok (ms_games m)" "smap_ok (servers_of Awaiting_map m)"
    using m by (simp_all add: master_ok_def servers_named_def servers_of_def)
  obtain m1 where m1: "cleanup_map env now Awaiting_map m = (Inr (), m1)" "cleanup_map env now Validated_map m1 = (Inr (), m')"
    using run by (auto simp: Cleanup_def then_io_def bind_io_Inr ret_def)
  have same: "m_Validated m1 = m_Validated m"
    using cleanup_map_Inr [OF m1(1) ok(2), of Validated_map] by (simp add: servers_of_def)
  from cleanup_map_table [OF S m1(1) ok(1) game] obtain ob1 where ob1: "games_ok (ms_games m1)" "GetGame (ms_games m1) n = Inr ob1"
    "game_table table guard n (as_game ob1) (fold drop_server (expired env now n (m_AwaitingValidation m)) t)"
    by (auto simp: servers_of_def)
  have "expired env now n (m_AwaitingValidation m @ m_Validated m) =
      expired env now n (m_AwaitingValidation m) @ expired env now n (m_Validated m)" by (simp add: expired_def)
  with cleanup_map_table [OF S m1(2) ob1] Cleanup_Inr [OF run m] show ?thesis by (simp add: servers_of_def same)
qed

definition home_late :: "server_db master" where
  "home_late = home_master\<lparr>
     ms_games := \<lparr>m_Config = [],
       m_Games = [(''gmtest'', Base_game (home_game\<lparr>m_DB := \<lparr>sdb_table = Some home_full, sdb_guard = None\<rparr>\<rparr>))]\<rparr>,
     m_Validated := [(sample_client, \<lparr>srv_last_update = 0, proof_text = '''', srv_instance = [], gamename = ''gmtest'', srv_values = []\<rparr>)]\<rparr>"

theorem cleanup_unlists_witness:
  "\<exists>m' ob. Cleanup home_env 61000000000 home_late = (Inr (), m') \<and> m_Validated m' = [] \<and>
     GetGame (ms_games m') ''gmtest'' = Inr ob \<and> game_table sdb_table sdb_guard ''gmtest'' (as_game ob) home_empty"
proof -
  let ?g = "home_game\<lparr>m_DB := \<lparr>sdb_table = Some home_full, sdb_guard = None\<rparr>\<rparr>"
  let ?s = "\<lparr>srv_last_update = 0, proof_text = '''', srv_instance = [], gamename = ''gmtest'', srv_values = []\<rparr> :: ms_server"
  have late: "m_Validated home_late = [(sample_client, ?s)]" "m_AwaitingValidation home_late = []"
    "GetGame (ms_games home_late) ''gmtest'' = Inr (Base_game ?g)"
    by (simp_all add: home_late_def GetGame_def) (simp add: home_master_def)
  have old: "timed_out 61000000000 ?s" by (simp add: timed_out_def duration_seconds_def)
  have full: "game_table sdb_table sdb_guard ''gmtest'' ?g home_full"
    by (rule game_table_db [OF home_start(13)]) (simp_all add: home_rows smap_ok_def, simp add: home_empty_def column_names_def)
  then have ok: "master_ok home_late"
    by (auto simp: home_late_def master_ok_def servers_named_def games_ok_def any_game_ok_def game_table_def smap_ok_def HasGame_def
        smap_contains_def home_master_def split: if_splits)
  obtain g' where g': "RemoveServers server_sqlite [(''10.0.0.1'', snd sample_client)] ?g = (Inr (), g')"
    using server_remove_returns [of ?g home_full "''10.0.0.1''" "snd sample_client"] by (auto simp: int_max_def)
  have "\<exists>m'. Cleanup home_env 61000000000 home_late = (Inr (), m')"
    using old late g'
    by (simp add: Cleanup_def cleanup_map_def cleanup_entry_def servers_of_def then_io_def bind_io_def gets_def ret_def with_game_eq
        gdb.call_def game_RemoveServers_def on_game_def zoom_def home_env_def modify_def)
  then obtain m' where m': "Cleanup home_env 61000000000 home_late = (Inr (), m')" by blast
  have "fold drop_server (expired home_env 61000000000 ''gmtest'' (m_AwaitingValidation home_late @ m_Validated home_late)) home_full = home_empty"
    using old by (simp add: late expired_def row_key_def home_env_def sample_client_def drop_server_def smap_erase_def home_rows(2))
      (simp add: home_full_def home_empty_def put_server_def)
  moreover have "game_table sdb_table sdb_guard ''gmtest'' (as_game (Base_game ?g)) home_full" using full by simp
  note cleanup_unlists [OF table_servers.sqlite_servers_axioms [folded home_start(10)] ok late(3) this m']
  ultimately show ?thesis using m' old by (auto simp: late)
qed

end
