(* ===== verification/Scan_Number.thy ===== *)
theory Scan_Number
  imports Text_Format Exn_State
begin

text \<open>
  Decimal numbers as \<open>sscanf\<close> and \<open>atoi\<close> of the C library read them (used by \<open>emulator/emulator.cpp\<close> and
  \<open>bf2-dlls/client-video-fallback.cpp\<close>), and the conversion of the result to a port.
\<close>

definition fits_int :: "int \<Rightarrow> exn + int" where
  "fits_int n = (if - (2 ^ 31) \<le> n \<and> n < 2 ^ 31 then Inr n else Inl Undefined_behaviour)"

text \<open>
  \<open>%d\<close>: white space, a sign and digits; a number that is not an \<open>int\<close> is undefined.  \<open>None\<close>: no match.
\<close>

definition is_space :: "char \<Rightarrow> bool" where
  "is_space c \<longleftrightarrow> c = CHR '' '' \<or> ((9 :: nat) \<le> of_char c \<and> of_char c \<le> (13 :: nat))"

definition scan_d :: "string \<Rightarrow> exn + (int \<times> string) option" where
  "scan_d s =
     (let s = dropWhile is_space s;
          (neg, s) = (case s of [] \<Rightarrow> (False, s)
            | c # r \<Rightarrow> if c = CHR ''-'' then (True, r) else if c = CHR ''+'' then (False, r) else (False, s));
          ds = takeWhile is_digit s
      in if ds = [] then Inr None
         else and_then (fits_int (if neg then - int (digits_val ds) else int (digits_val ds)))
           (\<lambda>n. Inr (Some (n, dropWhile is_digit s))))"

text \<open>\<open>std::atoi\<close>: 0 when there is no number.\<close>

definition atoi :: "string \<Rightarrow> exn + int" where
  "atoi s = and_then (scan_d s) (\<lambda>r. Inr (case r of None \<Rightarrow> 0 | Some (n, _) \<Rightarrow> n))"

text \<open>\<open>std::uint16_t port = std::atoi(s)\<close>\<close>

definition port_of :: "string \<Rightarrow> exn + u16" where
  "port_of s = and_then (atoi s) (\<lambda>n. Inr (of_int n))"

end
