(* ===== verification/Program_Start.thy ===== *)
theory Program_Start
  imports Scan_Number Game_Db Admin_Server
begin

text \<open>
  The start of the program (\<open>emulator/emulator.cpp\<close>, \<open>emulator/main.cpp\<close>): the command line, the databases and
  servers that are made from it, and their common run.  The members of \<open>Emulator\<close> are the record \<open>emulator\<close>.  Files
  and standard input, sockets, the databases of players and the runs of the servers, which the
  other theories model, are parameters here.  Shown: which player database is used, when the
  administration page is reachable from other hosts, that asking for help starts nothing, that a
  server that fails does not stop the others, and what the exit status tells.
\<close>

section \<open>State\<close>

text \<open>The options for MySQL; without a port the library's default is used.\<close>

record mysql_params =
  mp_host :: string
  mp_port :: "u16 option"
  mp_username :: string
  mp_password :: string
  mp_database :: string

text \<open>A database of players is a file, or a MySQL server from the command line or from the game's configuration.\<close>

datatype player_source =
    Sqlite_players string
  | Mysql_players mysql_params
  | Game_mysql mysql_env

datatype service = Master | Login | Search | Browser | Cd_key | Stats | Admin | Http

record 'd emulator =
  m_GameDB :: "'d game_db option"
  m_PlayerDB :: "player_source option"
  m_StatsServer :: "(string \<times> u16) option option"
  m_AdminServer :: "(admin_server \<times> u16) option"
  m_HttpServer :: bool

definition new_emulator :: "'d emulator" where
  "new_emulator = \<lparr>m_GameDB = None, m_PlayerDB = None, m_StatsServer = None, m_AdminServer = None, m_HttpServer = False\<rparr>"

text \<open>
  What the outside answers: the configuration read from a file or (\<open>None\<close>) standard input, constructing, connecting and disconnecting
  a database of players, \<open>make_address\<close>, making the I/O context and its signal set, whether a signal ever arrives, binding the socket of a service, and the way the run of a service ends.
\<close>

record ('d, 's) start_env =
  se_sqlite :: "('d, 's) sqlite3"
  se_open_db :: "string \<Rightarrow> exn + 'd"
  se_config :: "string option \<Rightarrow> exn + config_entry list"
  se_make_players :: "player_source \<Rightarrow> exn + unit"
  se_connect_players :: "player_source \<Rightarrow> exn + unit"
  se_disconnect_players :: "player_source \<Rightarrow> exn + unit"
  se_make_address :: "string \<Rightarrow> exn + string"
  se_context :: "exn + unit"
  se_signal :: bool
  se_listen :: "service \<Rightarrow> exn + unit"
  se_run :: "service \<Rightarrow> exn + unit"
  se_base64 :: "string \<Rightarrow> string"

section \<open>Options\<close>

text \<open>\<open>arg.starts_with(name)\<close> and \<open>arg.substr(n)\<close> with the length of the name.\<close>

definition option_value :: "string \<Rightarrow> string \<Rightarrow> string option" where
  "option_value name arg = (if prefix name arg then Some (drop (length name) arg) else None)"

definition wants_help :: "string list \<Rightarrow> bool" where
  "wants_help args = list_ex (\<lambda>arg. arg = ''-h'' \<or> arg = ''/?'' \<or> arg = ''--help'') args"

section \<open>The databases\<close>

fun gamedb_option :: "('d, 's) start_env \<Rightarrow> string list \<Rightarrow> ('d emulator, unit) io" where
  "gamedb_option env [] = ret ()"
| "gamedb_option env (arg # args) =
     (case option_value ''-gamedb='' arg of
        Some filename \<Rightarrow>
          bind_io (lift_exn (se_config env (if filename = ''stdin'' then None else Some filename))) (\<lambda>config.
          bind_io (lift_exn (GameDBInMemory config)) (\<lambda>db. modify (\<lambda>em. em\<lparr>m_GameDB := Some db\<rparr>)))
      | None \<Rightarrow> gamedb_option env args)"

text \<open>An operation of \<open>*m_GameDB\<close>; a null pointer is undefined.\<close>

definition on_gamedb :: "('d game_db, 'a) io \<Rightarrow> ('d emulator, 'a) io" where
  "on_gamedb m = (\<lambda>em. case m_GameDB em of
     None \<Rightarrow> (Inl Undefined_behaviour, em)
   | Some db \<Rightarrow> (case m db of (r, db) \<Rightarrow> (r, em\<lparr>m_GameDB := Some db\<rparr>)))"

definition InitGameDB :: "('d, 's) start_env \<Rightarrow> string list \<Rightarrow> ('d emulator, unit) io" where
  "InitGameDB env args =
     then_io (gamedb_option env args)
       (then_io
          (bind_io (gets m_GameDB) (\<lambda>db.
             if db = None then
               bind_io (lift_exn (GameDBInMemory [])) (\<lambda>db. modify (\<lambda>em. em\<lparr>m_GameDB := Some db\<rparr>))
             else ret ()))
          (on_gamedb (db_Connect (se_sqlite env) (se_open_db env))))"

text \<open>\<open>m_PlayerDB = std::make_unique<...>(...)\<close> and \<open>m_PlayerDB->Connect()\<close>\<close>

definition make_players :: "('d, 's) start_env \<Rightarrow> player_source \<Rightarrow> ('d emulator, unit) io" where
  "make_players env src =
     then_io (lift_exn (se_make_players env src)) (modify (\<lambda>em. em\<lparr>m_PlayerDB := Some src\<rparr>))"

definition connect_players :: "('d, 's) start_env \<Rightarrow> ('d emulator, unit) io" where
  "connect_players env =
     bind_io (gets m_PlayerDB) (\<lambda>src. case src of
       None \<Rightarrow> throw Undefined_behaviour
     | Some src \<Rightarrow> lift_exn (se_connect_players env src))"

text \<open>The loop over the arguments ends at the option for a file.\<close>

fun playerdb_options ::
  "('d, 's) start_env \<Rightarrow> string list \<Rightarrow> mysql_params \<Rightarrow> ('d emulator, mysql_params) io"
where
  "playerdb_options env [] p = ret p"
| "playerdb_options env (arg # args) p =
     (case option_value ''-playerdb='' arg of
        Some filename \<Rightarrow>
          then_io (make_players env (Sqlite_players filename)) (then_io (connect_players env) (ret p))
      | None \<Rightarrow>
     (case option_value ''-playerdb-host='' arg of
        Some host \<Rightarrow> playerdb_options env args (p\<lparr>mp_host := host\<rparr>)
      | None \<Rightarrow>
     (case option_value ''-playerdb-port='' arg of
        Some port \<Rightarrow> bind_io (lift_exn (port_of port)) (\<lambda>port. playerdb_options env args (p\<lparr>mp_port := Some port\<rparr>))
      | None \<Rightarrow>
     (case option_value ''-playerdb-username='' arg of
        Some name \<Rightarrow> playerdb_options env args (p\<lparr>mp_username := name\<rparr>)
      | None \<Rightarrow>
     (case option_value ''-playerdb-password='' arg of
        Some password \<Rightarrow> playerdb_options env args (p\<lparr>mp_password := password\<rparr>)
      | None \<Rightarrow>
     (case option_value ''-playerdb-database='' arg of
        Some database \<Rightarrow> playerdb_options env args (p\<lparr>mp_database := database\<rparr>)
      | None \<Rightarrow> playerdb_options env args p))))))"

definition no_mysql_params :: mysql_params where
  "no_mysql_params = \<lparr>mp_host = [], mp_port = None, mp_username = [], mp_password = [], mp_database = []\<rparr>"

text \<open>\<open>GetConnectionParams\<close> of a game that is a \<open>BF2\<close>.\<close>

definition connection_params :: "'d any_game \<Rightarrow> mysql_env option" where
  "connection_params g = (case g of Bf2_game _ my \<Rightarrow> if mysql_configured my then Some my else None | Base_game _ \<Rightarrow> None)"

definition unless_players :: "('d emulator, unit) io \<Rightarrow> ('d emulator, unit) io" where
  "unless_players m = bind_io (gets m_PlayerDB) (\<lambda>src. if src = None then m else ret ())"

definition InitPlayerDB :: "('d, 's) start_env \<Rightarrow> string list \<Rightarrow> ('d emulator, unit) io" where
  "InitPlayerDB env args =
     bind_io (playerdb_options env args no_mysql_params) (\<lambda>params.
     then_io (unless_players (if mp_host params \<noteq> [] then make_players env (Mysql_players params) else ret ()))
    (then_io (unless_players
       (bind_io (on_gamedb (gets (\<lambda>db. HasGame db ''battlefield2''))) (\<lambda>has.
          if has then
            bind_io (on_gamedb (bind_io (gets (\<lambda>db. GetGame db ''battlefield2'')) lift_exn)) (\<lambda>game.
              case connection_params game of
                Some my \<Rightarrow> make_players env (Game_mysql my)
              | None \<Rightarrow> ret ())
          else ret ())))
    (then_io (unless_players (make_players env (Sqlite_players ''players.sqlite3'')))
       (connect_players env))))"

section \<open>The servers\<close>

record admin_options =
  ao_username :: string
  ao_password :: string
  ao_port :: u16

text \<open>\<open>None\<close>: the administration page is disabled.\<close>

fun admin_options_of :: "string list \<Rightarrow> admin_options \<Rightarrow> exn + admin_options option" where
  "admin_options_of [] opts = Inr (Some opts)"
| "admin_options_of (arg # args) opts =
     (case option_value ''-admin-user='' arg of
        Some v \<Rightarrow> admin_options_of args (opts\<lparr>ao_username := v\<rparr>)
      | None \<Rightarrow>
     (case option_value ''-admin-password='' arg of
        Some v \<Rightarrow> admin_options_of args (opts\<lparr>ao_password := v\<rparr>)
      | None \<Rightarrow>
        if arg = ''-admin-disabled'' \<or> arg = ''-admin-disabled=true'' then Inr None
        else (case option_value ''-admin-port='' arg of
                Some v \<Rightarrow> and_then (port_of v) (\<lambda>port. admin_options_of args (opts\<lparr>ao_port := port\<rparr>))
              | None \<Rightarrow> admin_options_of args opts)))"

definition InitAdminServer :: "('d, 's) start_env \<Rightarrow> string list \<Rightarrow> ('d emulator, unit) io" where
  "InitAdminServer env args =
     bind_io (lift_exn (admin_options_of args \<lparr>ao_username = [], ao_password = [], ao_port = 8081\<rparr>)) (\<lambda>opts.
       case opts of
         None \<Rightarrow> ret ()
       | Some opts \<Rightarrow>
           then_io (lift_exn (se_listen env Admin)) (modify (\<lambda>em.
             em\<lparr>m_AdminServer := Some (new_admin_server (se_base64 env) (ao_username opts) (ao_password opts), ao_port opts)\<rparr>)))"

fun stats_options :: "string list \<Rightarrow> string \<times> u16 option \<Rightarrow> exn + string \<times> u16 option" where
  "stats_options [] opts = Inr opts"
| "stats_options (arg # args) (host, port) =
     (case option_value ''-stats-host='' arg of
        Some v \<Rightarrow> stats_options args (v, port)
      | None \<Rightarrow>
     (case option_value ''-stats-port='' arg of
        Some v \<Rightarrow> and_then (port_of v) (\<lambda>p. stats_options args (host, Some p))
      | None \<Rightarrow> stats_options args (host, port)))"

definition snapshot_endpoint ::
  "(string \<Rightarrow> exn + string) \<Rightarrow> string \<times> u16 option \<Rightarrow> exn + (string \<times> u16) option"
where
  "snapshot_endpoint make_address = (\<lambda>(host, port).
     let (host, port) =
           (if host = [] \<and> port \<noteq> None then (''127.0.0.1'', port)
            else if host \<noteq> [] \<and> port = None then (host, Some 80)
            else (host, port))
     in case port of
          Some p \<Rightarrow> if host \<noteq> [] then and_then (make_address host) (\<lambda>a. Inr (Some (a, p))) else Inr None
        | None \<Rightarrow> Inr None)"

definition InitStatsServer :: "('d, 's) start_env \<Rightarrow> string list \<Rightarrow> ('d emulator, unit) io" where
  "InitStatsServer env args =
     bind_io (lift_exn (and_then (stats_options args ([], None)) (snapshot_endpoint (se_make_address env)))) (\<lambda>ep.
     then_io (lift_exn (se_listen env Stats)) (modify (\<lambda>em. em\<lparr>m_StatsServer := Some ep\<rparr>)))"

definition InitHttpServer :: "('d, 's) start_env \<Rightarrow> string list \<Rightarrow> ('d emulator, unit) io" where
  "InitHttpServer env args =
     (if list_ex (\<lambda>arg. arg = ''-http-enabled'' \<or> arg = ''-http-enabled=true'') args then
        then_io (lift_exn (se_listen env Http)) (modify (\<lambda>em. em\<lparr>m_HttpServer := True\<rparr>))
      else ret ())"

section \<open>Launch\<close>

text \<open>\<open>wrap\<close>: what the run of a service throws is logged.\<close>

definition wrap :: "('d, 's) start_env \<Rightarrow> service \<Rightarrow> ('d emulator, unit) io" where
  "wrap env sv = try_log (lift_exn (se_run env sv))"

text \<open>The services that run side by side; the two optional ones only when they were made.\<close>

definition running :: "'d emulator \<Rightarrow> service list" where
  "running em = [Master, Login, Search, Browser, Cd_key, Stats] @
     (if m_AdminServer em = None then [] else [Admin]) @ (if m_HttpServer em then [Http] else [])"

definition Launch :: "('d, 's) start_env \<Rightarrow> string list \<Rightarrow> ('d emulator, unit) io" where
  "Launch env args =
     (if wants_help args then ret ()
      else
        then_io (InitGameDB env args)
       (then_io (InitPlayerDB env args)
       (then_io (InitAdminServer env args)
       (then_io (InitStatsServer env args)
       (then_io (InitHttpServer env args)
       (then_io (for_each [Master, Login, Search, Browser, Cd_key] (\<lambda>sv. lift_exn (se_listen env sv)))
       (then_io (bind_io (gets running) (\<lambda>services. for_each services (wrap env)))
       (then_io (on_gamedb db_Disconnect)
         (bind_io (gets m_PlayerDB) (\<lambda>src. case src of
            None \<Rightarrow> throw Undefined_behaviour
          | Some src \<Rightarrow> lift_exn (se_disconnect_players env src)))))))))))"

text \<open>
  \<open>main\<close>: the exit status.  \<open>context.run()\<close> waits for the signal set as well, and only a signal or an exception of \<open>Launch\<close>, which
  is logged, stops it: when \<open>Launch\<close> has returned the program goes on waiting.
\<close>

definition gamespy_main :: "('d, 's) start_env \<Rightarrow> string list \<Rightarrow> exn + nat" where
  "gamespy_main env args =
     (case se_context env of
        Inl e \<Rightarrow> if uncatchable e then Inl e else Inr 1
      | Inr _ \<Rightarrow>
         (case fst (Launch env args new_emulator) of
            Inl e \<Rightarrow> if uncatchable e then Inl e else Inr 0
          | Inr _ \<Rightarrow> if se_signal env then Inr 0 else Inl No_return))"

section \<open>Reading the options\<close>

text \<open>The value of the last argument for an option, \<open>d\<close> when there is none.\<close>

definition last_value :: "string \<Rightarrow> string list \<Rightarrow> string option" where
  "last_value name args = (case rev (List.map_filter (option_value name) args) of [] \<Rightarrow> None | v # _ \<Rightarrow> Some v)"

definition or_else :: "'a option \<Rightarrow> 'a \<Rightarrow> 'a" where
  "or_else v d = (case v of None \<Rightarrow> d | Some x \<Rightarrow> x)"

lemma or_else_simps [simp]: "or_else None d = d" "or_else (Some x) d = x"
  by (simp_all add: or_else_def)

lemma last_value_Nil [simp]: "last_value name [] = None"
  by (simp add: last_value_def List.map_filter_def)

lemma last_value_Cons [simp]:
  "last_value name (arg # args) = (case last_value name args of Some v \<Rightarrow> Some v | None \<Rightarrow> option_value name arg)"
  by (auto simp: last_value_def map_filter_simps split: option.splits list.splits)

lemma option_value_other:
  "option_value a arg = Some v \<Longrightarrow> \<not> prefix a b \<Longrightarrow> \<not> prefix b a \<Longrightarrow> option_value b arg = None"
  using prefix_same_cases [of a arg b] by (auto simp: option_value_def split: if_splits)

definition playerdb_names :: "string list" where
  "playerdb_names = [''-playerdb-host='', ''-playerdb-port='', ''-playerdb-username='', ''-playerdb-password='', ''-playerdb-database='']"

lemma playerdb_names_apart:
  "list_all (\<lambda>a. list_all (\<lambda>b. b = a \<or> \<not> prefix a b \<and> \<not> prefix b a) playerdb_names) playerdb_names"
  by code_simp

text \<open>An argument is for one option at most.\<close>

lemma one_option:
  assumes "a \<in> set playerdb_names" and "option_value a arg = Some v"
  shows "\<forall>b \<in> set playerdb_names. b \<noteq> a \<longrightarrow> option_value b arg = None"
proof (intro ballI impI)
  fix b
  assume "b \<in> set playerdb_names" "b \<noteq> a"
  with assms(1) playerdb_names_apart have "\<not> prefix a b" "\<not> prefix b a" unfolding list_all_iff by blast+
  with option_value_other [OF assms(2)] show "option_value b arg = None" .
qed

text \<open>Without a file, every option keeps the value of its last argument.\<close>

lemma playerdb_options_mysql:
  assumes "\<forall>arg \<in> set args. option_value ''-playerdb='' arg = None"
    and "playerdb_options env args p em = (Inr p', em')"
  shows "em' = em \<and> mp_host p' = or_else (last_value ''-playerdb-host='' args) (mp_host p) \<and>
    mp_username p' = or_else (last_value ''-playerdb-username='' args) (mp_username p) \<and>
    mp_password p' = or_else (last_value ''-playerdb-password='' args) (mp_password p) \<and>
    mp_database p' = or_else (last_value ''-playerdb-database='' args) (mp_database p) \<and>
    (case last_value ''-playerdb-port='' args of
       None \<Rightarrow> mp_port p' = mp_port p
     | Some v \<Rightarrow> (\<exists>n. port_of v = Inr n \<and> mp_port p' = Some n))"
  using assms
proof (induction args arbitrary: p)
  case (Cons arg args)
  from Cons.prems(1) have no_file: "option_value ''-playerdb='' arg = None" "\<forall>arg \<in> set args. option_value ''-playerdb='' arg = None"
    by simp_all
  note run = Cons.prems(2) [unfolded playerdb_options.simps no_file option.case]
  show ?case
  proof (cases "\<exists>a \<in> set playerdb_names. option_value a arg \<noteq> None")
    case True
    then obtain a v where a: "a \<in> set playerdb_names" "option_value a arg = Some v" by blast
    note others = one_option [OF a]
    from a(1) consider "a = ''-playerdb-host=''" | "a = ''-playerdb-port=''" | "a = ''-playerdb-username=''"
      | "a = ''-playerdb-password=''" | "a = ''-playerdb-database=''"
      unfolding playerdb_names_def list.set insert_iff empty_iff by blast
    then show ?thesis
    proof cases
      case 1
      note v = a(2) [unfolded 1] others [unfolded 1 playerdb_names_def, simplified]
      from run have "playerdb_options env args (p\<lparr>mp_host := v\<rparr>) em = (Inr p', em')" by (simp add: v)
      from Cons.IH [OF no_file(2) this] show ?thesis by (simp add: v split: option.splits)
    next
      case 2
      note v = a(2) [unfolded 2] others [unfolded 2 playerdb_names_def, simplified]
      from run obtain n where n: "port_of v = Inr n" "playerdb_options env args (p\<lparr>mp_port := Some n\<rparr>) em = (Inr p', em')"
        by (auto simp: v bind_io_Inr lift_exn_def)
      show ?thesis using n(1) Cons.IH [OF no_file(2) n(2)] by (simp add: v split: option.splits)
    next
      case 3
      note v = a(2) [unfolded 3] others [unfolded 3 playerdb_names_def, simplified]
      from run have "playerdb_options env args (p\<lparr>mp_username := v\<rparr>) em = (Inr p', em')" by (simp add: v)
      from Cons.IH [OF no_file(2) this] show ?thesis by (simp add: v split: option.splits)
    next
      case 4
      note v = a(2) [unfolded 4] others [unfolded 4 playerdb_names_def, simplified]
      from run have "playerdb_options env args (p\<lparr>mp_password := v\<rparr>) em = (Inr p', em')" by (simp add: v)
      from Cons.IH [OF no_file(2) this] show ?thesis by (simp add: v split: option.splits)
    next
      case 5
      note v = a(2) [unfolded 5] others [unfolded 5 playerdb_names_def, simplified]
      from run have "playerdb_options env args (p\<lparr>mp_database := v\<rparr>) em = (Inr p', em')" by (simp add: v)
      from Cons.IH [OF no_file(2) this] show ?thesis by (simp add: v split: option.splits)
    qed
  next
    case False
    note v = False [unfolded playerdb_names_def, simplified]
    from run have "playerdb_options env args p em = (Inr p', em')" by (simp add: v)
    from Cons.IH [OF no_file(2) this] show ?thesis by (simp add: v split: option.splits)
  qed
qed (simp add: ret_def)

lemma playerdb_options_file:
  assumes "List.map_filter (option_value ''-playerdb='') args = file # rest"
    and "playerdb_options env args p em = (Inr p', em')"
  shows "em' = em\<lparr>m_PlayerDB := Some (Sqlite_players file)\<rparr>"
  using assms
proof (induction args arbitrary: p)
  case (Cons arg args)
  show ?case
  proof (cases "option_value ''-playerdb='' arg")
    case None
    with Cons show ?thesis
      by (auto simp: map_filter_simps bind_io_Inr lift_exn_def split: option.splits)
  next
    case (Some v)
    with Cons.prems show ?thesis
      by (auto simp: map_filter_simps bind_io_Inr then_io_def lift_exn_def make_players_def connect_players_def
          modify_def gets_def ret_def)
  qed
qed (simp add: map_filter_simps)

section \<open>Starting\<close>

lemma make_players_Inr:
  "make_players env src em = (Inr (), em') \<longleftrightarrow> se_make_players env src = Inr () \<and> em' = em\<lparr>m_PlayerDB := Some src\<rparr>"
  by (auto simp: make_players_def then_io_def bind_io_Inr lift_exn_def modify_def)

lemma connect_players_Inr:
  "connect_players env em = (Inr (), em') \<longleftrightarrow>
     em' = em \<and> (\<exists>src. m_PlayerDB em = Some src \<and> se_connect_players env src = Inr ())"
  by (auto simp: connect_players_def bind_io_Inr gets_def lift_exn_def throw_def split: option.splits)

lemma unless_players_Inr:
  "unless_players m em = (Inr (), em') \<longleftrightarrow> (if m_PlayerDB em = None then m em = (Inr (), em') else em' = em)"
  by (auto simp: unless_players_def bind_io_Inr gets_def ret_def)

lemmas start_simps = make_players_Inr connect_players_Inr unless_players_Inr bind_io_Inr then_io_def on_gamedb_def
  gets_def lift_exn_def ret_def throw_def

text \<open>The game's own database of players, when there is one.\<close>

definition game_players :: "'d game_db \<Rightarrow> mysql_env option" where
  "game_players db = (case GetGame db ''battlefield2'' of Inl e \<Rightarrow> None | Inr g \<Rightarrow> connection_params g)"

lemma HasGame_GetGame: "HasGame db n \<longleftrightarrow> (\<exists>g. GetGame db n = Inr g)"
  by (auto simp: HasGame_def GetGame_def smap_contains_def split: option.splits)

lemma update_same:
  fixes em :: "'d emulator"
  shows "m_GameDB em = x \<Longrightarrow> em\<lparr>m_GameDB := x\<rparr> = em" "m_PlayerDB em = y \<Longrightarrow> em\<lparr>m_PlayerDB := y\<rparr> = em"
  by (cases em; simp)+

lemma from_game:
  assumes "m_GameDB em = Some db" and "m_PlayerDB em = None"
    and "bind_io (on_gamedb (gets (\<lambda>db. HasGame db ''battlefield2''))) (\<lambda>has.
          if has then
            bind_io (on_gamedb (bind_io (gets (\<lambda>db. GetGame db ''battlefield2'')) lift_exn)) (\<lambda>game.
              case connection_params game of
                Some my \<Rightarrow> make_players env (Game_mysql my)
              | None \<Rightarrow> ret ())
          else ret ()) em = (Inr (), em')"
  shows "em' = em\<lparr>m_PlayerDB := map_option Game_mysql (game_players db)\<rparr>"
  using assms
  by (cases "GetGame db ''battlefield2''"; cases "game_players db")
    (auto simp: start_simps game_players_def HasGame_GetGame update_same split: if_splits prod.splits)

section \<open>Properties\<close>

definition sample_start :: "(string, unit) start_env" where
  "sample_start = \<lparr>se_sqlite = quiet_sqlite, se_open_db = (\<lambda>_. Inr ''''), se_config = (\<lambda>_. Inr []), se_make_players = (\<lambda>_. Inr ()),
     se_connect_players = (\<lambda>_. Inr ()), se_disconnect_players = (\<lambda>_. Inr ()), se_make_address = Inr, se_context = Inr (), se_signal = False,
     se_listen = (\<lambda>_. Inr ()), se_run = (\<lambda>_. Inl (Runtime_error ''reset'')), se_base64 = rfc4648_encode\<rparr>"

definition sample_arguments :: "string list" where
  "sample_arguments = [''emulator'', ''-playerdb-host=db'', ''-playerdb-username=root'', ''-playerdb-password=x'']"

definition sample_emulator :: "string emulator" where
  "sample_emulator = new_emulator\<lparr>m_GameDB := Some \<lparr>m_Config = [], m_Games = []\<rparr>\<rparr>"

text \<open>
  C23. Which database of players is used when the start returns: the file of the first \<open>-playerdb=\<close>, whatever else is given; otherwise
  MySQL when the last \<open>-playerdb-host=\<close> is not empty, with the last value of each option (a port is reduced to 16
  bits, none means the default); otherwise the MySQL server of the game \<open>battlefield2\<close>, if its configuration has
  one; otherwise the file \<open>players.sqlite3\<close>.  The chosen database is connected, and the games are untouched.
\<close>

theorem player_source_chosen:
  assumes "m_GameDB em = Some db" and "m_PlayerDB em = None" and "InitPlayerDB env args em = (Inr (), em')"
  shows "\<exists>src. em' = em\<lparr>m_PlayerDB := Some src\<rparr> \<and> se_connect_players env src = Inr () \<and>
    (case List.map_filter (option_value ''-playerdb='') args of
       f # _ \<Rightarrow> src = Sqlite_players f
     | [] \<Rightarrow>
         if or_else (last_value ''-playerdb-host='' args) [] \<noteq> []
         then \<exists>p. src = Mysql_players p \<and> Some (mp_host p) = last_value ''-playerdb-host='' args \<and>
           mp_username p = or_else (last_value ''-playerdb-username='' args) [] \<and>
           mp_password p = or_else (last_value ''-playerdb-password='' args) [] \<and>
           mp_database p = or_else (last_value ''-playerdb-database='' args) [] \<and>
           (case last_value ''-playerdb-port='' args of
              None \<Rightarrow> mp_port p = None
            | Some v \<Rightarrow> (\<exists>n. port_of v = Inr n \<and> mp_port p = Some n))
         else src = (case game_players db of Some my \<Rightarrow> Game_mysql my | None \<Rightarrow> Sqlite_players ''players.sqlite3''))"
proof (cases "List.map_filter (option_value ''-playerdb='') args")
  case Nil
  then have none: "\<forall>arg \<in> set args. option_value ''-playerdb='' arg = None"
    by (auto simp: List.map_filter_def filter_empty_conv)
  from assms(3) obtain p em1 em2 em3 where r:
    "playerdb_options env args no_mysql_params em = (Inr p, em1)"
    "unless_players (if mp_host p \<noteq> [] then make_players env (Mysql_players p) else ret ()) em1 = (Inr (), em2)"
    and g: "unless_players
       (bind_io (on_gamedb (gets (\<lambda>db. HasGame db ''battlefield2''))) (\<lambda>has.
          if has then
            bind_io (on_gamedb (bind_io (gets (\<lambda>db. GetGame db ''battlefield2'')) lift_exn)) (\<lambda>game.
              case connection_params game of
                Some my \<Rightarrow> make_players env (Game_mysql my)
              | None \<Rightarrow> ret ())
          else ret ())) em2 = (Inr (), em3)"
    and l: "then_io (unless_players (make_players env (Sqlite_players ''players.sqlite3''))) (connect_players env) em3 = (Inr (), em')"
    unfolding InitPlayerDB_def then_io_def bind_io_Inr by auto
  note p = playerdb_options_mysql [OF none r(1), unfolded no_mysql_params_def, simplified]
  show ?thesis
  proof (cases "mp_host p = []")
    case True
    with r(2) p assms(2) have "em2 = em" by (simp add: unless_players_Inr ret_def)
    with g from_game [OF assms(1,2), of env em3] assms(2)
    have "em3 = em\<lparr>m_PlayerDB := map_option Game_mysql (game_players db)\<rparr>" by (simp add: unless_players_Inr)
    with l True p Nil show ?thesis
      by (cases "game_players db") (auto simp: start_simps)
  next
    case False
    with r(2) p assms(2) have "em2 = em\<lparr>m_PlayerDB := Some (Mysql_players p)\<rparr>" by (simp add: unless_players_Inr make_players_Inr)
    with g l have "em' = em\<lparr>m_PlayerDB := Some (Mysql_players p)\<rparr>" "se_connect_players env (Mysql_players p) = Inr ()"
      by (auto simp: unless_players_Inr then_io_def bind_io_Inr connect_players_Inr)
    with False p Nil show ?thesis by (auto simp: or_else_def split: option.splits)
  qed
next
  case (Cons f rest)
  from assms(3) obtain p em1 where r: "playerdb_options env args no_mysql_params em = (Inr p, em1)"
    and l: "then_io (unless_players (if mp_host p \<noteq> [] then make_players env (Mysql_players p) else ret ()))
    (then_io (unless_players
       (bind_io (on_gamedb (gets (\<lambda>db. HasGame db ''battlefield2''))) (\<lambda>has.
          if has then
            bind_io (on_gamedb (bind_io (gets (\<lambda>db. GetGame db ''battlefield2'')) lift_exn)) (\<lambda>game.
              case connection_params game of
                Some my \<Rightarrow> make_players env (Game_mysql my)
              | None \<Rightarrow> ret ())
          else ret ())))
    (then_io (unless_players (make_players env (Sqlite_players ''players.sqlite3'')))
       (connect_players env))) em1 = (Inr (), em')"
    unfolding InitPlayerDB_def bind_io_Inr by auto
  with playerdb_options_file [OF Cons r] Cons show ?thesis
    by (auto simp: then_io_def bind_io_Inr unless_players_Inr connect_players_Inr)
qed


lemma sample_players_start: "fst (InitPlayerDB sample_start sample_arguments sample_emulator) = Inr ()"
  by code_simp

lemma sample_options:
  "List.map_filter (option_value ''-playerdb='') sample_arguments = []"
  "last_value ''-playerdb-host='' sample_arguments = Some ''db''"
  by (code_simp, code_simp)

theorem player_source_chosen_witness:
  "\<exists>em' p. InitPlayerDB sample_start sample_arguments sample_emulator = (Inr (), em') \<and>
     m_PlayerDB em' = Some (Mysql_players p) \<and> mp_host p = ''db''"
proof -
  obtain em' where run: "InitPlayerDB sample_start sample_arguments sample_emulator = (Inr (), em')"
    using sample_players_start by (metis prod.collapse)
  have em: "m_GameDB sample_emulator = Some \<lparr>m_Config = [], m_Games = []\<rparr>" "m_PlayerDB sample_emulator = None"
    by (simp_all add: sample_emulator_def new_emulator_def)
  show ?thesis using player_source_chosen [OF em run] run by (auto simp: sample_options)
qed


section \<open>The administration page and the statistics server\<close>

lemma admin_options_of_Some:
  assumes "admin_options_of args opts = Inr (Some opts')"
  shows "ao_username opts' = or_else (last_value ''-admin-user='' args) (ao_username opts) \<and>
    ao_password opts' = or_else (last_value ''-admin-password='' args) (ao_password opts) \<and>
    ''-admin-disabled'' \<notin> set args \<and> ''-admin-disabled=true'' \<notin> set args"
  using assms
proof (induction args arbitrary: opts)
  case (Cons arg args)
  consider (user) v where "option_value ''-admin-user='' arg = Some v"
    | (password) v where "option_value ''-admin-user='' arg = None" "option_value ''-admin-password='' arg = Some v"
    | (other) "option_value ''-admin-user='' arg = None" "option_value ''-admin-password='' arg = None"
    by (cases "option_value ''-admin-user='' arg"; cases "option_value ''-admin-password='' arg") auto
  then show ?case
  proof cases
    case user
    then have "option_value ''-admin-password='' arg = None" by (rule option_value_other) auto
    moreover from user have "arg \<noteq> ''-admin-disabled''" "arg \<noteq> ''-admin-disabled=true''"
      by (auto simp: option_value_def split: if_splits)
    ultimately show ?thesis using user Cons.prems Cons.IH [of "opts\<lparr>ao_username := v\<rparr>"] by (simp add: or_else_def split: option.splits)
  next
    case password
    then have "arg \<noteq> ''-admin-disabled''" "arg \<noteq> ''-admin-disabled=true''" by (auto simp: option_value_def split: if_splits)
    with password Cons.prems Cons.IH [of "opts\<lparr>ao_password := v\<rparr>"] show ?thesis by (simp add: or_else_def split: option.splits)
  next
    case other
    show ?thesis
    proof (cases "option_value ''-admin-port='' arg")
      case None
      with other Cons.prems Cons.IH [of opts] show ?thesis by (auto split: option.splits if_splits)
    next
      case (Some v)
      with other Cons.prems obtain n where "admin_options_of args (opts\<lparr>ao_port := n\<rparr>) = Inr (Some opts')"
        "arg \<noteq> ''-admin-disabled''" "arg \<noteq> ''-admin-disabled=true''" by (auto simp: and_then_eq_Inr split: if_splits)
      with other Cons.IH [of "opts\<lparr>ao_port := n\<rparr>"] show ?thesis by (auto split: option.splits)
    qed
  qed
qed simp

lemma last_value_member: "last_value name args = Some v \<Longrightarrow> name @ v \<in> set args"
  by (induction args) (auto simp: option_value_def prefix_def split: option.splits if_splits)

text \<open>
  C22. When the start has made an administration server that other hosts can reach, the command line has a user name
  and a password, neither empty, and no switch that disables it; and a request from another host to
  this server is refused without touching the games unless its credentials are that name and password.
\<close>

theorem admin_reachable_with_credentials:
  assumes "base64_codec (se_base64 env) dec64" and "\<forall>arg \<in> set args. NUL \<notin> set arg"
    and "m_AdminServer em = None" and "InitAdminServer env args em = (Inr (), em')"
    and "m_AdminServer em' = Some (server, port)" and "\<not> am_loopback_only server"
    and "\<not> peer_loopback peer" and "\<not> peer_is_host peer"
    and "admin_Run aenv (am_Auth server) peer (Some rq) db = (r, db')"
  shows "\<exists>user password. last_value ''-admin-user='' args = Some user \<and> user \<noteq> [] \<and>
    last_value ''-admin-password='' args = Some password \<and> password \<noteq> [] \<and>
    ''-admin-disabled'' \<notin> set args \<and> ''-admin-disabled=true'' \<notin> set args \<and>
    ((r = Inr (Some Unauthorized) \<and> db' = db) \<or>
     (\<exists>h. adm_authorization rq = Some (''Basic '' @ h) \<and> base64_decode dec64 h = Some (user @ '':'' @ password)))"
proof -
  from assms(3,4,5) obtain opts where opts:
    "admin_options_of args \<lparr>ao_username = [], ao_password = [], ao_port = 8081\<rparr> = Inr (Some opts)"
    "server = new_admin_server (se_base64 env) (ao_username opts) (ao_password opts)"
    by (auto simp: InitAdminServer_def start_simps modify_def split: option.splits)
  from opts(2) assms(6) have ne: "ao_username opts \<noteq> []" "ao_password opts \<noteq> []"
    by (auto simp: new_admin_server_def split: if_splits)
  note v = admin_options_of_Some [OF opts(1), simplified]
  with ne have user: "last_value ''-admin-user='' args = Some (ao_username opts)"
    and password: "last_value ''-admin-password='' args = Some (ao_password opts)"
    by (auto simp: or_else_def split: option.splits)
  from last_value_member [OF password] assms(2) have "NUL \<notin> set (ao_password opts)" by fastforce
  then have "last (ao_password opts) \<noteq> NUL" using last_in_set [OF ne(2)] by metis
  from remote_needs_credentials [OF assms(1) ne(2) this assms(7,8) ne(1) assms(9) [unfolded opts(2)]] user password v ne
  show ?thesis by blast
qed

lemma stats_options_last:
  "stats_options args (host, port) = Inr (host', port') \<Longrightarrow>
     host' = or_else (last_value ''-stats-host='' args) host \<and>
     (case last_value ''-stats-port='' args of None \<Rightarrow> port' = port | Some v \<Rightarrow> \<exists>p. port_of v = Inr p \<and> port' = Some p)"
proof (induction args arbitrary: host port)
  case (Cons arg args)
  show ?case
  proof (cases "option_value ''-stats-host='' arg")
    case None
    with Cons show ?thesis by (auto simp: and_then_eq_Inr or_else_def split: option.splits)
  next
    case (Some v)
    then have "option_value ''-stats-port='' arg = None" by (rule option_value_other) auto
    with Some Cons.prems Cons.IH [of v port] show ?thesis by (auto simp: or_else_def split: option.splits)
  qed
qed simp

text \<open>
  Where snapshots are forwarded to when the start returns: nowhere without options; otherwise to the last host given, the
  local one when only a port is given, and to the last port given, 80 when only a host is; the
  host must be an address.
\<close>

theorem snapshot_endpoint_chosen:
  assumes "InitStatsServer env args em = (Inr (), em')"
  shows "if or_else (last_value ''-stats-host='' args) [] = [] \<and> last_value ''-stats-port='' args = None
    then m_StatsServer em' = Some None
    else \<exists>a p. m_StatsServer em' = Some (Some (a, p)) \<and>
      se_make_address env (if or_else (last_value ''-stats-host='' args) [] = [] then ''127.0.0.1''
        else or_else (last_value ''-stats-host='' args) []) = Inr a \<and>
      (case last_value ''-stats-port='' args of None \<Rightarrow> p = 80 | Some v \<Rightarrow> port_of v = Inr p)"
proof -
  from assms obtain host port ep where "stats_options args ([], None) = Inr (host, port)"
    "snapshot_endpoint (se_make_address env) (host, port) = Inr ep" "m_StatsServer em' = Some ep"
    by (auto simp: InitStatsServer_def start_simps modify_def and_then_eq_Inr)
  with stats_options_last [OF this(1)] show ?thesis
    by (auto simp: snapshot_endpoint_def and_then_eq_Inr split: option.splits if_splits)
qed

lemma sample_start_simps: "se_make_address sample_start = Inr" "se_base64 sample_start = rfc4648_encode"
  by (simp_all add: sample_start_def)

definition admin_arguments :: "string list" where
  "admin_arguments = [''emulator'', ''-admin-user=admin'', ''-admin-password=secret'']"

lemma sample_admin_start:
  "InitAdminServer sample_start admin_arguments new_emulator =
     (Inr (), (new_emulator :: string emulator)\<lparr>m_AdminServer := Some (new_admin_server rfc4648_encode ''admin'' ''secret'', 8081)\<rparr>)"
  by (simp add: InitAdminServer_def admin_arguments_def option_value_def sample_start_def bind_io_def then_io_def lift_exn_def modify_def)

theorem admin_reachable_with_credentials_witness:
  "last_value ''-admin-user='' admin_arguments = Some ''admin'' \<and>
   fst (admin_Run sample_admin (am_Auth (new_admin_server rfc4648_encode ''admin'' ''secret'')) remote_peer
     (Some \<lparr>adm_method = Verb_get, adm_authorization = None, adm_target = Some (''/'', [])\<rparr>) sample_games) =
   Inr (Some Unauthorized)"
proof -
  let ?rq = "\<lparr>adm_method = Verb_get, adm_authorization = None, adm_target = Some (''/'', [])\<rparr>"
  let ?server = "new_admin_server rfc4648_encode ''admin'' ''secret''"
  obtain r db' where run: "admin_Run sample_admin (am_Auth ?server) remote_peer (Some ?rq) sample_games = (r, db')"
    by fastforce
  have args: "\<forall>arg \<in> set admin_arguments. NUL \<notin> set arg" "last_value ''-admin-user='' admin_arguments = Some ''admin''"
    by (simp_all add: admin_arguments_def option_value_def)
  have started: "m_AdminServer (new_emulator :: string emulator) = None"
    "m_AdminServer ((new_emulator :: string emulator)\<lparr>m_AdminServer := Some (?server, 8081)\<rparr>) = Some (?server, 8081)"
    "\<not> am_loopback_only ?server" "\<not> peer_loopback remote_peer" "\<not> peer_is_host remote_peer"
    by (simp_all add: new_emulator_def new_admin_server_def remote_peer_def)
  have codec: "base64_codec (se_base64 sample_start) rfc4648_decode"
    unfolding sample_start_simps by (rule rfc4648.base64_codec_axioms)
  show ?thesis
    using admin_reachable_with_credentials [OF codec args(1) started(1) sample_admin_start started(2-5) run] run args(2) by auto
qed

lemma sample_stats_start:
  "InitStatsServer sample_start [''emulator'', ''-stats-host=10.0.0.1''] new_emulator =
     (Inr (), (new_emulator :: string emulator)\<lparr>m_StatsServer := Some (Some (''10.0.0.1'', 80))\<rparr>)"
  by (simp add: InitStatsServer_def option_value_def snapshot_endpoint_def sample_start_def bind_io_def then_io_def lift_exn_def
      modify_def and_then_def)

theorem snapshot_endpoint_chosen_witness:
  "\<exists>p. m_StatsServer (snd (InitStatsServer sample_start [''emulator'', ''-stats-host=10.0.0.1''] (new_emulator :: string emulator))) =
     Some (Some (''10.0.0.1'', p)) \<and> p = 80"
  using snapshot_endpoint_chosen [OF sample_stats_start]
  by (simp add: sample_stats_start option_value_def sample_start_simps)

section \<open>Running\<close>

lemma gamedb_option_run: "gamedb_option (env\<lparr>se_run := f\<rparr>) args = gamedb_option env args"
  by (induction args) (simp_all split: option.splits)

lemma players_run:
  "make_players (env\<lparr>se_run := f\<rparr>) = make_players env" "connect_players (env\<lparr>se_run := f\<rparr>) = connect_players env"
  by (auto simp: make_players_def connect_players_def fun_eq_iff)

lemma playerdb_options_run: "playerdb_options (env\<lparr>se_run := f\<rparr>) args p = playerdb_options env args p"
proof (induction args arbitrary: p)
  case (Cons arg args)
  then show ?case by (simp add: players_run split: option.splits)
qed simp

lemma init_run:
  "InitGameDB (env\<lparr>se_run := f\<rparr>) args = InitGameDB env args"
  "InitPlayerDB (env\<lparr>se_run := f\<rparr>) args = InitPlayerDB env args"
  "InitAdminServer (env\<lparr>se_run := f\<rparr>) args = InitAdminServer env args"
  "InitStatsServer (env\<lparr>se_run := f\<rparr>) args = InitStatsServer env args"
  "InitHttpServer (env\<lparr>se_run := f\<rparr>) args = InitHttpServer env args"
  by (simp_all add: InitGameDB_def InitPlayerDB_def InitAdminServer_def InitStatsServer_def InitHttpServer_def
      gamedb_option_run playerdb_options_run players_run cong: option.case_cong if_cong)

lemma wrap_catches: "(\<And>e. se_run env sv = Inl e \<Longrightarrow> \<not> uncatchable e) \<Longrightarrow> wrap env sv = ret ()"
  by (rule ext) (auto simp: wrap_def try_log_def lift_exn_def ret_def split: sum.splits)



text \<open>
  The end of the program.  Started with a request for help it prints the text and then waits for a signal, like after
  every start that succeeds; and a start that fails ends with the exit status 0 of success.
\<close>

theorem exit_status:
  assumes "se_context env = Inr ()"
  shows "(wants_help args \<longrightarrow> gamespy_main env args = (if se_signal env then Inr 0 else Inl No_return)) \<and>
    (\<forall>e. fst (Launch env args new_emulator) = Inl e \<and> \<not> uncatchable e \<longrightarrow> gamespy_main env args = Inr 0) \<and>
    gamespy_main env args \<noteq> Inr 1"
  using assms by (auto simp: gamespy_main_def Launch_def ret_def split: sum.splits)

theorem exit_status_witness:
  "gamespy_main sample_start [''emulator'', ''--help''] = Inl No_return"
  using exit_status [of sample_start "[''emulator'', ''--help'']"]
  by (simp add: wants_help_def) (simp add: sample_start_def)

end
