(* ===== verification/Redirect.thy ===== *)
theory Redirect
  imports Master_Server
begin

text \<open>
  The library that a game loads to redirect its name lookups (\<open>redirect/main.cpp\<close>): the command line of
  the game, the search for a master server in the local network, the two replaced lookup functions, the libraries it
  loads next, and the texts of Windows errors.  Winsock, Detours, the file system and the game's own lookups are parameters; wide
  strings are their UTF-8 texts, except for the error texts, which the library converts.  Shown: a search is answered exactly by a master server that has the game, so that the
  redirection goes to this server; what lookups return; which libraries are loaded in
  which order; and that detaching restores the lookups.
\<close>

section \<open>State\<close>

text \<open>
  The globals; an address is its four bytes in network order.  \<open>rd_hosts\<close> is the \<open>thread_local\<close> string \<open>host\<close> of
  every thread, and \<open>rd_attached\<close> tells whether the lookups of the process are replaced.
\<close>

record redirect =
  g_redirect_address :: bytes
  g_detours_error :: int
  rd_hosts :: "nat \<Rightarrow> string option"
  rd_attached :: bool
  rd_loaded :: "string list"

definition initial_redirect :: redirect where
  "initial_redirect = \<lparr>g_redirect_address = [0, 0, 0, 0], g_detours_error = - 1, rd_hosts = (\<lambda>_. None),
     rd_attached = False, rd_loaded = []\<rparr>"

text \<open>
  What the outside answers: the start of Winsock, \<open>GetAddrInfoW\<close>, making the socket and its broadcast option, a broadcast
  and the first answer to it (\<open>None\<close> when sending fails or nothing arrives in time) with its sender, the user's choice, the results of the two
  transactions, and the directory with what is a regular file.  \<open>rd_gamename\<close> is the macro \<open>GAMESPY_GAMENAME\<close>.
\<close>

record redirect_env =
  rd_gamename :: string
  rd_startup :: "exn + unit"
  rd_resolve :: "string \<Rightarrow> exn + bytes"
  rd_socket :: "exn + unit"
  rd_exchange :: "bytes \<Rightarrow> (bytes \<times> bytes) option"
  rd_continue :: bool
  rd_commit_attach :: int
  rd_commit_detach :: int
  rd_files :: "(string \<times> bool) list"

section \<open>Lookups\<close>

definition should_redirect :: "string option \<Rightarrow> bool" where
  "should_redirect name =
     (case name of None \<Rightarrow> False | Some n \<Rightarrow> sv_find ''gamespy'' n \<noteq> None \<or> sv_find ''dice.se'' n \<noteq> None)"

text \<open>The answer: the library's own entry with its name and address, or what the original function returns.\<close>

datatype host_answer = Own_entry string bytes | Original_answer "string option"

text \<open>\<open>thread_local auto host = std::string{ name }\<close> is initialised by the first call only.\<close>

definition redirect_gethostbyname :: "nat \<Rightarrow> string option \<Rightarrow> (redirect, host_answer) io" where
  "redirect_gethostbyname thread name =
     (if should_redirect name then
        (case name of
           None \<Rightarrow> throw Undefined_behaviour
         | Some n \<Rightarrow>
             bind_io (gets (\<lambda>st. rd_hosts st thread)) (\<lambda>host.
             let h = (case host of Some h \<Rightarrow> h | None \<Rightarrow> n) in
             then_io (modify (\<lambda>st. st\<lparr>rd_hosts := (rd_hosts st)(thread := Some h)\<rparr>))
               (bind_io (gets g_redirect_address) (\<lambda>address. ret (Own_entry h address)))))
      else ret (Original_answer name))"

text \<open>\<open>getaddrinfo\<close>: the original function, which is given the address in place of the name; \<open>Inl\<close> is \<open>EAI_FAIL\<close>.\<close>

definition redirect_getaddrinfo ::
  "(bytes \<Rightarrow> string option) \<Rightarrow> (string option \<Rightarrow> 'q \<Rightarrow> 'r) \<Rightarrow> string option \<Rightarrow> 'q \<Rightarrow> redirect \<Rightarrow> unit + 'r"
where
  "redirect_getaddrinfo inet_ntop gs_getaddrinfo name hints st =
     (if should_redirect name then
        (case inet_ntop (g_redirect_address st) of
           None \<Rightarrow> Inl ()
         | Some ip \<Rightarrow> Inr (gs_getaddrinfo (Some ip) hints))
      else Inr (gs_getaddrinfo name hints))"

section \<open>Finding the master server\<close>

definition available_packet :: "string \<Rightarrow> bytes" where
  "available_packet game = [9, 0, 0, 0, 0] @ bytes_of game @ [0]"

text \<open>A datagram longer than the buffer of 8 bytes is an error of \<open>recvfrom\<close>.\<close>

definition detect_gamespy :: "redirect_env \<Rightarrow> string \<Rightarrow> (redirect, bool) io" where
  "detect_gamespy env game =
     then_io (lift_exn (rd_socket env))
       (case rd_exchange env (available_packet game) of
          None \<Rightarrow> ret False
        | Some (address, answer) \<Rightarrow>
            if length answer > 8 then ret False
            else then_io (modify (\<lambda>st. st\<lparr>g_redirect_address := address\<rparr>)) (ret True))"

section \<open>Attaching\<close>

text \<open>The loop over the arguments: each one but the last, with the one after it.\<close>

fun redirect_arguments :: "redirect_env \<Rightarrow> string list \<Rightarrow> string \<Rightarrow> (redirect, string) io" where
  "redirect_arguments env (arg # val # args) game =
     (if arg = ''+gamename'' then redirect_arguments env (val # args) val
      else if arg = ''+gamespy'' then
        bind_io (lift_exn (rd_resolve env val)) (\<lambda>address.
        then_io (modify (\<lambda>st. st\<lparr>g_redirect_address := address\<rparr>)) (redirect_arguments env (val # args) game))
      else redirect_arguments env (val # args) game)"
| "redirect_arguments env args game = ret game"

definition commit_attach :: "redirect_env \<Rightarrow> (redirect, bool) io" where
  "commit_attach env =
     then_io (modify (\<lambda>st. st\<lparr>g_detours_error := rd_commit_attach env, rd_attached := (rd_commit_attach env = 0 \<or> rd_attached st)\<rparr>))
       (ret (rd_commit_attach env = 0))"

definition detour_gethostbyname :: "redirect_env \<Rightarrow> string list \<Rightarrow> (redirect, bool) io" where
  "detour_gethostbyname env argv =
     then_io (lift_exn (rd_startup env))
       (bind_io (redirect_arguments env argv (rd_gamename env)) (\<lambda>game.
        bind_io (gets g_redirect_address) (\<lambda>address.
          if address = [0, 0, 0, 0] then
            bind_io (detect_gamespy env game) (\<lambda>found. if \<not> found then ret (rd_continue env) else commit_attach env)
          else commit_attach env)))"

section \<open>The libraries that are loaded\<close>

text \<open>
  The pattern \<open>.*-(\d+)-inject\.dll\<close>, letters of either case.  The digits reach back to the dash, so there is one
  match only; a number that is no \<open>unsigned long\<close> (32 bits) throws.
\<close>

definition inject_number :: "string \<Rightarrow> nat option" where
  "inject_number filename =
     (let n = length filename - length ''-inject.dll'';
          digits = takeWhile is_digit (rev (take n filename));
          rest = dropWhile is_digit (rev (take n filename))
      in if length ''-inject.dll'' \<le> length filename \<and> map tolower_char (drop n filename) = ''-inject.dll'' \<and>
            digits \<noteq> [] \<and> rest \<noteq> [] \<and> hd rest = CHR ''-''
         then Some (digits_val (rev digits)) else None)"

fun inject_scan ::
  "(string \<times> bool) list \<Rightarrow> (nat, string) std_map \<Rightarrow> string list \<Rightarrow> exn + (nat, string) std_map \<times> string list"
where
  "inject_scan [] dlls unordered = Inr (dlls, unordered)"
| "inject_scan ((filename, regular) # files) dlls unordered =
     (if \<not> regular then inject_scan files dlls unordered
      else (case inject_number filename of
          Some num \<Rightarrow>
            if num < 2 ^ 32 then inject_scan files (smap_assign num filename dlls) unordered else Inl Out_of_range
        | None \<Rightarrow>
            if suffix ''inject.dll'' filename then inject_scan files dlls (unordered @ [filename])
            else inject_scan files dlls unordered))"

definition inject_order :: "(string \<times> bool) list \<Rightarrow> exn + string list" where
  "inject_order files = and_then (inject_scan files [] []) (\<lambda>(dlls, unordered). Inr (map snd dlls @ unordered))"

section \<open>DllMain\<close>

text \<open>The libraries are loaded unless the redirection answers \<open>false\<close>, also when it has thrown.\<close>

definition load_libraries :: "redirect_env \<Rightarrow> (redirect, bool) io" where
  "load_libraries env =
     bind_io (lift_exn (inject_order (rd_files env))) (\<lambda>paths.
     then_io (modify (\<lambda>st. st\<lparr>rd_loaded := rd_loaded st @ paths\<rparr>)) (ret True))"

definition redirect_attach :: "redirect_env \<Rightarrow> string list \<Rightarrow> (redirect, bool) io" where
  "redirect_attach env argv = (\<lambda>st.
     case detour_gethostbyname env argv st of
       (Inr ok, st) \<Rightarrow> if \<not> ok then (Inr False, st) else load_libraries env st
     | (Inl e, st) \<Rightarrow> if uncatchable e then (Inl e, st) else load_libraries env st)"

definition redirect_detach :: "redirect_env \<Rightarrow> (redirect, bool) io" where
  "redirect_detach env =
     bind_io (gets g_detours_error) (\<lambda>error.
     then_io
       (if error = 0 then
          modify (\<lambda>st. st\<lparr>g_detours_error := rd_commit_detach env, rd_attached := (rd_commit_detach env \<noteq> 0 \<and> rd_attached st)\<rparr>)
        else modify (\<lambda>st. st\<lparr>g_detours_error := 0\<rparr>))
       (bind_io (gets g_detours_error) (\<lambda>error. ret (error = 0))))"

section \<open>The search\<close>

text \<open>
  A network with a master server: the answer to a datagram from \<open>client\<close> is the first datagram that the master, at \<open>address\<close>,
  sends to this end point when it takes the datagram from its socket.
\<close>

definition lan_answer ::
  "('d, 's) ms_env \<Rightarrow> int \<Rightarrow> string \<Rightarrow> endpoint \<Rightarrow> bytes \<Rightarrow> 'd master \<Rightarrow> bytes \<Rightarrow> (bytes \<times> bytes) option"
where
  "lan_answer env now rnd client address m packet =
     (case filter (\<lambda>(c, _). c = client) (drop (length (ms_sent m)) (ms_sent (snd (AcceptOne env now rnd client packet m)))) of
        [] \<Rightarrow> None
      | (_, answer) # _ \<Rightarrow> Some (address, answer))"

lemma available_packet_parsed:
  "qr_parse (available_packet game) =
     Inr \<lparr>type_of_packet = prequery_ip_verify, instance_key = [0, 0, 0, 0], qr_data = bytes_of game @ [0]\<rparr>"
  by (simp add: qr_parse_def available_packet_def qr_type_code_def qr_type_of_def qr_types_def)

lemma length_available_packet: "length (available_packet game) = length game + 6"
  by (simp add: available_packet_def)

lemma length_availability_reply: "length (availability_reply a) = 8"
  by (simp add: availability_reply_def)

lemma HandleAvailable_known:
  assumes "HasGame (ms_games m) game" and "\<And>bs. ms_send env client bs = Inr ()"
  shows "\<exists>a. HandleAvailable env client \<lparr>type_of_packet = prequery_ip_verify, instance_key = k, qr_data = bytes_of game @ [0]\<rparr> m =
    (Inr (), m\<lparr>ms_sent := ms_sent m @ [(client, availability_reply a)]\<rparr>)"
proof -
  from get_game_data_Inr [OF assms(1)] obtain g where "GetGame (ms_games m) game = Inr g" "get_game_data game m = (Inr (m_Data (as_game g)), m)" by blast
  then show ?thesis using assms
    by (auto simp: HandleAvailable_def bind_io_def gets_def send_to_eq intro!: exI [of _ "gd_availability (m_Data (as_game g))"])
qed

lemma HandleAvailable_unknown:
  assumes "\<not> HasGame (ms_games m) game"
  shows "HandleAvailable env client \<lparr>type_of_packet = prequery_ip_verify, instance_key = k, qr_data = bytes_of game @ [0]\<rparr> m = (Inr (), m)"
  using assms by (simp add: HandleAvailable_def bind_io_def gets_def ret_def)

lemma lan_answer_available:
  assumes "ms_accepting m" and "length game + 6 \<le> receive_size" and "\<And>bs. ms_send env client bs = Inr ()"
  shows "if HasGame (ms_games m) game
    then \<exists>a. lan_answer env now rnd client address m (available_packet game) = Some (address, availability_reply a)
    else lan_answer env now rnd client address m (available_packet game) = None"
proof -
  let ?p = "available_packet game"
  let ?m = "m\<lparr>ms_buff := ?p @ drop (length ?p) (ms_buff m)\<rparr>"
  let ?q = "\<lparr>type_of_packet = prequery_ip_verify, instance_key = [0, 0, 0, 0], qr_data = bytes_of game @ [0]\<rparr>"
  have p: "take receive_size ?p = ?p" "?p \<noteq> []" using assms(2) by (simp_all add: available_packet_def)
  have step: "snd (AcceptOne env now rnd client ?p m) = snd (HandleAvailable env client ?q ?m)"
    using assms(1) p by (auto simp: AcceptOne_def bind_io_def then_io_def gets_def modify_def Let_def try_log_def
        dispatch_def available_packet_parsed split: prod.splits sum.splits)
  show ?thesis
  proof (cases "HasGame (ms_games m) game")
    case True
    then have "HasGame (ms_games ?m) game" by simp
    from HandleAvailable_known [OF this assms(3), where k = "[0, 0, 0, 0]"]
    obtain a where "HandleAvailable env client ?q ?m = (Inr (), ?m\<lparr>ms_sent := ms_sent ?m @ [(client, availability_reply a)]\<rparr>)"
      by blast
    with step True show ?thesis by (auto simp: lan_answer_def)
  next
    case False
    then have "\<not> HasGame (ms_games ?m) game" by simp
    from HandleAvailable_unknown [OF this, where k = "[0, 0, 0, 0]" and env = env and client = client] step False
    show ?thesis by (simp add: lan_answer_def)
  qed
qed

text \<open>
  C8. The search of the client and the master server agree: in a network with a master server that is running, the search for a
  game succeeds exactly when this server has the game, and then names containing
  \<open>gamespy\<close> or \<open>dice.se\<close> are answered with the address of this server.
\<close>

theorem search_finds_the_master:
  assumes "ms_accepting m" and "length game + 6 \<le> receive_size" and "\<forall>bs. ms_send env client bs = Inr ()"
    and "rd_socket renv = Inr ()" and "rd_exchange renv = lan_answer env now rnd client address m"
    and "detect_gamespy renv game st = (r, st')"
  shows "r = Inr (HasGame (ms_games m) game) \<and>
    (if HasGame (ms_games m) game
     then g_redirect_address st' = address \<and>
       (\<forall>thread n. should_redirect (Some n) \<longrightarrow> (\<exists>h. fst (redirect_gethostbyname thread (Some n) st') = Inr (Own_entry h address)))
     else st' = st)"
proof -
  have send: "\<And>bs. ms_send env client bs = Inr ()" using assms(3) by blast
  show ?thesis
    using lan_answer_available [OF assms(1,2) send, where now = now and rnd = rnd and address = address] assms(4-6)
    by (auto simp: detect_gamespy_def then_io_def bind_io_def lift_exn_def ret_def modify_def gets_def length_availability_reply
        redirect_gethostbyname_def Let_def split: if_splits)
qed

section \<open>Lookups\<close>

text \<open>The answers to a sequence of lookups, each by a thread.\<close>

fun lookups :: "(nat \<times> string option) list \<Rightarrow> redirect \<Rightarrow> host_answer list" where
  "lookups [] st = []"
| "lookups ((thread, name) # ls) st =
     (case redirect_gethostbyname thread name st of
        (Inr a, st) \<Rightarrow> a # lookups ls st
      | (Inl _, st) \<Rightarrow> [])"

definition first_host :: "(nat \<Rightarrow> string option) \<Rightarrow> (nat \<times> string option) list \<Rightarrow> nat \<Rightarrow> string option" where
  "first_host hosts ls thread =
     (case hosts thread of
        Some h \<Rightarrow> Some h
      | None \<Rightarrow> (case filter (\<lambda>(t, n). t = thread \<and> should_redirect n) ls of [] \<Rightarrow> None | (_, n) # _ \<Rightarrow> n))"

lemma should_redirect_None [simp]: "\<not> should_redirect None"
  by (simp add: should_redirect_def)

lemma redirect_gethostbyname_eq:
  "redirect_gethostbyname thread name st =
     (if should_redirect name
      then let h = (case rd_hosts st thread of Some h \<Rightarrow> h | None \<Rightarrow> the name) in
        (Inr (Own_entry h (g_redirect_address st)), st\<lparr>rd_hosts := (rd_hosts st)(thread := Some h)\<rparr>)
      else (Inr (Original_answer name), st))"
  by (cases name) (auto simp: redirect_gethostbyname_def bind_io_def then_io_def gets_def modify_def ret_def Let_def split: option.splits)

text \<open>
  C29. Every lookup of a name that does not concern the service is passed on unchanged; every other one is answered with
  the redirect address, under the first such name that its thread has looked up, which need not be the name asked for.
\<close>

theorem lookups_answered:
  "lookups ls st = map (\<lambda>(thread, name).
     if should_redirect name then Own_entry (the (first_host (rd_hosts st) ls thread)) (g_redirect_address st)
     else Original_answer name) ls"
proof (induction ls arbitrary: st)
  case (Cons l ls)
  obtain thread name where l: "l = (thread, name)" by fastforce
  show ?case
  proof (cases "should_redirect name")
    case True
    then obtain n where n: "name = Some n" by (cases name) simp_all
    define h where "h = (case rd_hosts st thread of Some h \<Rightarrow> h | None \<Rightarrow> n)"
    have first: "first_host ((rd_hosts st)(thread := Some h)) ls t = first_host (rd_hosts st) (l # ls) t" for t
      using True l n by (auto simp: first_host_def h_def split: option.splits)
    have "first_host (rd_hosts st) (l # ls) thread = Some h"
      using True l n by (auto simp: first_host_def h_def split: option.splits)
    moreover have "redirect_gethostbyname thread name st =
        (Inr (Own_entry h (g_redirect_address st)), st\<lparr>rd_hosts := (rd_hosts st)(thread := Some h)\<rparr>)"
      using True n by (cases "rd_hosts st thread") (simp_all add: redirect_gethostbyname_eq h_def Let_def)
    ultimately show ?thesis
      using Cons.IH [of "st\<lparr>rd_hosts := (rd_hosts st)(thread := Some h)\<rparr>"] True l first by auto
  next
    case False
    have first: "first_host (rd_hosts st) ls t = first_host (rd_hosts st) (l # ls) t" for t
      using False l by (auto simp: first_host_def split: option.splits)
    with Cons.IH [of st] False l show ?thesis by (auto simp: redirect_gethostbyname_eq)
  qed
qed simp

section \<open>Libraries\<close>

definition regular_files :: "(string \<times> bool) list \<Rightarrow> string list" where
  "regular_files files = map fst (filter snd files)"

definition numbered :: "(string \<times> bool) list \<Rightarrow> nat \<Rightarrow> string list" where
  "numbered files n = filter (\<lambda>f. inject_number f = Some n) (regular_files files)"

definition unnumbered :: "string \<Rightarrow> bool" where
  "unnumbered f \<longleftrightarrow> inject_number f = None \<and> suffix ''inject.dll'' f"

lemma inject_scan_Inr:
  assumes "inject_scan files dlls unordered = Inr (dlls', unordered')" and "smap_ok dlls"
  shows "smap_ok dlls' \<and> unordered' = unordered @ filter unnumbered (regular_files files) \<and>
    (\<forall>n. smap_find dlls' n = (if numbered files n = [] then smap_find dlls n else Some (last (numbered files n))))"
  using assms
proof (induction files arbitrary: dlls unordered)
  case (Cons f files)
  obtain filename regular where [simp]: "f = (filename, regular)" by (cases f)
  show ?case
  proof (cases "regular \<and> inject_number filename \<noteq> None")
    case True
    then obtain num where num: "inject_number filename = Some num" "regular" by blast
    with Cons.prems have "inject_scan files (smap_assign num filename dlls) unordered = Inr (dlls', unordered')"
      by (simp split: if_splits)
    from Cons.IH [OF this] Cons.prems(2) num show ?thesis
      by (auto simp: smap.invar_assign smap.lookup_assign numbered_def regular_files_def unnumbered_def)
  next
    case False
    with Cons.prems(1) have
      "inject_scan files dlls (unordered @ (if regular \<and> unnumbered filename then [filename] else [])) = Inr (dlls', unordered')"
      by (auto simp: unnumbered_def split: if_splits)
    from Cons.IH [OF this Cons.prems(2)] False show ?thesis
      by (auto simp: numbered_def regular_files_def unnumbered_def)
  qed
qed (simp add: numbered_def regular_files_def)

lemma smap_values: "smap_ok m \<Longrightarrow> map snd m = map (\<lambda>k. the (smap_find m k)) (map fst m)"
proof (induction m)
  case (Cons b m)
  obtain k v where [simp]: "b = (k, v)" by (cases b)
  have "smap_find (b # m) k' = smap_find m k'" if "k' \<in> fst ` set m" for k'
    using Cons.prems that by auto
  with Cons show ?case by (auto simp del: smap_find_Cons) simp
qed simp

lemma smap_keys: "smap_ok m \<Longrightarrow> map fst m = sorted_list_of_set (dom (smap_find m))"
proof -
  assume ok: "smap_ok m"
  have "set (map fst m) = dom (smap_find m)"
    using smap_find_in_set [OF ok] smap_find_notin by (force simp: domIff)
  moreover have "sorted (map fst m)" "distinct (map fst m)"
    using ok by (auto simp: smap_ok_def strict_sorted_iff)
  ultimately show ?thesis by (metis sorted_list_of_set.idem_if_sorted_distinct)
qed

text \<open>
  C28. The libraries that are loaded, when all numbers fit: for every number that occurs in the name of a regular file of the form
  \<open>...-<number>-inject.dll\<close>, in ascending order of the numbers, the last such file of the directory (an earlier one with
  the same number is not loaded); then the other files whose names end in \<open>inject.dll\<close>, in the order of the directory.
\<close>

theorem libraries_in_order:
  assumes "inject_order files = Inr paths"
  shows "paths = map (\<lambda>n. last (numbered files n)) (sorted_list_of_set {n. numbered files n \<noteq> []}) @
    filter unnumbered (regular_files files)"
proof -
  from assms obtain dlls unordered where s: "inject_scan files [] [] = Inr (dlls, unordered)" "paths = map snd dlls @ unordered"
    by (auto simp: inject_order_def and_then_eq_Inr)
  note i = inject_scan_Inr [OF s(1), simplified]
  then have dom: "dom (smap_find dlls) = {n. numbered files n \<noteq> []}" by (auto simp: dom_def)
  have "map (\<lambda>n. the (smap_find dlls n)) (map fst dlls) = map (\<lambda>n. last (numbered files n)) (map fst dlls)"
  proof (intro map_cong refl)
    fix n
    assume "n \<in> set (map fst dlls)"
    with i have "smap_find dlls n \<noteq> None" using smap_find_in_set by fastforce
    with i show "the (smap_find dlls n) = last (numbered files n)" by (auto split: if_splits)
  qed
  with i s(2) smap_values [of dlls] smap_keys [of dlls] dom show ?thesis by simp
qed

section \<open>Detaching\<close>

lemma arguments_keep:
  "redirect_arguments env argv game st = (r, st') \<Longrightarrow>
     rd_attached st' = rd_attached st \<and> g_detours_error st' = g_detours_error st"
  by (induction env argv game arbitrary: st rule: redirect_arguments.induct)
    (auto simp: bind_io_def then_io_def lift_exn_def modify_def ret_def split: if_splits sum.splits prod.splits)

lemma attach_consistent:
  assumes "rd_attached st = (g_detours_error st = 0)" and "g_detours_error st \<noteq> 0"
  shows "rd_attached (snd (redirect_attach env argv st)) = (g_detours_error (snd (redirect_attach env argv st)) = 0)"
proof -
  have load: "rd_attached (snd (load_libraries env s)) = rd_attached s \<and> g_detours_error (snd (load_libraries env s)) = g_detours_error s" for s
    by (auto simp: load_libraries_def bind_io_def then_io_def lift_exn_def modify_def ret_def split: sum.splits)
  obtain r st1 where d: "detour_gethostbyname env argv st = (r, st1)" by fastforce
  then have "rd_attached st1 = (g_detours_error st1 = 0)"
    using assms arguments_keep [of env argv "rd_gamename env" st]
    by (auto simp: detour_gethostbyname_def detect_gamespy_def commit_attach_def bind_io_def then_io_def lift_exn_def
        modify_def ret_def gets_def split: if_splits sum.splits prod.splits option.splits)
  with load show ?thesis unfolding redirect_attach_def d by (auto split: sum.splits)
qed

text \<open>
  Loading and unloading the library: whatever happens while it is loaded, unloading it leaves the lookups of the process as they were, unless the
  transaction that detaches fails, which is reported; and nothing is detached that has not been attached.
\<close>

theorem unloading_restores:
  assumes "redirect_attach env argv initial_redirect = (r, st)" and "redirect_detach env st = (r', st')"
  shows "(rd_attached st \<longleftrightarrow> g_detours_error st = 0) \<and>
    (if rd_attached st \<and> rd_commit_detach env \<noteq> 0 then r' = Inr False \<and> rd_attached st'
     else r' = Inr True \<and> \<not> rd_attached st')"
proof -
  have "rd_attached st = (g_detours_error st = 0)"
    using attach_consistent [of initial_redirect env argv] assms(1) by (simp add: initial_redirect_def)
  with assms(2) show ?thesis
    by (auto simp: redirect_detach_def bind_io_def then_io_def gets_def modify_def ret_def split: if_splits)
qed

section \<open>Examples\<close>

definition sample_files :: "(string \<times> bool) list" where
  "sample_files = [(''a-7-inject.dll'', True), (''b-7-INJECT.DLL'', True), (''zinject.dll'', True), (''c-1-inject.dll'', True)]"

definition sample_redirect :: redirect_env where
  "sample_redirect = \<lparr>rd_gamename = ''gmtest'', rd_startup = Inr (), rd_resolve = (\<lambda>_. Inl (Runtime_error ''unknown'')),
     rd_socket = Inr (), rd_exchange = lan_answer sample_env 0 [] sample_client [10, 0, 0, 1] sample_master, rd_continue = True,
     rd_commit_attach = 0, rd_commit_detach = 0, rd_files = sample_files\<rparr>"

theorem search_finds_the_master_witness:
  "\<exists>st'. detect_gamespy sample_redirect ''gmtest'' initial_redirect = (Inr True, st') \<and> g_redirect_address st' = [10, 0, 0, 1]"
proof -
  obtain r st' where run: "detect_gamespy sample_redirect ''gmtest'' initial_redirect = (r, st')" by fastforce
  have h: "ms_accepting sample_master" "length ''gmtest'' + 6 \<le> receive_size"
    "\<forall>bs. ms_send sample_env sample_client bs = Inr ()" "rd_socket sample_redirect = Inr ()"
    "rd_exchange sample_redirect = lan_answer sample_env 0 [] sample_client [10, 0, 0, 1] sample_master"
    by (simp_all add: sample_master_def receive_size_def sample_env_def sample_redirect_def)
  from search_finds_the_master [OF h run] run sample_games(1) show ?thesis by simp
qed

lemma sample_numbers:
  "inject_number ''a-7-inject.dll'' = Some 7" "inject_number ''b-7-INJECT.DLL'' = Some 7"
  "inject_number ''zinject.dll'' = None" "inject_number ''c-1-inject.dll'' = Some 1"
  by (simp_all add: inject_number_def Let_def tolower_char_def is_digit_def digits_val_def digit_val_def char_of_def bit_Suc_0_iff)

lemma sample_order: "inject_order sample_files = Inr [''c-1-inject.dll'', ''b-7-INJECT.DLL'', ''zinject.dll'']"
  by (simp add: inject_order_def sample_files_def sample_numbers smap_assign_def suffix_def)

theorem libraries_in_order_witness:
  "map (\<lambda>n. last (numbered sample_files n)) (sorted_list_of_set {n. numbered sample_files n \<noteq> []}) @
     filter unnumbered (regular_files sample_files) = [''c-1-inject.dll'', ''b-7-INJECT.DLL'', ''zinject.dll'']"
  using libraries_in_order [OF sample_order] by simp

theorem unloading_restores_witness:
  "\<not> rd_attached (snd (redirect_detach sample_redirect (snd (redirect_attach sample_redirect [''game'', ''+gamespy''] initial_redirect))))"
proof -
  obtain r st where a: "redirect_attach sample_redirect [''game'', ''+gamespy''] initial_redirect = (r, st)" by fastforce
  obtain r' st' where d: "redirect_detach sample_redirect st = (r', st')" by fastforce
  have "rd_commit_detach sample_redirect = 0" by (simp add: sample_redirect_def)
  with unloading_restores [OF a d] a d show ?thesis by simp
qed

section \<open>Error texts\<close>

text \<open>
  Wide strings are lists of 16-bit units.  Two calls of Windows are parameters: \<open>convert\<close> is what \<open>WideCharToMultiByte\<close> writes for a
  terminated wide string, its terminator included (nothing when it fails), and \<open>message\<close> is the text of \<open>FormatMessageW\<close>, \<open>None\<close>
  when there is none.
\<close>

type_synonym wide = "u16 list"

definition wide_of :: "string \<Rightarrow> wide" where
  "wide_of s = map (\<lambda>c. of_nat (of_char c)) s"

text \<open>A conversion of length 0 makes \<open>resize(len - 1)\<close> throw.\<close>

definition to_utf8 :: "(wide \<Rightarrow> bytes) \<Rightarrow> wide \<Rightarrow> exn + string" where
  "to_utf8 convert wstr =
     (let str = convert wstr in
      if str = [] then Inl (Length_error ''resize'') else Inr (string_of (butlast str)))"

definition ErrorMessageFromErrorCode :: "(u32 \<Rightarrow> wide option) \<Rightarrow> u32 \<Rightarrow> wide" where
  "ErrorMessageFromErrorCode message errorCode =
     (case message errorCode of
        Some text' \<Rightarrow> takeWhile (\<lambda>u. u \<noteq> 0) text'
      | None \<Rightarrow> wide_of (''Failed to retrieve error message for code '' @ dec (unat errorCode)))"

record windows_error =
  wwhat :: wide
  what :: string

definition WindowsError :: "(wide \<Rightarrow> bytes) \<Rightarrow> (u32 \<Rightarrow> wide option) \<Rightarrow> u32 \<Rightarrow> exn + windows_error" where
  "WindowsError convert message error =
     (let m_Message = ErrorMessageFromErrorCode message error
      in and_then (to_utf8 convert m_Message) (\<lambda>m_MessageUTF8. Inr \<lparr>wwhat = m_Message, what = m_MessageUTF8\<rparr>))"

text \<open>
  Every code has a text: where the conversion keeps 7-bit characters, as UTF-8 does, the error of a code that Windows has no text for reads
  the same in both encodings and names the code.
\<close>

theorem windows_error_text:
  assumes "message error = None" and "\<And>s. list_all (\<lambda>c. of_char c < (128 :: nat)) s \<Longrightarrow> convert (wide_of s) = bytes_of s @ [0]"
  shows "WindowsError convert message error =
    Inr \<lparr>wwhat = wide_of (''Failed to retrieve error message for code '' @ dec (unat error)),
         what = ''Failed to retrieve error message for code '' @ dec (unat error)\<rparr>"
proof -
  have digit: "of_char c < (128 :: nat)" if "is_digit c" for c
    using that by (auto simp: is_digit_def less_eq_char_def)
  have "list_all is_digit (dec (unat error))" by (rule list_all_digit_dec)
  then have "list_all (\<lambda>c. of_char c < (128 :: nat)) (dec (unat error))" using digit by (auto simp: list_all_iff)
  then have "list_all (\<lambda>c. of_char c < (128 :: nat)) (''Failed to retrieve error message for code '' @ dec (unat error))" by simp
  from assms(2) [OF this] show ?thesis
    using assms(1) by (simp add: WindowsError_def ErrorMessageFromErrorCode_def to_utf8_def Let_def and_then_def)
qed

definition narrow :: "wide \<Rightarrow> bytes" where
  "narrow w = map (\<lambda>u. of_nat (unat u)) w @ [0]"

theorem windows_error_text_witness:
  "WindowsError narrow (\<lambda>_. None) 10093 =
     Inr \<lparr>wwhat = wide_of (''Failed to retrieve error message for code '' @ dec 10093),
          what = ''Failed to retrieve error message for code '' @ dec 10093\<rparr>"
proof -
  have "narrow (wide_of s) = bytes_of s @ [0]" if "list_all (\<lambda>c. of_char c < (128 :: nat)) s" for s
  proof -
    have "of_nat (unat (of_nat (of_char c) :: u16)) = (byte_of c :: u8)" if "of_char c < (128 :: nat)" for c
    proof -
      have "of_nat (unat (of_nat (of_char c) :: u16)) = (of_nat (of_char c) :: u8)" using that by (simp add: unat_of_nat)
      then show ?thesis by (simp only: of_nat_of_char byte_of_def)
    qed
    with that show ?thesis by (auto simp: narrow_def wide_of_def list_all_iff)
  qed
  from windows_error_text [where message = "\<lambda>_. None" and convert = narrow and error = 10093, OF refl this] show ?thesis by simp
qed

end
