(* ===== verification/Game_Patches.thy ===== *)
theory Game_Patches
  imports Exn_State
begin

text \<open>
  Two libraries that patch Battlefield 2: the client's refusal of file names that leave the download directory
  (\<open>bf2-dlls/client-url-traversal.cpp\<close>) and the server's immediate start of a round
  (\<open>bf2-dlls/server-instant-start.cpp\<close>).  Detours, Python and the game's own functions are
  parameters; the log of Detours transactions is part of the state.  Shown: no name with a component \<open>..\<close> reaches
  the game's download function, and what unloading does after loading has failed.
\<close>

section \<open>Downloads\<close>

text \<open>\<open>download\<close> is the detoured function of the game; the result for a refused name is \<open>invalid_url\<close>.\<close>

definition patched_ghttpSaveEx ::
  "'r \<Rightarrow> (string \<Rightarrow> string \<Rightarrow> 'a \<Rightarrow> ('s, 'r) io) \<Rightarrow> string \<Rightarrow> string \<Rightarrow> 'a \<Rightarrow> ('s, 'r) io"
where
  "patched_ghttpSaveEx invalid_url download url filename args =
     (if sv_find ''..'' filename \<noteq> None then ret invalid_url else download url filename args)"

section \<open>Loading and unloading\<close>

datatype transaction = Attach_patch | Detach_patch

record patch_dll =
  pd_detours_error :: int
  pd_log :: "(transaction \<times> int) list"

definition initial_patch :: patch_dll where
  "initial_patch = \<lparr>pd_detours_error = 0, pd_log = []\<rparr>"

text \<open>One transaction, with what \<open>DetourTransactionCommit\<close> returns.\<close>

definition transact :: "transaction \<Rightarrow> int \<Rightarrow> (patch_dll, unit) io" where
  "transact t result = modify (\<lambda>st. st\<lparr>pd_detours_error := result, pd_log := pd_log st @ [(t, result)]\<rparr>)"

definition traversal_attach :: "int \<Rightarrow> (patch_dll, bool) io" where
  "traversal_attach result = then_io (transact Attach_patch result) (ret True)"

definition traversal_detach :: "int \<Rightarrow> (patch_dll, bool) io" where
  "traversal_detach result =
     bind_io (gets pd_detours_error) (\<lambda>error.
     then_io (if error = 0 then transact Detach_patch result else ret ()) (ret True))"

text \<open>\<open>python\<close>: \<open>dice_py.dll\<close> is loaded and has the three functions.\<close>

definition instant_attach :: "bool \<Rightarrow> int \<Rightarrow> (patch_dll, bool) io" where
  "instant_attach python result =
     (if \<not> python then ret False
      else then_io (transact Attach_patch result) (bind_io (gets pd_detours_error) (\<lambda>error. ret (error = 0))))"

definition instant_detach :: "int \<Rightarrow> (patch_dll, bool) io" where
  "instant_detach result =
     bind_io (gets pd_detours_error) (\<lambda>error.
     then_io (if error = 0 then transact Detach_patch result else modify (\<lambda>st. st\<lparr>pd_detours_error := 0\<rparr>))
       (bind_io (gets pd_detours_error) (\<lambda>error. ret (error = 0))))"

text \<open>
  \<open>DllMain\<close>, with the reason it is called for: what the library finds and what its transaction returns.  In a helper process of
  Detours it does nothing.
\<close>

datatype 'a dll_reason = Process_attach 'a int | Process_detach int | Thread_reason

definition dll_main ::
  "('a \<Rightarrow> int \<Rightarrow> ('s, bool) io) \<Rightarrow> (int \<Rightarrow> ('s, bool) io) \<Rightarrow> bool \<Rightarrow> 'a dll_reason \<Rightarrow> ('s, bool) io"
where
  "dll_main attach detach helper reason =
     (if helper then ret True
      else case reason of
        Process_attach found result \<Rightarrow> attach found result
      | Process_detach result \<Rightarrow> detach result
      | Thread_reason \<Rightarrow> ret True)"

definition traversal_DllMain :: "bool \<Rightarrow> unit dll_reason \<Rightarrow> (patch_dll, bool) io" where
  "traversal_DllMain = dll_main (\<lambda>_. traversal_attach) traversal_detach"

definition instant_DllMain :: "bool \<Rightarrow> bool dll_reason \<Rightarrow> (patch_dll, bool) io" where
  "instant_DllMain = dll_main instant_attach instant_detach"

section \<open>The server\<close>

record server_settings =
  maxPlayers :: u32
  numPlayersNeededToStart :: u32
  ss_ranked :: bool

definition getNumPlayersNeededToStart :: "server_settings \<Rightarrow> u32" where
  "getNumPlayersNeededToStart settings = 1"

text \<open>\<open>calledOnce\<close> is the state; the game's function is \<open>original\<close>, and 0 is false.\<close>

definition sgl_getIsAIGame :: "('a \<Rightarrow> int) \<Rightarrow> 'a \<Rightarrow> (bool, int) io" where
  "sgl_getIsAIGame original args =
     bind_io (gets (\<lambda>calledOnce. calledOnce)) (\<lambda>calledOnce.
       if \<not> calledOnce then then_io (modify (\<lambda>_. True)) (ret 0) else ret (original args))"

section \<open>Properties\<close>

text \<open>The components of a path, which Windows separates by \<open>/\<close> and \<open>\\<close>.\<close>

definition separator :: "char \<Rightarrow> bool" where
  "separator c \<longleftrightarrow> c = CHR ''/'' \<or> c = CHR 0x5C"

fun path_components :: "string \<Rightarrow> string list" where
  "path_components [] = [[]]"
| "path_components (c # cs) =
     (if separator c then [] # path_components cs
      else (case path_components cs of [] \<Rightarrow> [[c]] | p # ps \<Rightarrow> (c # p) # ps))"

lemma component_sublist: "p \<in> set (path_components s) \<Longrightarrow> sublist p s"
proof -
  have head: "path_components s \<noteq> [] \<and> prefix (hd (path_components s)) s" for s
    by (induction s) (auto split: list.splits)
  show "p \<in> set (path_components s) \<Longrightarrow> sublist p s"
  proof (induction s)
    case (Cons c cs)
    obtain q qs where q: "path_components cs = q # qs" using head [of cs] by (cases "path_components cs") auto
    from head [of "c # cs"] q Cons show ?case
      by (auto simp: sublist_Cons_right split: if_splits)
  qed simp
qed

lemma sv_find_sublist: "sv_find pat s \<noteq> None \<longleftrightarrow> sublist pat s"
  by (induction s) (auto simp: sublist_Cons_right)

text \<open>
  A file name with a component \<open>..\<close>, whichever separators it uses, is refused without the game's download
  function being called, and so is every other name with two dots in a row; all other names are passed on unchanged.
\<close>

theorem traversal_refused:
  "(''..'' \<in> set (path_components filename) \<longrightarrow>
      patched_ghttpSaveEx invalid_url download url filename args s = (Inr invalid_url, s)) \<and>
   patched_ghttpSaveEx invalid_url download url filename args s =
     (if sublist ''..'' filename then (Inr invalid_url, s) else download url filename args s)"
  using component_sublist [of "''..''" filename]
  unfolding patched_ghttpSaveEx_def sv_find_sublist ret_def by simp

theorem traversal_refused_witness:
  "patched_ghttpSaveEx (7 :: int) (\<lambda>_ _ _. throw Terminate) ''http://x/'' (''a/..'' @ [CHR 0x5C] @ ''b'') () (0 :: int) = (Inr 7, 0)"
proof -
  have "''..'' \<in> set (path_components (''a/..'' @ [CHR 0x5C] @ ''b''))" by (simp add: separator_def)
  with traversal_refused [of "''a/..'' @ [CHR 0x5C] @ ''b''" "7 :: int" "\<lambda>_ _ _. throw Terminate" "''http://x/''" "()" "0 :: int"]
  show ?thesis by blast
qed

text \<open>
  Unloading after a failed load.  The client's library detaches only what its own transaction has attached; the server's does so
  when its transaction has failed, but when it refuses to load because Python is missing, the unloading that Windows
  then asks for starts a transaction that detaches what has never been attached, and reports what this transaction returns.
\<close>

theorem unloading_after_failed_load:
  "(let st = snd (traversal_DllMain False (Process_attach () result) initial_patch)
    in pd_log (snd (traversal_DllMain False (Process_detach result') st)) =
      (Attach_patch, result) # (if result = 0 then [(Detach_patch, result')] else [])) \<and>
   (case instant_DllMain False (Process_attach python result) initial_patch of
      (loaded, st) \<Rightarrow>
        loaded = Inr (python \<and> result = 0) \<and>
        instant_DllMain False (Process_detach result') st =
          (if python \<and> result \<noteq> 0 then (Inr True, \<lparr>pd_detours_error = 0, pd_log = [(Attach_patch, result)]\<rparr>)
           else (Inr (result' = 0), \<lparr>pd_detours_error = result',
             pd_log = (if python then [(Attach_patch, result)] else []) @ [(Detach_patch, result')]\<rparr>)))"
  by (simp add: traversal_DllMain_def instant_DllMain_def dll_main_def traversal_attach_def traversal_detach_def instant_attach_def
      instant_detach_def transact_def initial_patch_def then_io_def bind_io_def gets_def modify_def ret_def)

end
