(* ===== verification/Video_Fallback.thy ===== *)
theory Video_Fallback
  imports Scan_Number
begin

text \<open>
  The client patch for video options that the display does not support
  (\<open>bf2-dlls/client-video-fallback.cpp\<close>, up to \<open>VideoOptions::setDynamicOption\<close>): the replacement of an unknown value by
  the closest one of the list the game has enumerated.  Addresses are numbers, and the strings of the game are a map from
  addresses to their contents; Windows and the functions of the game are parameters.  Shown: the loops over a list that passes
  the check end, the replacement is the best candidate in the order the source
  documents, and what the game is given is a value it knows.  How the patch finds the game's function is in \<open>Renderer_Image\<close>.
\<close>

section \<open>Strings and lists of the game\<close>

text \<open>
  \<open>msvc71_string\<close>: \<open>buf\<close> and \<open>ptr\<close> share their bytes; here they are the C strings that the one and the other
  reading give.
\<close>

record msvc71_string =
  str_buf :: string
  str_ptr :: string
  str_size :: nat
  str_capacity :: nat

definition c_str :: "msvc71_string \<Rightarrow> string" where
  "c_str s = (if str_capacity s \<ge> 16 then str_ptr s else str_buf s)"

text \<open>\<open>msvc71_string_vector\<close>: the addresses of its first string and of its end; 0 is the null pointer.\<close>

record msvc71_string_vector =
  vec_first :: nat
  vec_last :: nat

definition is_valid_list :: "msvc71_string_vector option \<Rightarrow> bool" where
  "is_valid_list values =
     (case values of
        None \<Rightarrow> False
      | Some v \<Rightarrow> vec_first v \<noteq> 0 \<and> vec_first v < vec_last v \<and> (vec_last v - vec_first v) mod 0x1C = 0)"

text \<open>The addresses \<open>for (auto it = first; it != last; ++it)\<close> visits; \<open>None\<close> when it never arrives at \<open>last\<close>.\<close>

partial_function (option) visited :: "nat \<Rightarrow> nat \<Rightarrow> nat list option" where
  "visited it stop =
     (if it = stop then Some [] else Option.bind (visited (it + 0x1C) stop) (\<lambda>r. Some (it # r)))"

text \<open>\<open>_strnicmp(a, b, n) == 0\<close>\<close>

fun strnicmp_equal :: "string \<Rightarrow> string \<Rightarrow> nat \<Rightarrow> bool" where
  "strnicmp_equal a b 0 = True"
| "strnicmp_equal [] [] (Suc n) = True"
| "strnicmp_equal (c # a) (d # b) (Suc n) = (tolower_char c = tolower_char d \<and> strnicmp_equal a b n)"
| "strnicmp_equal a b (Suc n) = False"

text \<open>The loops return \<open>No_return\<close> where they would not.\<close>

definition elements :: "msvc71_string_vector \<Rightarrow> exn + nat list" where
  "elements v = (case visited (vec_first v) (vec_last v) of None \<Rightarrow> Inl No_return | Some es \<Rightarrow> Inr es)"

definition is_known_value :: "(nat \<Rightarrow> msvc71_string) \<Rightarrow> msvc71_string_vector \<Rightarrow> nat \<Rightarrow> exn + bool" where
  "is_known_value mem values val =
     and_then (elements values) (\<lambda>es.
       Inr (list_ex (\<lambda>it. strnicmp_equal (c_str (mem it)) (c_str (mem val)) (str_size (mem val))) es))"

section \<open>Resolutions\<close>

record resolution =
  res_width :: int
  res_height :: int
  res_refresh :: int

text \<open>A literal character of the format.\<close>

definition scan_char :: "char \<Rightarrow> string \<Rightarrow> string option" where
  "scan_char c s = (case s of d # r \<Rightarrow> if d = c then Some r else None | [] \<Rightarrow> None)"

text \<open>
  \<open>sscanf(value, "%dx%d@%dHz", ...) == 3\<close>: what was read before a mismatch stays assigned, and the text
  after the last number is not looked at.
\<close>

definition parse_resolution :: "string \<Rightarrow> resolution \<Rightarrow> exn + bool \<times> resolution" where
  "parse_resolution str res =
     and_then (scan_d str) (\<lambda>w. case w of
       None \<Rightarrow> Inr (False, res)
     | Some (w, s) \<Rightarrow>
         let res = res\<lparr>res_width := w\<rparr> in
         (case scan_char (CHR ''x'') s of
            None \<Rightarrow> Inr (False, res)
          | Some s \<Rightarrow>
              and_then (scan_d s) (\<lambda>h. case h of
                None \<Rightarrow> Inr (False, res)
              | Some (h, s) \<Rightarrow>
                  let res = res\<lparr>res_height := h\<rparr> in
                  (case scan_char (CHR ''@'') s of
                     None \<Rightarrow> Inr (False, res)
                   | Some s \<Rightarrow>
                       and_then (scan_d s) (\<lambda>r. case r of
                         None \<Rightarrow> Inr (False, res)
                       | Some (r, s) \<Rightarrow> Inr (True, res\<lparr>res_refresh := r\<rparr>))))))"

definition no_resolution :: resolution where
  "no_resolution = \<lparr>res_width = 0, res_height = 0, res_refresh = 0\<rparr>"

text \<open>\<open>std::abs(a - b)\<close> on \<open>int\<close>: the difference and its absolute value must fit.\<close>

definition distance :: "int \<Rightarrow> int \<Rightarrow> exn + int" where
  "distance a b = and_then (fits_int (a - b)) (\<lambda>d. fits_int \<bar>d\<bar>)"

definition score :: "resolution \<Rightarrow> resolution \<Rightarrow> exn + int" where
  "score wanted candidate =
     and_then (distance (res_width candidate) (res_width wanted)) (\<lambda>w.
     and_then (distance (res_height candidate) (res_height wanted)) (\<lambda>h.
     and_then (fits_int (w + h)) (\<lambda>sizeDistance.
     and_then (distance (res_refresh candidate) (res_refresh wanted)) (\<lambda>refreshDistance.
       Inr (sizeDistance * 100000 + refreshDistance * 2 +
         (if res_refresh candidate > res_refresh wanted then 1 else 0))))))"

text \<open>The loop over the candidates; \<open>bestScore\<close> starts at the largest \<open>long long\<close>.\<close>

fun best_of :: "(nat \<Rightarrow> msvc71_string) \<Rightarrow> resolution \<Rightarrow> nat list \<Rightarrow> nat option \<Rightarrow> int \<Rightarrow> exn + nat option" where
  "best_of mem wanted [] best bestScore = Inr best"
| "best_of mem wanted (it # es) best bestScore =
     and_then (parse_resolution (c_str (mem it)) no_resolution) (\<lambda>(ok, candidate).
       if \<not> ok then best_of mem wanted es best bestScore
       else and_then (score wanted candidate) (\<lambda>score.
         if score < bestScore then best_of mem wanted es (Some it) score
         else best_of mem wanted es best bestScore))"

text \<open>\<open>desktop\<close> is the current mode of the display, when Windows can tell it.\<close>

definition wanted_resolution :: "resolution option \<Rightarrow> string \<Rightarrow> exn + resolution" where
  "wanted_resolution desktop requested =
     and_then (parse_resolution requested no_resolution) (\<lambda>(ok, wanted).
       Inr (if ok then wanted else (case desktop of None \<Rightarrow> wanted | Some d \<Rightarrow> d)))"

definition closest_resolution ::
  "(nat \<Rightarrow> msvc71_string) \<Rightarrow> resolution option \<Rightarrow> msvc71_string_vector \<Rightarrow> string \<Rightarrow> exn + nat option"
where
  "closest_resolution mem desktop values requested =
     and_then (wanted_resolution desktop requested) (\<lambda>wanted.
     and_then (elements values) (\<lambda>es. best_of mem wanted es None (2 ^ 63 - 1)))"

section \<open>The replaced function\<close>

text \<open>
  \<open>getDynamicOptionValues\<close> and \<open>getDynamicOption\<close> of the object are the first two parameters; the result is
  the value that \<open>bf2_setDynamicOption\<close> is called with.
\<close>

definition setDynamicOption ::
  "(int \<Rightarrow> msvc71_string_vector option) \<Rightarrow> (int \<Rightarrow> nat) \<Rightarrow> (nat \<Rightarrow> msvc71_string) \<Rightarrow> resolution option \<Rightarrow>
   int \<Rightarrow> nat \<Rightarrow> exn + nat"
where
  "setDynamicOption getValues getOption mem desktop opt val =
     (if 0 \<le> opt \<and> opt < 2 \<and> val \<noteq> 0 \<and> is_valid_list (getValues opt) then
        let values = the (getValues opt) in
        and_then (is_known_value mem values val) (\<lambda>known.
          if known then Inr val
          else if opt = 1 then
            and_then (closest_resolution mem desktop values (c_str (mem val)))
              (\<lambda>replacement. Inr (case replacement of None \<Rightarrow> val | Some r \<Rightarrow> r))
          else
            let selected = getOption opt in
            Inr (if selected \<ge> vec_first values \<and> selected < vec_last values then selected
                 else vec_first values))
      else Inr val)"

section \<open>The loops end\<close>

lemma visited_steps: "visited it (it + 0x1C * n) = Some (map (\<lambda>i. it + 0x1C * i) [0..<n])"
proof (induction n arbitrary: it)
  case 0
  then show ?case by (subst visited.simps) simp
next
  case (Suc n)
  have "it + 0x1C * Suc n = (it + 0x1C) + 0x1C * n" by simp
  then have "visited (it + 0x1C) (it + 0x1C * Suc n) = Some (map (\<lambda>i. it + 0x1C + 0x1C * i) [0..<n])"
    using Suc.IH [of "it + 0x1C"] by (simp only:)
  moreover have "[0..<Suc n] = 0 # map Suc [0..<n]" by (simp only: upt_conv_Cons [of 0 "Suc n"] map_Suc_upt zero_less_Suc)
  ultimately show ?case by (subst visited.simps) (simp del: upt_Suc)
qed

definition addresses :: "msvc71_string_vector \<Rightarrow> nat list" where
  "addresses v = map (\<lambda>i. vec_first v + 0x1C * i) [0..<(vec_last v - vec_first v) div 0x1C]"

lemma elements_valid:
  assumes "is_valid_list (Some v)"
  shows "elements v = Inr (addresses v)" "addresses v \<noteq> []" "hd (addresses v) = vec_first v"
    "a \<in> set (addresses v) \<Longrightarrow> vec_first v \<le> a \<and> a < vec_last v"
proof -
  let ?n = "(vec_last v - vec_first v) div 0x1C"
  from assms have v: "vec_first v < vec_last v" "(vec_last v - vec_first v) mod 0x1C = 0"
    by (simp_all add: is_valid_list_def)
  then have l: "vec_last v = vec_first v + 0x1C * ?n" "0 < ?n" by auto
  show "elements v = Inr (addresses v)"
    using visited_steps [of "vec_first v" ?n] l(1) by (simp add: elements_def addresses_def)
  show "addresses v \<noteq> []" "hd (addresses v) = vec_first v"
    using l(2) by (simp_all add: addresses_def upt_conv_Cons)
  show "vec_first v \<le> a \<and> a < vec_last v" if a: "a \<in> set (addresses v)"
  proof -
    from a obtain i where "i < ?n" "a = vec_first v + 0x1C * i" by (auto simp: addresses_def)
    moreover have "0x1C * i < 0x1C * ?n" using calculation(1) by simp
    ultimately show ?thesis using l(1) by linarith
  qed
qed

lemma visited_le: "visited it stop = Some r \<Longrightarrow> it \<le> stop"
  by (erule visited.raw_induct [where P = "\<lambda>it stop r. it \<le> stop", rotated])
    (fastforce split: if_splits simp: bind_eq_Some_conv)

lemma visited_over: "stop < it \<Longrightarrow> visited it stop = None"
  using visited_le [of it stop] by (cases "visited it stop") auto

section \<open>The closest resolution\<close>

text \<open>A string that is a resolution, and all of whose distances to the wanted one are numbers of the type \<open>int\<close>.\<close>

definition mode_of :: "string \<Rightarrow> resolution option" where
  "mode_of s = (case parse_resolution s no_resolution of Inr (True, r) \<Rightarrow> Some r | _ \<Rightarrow> None)"

definition size_distance :: "resolution \<Rightarrow> resolution \<Rightarrow> int" where
  "size_distance w c = \<bar>res_width c - res_width w\<bar> + \<bar>res_height c - res_height w\<bar>"

definition refresh_distance :: "resolution \<Rightarrow> resolution \<Rightarrow> int" where
  "refresh_distance w c = \<bar>res_refresh c - res_refresh w\<bar>"

text \<open>
  The order the source documents: the smaller distance in size, then the smaller distance in the refresh
  rate, then the lower rate.
\<close>

definition preferred :: "resolution \<Rightarrow> resolution \<Rightarrow> resolution \<Rightarrow> bool" where
  "preferred w b c \<longleftrightarrow>
     size_distance w b < size_distance w c \<or>
     size_distance w b = size_distance w c \<and>
       (refresh_distance w b < refresh_distance w c \<or>
        refresh_distance w b = refresh_distance w c \<and> res_refresh b \<le> res_refresh c)"

lemma fits_int_Inr: "fits_int n = Inr m \<longleftrightarrow> m = n \<and> - (2 ^ 31) \<le> n \<and> n < 2 ^ 31"
  by (auto simp: fits_int_def)

lemma score_Inr:
  "score w c = Inr s \<Longrightarrow> s = size_distance w c * 100000 + refresh_distance w c * 2 +
     (if res_refresh c > res_refresh w then 1 else 0) \<and> s < 2 ^ 63 - 1"
  by (auto simp: score_def distance_def and_then_eq_Inr fits_int_Inr size_distance_def refresh_distance_def)

text \<open>With rates that differ by less than 50000 the score orders as documented.\<close>

lemma score_preferred:
  assumes "score w b = Inr s" "score w c = Inr t" "s \<le> t"
    and "refresh_distance w b < 50000" "refresh_distance w c < 50000"
  shows "preferred w b c"
proof -
  let ?x = "if res_refresh b > res_refresh w then 1 else 0 :: int" and
    ?y = "if res_refresh c > res_refresh w then 1 else 0 :: int"
  have s: "s = size_distance w b * 100000 + refresh_distance w b * 2 + ?x"
    "t = size_distance w c * 100000 + refresh_distance w c * 2 + ?y"
    using score_Inr [OF assms(1)] score_Inr [OF assms(2)] by blast+
  have r: "0 \<le> refresh_distance w b" "0 \<le> refresh_distance w c" by (simp_all add: refresh_distance_def)
  have x: "0 \<le> ?x" "?x \<le> 1" "0 \<le> ?y" "?y \<le> 1" by simp_all
  consider "size_distance w b < size_distance w c" | "size_distance w b = size_distance w c"
    | "size_distance w b > size_distance w c" by linarith
  then show ?thesis
  proof cases
    case 2
    then have "refresh_distance w b * 2 + ?x \<le> refresh_distance w c * 2 + ?y" using s assms(3) by linarith
    then consider "refresh_distance w b < refresh_distance w c"
      | "refresh_distance w b = refresh_distance w c" "?x \<le> ?y" using x by linarith
    then show ?thesis
    proof cases
      case 2
      then have "res_refresh b \<le> res_refresh c" by (auto simp: refresh_distance_def split: if_splits)
      with 2 \<open>size_distance w b = size_distance w c\<close> show ?thesis by (simp add: preferred_def)
    qed (use 2 in \<open>simp add: preferred_def\<close>)
  next
    case 3
    then have "size_distance w c * 100000 + 100000 \<le> size_distance w b * 100000" by linarith
    then have "t < s" using s r x assms(4,5) by linarith
    with assms(3) show ?thesis by simp
  qed (simp add: preferred_def)
qed

text \<open>The candidate at an address, and its score.\<close>

definition scored :: "(nat \<Rightarrow> msvc71_string) \<Rightarrow> resolution \<Rightarrow> nat \<Rightarrow> int \<Rightarrow> bool" where
  "scored mem w it t \<longleftrightarrow> (\<exists>c. mode_of (c_str (mem it)) = Some c \<and> score w c = Inr t)"

lemma scored_fun: "scored mem w it s \<Longrightarrow> scored mem w it t \<longleftrightarrow> t = s"
  by (auto simp: scored_def)

lemma best_of_step:
  assumes "best_of mem w (it # es) best bs = Inr r"
  shows "mode_of (c_str (mem it)) = None \<and> best_of mem w es best bs = Inr r \<or>
    (\<exists>s. scored mem w it s \<and>
      (if s < bs then best_of mem w es (Some it) s = Inr r else best_of mem w es best bs = Inr r))"
  using assms by (auto simp: and_then_eq_Inr mode_of_def scored_def split: if_splits)

lemma best_of_spec:
  "best_of mem w es best bs = Inr r \<Longrightarrow>
   (r = best \<and> (\<forall>it \<in> set es. \<forall>t. scored mem w it t \<longrightarrow> bs \<le> t)) \<or>
   (\<exists>a s. r = Some a \<and> a \<in> set es \<and> scored mem w a s \<and> s < bs \<and>
     (\<forall>it \<in> set es. \<forall>t. scored mem w it t \<longrightarrow> s \<le> t))"
proof (induction es arbitrary: best bs)
  case (Cons it es)
  from best_of_step [OF Cons.prems] show ?case
  proof (elim disjE exE conjE)
    assume none: "mode_of (c_str (mem it)) = None" and rest: "best_of mem w es best bs = Inr r"
    have "\<not> scored mem w it t" for t using none by (simp add: scored_def)
    with Cons.IH [OF rest] show ?thesis by auto
  next
    fix s assume s: "scored mem w it s"
      and rest: "if s < bs then best_of mem w es (Some it) s = Inr r else best_of mem w es best bs = Inr r"
    note it = scored_fun [OF s]
    show ?thesis
    proof (cases "s < bs")
      case True
      with rest have "best_of mem w es (Some it) s = Inr r" by simp
      from Cons.IH [OF this] show ?thesis
      proof (elim disjE exE conjE)
        assume "r = Some it" "\<forall>it \<in> set es. \<forall>t. scored mem w it t \<longrightarrow> s \<le> t"
        with s True it show ?thesis by (intro disjI2 exI [of _ it] exI [of _ s]) simp
      next
        fix a u assume a: "r = Some a" "a \<in> set es" "scored mem w a u" "u < s"
          "\<forall>it \<in> set es. \<forall>t. scored mem w it t \<longrightarrow> u \<le> t"
        with True it show ?thesis by (intro disjI2 exI [of _ a] exI [of _ u]) simp
      qed
    next
      case False
      with rest have "best_of mem w es best bs = Inr r" by simp
      from Cons.IH [OF this] show ?thesis
      proof (elim disjE exE conjE)
        assume "r = best" "\<forall>it \<in> set es. \<forall>t. scored mem w it t \<longrightarrow> bs \<le> t"
        with False it show ?thesis by (intro disjI1) simp
      next
        fix a u assume a: "r = Some a" "a \<in> set es" "scored mem w a u" "u < bs"
          "\<forall>it \<in> set es. \<forall>t. scored mem w it t \<longrightarrow> u \<le> t"
        with False it show ?thesis by (intro disjI2 exI [of _ a] exI [of _ u]) simp
      qed
    qed
  qed
qed simp

lemma best_of_scores:
  "best_of mem w es best bs = Inr r \<Longrightarrow> it \<in> set es \<Longrightarrow> mode_of (c_str (mem it)) = Some c \<Longrightarrow>
   \<exists>t. scored mem w it t"
proof (induction es arbitrary: best bs)
  case (Cons a es)
  from best_of_step [OF Cons.prems(1)] Cons.prems(2,3) show ?case
    by (elim disjE exE conjE) (auto split: if_splits dest: Cons.IH)
qed simp

lemma scored_small: "scored mem w it t \<Longrightarrow> t < 2 ^ 63 - 1"
  using score_Inr by (auto simp: scored_def)

text \<open>Nothing but an endless list makes the loops not return.\<close>

definition returns :: "exn + 'a \<Rightarrow> bool" where
  "returns r \<longleftrightarrow> r \<noteq> Inl No_return"

named_theorems returns_intros

lemma returns_Inr [returns_intros]: "returns (Inr x)"
  by (simp add: returns_def)

lemma and_then_returns [returns_intros]:
  "returns r \<Longrightarrow> (\<And>x. r = Inr x \<Longrightarrow> returns (f x)) \<Longrightarrow> returns (and_then r f)"
  by (cases r) (simp_all add: returns_def)

lemma numbers_return [returns_intros]:
  "returns (fits_int n)" "returns (scan_d s)" "returns (distance a b)" "returns (score w c)"
proof -
  show fits: "returns (fits_int n)" for n by (simp add: returns_def fits_int_def)
  show "returns (scan_d s)" for s
    by (auto simp: scan_d_def Let_def split: prod.splits intro!: returns_intros fits)
  show distance: "returns (distance a b)" for a b
    unfolding distance_def by (intro returns_intros fits)
  show "returns (score w c)" unfolding score_def by (intro returns_intros fits distance)
qed

lemma parse_returns [returns_intros]: "returns (parse_resolution s res)"
  unfolding parse_resolution_def Let_def
  by (auto split: option.splits intro!: returns_intros)

lemma best_of_returns [returns_intros]: "returns (best_of mem w es best bs)"
  by (induction es arbitrary: best bs) (auto intro!: returns_intros split: prod.splits)

section \<open>Properties of the replacement\<close>

lemma strnicmp_refl: "strnicmp_equal s s n"
proof (induction s arbitrary: n)
  case Nil
  then show ?case by (cases n) simp_all
next
  case (Cons c s)
  then show ?case by (cases n) simp_all
qed

text \<open>
  C18. The replacement of a resolution that is not in the list: when it is a resolution at all, and no rate in the list
  differs from its rate by 50000 or more, it is a candidate of the list that is at least as good as every
  other in the documented order: the closest size first, then the closest rate, then the lower rate;
  there is none only when the list holds no resolution.
\<close>

theorem closest_resolution_best:
  assumes "is_valid_list (Some v)" and "closest_resolution mem desktop v requested = Inr r"
    and "mode_of requested = Some w"
    and "\<forall>it \<in> set (addresses v). \<forall>c. mode_of (c_str (mem it)) = Some c \<longrightarrow> refresh_distance w c < 50000"
  shows "case r of
      None \<Rightarrow> \<forall>it \<in> set (addresses v). mode_of (c_str (mem it)) = None
    | Some a \<Rightarrow> a \<in> set (addresses v) \<and> (\<exists>b. mode_of (c_str (mem a)) = Some b \<and>
        (\<forall>it \<in> set (addresses v). \<forall>c. mode_of (c_str (mem it)) = Some c \<longrightarrow> preferred w b c))"
proof -
  have w: "wanted_resolution desktop requested = Inr w"
    using assms(3) by (auto simp: wanted_resolution_def mode_of_def split: sum.splits bool.splits)
  with assms(2) have run: "best_of mem w (addresses v) None (2 ^ 63 - 1) = Inr r"
    by (simp add: closest_resolution_def elements_valid(1) [OF assms(1)])
  from best_of_spec [OF run] show ?thesis
  proof (elim disjE exE conjE)
    assume none: "r = None" "\<forall>it \<in> set (addresses v). \<forall>t. scored mem w it t \<longrightarrow> 2 ^ 63 - 1 \<le> t"
    have "mode_of (c_str (mem it)) = None" if it: "it \<in> set (addresses v)" for it
    proof (rule ccontr)
      assume "mode_of (c_str (mem it)) \<noteq> None"
      then obtain t where "scored mem w it t" using best_of_scores [OF run it] by blast
      with scored_small [OF this] none(2) it show False by fastforce
    qed
    with none(1) show ?thesis by simp
  next
    fix a s assume a: "r = Some a" "a \<in> set (addresses v)" "scored mem w a s"
      "\<forall>it \<in> set (addresses v). \<forall>t. scored mem w it t \<longrightarrow> s \<le> t"
    from a(3) obtain b where b: "mode_of (c_str (mem a)) = Some b" "score w b = Inr s" by (auto simp: scored_def)
    have "preferred w b c" if it: "it \<in> set (addresses v)" "mode_of (c_str (mem it)) = Some c" for it c
    proof -
      from best_of_scores [OF run it] it(2) obtain t where t: "scored mem w it t" "score w c = Inr t"
        by (auto simp: scored_def)
      with a(4) it have "s \<le> t" by blast
      from score_preferred [OF b(2) t(2) this] assms(4) a(2) b(1) it show ?thesis by blast
    qed
    with a b show ?thesis by auto
  qed
qed

text \<open>
  What the game is given: for an option whose list is valid, a value that the game knows stays as it is, and
  any other one is replaced by a value it knows, provided the list holds a resolution (for the
  resolution) and the current selection is an entry of the list or outside of it (for the other option).
\<close>

theorem replaced_value_known:
  assumes "getValues opt = Some v" and "is_valid_list (Some v)" and "opt \<in> {0, 1}" and "val \<noteq> 0"
    and "setDynamicOption getValues getOption mem desktop opt val = Inr r"
    and "opt = 1 \<longrightarrow> (\<exists>it \<in> set (addresses v). mode_of (c_str (mem it)) \<noteq> None)"
    and "opt = 0 \<longrightarrow> getOption 0 \<in> set (addresses v) \<or> getOption 0 < vec_first v \<or> vec_last v \<le> getOption 0"
  shows "is_known_value mem v r = Inr True \<and> (is_known_value mem v val = Inr True \<longrightarrow> r = val)"
proof -
  note e = elements_valid [OF assms(2)]
  have known: "is_known_value mem v a = Inr True" if "a \<in> set (addresses v)" for a
    using that e(1) strnicmp_refl by (auto simp: is_known_value_def list_ex_iff)
  have first: "vec_first v \<in> set (addresses v)" using e(2,3) by (metis hd_in_set)
  from assms(1-5) obtain k where k: "is_known_value mem v val = Inr k"
    by (auto simp: setDynamicOption_def and_then_eq_Inr Let_def)
  show ?thesis
  proof (cases k)
    case True
    with assms(1-5) k show ?thesis by (auto simp: setDynamicOption_def)
  next
    case False
    have "r \<in> set (addresses v)"
    proof (cases "opt = 1")
      case True
      with assms(1,2,4,5) False k obtain x where x: "closest_resolution mem desktop v (c_str (mem val)) = Inr x"
        "r = (case x of None \<Rightarrow> val | Some a \<Rightarrow> a)"
        by (auto simp: setDynamicOption_def and_then_eq_Inr Let_def)
      from x(1) obtain w where run: "best_of mem w (addresses v) None (2 ^ 63 - 1) = Inr x"
        by (auto simp: closest_resolution_def and_then_eq_Inr e(1))
      from assms(6) True obtain it where it: "it \<in> set (addresses v)" "mode_of (c_str (mem it)) \<noteq> None" by blast
      then obtain t where t: "scored mem w it t" using best_of_scores [OF run it(1)] by blast
      from best_of_spec [OF run] show ?thesis
      proof (elim disjE exE conjE)
        assume "\<forall>it \<in> set (addresses v). \<forall>t. scored mem w it t \<longrightarrow> 2 ^ 63 - 1 \<le> t"
        with it(1) t scored_small [OF t] show ?thesis by fastforce
      qed (simp add: x(2))
    next
      case zero: False
      with assms(3) have "opt = 0" by simp
      with assms(1,2,4,5,7) False k first e(4) show ?thesis
        by (auto simp: setDynamicOption_def Let_def split: if_splits)
    qed
    with known k False show ?thesis by auto
  qed
qed

text \<open>
  C21. The patch never hangs the game: the loops over the list are run only for a list that passes the
  check, for which they end; without it a list whose end is before its beginning would be walked for ever.
\<close>

theorem setDynamicOption_returns:
  "setDynamicOption getValues getOption mem desktop opt val \<noteq> Inl No_return \<and>
   elements \<lparr>vec_first = 29, vec_last = 28\<rparr> = Inl No_return"
proof
  show "elements \<lparr>vec_first = 29, vec_last = 28\<rparr> = Inl No_return"
    by (simp add: elements_def visited_over)
  have "returns (setDynamicOption getValues getOption mem desktop opt val)"
  proof (cases "is_valid_list (getValues opt)")
    case True
    then obtain v where v: "getValues opt = Some v" by (auto simp: is_valid_list_def split: option.splits)
    note e = elements_valid(1) [OF True [unfolded v]]
    have "returns (closest_resolution mem desktop v s)" for s
      unfolding closest_resolution_def wanted_resolution_def e
      by (auto intro!: returns_intros split: prod.splits)
    then show ?thesis
      by (auto simp: setDynamicOption_def v is_known_value_def e Let_def intro!: returns_intros)
  qed (simp add: setDynamicOption_def returns_Inr)
  then show "setDynamicOption getValues getOption mem desktop opt val \<noteq> Inl No_return"
    by (simp add: returns_def)
qed

section \<open>A concrete list\<close>

definition plain_string :: "string \<Rightarrow> msvc71_string" where
  "plain_string s = \<lparr>str_buf = s, str_ptr = s, str_size = length s, str_capacity = max 15 (length s)\<rparr>"

definition sample_modes :: msvc71_string_vector where
  "sample_modes = \<lparr>vec_first = 28, vec_last = 84\<rparr>"

definition sample_strings :: "nat \<Rightarrow> msvc71_string" where
  "sample_strings a = plain_string
     (if a = 28 then ''800x600@60Hz'' else if a = 56 then ''1280x720@60Hz'' else ''1280x720@100Hz'')"

lemma sample_mode_list:
  "is_valid_list (Some sample_modes)" "addresses sample_modes = [28, 56]"
  by (simp_all add: is_valid_list_def sample_modes_def addresses_def upt_rec)

lemma sample_parsed:
  "mode_of ''800x600@60Hz'' = Some \<lparr>res_width = 800, res_height = 600, res_refresh = 60\<rparr>"
  "mode_of ''1280x720@60Hz'' = Some \<lparr>res_width = 1280, res_height = 720, res_refresh = 60\<rparr>"
  "mode_of ''1280x720@100Hz'' = Some \<lparr>res_width = 1280, res_height = 720, res_refresh = 100\<rparr>"
  by code_simp+

lemma sample_closest: "closest_resolution sample_strings None sample_modes ''1280x720@100Hz'' = Inr (Some 56)"
proof -
  have s: "c_str (sample_strings 28) = ''800x600@60Hz''" "c_str (sample_strings 56) = ''1280x720@60Hz''"
    by (simp_all add: sample_strings_def plain_string_def c_str_def)
  have w: "wanted_resolution None ''1280x720@100Hz'' = Inr \<lparr>res_width = 1280, res_height = 720, res_refresh = 100\<rparr>"
    by code_simp
  have p: "parse_resolution ''800x600@60Hz'' no_resolution = Inr (True, \<lparr>res_width = 800, res_height = 600, res_refresh = 60\<rparr>)"
    "parse_resolution ''1280x720@60Hz'' no_resolution = Inr (True, \<lparr>res_width = 1280, res_height = 720, res_refresh = 60\<rparr>)"
    by code_simp+
  show ?thesis
    by (simp add: closest_resolution_def w elements_valid(1) [OF sample_mode_list(1)] sample_mode_list(2) s p score_def
        distance_def fits_int_def)
qed

theorem closest_resolution_best_witness:
  "closest_resolution sample_strings None sample_modes ''1280x720@100Hz'' = Inr (Some 56) \<and>
   preferred \<lparr>res_width = 1280, res_height = 720, res_refresh = 100\<rparr>
     \<lparr>res_width = 1280, res_height = 720, res_refresh = 60\<rparr> \<lparr>res_width = 800, res_height = 600, res_refresh = 60\<rparr>"
proof -
  have s: "c_str (sample_strings 28) = ''800x600@60Hz''" "c_str (sample_strings 56) = ''1280x720@60Hz''"
    by (simp_all add: sample_strings_def plain_string_def c_str_def)
  have "\<forall>it \<in> set (addresses sample_modes). \<forall>c. mode_of (c_str (sample_strings it)) = Some c \<longrightarrow>
      refresh_distance \<lparr>res_width = 1280, res_height = 720, res_refresh = 100\<rparr> c < 50000"
    by (auto simp: sample_mode_list s sample_parsed refresh_distance_def)
  from closest_resolution_best [OF sample_mode_list(1) sample_closest sample_parsed(3) this]
  show ?thesis by (simp add: sample_closest sample_mode_list s sample_parsed)
qed

theorem replaced_value_known_witness:
  "setDynamicOption (\<lambda>_. Some sample_modes) (\<lambda>_. 0) sample_strings None 1 112 = Inr 56 \<and>
   is_known_value sample_strings sample_modes 56 = Inr True"
proof -
  have s: "c_str (sample_strings 28) = ''800x600@60Hz''" "c_str (sample_strings 56) = ''1280x720@60Hz''"
    "c_str (sample_strings 112) = ''1280x720@100Hz''" "str_size (sample_strings 112) = 14"
    by (simp_all add: sample_strings_def plain_string_def c_str_def)
  have "\<not> strnicmp_equal ''800x600@60Hz'' ''1280x720@100Hz'' 14" "\<not> strnicmp_equal ''1280x720@60Hz'' ''1280x720@100Hz'' 14"
    by code_simp+
  then have "is_known_value sample_strings sample_modes 112 = Inr False"
    by (simp add: is_known_value_def elements_valid(1) [OF sample_mode_list(1)] sample_mode_list(2) s)
  then have run: "setDynamicOption (\<lambda>_. Some sample_modes) (\<lambda>_. 0) sample_strings None 1 112 = Inr 56"
    using sample_closest by (simp add: setDynamicOption_def sample_mode_list(1) s)
  have "(1 :: int) = 1 \<longrightarrow> (\<exists>it \<in> set (addresses sample_modes). mode_of (c_str (sample_strings it)) \<noteq> None)"
    using sample_parsed(1) s(1) by (auto simp: sample_mode_list)
  from replaced_value_known [OF refl sample_mode_list(1) _ _ run this] run show ?thesis by simp
qed

end
