(* ===== verification/Renderer_Image.thy ===== *)
theory Renderer_Image
  imports Gs_Prelude
begin

text \<open>
  The search of the client patch for the function \<open>setDynamicOption\<close> in the image of the renderer, and the
  patching of its slots (\<open>bf2-dlls/client-video-fallback.cpp\<close>, from \<open>write_vtable_slot\<close> on).  Memory maps addresses, which are
  numbers, to bytes; pointers have 32 bits and are little-endian.  Windows and Detours are parameters.  Shown:
  which slots are found, that patching changes these slots only and that detaching restores the memory.
\<close>

section \<open>Memory\<close>

type_synonym memory = "int \<Rightarrow> u8"

definition read32 :: "memory \<Rightarrow> int \<Rightarrow> int" where
  "read32 mem a = uint (mem a) + 2 ^ 8 * uint (mem (a + 1)) + 2 ^ 16 * uint (mem (a + 2)) + 2 ^ 24 * uint (mem (a + 3))"

definition read_int32 :: "memory \<Rightarrow> int \<Rightarrow> int" where
  "read_int32 mem a = (let n = read32 mem a in if n < 2 ^ 31 then n else n - 2 ^ 32)"

definition byte_at :: "nat \<Rightarrow> int \<Rightarrow> u8" where
  "byte_at i n = of_int (n div 2 ^ (8 * i))"

definition write32 :: "int \<Rightarrow> int \<Rightarrow> memory \<Rightarrow> memory" where
  "write32 a n mem = mem(a := byte_at 0 n, a + 1 := byte_at 1 n, a + 2 := byte_at 2 n, a + 3 := byte_at 3 n)"

record range =
  rg_begin :: int
  rg_end :: int

definition contains :: "range \<Rightarrow> int \<Rightarrow> bool" where
  "contains r p \<longleftrightarrow> rg_begin r \<le> p \<and> p < rg_end r"

text \<open>\<open>find_bytes\<close>: the first place of the range where the bytes are; \<open>None\<close> is the null pointer.\<close>

definition bytes_at :: "memory \<Rightarrow> int \<Rightarrow> bytes \<Rightarrow> bool" where
  "bytes_at mem a bs = list_all (\<lambda>(i, b). mem (a + int i) = b) (enumerate 0 bs)"

definition find_bytes :: "memory \<Rightarrow> range \<Rightarrow> bytes \<Rightarrow> int option" where
  "find_bytes mem r bs =
     List.find (\<lambda>it. bytes_at mem it bs)
       (map (\<lambda>i. rg_begin r + int i) [0..<nat (rg_end r - int (length bs) + 1 - rg_begin r)])"

section \<open>The image\<close>

text \<open>A section header: its address relative to the module, its size, and whether it is code or discardable.\<close>

record image_section =
  sec_address :: int
  sec_size :: int
  sec_code :: bool
  sec_discardable :: bool

record pe_image =
  img_code :: range
  img_data :: "range list"

definition add_section :: "int \<Rightarrow> image_section \<Rightarrow> pe_image \<Rightarrow> pe_image" where
  "add_section base section img =
     (let range = \<lparr>rg_begin = base + sec_address section, rg_end = base + sec_address section + sec_size section\<rparr> in
      if sec_code section then (if rg_begin (img_code img) = 0 then img\<lparr>img_code := range\<rparr> else img)
      else if \<not> sec_discardable section then img\<lparr>img_data := img_data img @ [range]\<rparr>
      else img)"

definition pe_image_of :: "int \<Rightarrow> image_section list \<Rightarrow> pe_image" where
  "pe_image_of base sections =
     fold (add_section base) sections \<lparr>img_code = \<lparr>rg_begin = 0, rg_end = 0\<rparr>, img_data = []\<rparr>"

text \<open>At most four jumps are followed.\<close>

fun follow :: "nat \<Rightarrow> memory \<Rightarrow> pe_image \<Rightarrow> int \<Rightarrow> int" where
  "follow 0 mem img p = p"
| "follow (Suc n) mem img p =
     (if contains (img_code img) p \<and> p + 5 \<le> rg_end (img_code img) \<and> mem p = 0xE9
      then follow n mem img (p + (5 + read_int32 mem (p + 1)))
      else p)"

definition resolve :: "memory \<Rightarrow> pe_image \<Rightarrow> int \<Rightarrow> int" where
  "resolve mem img p = follow 4 mem img p"

text \<open>The first range that holds the whole table decides.\<close>

definition is_vtable :: "memory \<Rightarrow> pe_image \<Rightarrow> int \<Rightarrow> nat \<Rightarrow> bool" where
  "is_vtable mem img vtable n =
     (case List.find (\<lambda>r. contains r vtable \<and> contains r (vtable + 4 * (int n - 1))) (img_data img) of
        None \<Rightarrow> False
      | Some r \<Rightarrow> list_all (\<lambda>i. contains (img_code img) (read32 mem (vtable + 4 * int i))) [0..<n])"

definition is_getter :: "memory \<Rightarrow> pe_image \<Rightarrow> int \<Rightarrow> bool" where
  "is_getter mem img function =
     (let p = resolve mem img function in
      list_ex (\<lambda>i. bytes_at mem (p + int i) [0xC2, 0x04, 0x00])
        (takeWhile (\<lambda>i. contains (img_code img) (p + int i + 2)) [0..<64]))"

section \<open>Finding the slots\<close>

definition unknownDynamicOptionMessage :: bytes where
  "unknownDynamicOptionMessage = bytes_of ''Unknown DynamicOption value '' @ [0]"

fun find_message :: "memory \<Rightarrow> range list \<Rightarrow> int option" where
  "find_message mem [] = None"
| "find_message mem (r # rs) =
     (case find_bytes mem r unknownDynamicOptionMessage of Some a \<Rightarrow> Some a | None \<Rightarrow> find_message mem rs)"

text \<open>\<open>push offset message\<close>\<close>

definition push_bytes :: "int \<Rightarrow> bytes" where
  "push_bytes message = [0x68, byte_at 0 message, byte_at 1 message, byte_at 2 message, byte_at 3 message]"

definition range_slots :: "range \<Rightarrow> int list" where
  "range_slots r = map (\<lambda>i. rg_begin r + 4 * int i) [0..<nat ((rg_end r - rg_begin r) div 4)]"

text \<open>One slot of the loop; the state is the function found so far (0 at first) and its slots.\<close>

definition slot_step :: "memory \<Rightarrow> pe_image \<Rightarrow> int \<Rightarrow> int \<Rightarrow> int \<times> int list \<Rightarrow> int \<times> int list" where
  "slot_step mem img site slot = (\<lambda>(function, slots).
     if \<not> contains (img_code img) (read32 mem slot) then (function, slots)
     else
       let target = resolve mem img (read32 mem slot) in
       if target > site \<or> site - target > 0x2000 \<or> target < function then (function, slots)
       else
         let vtable = slot - 4 * 7 in
         if \<not> is_vtable mem img vtable 15 \<or> \<not> is_getter mem img (read32 mem (vtable + 4 * 6)) \<or>
            \<not> is_getter mem img (read32 mem (vtable + 4 * 8)) then (function, slots)
         else
           let (function, slots) = (if target \<noteq> function then (target, []) else (function, slots))
           in (function, slots @ [slot]))"

definition find_set_dynamic_option_slots :: "memory \<Rightarrow> pe_image \<Rightarrow> bool \<times> int list" where
  "find_set_dynamic_option_slots mem img =
     (if rg_begin (img_code img) = 0 then (False, [])
      else (case find_message mem (img_data img) of
          None \<Rightarrow> (False, [])
        | Some message \<Rightarrow>
            (case find_bytes mem (img_code img) (push_bytes message) of
               None \<Rightarrow> (True, [])
             | Some site \<Rightarrow>
                 if find_bytes mem \<lparr>rg_begin = site + 1, rg_end = rg_end (img_code img)\<rparr> (push_bytes message) \<noteq> None
                 then (True, [])
                 else (True, snd (fold (slot_step mem img site) (concat (map range_slots (img_data img))) (0, []))))))"

section \<open>Attaching and detaching\<close>

text \<open>
  The globals of the library and the memory of the process: \<open>g_renderer\<close> (0: none), the patched slots and the
  three functions of the game.
\<close>

record video_patch =
  g_renderer :: int
  g_setDynamicOptionSlots :: "int list"
  bf2_getDynamicOptionValues :: int
  bf2_setDynamicOption :: int
  bf2_getDynamicOption :: int
  process_memory :: memory

text \<open>
  What Windows answers: whether a module exports \<open>initDll\<close>, its section headers, whether the protection of a
  slot can be changed, the module an address belongs to; \<open>os_patched\<close> is the address of the replacement.
\<close>

record windows =
  os_exports_initDll :: "int \<Rightarrow> bool"
  os_sections :: "int \<Rightarrow> image_section list"
  os_writable :: "int \<Rightarrow> bool"
  os_module_of :: "int \<Rightarrow> int option"
  os_patched :: int

definition write_vtable_slot :: "windows \<Rightarrow> int \<Rightarrow> int \<Rightarrow> memory \<Rightarrow> bool \<times> memory" where
  "write_vtable_slot os slot v mem = (if \<not> os_writable os slot then (False, mem) else (True, write32 slot v mem))"

definition patch_slot :: "windows \<Rightarrow> int \<Rightarrow> video_patch \<Rightarrow> video_patch" where
  "patch_slot os slot st =
     (case write_vtable_slot os slot (os_patched os) (process_memory st) of
        (ok, mem) \<Rightarrow>
          if \<not> ok then st\<lparr>process_memory := mem\<rparr>
          else st\<lparr>process_memory := mem, g_setDynamicOptionSlots := g_setDynamicOptionSlots st @ [slot]\<rparr>)"

definition attach_renderer :: "windows \<Rightarrow> int \<Rightarrow> video_patch \<Rightarrow> video_patch" where
  "attach_renderer os module st =
     (if g_renderer st \<noteq> 0 \<or> module = 0 \<or> \<not> os_exports_initDll os module then st
      else
        let mem = process_memory st;
            (isRenderer, slots) = find_set_dynamic_option_slots mem (pe_image_of module (os_sections os module))
        in if \<not> isRenderer then st
           else (case slots of
               [] \<Rightarrow> st\<lparr>g_renderer := module\<rparr>
             | slot # _ \<Rightarrow>
                 let vtable = slot - 4 * 7;
                     st = st\<lparr>bf2_getDynamicOptionValues := read32 mem (vtable + 4 * 6),
                       bf2_setDynamicOption := read32 mem (vtable + 4 * 7),
                       bf2_getDynamicOption := read32 mem (vtable + 4 * 8)\<rparr>;
                     st = fold (patch_slot os) slots st
                 in st\<lparr>g_renderer := module\<rparr>))"

text \<open>\<open>patched_LoadLibraryA\<close> and \<open>patched_LoadLibraryExA\<close>, after the original has returned \<open>module\<close>.\<close>

definition patched_LoadLibrary :: "windows \<Rightarrow> int \<Rightarrow> video_patch \<Rightarrow> video_patch" where
  "patched_LoadLibrary os module st = (if g_renderer st = 0 then attach_renderer os module st else st)"

definition patched_LoadLibraryEx :: "windows \<Rightarrow> bool \<Rightarrow> int \<Rightarrow> video_patch \<Rightarrow> video_patch" where
  "patched_LoadLibraryEx os as_data module st =
     (if g_renderer st = 0 \<and> \<not> as_data then attach_renderer os module st else st)"

text \<open>\<open>DLL_PROCESS_ATTACH\<close>: the modules of the three names, 0 for one that is not loaded.\<close>

definition process_attach :: "windows \<Rightarrow> int list \<Rightarrow> video_patch \<Rightarrow> video_patch" where
  "process_attach os modules st = fold (attach_renderer os) modules st"

definition process_detach :: "windows \<Rightarrow> video_patch \<Rightarrow> video_patch" where
  "process_detach os st =
     (case g_setDynamicOptionSlots st of
        [] \<Rightarrow> st
      | slot # _ \<Rightarrow>
          if os_module_of os slot = Some (g_renderer st) then
            st\<lparr>process_memory := fold (\<lambda>slot mem. snd (write_vtable_slot os slot (bf2_setDynamicOption st) mem))
              (g_setDynamicOptionSlots st) (process_memory st)\<rparr>
          else st)"

section \<open>Bytes and places\<close>

lemma byte_at_parts:
  shows "byte_at 0 (uint (b :: u8) + 2 ^ 8 * x) = b"
    "byte_at (Suc i) (uint b + 2 ^ 8 * x) = byte_at i x"
proof -
  have b: "0 \<le> uint b" "uint b < 256" using uint_lt2p [of b] by simp_all
  have z: "(256 :: u8) = 0" by code_simp
  have z: "256 * y = (0 :: u8)" for y unfolding z by simp
  show "byte_at 0 (uint b + 2 ^ 8 * x) = b"
    using z by (simp add: byte_at_def)
  have "(uint b + 2 ^ 8 * x) div 2 ^ (8 * Suc i) = ((uint b + 256 * x) div 256) div 2 ^ (8 * i)"
    using zdiv_zmult2_eq [of "2 ^ (8 * i)" "uint b + 256 * x" 256] by (simp only: power_add mult_Suc_right) simp
  also have "(uint b + 256 * x) div 256 = x" using b by simp
  finally show "byte_at (Suc i) (uint b + 2 ^ 8 * x) = byte_at i x" by (simp add: byte_at_def)
qed

lemma byte_at_read32:
  "byte_at 0 (read32 mem a) = mem a" "byte_at 1 (read32 mem a) = mem (a + 1)"
  "byte_at 2 (read32 mem a) = mem (a + 2)" "byte_at 3 (read32 mem a) = mem (a + 3)"
proof -
  define x3 where "x3 = uint (mem (a + 3)) + 2 ^ 8 * (0 :: int)"
  define x2 where "x2 = uint (mem (a + 2)) + 2 ^ 8 * x3"
  define x1 where "x1 = uint (mem (a + 1)) + 2 ^ 8 * x2"
  have r: "read32 mem a = uint (mem a) + 2 ^ 8 * x1" by (simp add: read32_def x1_def x2_def x3_def)
  note b = byte_at_parts
  show "byte_at 0 (read32 mem a) = mem a" unfolding r by (rule b(1))
  have "byte_at (Suc 0) (read32 mem a) = mem (a + 1)"
    unfolding r b(2) unfolding x1_def by (rule b(1))
  then show "byte_at 1 (read32 mem a) = mem (a + 1)" by simp
  have "byte_at (Suc (Suc 0)) (read32 mem a) = mem (a + 2)"
    unfolding r b(2) unfolding x1_def b(2) unfolding x2_def by (rule b(1))
  then show "byte_at 2 (read32 mem a) = mem (a + 2)" by (simp add: numeral_2_eq_2)
  have "byte_at (Suc (Suc (Suc 0))) (read32 mem a) = mem (a + 3)"
    unfolding r b(2) unfolding x1_def b(2) unfolding x2_def b(2) unfolding x3_def by (rule b(1))
  then show "byte_at 3 (read32 mem a) = mem (a + 3)" by (simp add: numeral_3_eq_3)
qed

lemma read32_byte_at:
  assumes "0 \<le> n" "n < 2 ^ 32" "mem a = byte_at 0 n" "mem (a + 1) = byte_at 1 n" "mem (a + 2) = byte_at 2 n"
    "mem (a + 3) = byte_at 3 n"
  shows "read32 mem a = n"
proof -
  have u: "uint (byte_at i n) = n div 2 ^ (8 * i) mod 256" for i
    by (simp add: byte_at_def uint_word_of_int take_bit_eq_mod)
  have d: "n div 65536 = n div 256 div 256" "n div 16777216 = n div 256 div 256 div 256"
    using zdiv_zmult2_eq [of 256 n 256] zdiv_zmult2_eq [of 256 n 65536] zdiv_zmult2_eq [of 256 "n div 256" 256] by simp_all
  have "n = n mod 256 + 256 * (n div 256)" by simp
  moreover have "n div 256 = n div 256 mod 256 + 256 * (n div 256 div 256)" by simp
  moreover have "n div 256 div 256 = n div 256 div 256 mod 256 + 256 * (n div 256 div 256 div 256)" by simp
  moreover have "n div 256 div 256 div 256 mod 256 = n div 256 div 256 div 256" unfolding d(2) [symmetric] using assms(1,2) by simp
  moreover have "read32 mem a = n mod 256 + 256 * (n div 256 mod 256) + 65536 * (n div 256 div 256 mod 256) +
      16777216 * (n div 256 div 256 div 256 mod 256)"
    using assms(3-6) by (simp add: read32_def u d)
  ultimately show ?thesis by linarith
qed

text \<open>Where bytes occur in a range.\<close>

definition occurs :: "memory \<Rightarrow> range \<Rightarrow> bytes \<Rightarrow> int \<Rightarrow> bool" where
  "occurs mem r bs a \<longleftrightarrow> rg_begin r \<le> a \<and> a + int (length bs) \<le> rg_end r \<and> bytes_at mem a bs"

lemma find_place: "set (map (\<lambda>i. b + int i) [0..<nat (e - b)]) = {b..<e}"
proof -
  have "a \<in> (\<lambda>i. b + int i) ` {0..<nat (e - b)}" if "b \<le> a" "a < e" for a
    using that by (intro image_eqI [of _ _ "nat (a - b)"]) auto
  then show ?thesis by auto
qed

lemma find_bytes_None: "find_bytes mem r bs = None \<longleftrightarrow> (\<forall>a. \<not> occurs mem r bs a)"
  using find_place [of "rg_begin r" "rg_end r - int (length bs) + 1"]
  by (auto simp: find_bytes_def occurs_def find_None_iff set_eq_iff simp del: set_map)

lemma find_bytes_Some: "find_bytes mem r bs = Some a \<Longrightarrow> occurs mem r bs a \<and> (\<forall>b < a. \<not> occurs mem r bs b)"
proof -
  assume a: "find_bytes mem r bs = Some a"
  let ?n = "nat (rg_end r - int (length bs) + 1 - rg_begin r)"
  from a obtain i where i: "i < ?n" "bytes_at mem (rg_begin r + int i) bs" "a = rg_begin r + int i"
    "\<forall>j < i. \<not> bytes_at mem (rg_begin r + int j) bs"
    by (auto simp: find_bytes_def find_Some_iff)
  have "\<not> occurs mem r bs b" if b: "b < a" for b
  proof
    assume o: "occurs mem r bs b"
    then have "b = rg_begin r + int (nat (b - rg_begin r))" by (simp add: occurs_def)
    moreover have "nat (b - rg_begin r) < i" using o b i(3) by (auto simp: occurs_def)
    ultimately show False using i(4) o by (metis occurs_def)
  qed
  with i show ?thesis by (auto simp: occurs_def)
qed

section \<open>Which slots are found\<close>

definition target :: "memory \<Rightarrow> pe_image \<Rightarrow> int \<Rightarrow> int" where
  "target mem img slot = resolve mem img (read32 mem slot)"

text \<open>
  A slot whose function begins at most \<open>0x2000\<close> bytes before the reference, and which is entry 7 of a table of
  15 code pointers with getters in the entries 6 and 8.
\<close>

definition qualifies :: "memory \<Rightarrow> pe_image \<Rightarrow> int \<Rightarrow> int \<Rightarrow> bool" where
  "qualifies mem img site slot \<longleftrightarrow>
     contains (img_code img) (read32 mem slot) \<and> 0 \<le> target mem img slot \<and> target mem img slot \<le> site \<and>
     site - target mem img slot \<le> 0x2000 \<and> is_vtable mem img (slot - 28) 15 \<and>
     is_getter mem img (read32 mem (slot - 4)) \<and> is_getter mem img (read32 mem (slot + 4))"

definition slots_so_far :: "memory \<Rightarrow> pe_image \<Rightarrow> int \<Rightarrow> int list \<Rightarrow> int \<times> int list \<Rightarrow> bool" where
  "slots_so_far mem img site xs = (\<lambda>(f, slots). 0 \<le> f \<and> (f = 0 \<or> slots \<noteq> []) \<and>
     slots = filter (\<lambda>s. qualifies mem img site s \<and> target mem img s = f) xs \<and>
     (\<forall>s \<in> set xs. qualifies mem img site s \<longrightarrow> target mem img s \<le> f))"

lemma slot_step_cases:
  "slot_step mem img site s (f, slots) =
     (if qualifies mem img site s \<and> f \<le> target mem img s
      then (target mem img s, (if target mem img s \<noteq> f then [] else slots) @ [s])
      else (f, slots))" if "0 \<le> f"
  using that by (auto simp: slot_step_def qualifies_def target_def Let_def add.commute [of 4 s])

lemma slots_step:
  assumes "slots_so_far mem img site xs st"
  shows "slots_so_far mem img site (xs @ [s]) (slot_step mem img site s st)"
proof -
  obtain f slots where st: "st = (f, slots)" by (cases st)
  from assms have i: "0 \<le> f" "f = 0 \<or> slots \<noteq> []"
    "slots = filter (\<lambda>s. qualifies mem img site s \<and> target mem img s = f) xs"
    "\<And>s. s \<in> set xs \<Longrightarrow> qualifies mem img site s \<Longrightarrow> target mem img s \<le> f"
    by (auto simp: slots_so_far_def st)
  show ?thesis
  proof (cases "qualifies mem img site s \<and> f \<le> target mem img s")
    case False
    then have "qualifies mem img site s \<Longrightarrow> target mem img s < f" by auto
    with False i show ?thesis
      by (auto simp: st slot_step_cases [OF i(1)] slots_so_far_def dest: less_imp_le)
  next
    case True
    show ?thesis
    proof (cases "target mem img s = f")
      case eq: True
      with True i show ?thesis by (auto simp: st slot_step_cases [OF i(1)] slots_so_far_def)
    next
      case False
      with True i(4) have "filter (\<lambda>x. qualifies mem img site x \<and> target mem img x = target mem img s) xs = []"
        by (fastforce simp: filter_empty_conv)
      moreover have "target mem img x \<le> target mem img s" if "x \<in> set xs" "qualifies mem img site x" for x
        using i(4) [OF that] True by simp
      ultimately show ?thesis using True False i(1) by (auto simp: st slot_step_cases [OF i(1)] slots_so_far_def)
    qed
  qed
qed

lemma slots_fold: "slots_so_far mem img site xs (fold (slot_step mem img site) xs (0, []))"
proof (induction xs rule: rev_induct)
  case Nil
  show ?case by (simp add: slots_so_far_def)
next
  case (snoc s xs)
  from slots_step [OF snoc] show ?case by simp
qed

lemma slots_latest:
  "snd (fold (slot_step mem img site) xs (0, [])) =
     filter (\<lambda>s. qualifies mem img site s \<and> (\<forall>t \<in> set xs. qualifies mem img site t \<longrightarrow> target mem img t \<le> target mem img s)) xs"
proof -
  obtain f slots where r: "fold (slot_step mem img site) xs (0, []) = (f, slots)" by fastforce
  from slots_fold [of mem img site xs] have i: "f = 0 \<or> slots \<noteq> []"
    "slots = filter (\<lambda>s. qualifies mem img site s \<and> target mem img s = f) xs"
    "\<And>s. s \<in> set xs \<Longrightarrow> qualifies mem img site s \<Longrightarrow> target mem img s \<le> f"
    by (auto simp: r slots_so_far_def)
  have "(target mem img s = f) \<longleftrightarrow> (\<forall>t \<in> set xs. qualifies mem img site t \<longrightarrow> target mem img t \<le> target mem img s)"
    if s: "s \<in> set xs" "qualifies mem img site s" for s
  proof
    assume max: "\<forall>t \<in> set xs. qualifies mem img site t \<longrightarrow> target mem img t \<le> target mem img s"
    show "target mem img s = f"
    proof (cases "f = 0")
      case True
      with i(3) [OF s] s(2) show ?thesis by (simp add: qualifies_def)
    next
      case False
      with i(1) obtain t where "t \<in> set slots" by (cases slots) auto
      with i(2) have "t \<in> set xs" "qualifies mem img site t" "target mem img t = f" by auto
      with max i(3) [OF s] show ?thesis by fastforce
    qed
  qed (use i(3) in blast)
  then show ?thesis unfolding r snd_conv i(2) by (intro filter_cong) auto
qed

section \<open>What patching changes\<close>

definition bytes_of_slot :: "int \<Rightarrow> int set" where
  "bytes_of_slot s = {s, s + 1, s + 2, s + 3}"

lemma write32_outside: "a \<notin> bytes_of_slot s \<Longrightarrow> write32 s v mem a = mem a"
  by (simp add: bytes_of_slot_def write32_def)

lemma write32_inside: "a \<in> bytes_of_slot s \<Longrightarrow> write32 s v mem a = byte_at (nat (a - s)) v"
  by (auto simp: bytes_of_slot_def write32_def)

lemma byte_at_slot: "a \<in> bytes_of_slot s \<Longrightarrow> byte_at (nat (a - s)) (read32 mem s) = mem a"
  using byte_at_read32 [of mem s] by (auto simp: bytes_of_slot_def)

definition write_all :: "int \<Rightarrow> int list \<Rightarrow> memory \<Rightarrow> memory" where
  "write_all v slots mem = fold (\<lambda>s. write32 s v) slots mem"

lemma write_all_snoc: "write_all v (slots @ [s]) mem = write32 s v (write_all v slots mem)"
  by (simp add: write_all_def)

lemma write_all_outside: "(\<forall>s \<in> set slots. a \<notin> bytes_of_slot s) \<Longrightarrow> write_all v slots mem a = mem a"
  by (induction slots rule: rev_induct) (simp_all add: write_all_snoc write32_outside, simp add: write_all_def)

text \<open>Slots that share no byte.\<close>

definition apart :: "int list \<Rightarrow> bool" where
  "apart slots \<longleftrightarrow> (\<forall>s \<in> set slots. \<forall>t \<in> set slots. s = t \<or> bytes_of_slot s \<inter> bytes_of_slot t = {})"

lemma write_all_inside:
  "apart slots \<Longrightarrow> s \<in> set slots \<Longrightarrow> a \<in> bytes_of_slot s \<Longrightarrow> write_all v slots mem a = byte_at (nat (a - s)) v"
proof (induction slots rule: rev_induct)
  case (snoc t slots)
  show ?case
  proof (cases "s = t")
    case True
    with snoc.prems show ?thesis by (simp add: write_all_snoc write32_inside)
  next
    case False
    with snoc.prems have "s \<in> set slots" "apart slots" "a \<notin> bytes_of_slot t" by (auto simp: apart_def)
    with snoc show ?thesis by (simp add: write_all_snoc write32_outside)
  qed
qed simp

lemma patch_slots:
  "process_memory (fold (patch_slot os) slots st) = write_all (os_patched os) (filter (os_writable os) slots) (process_memory st) \<and>
   g_setDynamicOptionSlots (fold (patch_slot os) slots st) = g_setDynamicOptionSlots st @ filter (os_writable os) slots \<and>
   bf2_setDynamicOption (fold (patch_slot os) slots st) = bf2_setDynamicOption st"
  by (induction slots rule: rev_induct) (simp_all add: patch_slot_def write_vtable_slot_def write_all_def)

lemma attach_memory:
  assumes "g_setDynamicOptionSlots st = []"
  shows "process_memory (attach_renderer os m st) =
    write_all (os_patched os) (g_setDynamicOptionSlots (attach_renderer os m st)) (process_memory st) \<and>
    (\<forall>s \<in> set (g_setDynamicOptionSlots (attach_renderer os m st)). os_writable os s) \<and>
    (g_setDynamicOptionSlots (attach_renderer os m st) \<noteq> [] \<longrightarrow> g_renderer (attach_renderer os m st) = m)"
  using assms patch_slots [of os]
  by (auto simp: attach_renderer_def patch_slot_def write_vtable_slot_def Let_def write_all_def split: prod.splits list.splits)

lemma detach_writes:
  "\<forall>s \<in> set slots. os_writable os s \<Longrightarrow>
   fold (\<lambda>s mem. snd (write_vtable_slot os s v mem)) slots mem = write_all v slots mem"
  by (induction slots arbitrary: mem) (simp_all add: write_vtable_slot_def write_all_def)

text \<open>Detaching after the slots have been written to a memory where they all held the pointer that is written back.\<close>

definition written_from :: "windows \<Rightarrow> memory \<Rightarrow> video_patch \<Rightarrow> bool" where
  "written_from os mem st \<longleftrightarrow> process_memory st = write_all (os_patched os) (g_setDynamicOptionSlots st) mem \<and>
     (\<forall>s \<in> set (g_setDynamicOptionSlots st). os_writable os s)"

lemma restore_written:
  assumes "written_from os mem st" and "apart (g_setDynamicOptionSlots st)"
    and "\<forall>s \<in> set (g_setDynamicOptionSlots st). read32 mem s = bf2_setDynamicOption st"
    and "\<forall>s \<in> set (g_setDynamicOptionSlots st). os_module_of os s = Some (g_renderer st)"
  shows "process_memory (process_detach os st) = mem"
proof
  fix x
  let ?slots = "g_setDynamicOptionSlots st"
  have w: "process_memory st = write_all (os_patched os) ?slots mem" "\<forall>s \<in> set ?slots. os_writable os s"
    using assms(1) by (simp_all add: written_from_def)
  show "process_memory (process_detach os st) x = mem x"
  proof (cases "?slots")
    case Nil
    then show ?thesis using w by (simp add: process_detach_def write_all_def)
  next
    case (Cons t ts)
    with assms(4) have "os_module_of os t = Some (g_renderer st)" by simp
    then have after: "process_memory (process_detach os st) = write_all (bf2_setDynamicOption st) ?slots (process_memory st)"
      using Cons detach_writes [of ?slots os] w by (simp add: process_detach_def)
    show ?thesis
    proof (cases "\<exists>s \<in> set ?slots. x \<in> bytes_of_slot s")
      case True
      then obtain s where s: "s \<in> set ?slots" "x \<in> bytes_of_slot s" by blast
      have "write_all (bf2_setDynamicOption st) ?slots (process_memory st) x = byte_at (nat (x - s)) (read32 mem s)"
        using write_all_inside [OF assms(2) s] assms(3) s(1) by simp
      with byte_at_slot [OF s(2)] after show ?thesis by simp
    next
      case False
      with write_all_outside [of ?slots x] w after show ?thesis by simp
    qed
  qed
qed

section \<open>A small renderer\<close>

text \<open>
  A renderer of 108 bytes: a getter at 0x100, the function at 0x103 with its reference to the message, the message
  at 0x110 and a table of fifteen functions from 0x130 on, whose seventh slot (0x14C) is the function.
\<close>

definition sample_image :: bytes where
  "sample_image =
     [194, 4, 0, 144, 104, 16, 1, 0, 0, 194, 4, 0, 0, 0, 0, 0, 85, 110, 107, 110, 111, 119, 110, 32,
     68, 121, 110, 97, 109, 105, 99, 79, 112, 116, 105, 111, 110, 32, 118, 97, 108, 117, 101, 32, 0,
     0, 0, 0, 0, 1, 0, 0, 0, 1, 0, 0, 0, 1, 0, 0, 0, 1, 0, 0, 0, 1, 0, 0, 0, 1, 0, 0, 0, 1, 0, 0, 3,
     1, 0, 0, 0, 1, 0, 0, 0, 1, 0, 0, 0, 1, 0, 0, 0, 1, 0, 0, 0, 1, 0, 0, 0, 1, 0, 0, 0, 1, 0, 0]"

definition sample_memory :: memory where
  "sample_memory a = (if 0x100 \<le> a \<and> a < 0x100 + 108 then sample_image ! nat (a - 0x100) else 0)"

definition sample_sections :: "image_section list" where
  "sample_sections = [\<lparr>sec_address = 0, sec_size = 16, sec_code = True, sec_discardable = False\<rparr>,
     \<lparr>sec_address = 16, sec_size = 92, sec_code = False, sec_discardable = False\<rparr>]"

definition sample_pe :: pe_image where
  "sample_pe = \<lparr>img_code = \<lparr>rg_begin = 0x100, rg_end = 0x110\<rparr>, img_data = [\<lparr>rg_begin = 0x110, rg_end = 0x16C\<rparr>]\<rparr>"

lemma sample_pe_image: "pe_image_of 0x100 sample_sections = sample_pe"
  by code_simp

lemma sample_message: "find_message sample_memory (img_data sample_pe) = Some 0x110"
  by code_simp

lemma sample_site: "find_bytes sample_memory (img_code sample_pe) (push_bytes 0x110) = Some 0x104"
  by code_simp

lemma sample_one_site: "find_bytes sample_memory \<lparr>rg_begin = 0x105, rg_end = 0x110\<rparr> (push_bytes 0x110) = None"
  by code_simp

lemma sample_fold:
  "fold (slot_step sample_memory sample_pe 0x104) (concat (map range_slots (img_data sample_pe))) (0, []) = (0x103, [0x14C])"
  by code_simp

lemma sample_code: "rg_begin (img_code sample_pe) = 0x100" "rg_end (img_code sample_pe) = 0x110"
  by (simp_all add: sample_pe_def)

lemmas sample_parts = sample_pe_image sample_message sample_site sample_one_site sample_fold sample_code

lemma sample_slots: "find_set_dynamic_option_slots sample_memory (pe_image_of 0x100 sample_sections) = (True, [0x14C])"
  by (simp add: find_set_dynamic_option_slots_def sample_parts)

definition sample_windows :: windows where
  "sample_windows = \<lparr>os_exports_initDll = (\<lambda>_. True), os_sections = (\<lambda>_. sample_sections), os_writable = (\<lambda>_. True),
     os_module_of = (\<lambda>_. Some 0x100), os_patched = 0x12345678\<rparr>"

definition sample_patch :: video_patch where
  "sample_patch = \<lparr>g_renderer = 0, g_setDynamicOptionSlots = [], bf2_getDynamicOptionValues = 0,
     bf2_setDynamicOption = 0, bf2_getDynamicOption = 0, process_memory = sample_memory\<rparr>"

lemma sample_attached:
  "g_setDynamicOptionSlots (attach_renderer sample_windows 0x100 sample_patch) = [0x14C]"
  "bf2_setDynamicOption (attach_renderer sample_windows 0x100 sample_patch) = read32 sample_memory 0x14C"
  using sample_slots
  by (simp_all add: attach_renderer_def sample_windows_def sample_patch_def patch_slot_def write_vtable_slot_def Let_def)

section \<open>Properties\<close>

text \<open>
  C19. The slots that are found: when there are any, the message is in a data range, the code refers to it at exactly
  one place, and the slots are all those candidates that qualify and whose function begins
  latest before this place, in the order of the ranges.
\<close>

theorem slots_found_exact:
  assumes "find_set_dynamic_option_slots mem img = (is_renderer, slots)" and "slots \<noteq> []"
  shows "is_renderer \<and> (\<exists>message site.
    (\<exists>r \<in> set (img_data img). occurs mem r unknownDynamicOptionMessage message) \<and>
    (\<forall>a. occurs mem (img_code img) (push_bytes message) a \<longleftrightarrow> a = site) \<and>
    slots = filter (\<lambda>s. qualifies mem img site s \<and>
        (\<forall>t \<in> set (concat (map range_slots (img_data img))). qualifies mem img site t \<longrightarrow>
           target mem img t \<le> target mem img s))
      (concat (map range_slots (img_data img))))"
proof -
  have msg: "find_message mem rs = Some m \<Longrightarrow> \<exists>r \<in> set rs. occurs mem r unknownDynamicOptionMessage m" for rs m
    by (induction rs) (auto split: option.splits dest: find_bytes_Some)
  from assms obtain message site where f: "find_message mem (img_data img) = Some message"
    "find_bytes mem (img_code img) (push_bytes message) = Some site"
    "find_bytes mem \<lparr>rg_begin = site + 1, rg_end = rg_end (img_code img)\<rparr> (push_bytes message) = None"
    "is_renderer" "slots = snd (fold (slot_step mem img site) (concat (map range_slots (img_data img))) (0, []))"
    by (auto simp: find_set_dynamic_option_slots_def split: if_splits option.splits)
  have "occurs mem (img_code img) (push_bytes message) a \<longleftrightarrow> a = site" for a
  proof
    assume a: "occurs mem (img_code img) (push_bytes message) a"
    with find_bytes_Some [OF f(2)] have "\<not> a < site" by blast
    moreover have "\<not> site < a"
      using a f(3) unfolding find_bytes_None by (auto simp: occurs_def dest!: spec [of _ a])
    ultimately show "a = site" by simp
  qed (use find_bytes_Some [OF f(2)] in simp)
  with msg [OF f(1)] f(4,5) show ?thesis unfolding slots_latest by blast
qed

theorem slots_found_exact_witness:
  "\<exists>message site. (\<exists>r \<in> set (img_data (pe_image_of 0x100 sample_sections)). occurs sample_memory r unknownDynamicOptionMessage message) \<and>
     (\<forall>a. occurs sample_memory (img_code (pe_image_of 0x100 sample_sections)) (push_bytes message) a \<longleftrightarrow> a = site)"
  using slots_found_exact [OF sample_slots not_Cons_self2] by blast

text \<open>
  Attaching writes nothing but the slots that are remembered, each of which then holds the replacement; and when
  these slots share no byte and held the same pointer, detaching while the renderer is loaded restores
  the whole memory.
\<close>

theorem detach_restores:
  assumes "g_setDynamicOptionSlots st = []" and "st1 = attach_renderer os m st"
    and "apart (g_setDynamicOptionSlots st1)" and "0 \<le> os_patched os" and "os_patched os < 2 ^ 32"
    and "\<forall>s \<in> set (g_setDynamicOptionSlots st1). read32 (process_memory st) s = bf2_setDynamicOption st1"
    and "\<forall>s \<in> set (g_setDynamicOptionSlots st1). os_module_of os s = Some m"
  shows "(\<forall>a. (\<forall>s \<in> set (g_setDynamicOptionSlots st1). a \<notin> bytes_of_slot s) \<longrightarrow>
      process_memory st1 a = process_memory st a) \<and>
    (\<forall>s \<in> set (g_setDynamicOptionSlots st1). read32 (process_memory st1) s = os_patched os) \<and>
    process_memory (process_detach os st1) = process_memory st"
proof -
  let ?slots = "g_setDynamicOptionSlots st1"
  note a = attach_memory [OF assms(1), of os m, folded assms(2)]
  have outside: "(\<forall>s \<in> set ?slots. a \<notin> bytes_of_slot s) \<Longrightarrow> process_memory st1 a = process_memory st a" for a
    using a write_all_outside by simp
  have held: "read32 (process_memory st1) s = os_patched os" if s: "s \<in> set ?slots" for s
  proof -
    have b: "process_memory st1 x = byte_at (nat (x - s)) (os_patched os)" if "x \<in> bytes_of_slot s" for x
      using a write_all_inside [OF assms(3) s that] by simp
    show ?thesis using b by (intro read32_byte_at assms(4,5)) (simp_all add: bytes_of_slot_def)
  qed
  have "g_setDynamicOptionSlots st1 \<noteq> [] \<longrightarrow> g_renderer st1 = m" using a by simp
  with assms(7) have loaded: "\<forall>s \<in> set ?slots. os_module_of os s = Some (g_renderer st1)" by auto
  have "written_from os (process_memory st) st1" using a by (simp add: written_from_def)
  from restore_written [OF this assms(3,6) loaded]
  have "process_memory (process_detach os st1) = process_memory st" .
  with outside held show ?thesis by blast
qed

theorem detach_restores_witness:
  "process_memory (process_detach sample_windows (attach_renderer sample_windows 0x100 sample_patch)) = sample_memory \<and>
   read32 (process_memory (attach_renderer sample_windows 0x100 sample_patch)) 0x14C = 0x12345678"
  using detach_restores [where st = sample_patch and os = sample_windows and m = "0x100", OF _ refl]
  by (simp add: sample_attached apart_def) (simp add: sample_patch_def sample_windows_def)

end
