(* ===== verification/Video_Loading.thy ===== *)
theory Video_Loading
  imports Renderer_Image Game_Patches
begin

text \<open>
  The life of the video patch (\<open>bf2-dlls/client-video-fallback.cpp\<close>, \<open>DllMain\<close> and the hooks of \<open>LoadLibrary\<close>): it patches the
  renderer that is loaded already, or hooks the functions that load one later.  The log records every transaction of Detours
  with its operations and what committing it returned, a parameter.  Shown: over every sequence of
  loaded libraries the patch is written once, unloading restores the memory, and which
  transactions unloading starts.
\<close>

section \<open>State\<close>

datatype loader_hook = Hook_LoadLibraryA | Hook_LoadLibraryExA

record video_dll =
  vd_patch :: video_patch
  g_loader_detours_error :: int
  vd_log :: "((transaction \<times> loader_hook) list \<times> int) list"

definition initial_video_dll :: "memory \<Rightarrow> video_dll" where
  "initial_video_dll mem =
     \<lparr>vd_patch = \<lparr>g_renderer = 0, g_setDynamicOptionSlots = [], bf2_getDynamicOptionValues = 0,
        bf2_setDynamicOption = 0, bf2_getDynamicOption = 0, process_memory = mem\<rparr>,
      g_loader_detours_error = 0, vd_log = []\<rparr>"

section \<open>\<open>DllMain\<close>\<close>

definition hook_transaction :: "(transaction \<times> loader_hook) list \<Rightarrow> int \<Rightarrow> (video_dll, unit) io" where
  "hook_transaction operations result = modify (\<lambda>st. st\<lparr>vd_log := vd_log st @ [(operations, result)]\<rparr>)"

text \<open>\<open>modules\<close> are what \<open>GetModuleHandleA\<close> returns for the three names, and \<open>result\<close> what the transaction returns.\<close>

definition video_attach :: "windows \<Rightarrow> int list \<Rightarrow> int \<Rightarrow> (video_dll, bool) io" where
  "video_attach os modules result =
     then_io (modify (\<lambda>st. st\<lparr>vd_patch := process_attach os modules (vd_patch st)\<rparr>))
       (bind_io (gets (g_renderer \<circ> vd_patch)) (\<lambda>renderer.
        if renderer \<noteq> 0 then ret True
        else
          then_io (hook_transaction [(Attach_patch, Hook_LoadLibraryA), (Attach_patch, Hook_LoadLibraryExA)] result)
         (then_io (modify (\<lambda>st. st\<lparr>g_loader_detours_error := result\<rparr>)) (ret True))))"

definition video_detach :: "windows \<Rightarrow> int \<Rightarrow> (video_dll, bool) io" where
  "video_detach os result =
     bind_io (gets g_loader_detours_error) (\<lambda>error.
     then_io (hook_transaction
         (if error = 0 then [(Detach_patch, Hook_LoadLibraryExA), (Detach_patch, Hook_LoadLibraryA)] else []) result)
    (then_io (modify (\<lambda>st. st\<lparr>vd_patch := process_detach os (vd_patch st)\<rparr>)) (ret True)))"

definition video_DllMain :: "windows \<Rightarrow> bool \<Rightarrow> int list dll_reason \<Rightarrow> (video_dll, bool) io" where
  "video_DllMain os = dll_main (video_attach os) (video_detach os)"

section \<open>Libraries that the game loads\<close>

text \<open>
  A call of \<open>LoadLibraryA\<close>, or of \<open>LoadLibraryExA\<close> with one of the three flags for data or without, and the module it
  returns.  It reaches the patch when the hooks are in place.
\<close>

datatype library_load = Load_library int | Load_library_ex bool int

definition hooked :: "video_dll \<Rightarrow> bool" where
  "hooked st \<longleftrightarrow> vd_log st = [([(Attach_patch, Hook_LoadLibraryA), (Attach_patch, Hook_LoadLibraryExA)], 0)]"

fun patched_load :: "windows \<Rightarrow> library_load \<Rightarrow> video_patch \<Rightarrow> video_patch" where
  "patched_load os (Load_library module) p = patched_LoadLibrary os module p"
| "patched_load os (Load_library_ex as_data module) p = patched_LoadLibraryEx os as_data module p"

definition game_loads :: "windows \<Rightarrow> library_load list \<Rightarrow> video_dll \<Rightarrow> video_dll" where
  "game_loads os loads st =
     (if hooked st then st\<lparr>vd_patch := fold (patched_load os) loads (vd_patch st)\<rparr> else st)"

section \<open>The patch is written once\<close>

definition patch_ok :: "windows \<Rightarrow> memory \<Rightarrow> video_patch \<Rightarrow> bool" where
  "patch_ok os mem p \<longleftrightarrow> written_from os mem p \<and> (g_setDynamicOptionSlots p \<noteq> [] \<longrightarrow> g_renderer p \<noteq> 0)"

lemma attach_renderer_ok: "patch_ok os mem p \<Longrightarrow> patch_ok os mem (attach_renderer os m p)"
proof (cases "g_renderer p \<noteq> 0 \<or> m = 0")
  case True
  then show "patch_ok os mem p \<Longrightarrow> ?thesis" by (simp add: attach_renderer_def)
next
  case False
  assume ok: "patch_ok os mem p"
  with False have none: "g_setDynamicOptionSlots p = []" by (auto simp: patch_ok_def)
  with ok have mem: "process_memory p = mem" by (simp add: patch_ok_def written_from_def write_all_def)
  from attach_memory [OF none, of os m] False show ?thesis
    by (simp add: patch_ok_def written_from_def mem)
qed

lemma patched_load_ok: "patch_ok os mem p \<Longrightarrow> patch_ok os mem (patched_load os l p)"
  by (cases l) (simp_all add: patched_LoadLibrary_def patched_LoadLibraryEx_def attach_renderer_ok)

lemma fold_ok: "(\<And>x p. patch_ok os mem p \<Longrightarrow> patch_ok os mem (f x p)) \<Longrightarrow> patch_ok os mem p \<Longrightarrow> patch_ok os mem (fold f xs p)"
  by (induction xs arbitrary: p) simp_all

lemma initial_ok: "patch_ok os mem (vd_patch (initial_video_dll mem))"
  by (simp add: patch_ok_def written_from_def initial_video_dll_def write_all_def)

lemma attached_ok: "patch_ok os mem (vd_patch (snd (video_attach os modules result (initial_video_dll mem))))"
  using fold_ok [OF attach_renderer_ok initial_ok, where xs = modules and os = os]
  by (simp add: video_attach_def then_io_def bind_io_def modify_def gets_def ret_def hook_transaction_def process_attach_def)

lemma game_loads_ok: "patch_ok os mem (vd_patch st) \<Longrightarrow> patch_ok os mem (vd_patch (game_loads os loads st))"
  using fold_ok [where f = "patched_load os", OF patched_load_ok] by (simp add: game_loads_def)

lemma loads_log:
  "g_loader_detours_error (game_loads os loads st) = g_loader_detours_error st" "vd_log (game_loads os loads st) = vd_log st"
  by (simp_all add: game_loads_def)

lemma video_detach_eq:
  "video_detach os result st = (Inr True, st\<lparr>vd_patch := process_detach os (vd_patch st),
     vd_log := vd_log st @ [(if g_loader_detours_error st = 0
       then [(Detach_patch, Hook_LoadLibraryExA), (Detach_patch, Hook_LoadLibraryA)] else [], result)]\<rparr>)"
  by (simp add: video_detach_def then_io_def bind_io_def modify_def gets_def ret_def hook_transaction_def)

lemma video_attach_log:
  assumes "st1 = snd (video_attach os modules result (initial_video_dll mem))"
  shows "vd_log st1 = (if g_renderer (process_attach os modules (vd_patch (initial_video_dll mem))) \<noteq> 0 then []
      else [([(Attach_patch, Hook_LoadLibraryA), (Attach_patch, Hook_LoadLibraryExA)], result)]) \<and>
    g_loader_detours_error st1 =
      (if g_renderer (process_attach os modules (vd_patch (initial_video_dll mem))) \<noteq> 0 then 0 else result)"
  unfolding assms
  by (simp add: video_attach_def then_io_def bind_io_def modify_def gets_def ret_def hook_transaction_def)
    (simp add: initial_video_dll_def)

section \<open>Properties\<close>


lemma sample_loaded_late:
  "vd_patch (game_loads sample_windows [Load_library_ex True 0x100, Load_library 0x100, Load_library 0x100]
     (snd (video_DllMain sample_windows False (Process_attach [0, 0, 0] 0) (initial_video_dll sample_memory)))) =
   attach_renderer sample_windows 0x100 sample_patch"
proof -
  have init: "vd_patch (initial_video_dll sample_memory) = sample_patch" by (simp add: initial_video_dll_def sample_patch_def)
  have zero: "attach_renderer sample_windows 0 p = p" for p by (simp add: attach_renderer_def)
  have r: "g_renderer sample_patch = 0" by (simp add: sample_patch_def)
  have again: "attach_renderer sample_windows 0x100 sample_patch =
      (attach_renderer sample_windows 0x100 sample_patch)\<lparr>g_renderer := 0x100\<rparr>"
    using sample_slots by (simp add: attach_renderer_def sample_windows_def sample_patch_def Let_def)
  then have r': "g_renderer (attach_renderer sample_windows 0x100 sample_patch) = 0x100"
    by (metis video_patch.select_convs(1) video_patch.surjective video_patch.update_convs(1))
  show ?thesis
    by (simp add: game_loads_def hooked_def video_DllMain_def dll_main_def video_attach_def then_io_def bind_io_def modify_def gets_def
        ret_def hook_transaction_def process_attach_def init zero r patched_LoadLibrary_def patched_LoadLibraryEx_def r')
      (simp add: initial_video_dll_def)
qed


text \<open>
  The transactions of unloading: after hooks that were attached it detaches them, after a failed attachment its transaction is empty; but when the
  renderer was loaded before the library, no hook was attached, and unloading detaches both all the same.
\<close>

theorem video_unloading:
  assumes "st1 = snd (video_attach os modules result (initial_video_dll mem))"
  shows "vd_log (snd (video_detach os result' (game_loads os loads st1))) =
    (let hooks = [([(Attach_patch, Hook_LoadLibraryA), (Attach_patch, Hook_LoadLibraryExA)], result)];
         unhook = ([(Detach_patch, Hook_LoadLibraryExA), (Detach_patch, Hook_LoadLibraryA)], result')
     in if g_renderer (process_attach os modules (vd_patch (initial_video_dll mem))) \<noteq> 0 then [unhook]
        else if result = 0 then hooks @ [unhook] else hooks @ [([], result')])"
  using video_attach_log [OF assms] by (simp add: video_detach_eq loads_log Let_def)

theorem video_unloading_witness:
  "vd_log (snd (video_detach sample_windows 0 (game_loads sample_windows []
     (snd (video_attach sample_windows [0x100] 0 (initial_video_dll sample_memory)))))) =
   [([(Detach_patch, Hook_LoadLibraryExA), (Detach_patch, Hook_LoadLibraryA)], 0)]"
proof -
  have init: "vd_patch (initial_video_dll sample_memory) = sample_patch" by (simp add: initial_video_dll_def sample_patch_def)
  have r: "g_renderer (attach_renderer sample_windows 0x100 sample_patch) = 0x100"
    using attach_memory [of sample_patch sample_windows "0x100"] sample_attached by (simp add: sample_patch_def)
  from video_unloading [OF refl, where os = sample_windows and modules = "[0x100]" and result = 0 and mem = sample_memory
      and result' = 0 and loads = "[]"] show ?thesis
    by (simp add: process_attach_def init r Let_def)
qed

end
