(* ===== verification/Sqlite_Rows.thy ===== *)
theory Sqlite_Rows
  imports Sqlite_Wrapper Std_Map
begin

text \<open>
  The operations of the SQLite wrapper that the emulator's own databases do not use, and the opening of a database
  (\<open>emulator/sqlite.h\<close>, \<open>emulator/sqlite.cpp\<close>): \<open>exec\<close> with a handler for rows, the names of columns, the two
  constructors.  The further C functions are the record \<open>sqlite3_rows\<close>.  Shown: what the handler of \<open>exec\<close> is given.
\<close>

section \<open>The C library\<close>

text \<open>
  \<open>c_open_memory\<close> has the flag for a shared cache; \<open>c_exec_rows\<close> gives the rows of a statement, as columns with their names and
  values (\<open>None\<close>: NULL), the code with which it ends when nothing stops it, its error message and the database.
\<close>

record ('d, 's) sqlite3_rows = "('d, 's) sqlite3" +
  c_open_memory :: "string \<Rightarrow> bool \<Rightarrow> nat \<times> 'd"
  c_open_file :: "string \<Rightarrow> nat \<times> 'd"
  c_exec_rows :: "string \<Rightarrow> 'd \<Rightarrow> (string \<times> string option) list list \<times> nat \<times> string \<times> 'd"
  c_column_count :: "'s \<Rightarrow> nat"
  c_column_name :: "'s \<Rightarrow> nat \<Rightarrow> string"

abbreviation (input) "SQLITE_ABORT \<equiv> (4 :: nat)"

section \<open>Opening\<close>

definition db_open_memory :: "('d, 's) sqlite3_rows \<Rightarrow> string \<Rightarrow> bool \<Rightarrow> exn + 'd" where
  "db_open_memory api memoryName shared =
     (case c_open_memory api memoryName shared of
        (ec, d) \<Rightarrow> if ec \<noteq> SQLITE_OK then Inl (Sqlite_error (c_errmsg api d)) else Inr d)"

definition db_open_file :: "('d, 's) sqlite3_rows \<Rightarrow> string \<Rightarrow> exn + 'd" where
  "db_open_file api dbFile =
     (case c_open_file api dbFile of
        (ec, d) \<Rightarrow> if ec \<noteq> SQLITE_OK then Inl (Sqlite_error (c_errmsg api d)) else Inr d)"

section \<open>Rows\<close>

text \<open>
  \<open>executor_t::_exec\<close>: the first row fills the map by \<open>emplace\<close>, every later one assigns; a NULL has no
  \<open>std::string_view\<close>.
\<close>

definition put_column :: "bool \<Rightarrow> string \<times> string option \<Rightarrow> (string, string) std_map \<Rightarrow> exn + (string, string) std_map" where
  "put_column first = (\<lambda>(name, val) m. case val of
     None \<Rightarrow> Inl Undefined_behaviour
   | Some v \<Rightarrow> Inr (if first then smap_emplace name v m else smap_assign name v m))"

fun put_columns ::
  "bool \<Rightarrow> (string \<times> string option) list \<Rightarrow> (string, string) std_map \<Rightarrow> exn + (string, string) std_map"
where
  "put_columns first [] m = Inr m"
| "put_columns first (c # cs) m = and_then (put_column first c m) (put_columns first cs)"

definition exec_row ::
  "((string, string) std_map \<Rightarrow> 'h \<Rightarrow> bool \<times> 'h) \<Rightarrow> (string \<times> string option) list \<Rightarrow>
   (string, string) std_map \<times> 'h \<Rightarrow> exn + bool \<times> (string, string) std_map \<times> 'h"
where
  "exec_row handler columns = (\<lambda>(row, h).
     and_then (put_columns (row = []) columns row) (\<lambda>row.
       Inr (case handler row h of (stop, h) \<Rightarrow> (stop, row, h))))"

text \<open>\<open>sqlite3_exec\<close> calls back for every row until the handler answers \<open>true\<close>; the flag tells that it did.\<close>

fun exec_each ::
  "((string, string) std_map \<Rightarrow> 'h \<Rightarrow> bool \<times> 'h) \<Rightarrow> (string \<times> string option) list list \<Rightarrow>
   (string, string) std_map \<times> 'h \<Rightarrow> exn + bool \<times> 'h"
where
  "exec_each handler [] (row, h) = Inr (False, h)"
| "exec_each handler (columns # rows) (row, h) =
     and_then (exec_row handler columns (row, h)) (\<lambda>(stop, row, h).
       if stop then Inr (True, h) else exec_each handler rows (row, h))"

definition db_exec_rows ::
  "('d, 's) sqlite3_rows \<Rightarrow> string \<Rightarrow> ((string, string) std_map \<Rightarrow> 'h \<Rightarrow> bool \<times> 'h) \<Rightarrow> 'h \<Rightarrow> ('d, 'h) io"
where
  "db_exec_rows api sql handler h = (\<lambda>d.
     case c_exec_rows api sql d of
       (rows, code, msg, d) \<Rightarrow>
         (case exec_each handler rows ([], h) of
            Inl e \<Rightarrow> (Inl e, d)
          | Inr (stopped, h) \<Rightarrow>
              let ec = (if stopped then SQLITE_ABORT else code) in
              if ec \<noteq> SQLITE_OK \<and> ec \<noteq> SQLITE_ABORT then (Inl (Sqlite_error msg), d) else (Inr h, d)))"

definition stmt_columns :: "('d, 's) sqlite3_rows \<Rightarrow> 's \<Rightarrow> nat" where
  "stmt_columns api st = c_column_count api st mod 2 ^ 32"

definition stmt_column_name :: "('d, 's) sqlite3_rows \<Rightarrow> 's \<Rightarrow> nat \<Rightarrow> string" where
  "stmt_column_name api st pos = c_column_name api st pos"

section \<open>What the handler is given\<close>

text \<open>A result has the same columns in every row, with different names; its rows are then functions of the names.\<close>

definition row_map :: "(string \<times> string option) list \<Rightarrow> string \<Rightarrow> string option" where
  "row_map columns n = (case map_of columns n of Some (Some v) \<Rightarrow> Some v | _ \<Rightarrow> None)"

definition regular_rows :: "string list \<Rightarrow> (string \<times> string option) list list \<Rightarrow> bool" where
  "regular_rows names rows \<longleftrightarrow> distinct names \<and>
     (\<forall>columns \<in> set rows. map fst columns = names \<and> (\<forall>(n, v) \<in> set columns. v \<noteq> None))"

lemma put_columns_map:
  assumes "distinct (map fst columns)" and "\<forall>(n, v) \<in> set columns. v \<noteq> None" and "smap_ok m"
    and "first \<Longrightarrow> \<forall>n \<in> set (map fst columns). smap_find m n = None"
  shows "\<exists>m'. put_columns first columns m = Inr m' \<and> smap_ok m' \<and>
    (\<forall>n. smap_find m' n = (if n \<in> set (map fst columns) then row_map columns n else smap_find m n))"
  using assms
proof (induction columns arbitrary: m)
  case (Cons c columns)
  obtain n v where c: "c = (n, Some v)" using Cons.prems(2) by (cases c) auto
  define m1 where "m1 = (if first then smap_emplace n v m else smap_assign n v m)"
  have m1: "smap_ok m1" "\<And>k. smap_find m1 k = (if k = n then Some v else smap_find m k)"
    using Cons.prems(3,4) c by (auto simp: m1_def smap.invar_emplace smap.invar_assign smap.lookup_emplace smap.lookup_assign)
  have "\<exists>m'. put_columns first columns m1 = Inr m' \<and> smap_ok m' \<and>
    (\<forall>n. smap_find m' n = (if n \<in> set (map fst columns) then row_map columns n else smap_find m1 n))"
    by (rule Cons.IH) (use Cons.prems c m1 in auto)
  moreover have "put_columns first (c # columns) m = put_columns first columns m1"
    by (simp add: c put_column_def m1_def)
  ultimately show ?case using m1(2) Cons.prems(1) c by (auto simp: row_map_def)
qed simp

fun seen :: "((string \<Rightarrow> string option) \<Rightarrow> 'h \<Rightarrow> bool \<times> 'h) \<Rightarrow> (string \<times> string option) list list \<Rightarrow> 'h \<Rightarrow> bool \<times> 'h" where
  "seen handler [] h = (False, h)"
| "seen handler (columns # rows) h =
     (case handler (row_map columns) h of (stop, h) \<Rightarrow> if stop then (True, h) else seen handler rows h)"

lemma exec_each_seen:
  assumes "regular_rows names rows" and "smap_ok row" and "row = [] \<or> dom (smap_find row) = set names"
  shows "exec_each (\<lambda>m. handler (smap_find m)) rows (row, h) = Inr (seen handler rows h)"
  using assms
proof (induction rows arbitrary: row h)
  case (Cons columns rows)
  from Cons.prems(1) have c: "distinct (map fst columns)" "\<forall>(n, v) \<in> set columns. v \<noteq> None" "map fst columns = names"
    and rest: "regular_rows names rows" by (auto simp: regular_rows_def)
  have fresh: "row = [] \<Longrightarrow> \<forall>n \<in> set (map fst columns). smap_find row n = None" by simp
  from put_columns_map [OF c(1,2) Cons.prems(2) fresh] obtain row' where
    r: "put_columns (row = []) columns row = Inr row'" "smap_ok row'"
      "\<forall>n. smap_find row' n = (if n \<in> set names then row_map columns n else smap_find row n)" unfolding c(3) by blast
  have out: "smap_find row n = None \<and> row_map columns n = None" if "n \<notin> set names" for n
  proof -
    have "map_of columns n = None" using that c(3) by (metis list.set_map map_of_eq_None_iff)
    moreover have "smap_find row n = None" using Cons.prems(3) that by (auto simp: dom_def)
    ultimately show ?thesis by (simp add: row_map_def)
  qed
  with r(3) have find: "smap_find row' = row_map columns" by fastforce
  have inside: "n \<in> dom (row_map columns)" if "n \<in> set names" for n
  proof -
    from that c(3) obtain v where v: "map_of columns n = Some v" by (metis list.set_map map_of_eq_None_iff not_None_eq)
    with map_of_SomeD [OF v] c(2) show ?thesis by (auto simp: row_map_def)
  qed
  have "n \<in> dom (row_map columns) \<longleftrightarrow> n \<in> set names" for n
    using out [of n] inside [of n] by (cases "n \<in> set names") (simp_all add: domIff)
  then have "dom (smap_find row') = set names" unfolding find by (rule set_eqI)
  with Cons.IH [OF rest r(2)] have "exec_each (\<lambda>m. handler (smap_find m)) rows (row', h') = Inr (seen handler rows h')" for h'
    by simp
  then show ?case using r(1) by (simp add: exec_row_def find split: prod.splits)
qed simp

text \<open>
  For a result whose columns have different names and hold no NULL, \<open>exec\<close> gives the handler the rows one by one, each as the
  map from names to values and without anything left of the row before, until it answers \<open>true\<close>, which is no error.
\<close>

theorem exec_rows_handled:
  assumes "c_exec_rows api sql d = (rows, code, msg, d')" and "regular_rows names rows"
  shows "db_exec_rows api sql (\<lambda>m. handler (smap_find m)) h d =
    (if fst (seen handler rows h) \<or> code = SQLITE_OK \<or> code = SQLITE_ABORT
     then Inr (snd (seen handler rows h)) else Inl (Sqlite_error msg), d')"
  using exec_each_seen [OF assms(2), of "[]" handler h] assms(1)
  by (cases "seen handler rows h") (simp add: db_exec_rows_def Let_def)

end
