(* ===== verification/Accept_Loop.thy ===== *)
theory Accept_Loop
  imports Player_Service Browser_Client Admin_Server
begin

text \<open>
  The accept loops of the TCP servers (\<open>AcceptClients\<close> in \<open>emulator/ms.cpp\<close>, \<open>emulator/gpsp.cpp\<close>, \<open>emulator/stats.cpp\<close>,
  \<open>emulator/http.cpp\<close>, \<open>emulator/gpcm.cpp\<close> and \<open>emulator/admin.cpp\<close>), and \<open>HandleIncoming\<close>, which runs a connection.  What
  \<open>async_accept\<close> gives is a list of sockets or errors, a socket being what the model of the connection reads from it.
\<close>

section \<open>Accepting\<close>

text \<open>The connections that are spawned; \<open>None\<close> is an error, which ends the loop, as the end of the list does.\<close>

fun AcceptClients :: "'s option list \<Rightarrow> 's list" where
  "AcceptClients [] = []"
| "AcceptClients (None # accepts) = []"
| "AcceptClients (Some socket # accepts) = socket # AcceptClients accepts"

section \<open>Connections\<close>

definition new_search_client :: "'p \<Rightarrow> 'p search_client" where
  "new_search_client p = \<lparr>sc_DB = p, sc_sent = []\<rparr>"

definition search_HandleIncoming :: "'p search_env \<Rightarrow> string list \<Rightarrow> 'p \<Rightarrow> (exn + unit) \<times> 'p search_client" where
  "search_HandleIncoming env chunks p = try_log (search_Process env chunks) (new_search_client p)"

definition new_stats_client :: "'d game_db \<Rightarrow> 'p \<Rightarrow> ('d, 'p) stats_client" where
  "new_stats_client games p = \<lparr>st_GameDB = games, st_PlayerDB = p, st_ServerChallenge = [], st_SessionKey = 0,
     st_sent = [], st_uploads = []\<rparr>"

definition stats_HandleIncoming ::
  "'p stats_env \<Rightarrow> string list \<Rightarrow> 'd game_db \<Rightarrow> 'p \<Rightarrow> (exn + unit) \<times> ('d, 'p) stats_client"
where
  "stats_HandleIncoming env chunks games p = try_log (stats_Process env chunks) (new_stats_client games p)"

text \<open>The answer, \<open>None\<close> when there is none, is the last thing a connection does.\<close>

definition http_HandleIncoming ::
  "'p player_db \<Rightarrow> int \<Rightarrow> bool \<Rightarrow> http_request option \<Rightarrow> 'p \<Rightarrow> (exn + unit) \<times> 'p"
where
  "http_HandleIncoming db now picture request = try_log (bind_io (http_Run db now picture request) (\<lambda>_. ret ()))"

text \<open>
  \<open>BrowserClient::Process\<close>: the first packet, then what arrives first at each turn, a pushed message or a packet, with \<open>None\<close> for the end of
  the channel or of the stream.
\<close>

fun browser_loop :: "('d, 's) br_env \<Rightarrow> (bytes option + sb_packet option) list \<Rightarrow> ('d browser, unit) io" where
  "browser_loop env [] = ret ()"
| "browser_loop env (incoming # rest) =
     bind_io (gets br_open) (\<lambda>is_open.
     if \<not> is_open then ret ()
     else (case incoming of
         Inl None \<Rightarrow> ret ()
       | Inl (Some bs) \<Rightarrow> then_io (process_turn env (Inl bs)) (browser_loop env rest)
       | Inr None \<Rightarrow> ret ()
       | Inr (Some packet) \<Rightarrow> then_io (process_turn env (Inr packet)) (browser_loop env rest)))"

definition browser_Process ::
  "('d, 's) br_env \<Rightarrow> sb_packet option \<Rightarrow> (bytes option + sb_packet option) list \<Rightarrow> ('d browser, unit) io"
where
  "browser_Process env first rest =
     (case first of
        None \<Rightarrow> ret ()
      | Some packet \<Rightarrow>
          if sb_type packet \<noteq> server_list_req then ret ()
          else then_io (process_first env packet) (browser_loop env rest))"

definition new_browser :: "'d game_db \<Rightarrow> 'd browser" where
  "new_browser games = \<lparr>br_games = games, m_Cypher = None, m_Game = None, m_KeyList = [], br_subscribed = False,
     m_SignalChannel = [], br_sent = [], br_open = True\<rparr>"

definition browser_HandleIncoming ::
  "('d, 's) br_env \<Rightarrow> sb_packet option \<Rightarrow> (bytes option + sb_packet option) list \<Rightarrow> 'd game_db \<Rightarrow>
   (exn + unit) \<times> 'd browser"
where
  "browser_HandleIncoming env first rest games = try_log (browser_Process env first rest) (new_browser games)"

section \<open>The servers\<close>

text \<open>
  The coroutines that each server spawns, in the order of the connections: \<open>co_spawn(HandleIncoming(socket), detached)\<close>.  What a coroutine does to the
  databases that all of them share is its argument and result.
\<close>

definition browser_AcceptClients ::
  "('d, 's) br_env \<Rightarrow> (sb_packet option \<times> (bytes option + sb_packet option) list) option list \<Rightarrow>
   ('d game_db \<Rightarrow> (exn + unit) \<times> 'd browser) list"
where
  "browser_AcceptClients env accepts = map (\<lambda>(first, rest). browser_HandleIncoming env first rest) (AcceptClients accepts)"

definition login_AcceptClients :: "'p login_env \<Rightarrow> string list option list \<Rightarrow> ('p \<Rightarrow> (exn + unit) \<times> 'p login_client) list" where
  "login_AcceptClients env accepts = map (login_HandleIncoming env) (AcceptClients accepts)"

definition search_AcceptClients :: "'p search_env \<Rightarrow> string list option list \<Rightarrow> ('p \<Rightarrow> (exn + unit) \<times> 'p search_client) list" where
  "search_AcceptClients env accepts = map (search_HandleIncoming env) (AcceptClients accepts)"

definition stats_AcceptClients ::
  "'p stats_env \<Rightarrow> string list option list \<Rightarrow> ('d game_db \<Rightarrow> 'p \<Rightarrow> (exn + unit) \<times> ('d, 'p) stats_client) list"
where
  "stats_AcceptClients env accepts = map (stats_HandleIncoming env) (AcceptClients accepts)"

definition http_AcceptClients ::
  "'p player_db \<Rightarrow> (int \<times> bool \<times> http_request option) option list \<Rightarrow> ('p \<Rightarrow> (exn + unit) \<times> 'p) list"
where
  "http_AcceptClients db accepts = map (\<lambda>(now, picture, request). http_HandleIncoming db now picture request) (AcceptClients accepts)"

definition admin_AcceptClients ::
  "('d, 's) admin_env \<Rightarrow> admin_server \<Rightarrow> (admin_peer \<times> admin_request option) option list \<Rightarrow> ('d game_db, unit) io list"
where
  "admin_AcceptClients env server accepts = map (\<lambda>(peer, request). admin_HandleIncoming env server peer request) (AcceptClients accepts)"

section \<open>What a connection does to the others\<close>

lemma AcceptClients_prefix: "AcceptClients accepts = map the (takeWhile (\<lambda>a. a \<noteq> None) accepts)"
  by (induction accepts rule: AcceptClients.induct) auto

lemma try_log_caught: "fst (try_log m s) = Inl e \<Longrightarrow> uncatchable e"
  by (auto simp: try_log_def split: prod.splits sum.splits if_splits)

text \<open>No exception of a connection leaves its coroutine, which is detached: it would end the program.\<close>

lemma spawned_connections_contained:
  assumes "fst (task p) = Inl e"
    and "task \<in> set (map (\<lambda>c p. (fst (c p), ())) (login_AcceptClients lenv logins)) \<union>
      set (map (\<lambda>c p. (fst (c p), ())) (search_AcceptClients senv searches)) \<union>
      set (map (\<lambda>c p. (fst (c games p), ())) (stats_AcceptClients tenv uploads)) \<union>
      set (map (\<lambda>c p. (fst (c p), ())) (http_AcceptClients db pages)) \<union>
      set (map (\<lambda>c p. (fst (c games), ())) (browser_AcceptClients benv listings)) \<union>
      set (map (\<lambda>c p. (fst (c games), ())) (admin_AcceptClients aenv server requests))"
  shows "uncatchable e"
  using assms
  by (auto simp: login_AcceptClients_def search_AcceptClients_def stats_AcceptClients_def http_AcceptClients_def browser_AcceptClients_def
      admin_AcceptClients_def login_HandleIncoming_def browser_HandleIncoming_def admin_HandleIncoming_def search_HandleIncoming_def
      stats_HandleIncoming_def http_HandleIncoming_def dest: try_log_caught split: prod.splits)

end
