(* ===== verification/Spec2Isabelle.thy ===== *)
theory Spec2Isabelle
  imports Master_Server Browser_Client Login_Client Search_Client Stats_Client Cdkey_Server Web_Server Admin_Server
    Player_Service Listed_Servers Program_Start Redirect Game_Patches Video_Fallback Renderer_Image Video_Loading Sqlite_Rows
    Accept_Loop
begin

text \<open>
  \<^bold>\<open>A GameSpy emulator: model and properties\<close>

  The repository emulates the services of GameSpy for old multiplayer games: game servers announce themselves to a
  master server over UDP, players browse the announced servers over TCP, log in and search for accounts, upload statistics
  and check CD keys; an HTTP server answers the game's statistics pages, and an administration page
  shows and changes the server lists (\<open>src/emulator\<close>).  A library that is loaded into a game redirects
  its name lookups to the emulator (\<open>src/redirect\<close>), and three more patch Battlefield 2 (\<open>src/bf2-dlls\<close>).  This development translates
  the C++ code into HOL definitions with the names of the source, and proves what makes each part correct.

  \<^bold>\<open>Conventions\<close>

  Stateful code is a function from the state to a result and the new state (\<open>('s, 'a) io\<close> of \<open>Exn_State\<close>); a result is an exception
  or a value, and an exception does not undo what was done.  A coroutine is the sequence of what it does between two
  suspension points.  What a coroutine reads (datagrams, chunks of a stream, timers, requests) is an argument; what it sends
  is recorded in its state.  Integers of a fixed width are words; sizes and counters that cannot wrap are numbers.  Undefined behaviour, \<open>std::terminate\<close>
  and a loop that would not end are the results \<open>Undefined_behaviour\<close>, \<open>Terminate\<close> and \<open>No_return\<close>, which no handler of the source
  catches.  Third-party code (SQLite, boost's MySQL, HTTP, URL and JSON libraries, base64, Windows, Detours, the game itself) is a record of functions or an
  argument; where a property relies on its documented behaviour, this is a named hypothesis or a locale, and a witness
  interprets it on an executable instance.

  \<^bold>\<open>Libraries\<close>

  \<^item> \<open>Gs_Prelude\<close>: bytes, big-endian numbers, searching in lists, exceptions as sums.
  \<^item> \<open>Exn_State\<close>: the state-and-exception operations, with rules for invariants (\<open>preserves\<close>), for the absence of undefined
    behaviour (\<open>no_ub\<close>), for results (\<open>yields\<close>) and for pre- and postconditions (\<open>hoare\<close>).
  \<^item> \<open>Std_Map\<close>: \<open>std::map\<close> as an ordered list of bindings, the interpretation of the locale \<open>dictionary\<close>.
  \<^item> \<open>Text_Format\<close>, \<open>Text_Stream\<close>, \<open>Scan_Number\<close>: keys and numbers in GameSpy texts (\<open>utils.cpp\<close>), cutting a stream into packets
    (\<open>async_read_until\<close>), numbers as the C library reads them.

  \<^bold>\<open>The emulator, by theory\<close>

  \<^item> Ciphers and digests.  \<open>Sapphire_Cipher\<close> (\<open>sapphire.cpp\<close>): the cipher of server lists, key schedule included; decrypting undoes
    encrypting.  \<open>Md5_Digest\<close> (\<open>md5.h\<close>, \<open>md5.cpp\<close>): the buffered update computes the MD5 of the standard.  \<open>Crypt_Utils\<close> (\<open>utils.cpp\<close>):
    passwords and challenges; the codec of boost is the locale \<open>base64_codec\<close>.
  \<^item> Packets.  \<open>Qr_Packets\<close> (\<open>qr.cpp\<close>): datagrams of game servers; \<open>Sb_Request\<close> (\<open>sb_request.cpp\<close>): requests and answers of server browsing; each with
    a round trip with a writer of the format.
  \<^item> Games.  \<open>Sqlite_Wrapper\<close> and \<open>Sqlite_Rows\<close> (\<open>sqlite.h\<close>, \<open>sqlite.cpp\<close>): statements over the C API.  \<open>Game_Model\<close> (\<open>game.cpp\<close>): the key table
    and the SQL texts of a game; their invariant says that names from the network reach SQL only as checked column names or bound values.  \<open>Bf2_Game\<close> (\<open>bf2.cpp\<close>):
    the repair of queries and ranked servers.  \<open>Game_Db\<close> (\<open>gamedb.cpp\<close>): the directory, with the locale \<open>game_directory\<close>, on which the servers rest.
  \<^item> What the statements mean.  \<open>Sqlite_Answers\<close>: the rows a statement serves, and executable statements.  \<open>Server_Table\<close>: an abstract table of servers; the locale
    \<open>sqlite_servers\<close> says what SQLite does with the statements of \<open>game.cpp\<close>, and in it the operations of a game refine insertion, removal and
    selection.  \<open>Server_Library\<close>: a library that reads the texts of the statements back, the interpretation of that locale.
  \<^item> \<open>Master_Server\<close> (\<open>master.cpp\<close>): the state machine of validation over datagrams and clean-up passes; in every reachable state only end points that have proven
    themselves are validated.
  \<^item> \<open>Browser_Client\<close> (\<open>ms.client.cpp\<close>): a connection for server lists; a client that knows the key reads back the list.
  \<^item> \<open>Player_Db\<close> (\<open>playerdb.cpp\<close>, \<open>playerdb.sqlite.cpp\<close>, \<open>playerdb.mysql.cpp\<close>): the locale \<open>player_directory\<close> is the contract of a database of players; both classes
    satisfy it, over SQLite (locale \<open>sqlite_players\<close>) and over MySQL (locale \<open>mysql_directory\<close>), by what their statements mean.
  \<^item> \<open>Login_Client\<close> (\<open>gpcm.client.cpp\<close>), \<open>Search_Client\<close> (\<open>gpsp.client.cpp\<close>), \<open>Stats_Client\<close> (\<open>stats.client.cpp\<close>), \<open>Cdkey_Server\<close> (\<open>key.cpp\<close>),
    \<open>Web_Server\<close> (\<open>http.client.cpp\<close>, \<open>bf2web.cpp\<close>), \<open>Admin_Server\<close> (\<open>admin.cpp\<close>): the other servers, one function per handler; who is authenticated,
    what is answered on every branch, what a request can change.
  \<^item> \<open>Accept_Loop\<close> (\<open>ms.cpp\<close>, \<open>gpsp.cpp\<close>, \<open>stats.cpp\<close>, \<open>http.cpp\<close>, \<open>gpcm.cpp\<close>, \<open>admin.cpp\<close>): the accept loops and what a connection is run in.
  \<^item> \<open>Player_Service\<close>: the composition.  Connections to the login server, and requests to the search, statistics and web servers, interleaved in every order over one
    database: accounts are for ever and every session belongs to one.
  \<^item> \<open>Game_Service\<close>: the composition of the master server, the games and the browser connections over their tables: a game server that proves that it
    knows the key is listed to every client, with the address it sent from and the values it announced.
    \<open>Listed_Servers\<close>: over all runs of the master server, every row of every table belongs to an end point that has answered a challenge; which rows the
    clean-up drops.
  \<^item> \<open>Program_Start\<close> (\<open>emulator.cpp\<close>, \<open>main.cpp\<close>): the command line, which databases and servers it makes, their common run.

  \<^bold>\<open>The game's side\<close>

  \<^item> \<open>Redirect\<close> (\<open>redirect/main.cpp\<close>): the search for a master server, composed with \<open>Master_Server\<close>; the lookups; the libraries that are loaded;
    the texts of Windows errors; unloading.
  \<^item> \<open>Video_Fallback\<close> and \<open>Renderer_Image\<close> (\<open>bf2-dlls/client-video-fallback.cpp\<close>): the replacement of video options, with the termination of its
    loops; the search for the function to patch in the image of the renderer, and the patching and restoring of memory.
    \<open>Video_Loading\<close> (the same file): the hooks of \<open>LoadLibrary\<close> and the life of the library from loading to unloading.
  \<^item> \<open>Game_Patches\<close> (\<open>bf2-dlls/client-url-traversal.cpp\<close>, \<open>bf2-dlls/server-instant-start.cpp\<close>): refused downloads, loading and unloading.

  \<^bold>\<open>Loops and bounds\<close>

  Loops over data are recursions on it.  The loop over a list of the game's strings, which may miss its end, is a partial function that has no value
  when it does not arrive, and is shown to arrive on every list the patch accepts.  Reading rows until there are no more is \<open>No_return\<close> when that never happens.  The only
  fuel is the number of jumps that \<open>Image::resolve\<close> follows, which is the 4 of the source.  The limits of the source (buffers of 1400, 2048 and 8 bytes, 64
  bytes of a getter, a distance of 0x2000) are the numbers of the definitions.

  \<^bold>\<open>Not modelled\<close>

  \<^item> The bodies of third-party code, Windows and the runtime libraries included.
  \<^item> Time-outs, and the suspension of coroutines inside a handler: a handler is one step.  With SQLite its database operations do not suspend; with MySQL they do,
    so that \<open>Player_Service\<close> is about SQLite.
  \<^item> Object lifetime where no value depends on it: the string views that dangle after a vector has grown are recorded as findings.
  \<^item> \<open>column_double\<close>, \<open>stmt::columns\<close> and \<open>stmt::column_name\<close>, which nothing calls, destructors that only log, templates that only compute types, include lists, build files, and the static
    assertions that compare constants with headers that are not in the repository.
\<close>

end
